(* ===== verification/Prelude.thy ===== *)
theory Prelude
  imports Main "HOL-Library.Sublist"
begin

text \<open>
  What every component shares: the shape of a Go \<open>for index, x := range xs\<close> loop, 64-bit integer
  arithmetic with its wrap-around written out, first-position indexes (the \<open>map[string]int\<close> fields
  of a schema), and generic lemmas on lists and maps.
\<close>

named_theorems grows_intros \<open>introduction rules showing that a step only adds violations\<close>

named_theorems clean_simps \<open>what a step that added no violation has checked\<close>

section \<open>Range loops\<close>

text \<open>
  \<open>range_loop body i xs s\<close> runs the body of \<open>for index, x := range xs\<close> on every element, the index
  counted from \<open>i\<close>, with the mutated variables of the loop in the state \<open>s\<close>. A \<open>continue\<close> of the
  source is a branch of the body that returns the state early; loops that \<open>break\<close> or \<open>return\<close> are
  recursive functions of their own.
\<close>

primrec range_loop :: "(nat \<Rightarrow> 'a \<Rightarrow> 's \<Rightarrow> 's) \<Rightarrow> nat \<Rightarrow> 'a list \<Rightarrow> 's \<Rightarrow> 's" where
  "range_loop body i [] s = s"
| "range_loop body i (x # xs) s = range_loop body (Suc i) xs (body i x s)"

lemma range_loop_append:
  "range_loop body i (xs @ ys) s = range_loop body (i + length xs) ys (range_loop body i xs s)"
  by (induction xs arbitrary: i s) auto

lemma range_loop_invariant:
  assumes "P s" and "\<And>j x s. x \<in> set xs \<Longrightarrow> P s \<Longrightarrow> P (body j x s)"
  shows "P (range_loop body i xs s)"
  using assms by (induction xs arbitrary: i s) auto

lemma range_loop_indexed:
  assumes "P s" and "\<And>j x s. i \<le> j \<Longrightarrow> j < i + length xs \<Longrightarrow> P s \<Longrightarrow> P (body j x s)"
  shows "P (range_loop body i xs s)"
  using assms
proof (induction xs arbitrary: i s)
  case (Cons x xs)
  have "P (body i x s)" using Cons.prems by simp
  then have "P (range_loop body (Suc i) xs (body i x s))"
    using Cons.prems(2) by (intro Cons.IH) auto
  then show ?case by simp
qed simp

lemma dropWhile_shorter: "dropWhile P s = c # rest \<Longrightarrow> length rest < length s"
  by (metis Suc_le_lessD length_Cons length_dropWhile_le)

lemma range_loop_relation:
  assumes "\<And>s. R s s" and "\<And>s t u. R s t \<Longrightarrow> R t u \<Longrightarrow> R s u"
    and "\<And>j x s. R s (body j x s)"
  shows "R s (range_loop body i xs s)"
  using assms by (induction xs arbitrary: i s) (simp, metis range_loop.simps(2))

section \<open>Integers\<close>

text \<open>
  Go's \<open>int\<close> is modelled for the 64-bit platforms: a HOL \<open>int\<close> in the range of \<open>int64\<close>, where an
  addition or a subtraction that could leave the range wraps around.
\<close>

definition maxInt :: int where
  "maxInt = 2 ^ 63 - 1"

definition minInt :: int where
  "minInt = - (2 ^ 63)"

definition in_int64 :: "int \<Rightarrow> bool" where
  "in_int64 x \<longleftrightarrow> minInt \<le> x \<and> x \<le> maxInt"

definition wrap64 :: "int \<Rightarrow> int" where
  "wrap64 x = (x + 2 ^ 63) mod 2 ^ 64 - 2 ^ 63"

definition go_add :: "int \<Rightarrow> int \<Rightarrow> int" where
  "go_add a b = wrap64 (a + b)"

definition go_sub :: "int \<Rightarrow> int \<Rightarrow> int" where
  "go_sub a b = wrap64 (a - b)"

lemma wrap64_id: "in_int64 x \<Longrightarrow> wrap64 x = x"
  by (simp add: in_int64_def wrap64_def minInt_def maxInt_def)

lemma wrap64_range: "in_int64 (wrap64 x)"
proof -
  have "0 \<le> (x + 2 ^ 63) mod 2 ^ 64" and "(x + 2 ^ 63) mod 2 ^ 64 < (2 ^ 64 :: int)"
    by simp_all
  then show ?thesis by (simp add: in_int64_def wrap64_def minInt_def maxInt_def)
qed

lemma go_add_id: "in_int64 (a + b) \<Longrightarrow> go_add a b = a + b"
  by (simp add: go_add_def wrap64_id)

lemma go_sub_id: "in_int64 (a - b) \<Longrightarrow> go_sub a b = a - b"
  by (simp add: go_sub_def wrap64_id)

lemma go_sub_nonneg:
  "0 \<le> a \<Longrightarrow> a \<le> maxInt \<Longrightarrow> 0 \<le> b \<Longrightarrow> b \<le> maxInt \<Longrightarrow> go_sub a b = a - b"
  by (rule go_sub_id) (simp add: in_int64_def minInt_def maxInt_def)

section \<open>First positions\<close>

text \<open>
  The index a schema keeps for its declarations: \<open>idx n = Some i\<close> exactly when the declaration at
  position \<open>i\<close> has the name \<open>n\<close>; so no name is declared twice.
\<close>

definition indexes :: "('d \<Rightarrow> 'n) \<Rightarrow> 'd list \<Rightarrow> ('n \<rightharpoonup> nat) \<Rightarrow> bool" where
  "indexes name ds idx \<longleftrightarrow> (\<forall>n i. idx n = Some i \<longleftrightarrow> i < length ds \<and> name (ds ! i) = n)"

lemma indexes_dom: "indexes name ds idx \<Longrightarrow> dom idx = name ` set ds"
  by (force simp: indexes_def dom_def in_set_conv_nth image_iff)

lemma indexes_distinct: "indexes name ds idx \<Longrightarrow> distinct (map name ds)"
  unfolding indexes_def distinct_conv_nth by (simp, metis option.inject)

lemma indexes_Some:
  "indexes name ds idx \<Longrightarrow> idx n = Some i \<Longrightarrow> i < length ds \<and> name (ds ! i) = n \<and> ds ! i \<in> set ds"
  by (auto simp: indexes_def)

lemma indexes_nth: "indexes name ds idx \<Longrightarrow> i < length ds \<Longrightarrow> idx (name (ds ! i)) = Some i"
  by (auto simp: indexes_def)

lemma indexes_mem: "indexes name ds idx \<Longrightarrow> d \<in> set ds \<Longrightarrow> \<exists>i. idx (name d) = Some i \<and> ds ! i = d"
  by (metis in_set_conv_nth indexes_nth)

lemma indexes_unique: "indexes name ds idx \<Longrightarrow> indexes name ds idx' \<Longrightarrow> idx = idx'"
  unfolding indexes_def by (rule ext, metis option.exhaust)

lemma indexes_empty: "indexes name [] Map.empty"
  by (simp add: indexes_def)

lemma indexes_snoc:
  assumes "indexes name ds idx" and "name d \<notin> dom idx"
  shows "indexes name (ds @ [d]) (idx(name d \<mapsto> length ds))"
  unfolding indexes_def
proof (intro allI)
  fix n i
  from assms(2) indexes_dom [OF assms(1)] have "name d \<notin> name ` set ds" by simp
  then have "i < length ds \<Longrightarrow> name (ds ! i) \<noteq> name d" by (metis image_eqI nth_mem)
  moreover have "idx n = Some i \<longleftrightarrow> i < length ds \<and> name (ds ! i) = n"
    using assms(1) by (simp add: indexes_def)
  ultimately show "(idx(name d \<mapsto> length ds)) n = Some i \<longleftrightarrow>
      i < length (ds @ [d]) \<and> name ((ds @ [d]) ! i) = n"
    by (auto simp: nth_append less_Suc_eq)
qed

definition positions :: "('d \<Rightarrow> 'n) \<Rightarrow> 'd list \<Rightarrow> 'n \<rightharpoonup> nat" where
  "positions name ds = map_of (zip (map name ds) [0..<length ds])"

lemma positions_index:
  assumes "distinct (map name ds)"
  shows "indexes name ds (positions name ds)"
  unfolding indexes_def
proof (intro allI iffI)
  fix n i
  assume "positions name ds n = Some i"
  then have "(n, i) \<in> set (zip (map name ds) [0..<length ds])"
    by (simp add: positions_def map_of_SomeD)
  then show "i < length ds \<and> name (ds ! i) = n" by (auto simp: set_zip)
next
  fix n i
  assume "i < length ds \<and> name (ds ! i) = n"
  then show "positions name ds n = Some i"
    using map_of_zip_nth [of "map name ds" "[0..<length ds]" i] assms
    by (auto simp: positions_def)
qed

section \<open>Lists\<close>

text \<open>The elements of a list in order of their first occurrence, without those already seen.\<close>

fun fresh_of :: "'a set \<Rightarrow> 'a list \<Rightarrow> 'a list" where
  "fresh_of seen [] = []"
| "fresh_of seen (x # xs) =
     (if x \<in> seen then fresh_of seen xs else x # fresh_of (insert x seen) xs)"

lemma set_fresh_of: "set (fresh_of seen xs) = set xs - seen"
  by (induction seen xs rule: fresh_of.induct) auto

lemma distinct_fresh_of: "distinct (fresh_of seen xs)"
  by (induction seen xs rule: fresh_of.induct) (auto simp: set_fresh_of)

lemma fresh_of_append: "fresh_of seen (xs @ ys) = fresh_of seen xs @ fresh_of (seen \<union> set xs) ys"
  by (induction seen xs rule: fresh_of.induct) (auto simp: insert_absorb)

lemma fresh_of_distinct: "distinct xs \<Longrightarrow> set xs \<inter> seen = {} \<Longrightarrow> fresh_of seen xs = xs"
  by (induction seen xs rule: fresh_of.induct) auto

lemma sum_list_nonneg_int: "(\<And>x. x \<in> set xs \<Longrightarrow> 0 \<le> (x::int)) \<Longrightarrow> 0 \<le> sum_list xs"
  by (induction xs) auto

section \<open>Maps\<close>

lemma map_add_blocks:
  assumes "k \<notin> fst ` set xs" "k \<notin> fst ` set ys" "fst ` set xs \<inter> fst ` set ys = {}"
  shows "m(k \<mapsto> v) ++ map_of xs ++ map_of ys = m ++ map_of ((k, v) # xs @ ys)"
proof -
  have "map_of ys ++ map_of xs = map_of xs ++ map_of ys"
    using assms(3) by (intro map_add_comm) (simp add: dom_map_of_conv_image_fst Int_commute)
  moreover have "k \<notin> dom (map_of xs)" "k \<notin> dom (map_of ys)"
    using assms(1,2) by (simp_all add: dom_map_of_conv_image_fst)
  ultimately show ?thesis
    by (simp add: map_add_upd_left map_add_upd)
qed

end
