(* ===== verification/GoText.thy ===== *)
theory GoText
  imports Prelude
begin

text \<open>
  The parts of Go's standard library that the sources use on strings. A Go string is a sequence of
  bytes, so it is modelled as a \<open>string\<close> (a list of 8-bit \<open>char\<close>s); \<open>len\<close> is the length of the list.
  Here are \<open>utf8.DecodeRune\<close>, \<open>range\<close> over a string, \<open>utf8.ValidString\<close>, \<open>strings.Split\<close>,
  \<open>strings.Join\<close>, \<open>strings.ToUpper\<close> on ASCII text, \<open>fmt.Sprintf\<close> of \<open>%d\<close>, and \<open>strconv\<close>'s decimal
  conversions, each with the lemmas the components use.
\<close>

section \<open>UTF-8\<close>

definition byte :: "char \<Rightarrow> nat" where
  "byte c = of_char c"

lemma byte_less: "byte c < 256"
  unfolding byte_def by (metis of_char_of char_of_char mod_less_divisor zero_less_numeral)

lemma byte_eq_iff [simp]: "byte c = byte d \<longleftrightarrow> c = d"
  by (simp add: byte_def)

definition in_bytes :: "nat \<Rightarrow> nat \<Rightarrow> char \<Rightarrow> bool" where
  "in_bytes lo hi c \<longleftrightarrow> lo \<le> byte c \<and> byte c \<le> hi"

definition runeError :: nat where
  "runeError = 65533"

text \<open>
  \<open>decodeRune s\<close> is the first rune of \<open>s\<close> and its width in bytes; \<open>(runeError, 1)\<close> is an invalid
  encoding (overlong forms, surrogates and values above \<open>10FFFF\<close> included).
\<close>

fun decodeRune :: "string \<Rightarrow> nat \<times> nat" where
  "decodeRune [] = (runeError, 0)"
| "decodeRune (c0 # cs) =
     (let b0 = byte c0 in
      if b0 < 0x80 then (b0, 1)
      else if 0xC2 \<le> b0 \<and> b0 \<le> 0xDF then
        (case cs of
           c1 # _ \<Rightarrow>
             if in_bytes 0x80 0xBF c1
             then ((b0 - 0xC0) * 64 + (byte c1 - 0x80), 2) else (runeError, 1)
         | _ \<Rightarrow> (runeError, 1))
      else if 0xE0 \<le> b0 \<and> b0 \<le> 0xEF then
        (case cs of
           c1 # c2 # _ \<Rightarrow>
             if in_bytes (if b0 = 0xE0 then 0xA0 else 0x80) (if b0 = 0xED then 0x9F else 0xBF) c1
                \<and> in_bytes 0x80 0xBF c2
             then ((b0 - 0xE0) * 4096 + (byte c1 - 0x80) * 64 + (byte c2 - 0x80), 3)
             else (runeError, 1)
         | _ \<Rightarrow> (runeError, 1))
      else if 0xF0 \<le> b0 \<and> b0 \<le> 0xF4 then
        (case cs of
           c1 # c2 # c3 # _ \<Rightarrow>
             if in_bytes (if b0 = 0xF0 then 0x90 else 0x80) (if b0 = 0xF4 then 0x8F else 0xBF) c1
                \<and> in_bytes 0x80 0xBF c2 \<and> in_bytes 0x80 0xBF c3
             then ((b0 - 0xF0) * 262144 + (byte c1 - 0x80) * 4096 + (byte c2 - 0x80) * 64
                   + (byte c3 - 0x80), 4)
             else (runeError, 1)
         | _ \<Rightarrow> (runeError, 1))
      else (runeError, 1))"

declare decodeRune.simps(2) [simp del]

lemma decodeRune_ascii: "byte c < 128 \<Longrightarrow> decodeRune (c # cs) = (byte c, 1)"
  by (simp add: decodeRune.simps(2))

lemma decodeRune_high:
  assumes "\<not> byte c < 128" and "decodeRune (c # cs) = (r, w)"
  shows "128 \<le> r \<and> 1 \<le> w \<and> w \<le> length (c # cs) \<and> (\<forall>x \<in> set (take w (c # cs)). 128 \<le> byte x)"
  using assms unfolding decodeRune.simps(2) Let_def
  by (auto simp: in_bytes_def runeError_def split: if_splits list.splits)

lemma decodeRune_width: "decodeRune (c # cs) = (r, w) \<Longrightarrow> 1 \<le> w"
  by (cases "byte c < 128") (auto simp: decodeRune_ascii dest: decodeRune_high)

text \<open>\<open>range\<close> over a string: the byte index and the value of each rune.\<close>

function go_runes :: "nat \<Rightarrow> string \<Rightarrow> (nat \<times> nat) list" where
  "go_runes i [] = []"
| "go_runes i (c # cs) =
     (let (r, w) = decodeRune (c # cs) in (i, r) # go_runes (i + w) (drop w (c # cs)))"
  by pat_completeness auto
termination
  by (relation "measure (\<lambda>(i, s). length s)") (auto dest: decodeRune_width [OF sym])

declare go_runes.simps(2) [simp del]

text \<open>\<open>utf8.ValidString\<close>.\<close>

function valid_utf8 :: "string \<Rightarrow> bool" where
  "valid_utf8 [] = True"
| "valid_utf8 (c # cs) =
     (let (r, w) = decodeRune (c # cs) in
      \<not> (r = runeError \<and> w = 1) \<and> valid_utf8 (drop w (c # cs)))"
  by pat_completeness auto
termination
  by (relation "measure length") (auto dest: decodeRune_width [OF sym])

declare valid_utf8.simps(2) [simp del]

lemma go_runes_ascii_Cons:
  "byte c < 128 \<Longrightarrow> go_runes i (c # cs) = (i, byte c) # go_runes (Suc i) cs"
  by (simp add: go_runes.simps(2) decodeRune_ascii)

lemma valid_utf8_ascii_Cons: "byte c < 128 \<Longrightarrow> valid_utf8 (c # cs) = valid_utf8 cs"
  by (simp add: valid_utf8.simps(2) decodeRune_ascii runeError_def)

lemma valid_utf8_ascii: "\<forall>c \<in> set s. byte c < 128 \<Longrightarrow> valid_utf8 s"
  by (induction s) (auto simp: valid_utf8_ascii_Cons)

text \<open>
  A test that only ASCII runes pass can be made byte by byte: no byte of a multi-byte encoding, and
  no byte of an invalid one, is below \<open>128\<close>.
\<close>

lemma go_runes_all_ascii:
  assumes ascii: "\<And>i r. Q i r \<Longrightarrow> r < 128"
  shows "(\<forall>(i, r) \<in> set (go_runes k s). Q i r) \<longleftrightarrow> (\<forall>i < length s. Q (k + i) (byte (s ! i)))"
proof (induction k s rule: go_runes.induct)
  case (1 k)
  show ?case by simp
next
  case (2 k c cs)
  show ?case
  proof (cases "byte c < 128")
    case True
    then have "(\<forall>(i, r) \<in> set (go_runes (Suc k) cs). Q i r) \<longleftrightarrow>
        (\<forall>i < length cs. Q (Suc k + i) (byte (cs ! i)))"
      using 2 by (simp add: decodeRune_ascii)
    then show ?thesis
      using True by (auto simp: go_runes_ascii_Cons All_less_Suc2)
  next
    case False
    obtain r w where rw: "decodeRune (c # cs) = (r, w)" by fastforce
    from decodeRune_high [OF False rw] have "\<not> Q k r" and "\<not> Q k (byte c)"
      using ascii [of k] False by (meson leD)+
    then show ?thesis
      using rw by (force simp: go_runes.simps(2))
  qed
qed

text \<open>The positions of an ASCII rune are the positions of its byte.\<close>

lemma go_runes_select_ascii:
  assumes "b < 128"
  shows "map fst (filter (\<lambda>(i, r). r = b) (go_runes k s)) =
         map (\<lambda>i. k + i) (filter (\<lambda>i. byte (s ! i) = b) [0..<length s])"
proof (induction k s rule: go_runes.induct)
  case (1 k)
  show ?case by simp
next
  case (2 k c cs)
  obtain r w where rw: "decodeRune (c # cs) = (r, w)" by fastforce
  let ?s = "c # cs"
  have w: "1 \<le> w" "w \<le> length ?s" and low: "\<forall>i < w. byte (?s ! i) = b \<longrightarrow> i = 0 \<and> r = b"
    and r: "r = b \<longleftrightarrow> byte c = b"
  proof -
    show "1 \<le> w" using rw by (rule decodeRune_width)
    show "w \<le> length ?s"
      using rw decodeRune_high [OF _ rw] by (cases "byte c < 128") (auto simp: decodeRune_ascii)
    show "r = b \<longleftrightarrow> byte c = b"
      using rw decodeRune_high [OF _ rw] assms by (cases "byte c < 128") (auto simp: decodeRune_ascii)
    show "\<forall>i < w. byte (?s ! i) = b \<longrightarrow> i = 0 \<and> r = b"
    proof (cases "byte c < 128")
      case True
      then show ?thesis using rw by (auto simp: decodeRune_ascii)
    next
      case False
      then have "\<forall>i < w. 128 \<le> byte (?s ! i)"
        using decodeRune_high [OF False rw]
        by (metis in_set_conv_nth length_take min.absorb2 nth_take)
      then show ?thesis using assms by (auto simp: not_less [symmetric])
    qed
  qed
  have "[0..<length ?s] = [0..<w] @ [w..<length ?s]"
    using w(2) upt_add_eq_append [of 0 w "length ?s - w"] by simp
  then have "[0..<length ?s] = [0..<w] @ map (\<lambda>i. i + w) [0..<length ?s - w]"
    using w(2) by (simp only: map_add_upt le_add_diff_inverse2)
  moreover have "filter (\<lambda>i. byte (?s ! i) = b) [0..<w] = (if byte c = b then [0] else [])"
  proof -
    have "[0..<w] = 0 # [1..<w]" using w(1) by (simp add: upt_conv_Cons)
    moreover have "filter (\<lambda>i. byte (?s ! i) = b) [1..<w] = []"
      using low by (auto simp: filter_empty_conv)
    ultimately show ?thesis by simp
  qed
  moreover have "map fst (filter (\<lambda>(i, r). r = b) (go_runes (k + w) (drop w ?s))) =
      map (\<lambda>i. k + w + i) (filter (\<lambda>i. byte (drop w ?s ! i) = b) [0..<length ?s - w])"
    using 2 [OF rw [symmetric] refl] by simp
  moreover have "map (\<lambda>i. k + w + i) (filter (\<lambda>i. byte (drop w ?s ! i) = b) [0..<length ?s - w]) =
      map (\<lambda>i. k + i) (filter (\<lambda>i. byte (?s ! i) = b) (map (\<lambda>i. i + w) [0..<length ?s - w]))"
    using w(2) by (simp add: filter_map comp_def add_ac)
  ultimately show ?case
    using rw r by (simp add: go_runes.simps(2) [of k c cs])
qed

section \<open>Splitting and joining\<close>

text \<open>\<open>strings.Split\<close> with a one-byte separator and \<open>strings.Join\<close>.\<close>

fun split_on :: "char \<Rightarrow> string \<Rightarrow> string list" where
  "split_on sep [] = [[]]"
| "split_on sep (c # cs) =
     (if c = sep then [] # split_on sep cs
      else (case split_on sep cs of [] \<Rightarrow> [[c]] | p # ps \<Rightarrow> (c # p) # ps))"

fun join_with :: "'a list \<Rightarrow> 'a list list \<Rightarrow> 'a list" where
  "join_with sep [] = []"
| "join_with sep [p] = p"
| "join_with sep (p # q # ps) = p @ sep @ join_with sep (q # ps)"

lemma set_join_with: "set (join_with sep xs) \<subseteq> set sep \<union> \<Union> (set ` set xs)"
  by (induction sep xs rule: join_with.induct) auto

lemma split_on_nonempty [simp]: "split_on sep s \<noteq> []"
  by (induction s) (auto split: list.splits)

lemma split_on_parts: "p \<in> set (split_on sep s) \<Longrightarrow> sep \<notin> set p \<and> set p \<subseteq> set s"
proof (induction s arbitrary: p)
  case (Cons c cs)
  then show ?case
    by (cases "split_on sep cs") (fastforce split: if_splits)+
qed simp

lemma join_split: "join_with [sep] (split_on sep s) = s"
proof (induction s)
  case (Cons c cs)
  obtain p ps where "split_on sep cs = p # ps"
    by (meson split_on_nonempty neq_Nil_conv)
  with Cons show ?case by (cases ps) auto
qed simp

lemma split_on_no_sep: "sep \<notin> set p \<Longrightarrow> split_on sep p = [p]"
  by (induction p) auto

lemma split_on_append: "sep \<notin> set p \<Longrightarrow> split_on sep (p @ sep # s) = p # split_on sep s"
  by (induction p) auto

lemma split_join:
  "ps \<noteq> [] \<Longrightarrow> (\<And>p. p \<in> set ps \<Longrightarrow> sep \<notin> set p) \<Longrightarrow> split_on sep (join_with [sep] ps) = ps"
proof (induction "[sep]" ps rule: join_with.induct)
  case (2 p)
  then show ?case by (simp add: split_on_no_sep)
next
  case (3 p q ps)
  then show ?case by (simp add: split_on_append)
qed simp

lemma join_with_snoc:
  "ps \<noteq> [] \<Longrightarrow> join_with sep (ps @ [p]) = join_with sep ps @ sep @ p"
  by (induction sep ps rule: join_with.induct) auto

lemma length_split_on: "length (split_on sep s) = Suc (count_list s sep)"
proof (induction s)
  case (Cons c cs)
  then show ?case by (cases "split_on sep cs") auto
qed simp

section \<open>Decimal text\<close>

definition digit_char :: "nat \<Rightarrow> char" where
  "digit_char d = char_of (48 + d)"

definition is_digit_char :: "char \<Rightarrow> bool" where
  "is_digit_char c \<longleftrightarrow> in_bytes 48 57 c"

definition digit_value :: "char \<Rightarrow> nat" where
  "digit_value c = byte c - 48"

fun dec_nat :: "nat \<Rightarrow> string" where
  "dec_nat n = (if n < 10 then [digit_char n] else dec_nat (n div 10) @ [digit_char (n mod 10)])"

declare dec_nat.simps [simp del]

text \<open>\<open>strconv.FormatInt (x, 10)\<close>, which is also what \<open>%d\<close> prints.\<close>

definition formatInt :: "int \<Rightarrow> string" where
  "formatInt x = (if x < 0 then CHR ''-'' # dec_nat (nat (- x)) else dec_nat (nat x))"

text \<open>The digits of a decimal number, \<open>None\<close> when another byte occurs.\<close>

fun digits_value :: "nat \<Rightarrow> string \<Rightarrow> nat option" where
  "digits_value acc [] = Some acc"
| "digits_value acc (c # cs) =
     (if is_digit_char c then digits_value (acc * 10 + digit_value c) cs else None)"

text \<open>\<open>strconv.ParseUint (s, 10, bits)\<close>: \<open>None\<close> is a syntax or a range error.\<close>

definition parseUint :: "nat \<Rightarrow> string \<Rightarrow> nat option" where
  "parseUint bits s =
     (if s = [] then None
      else (case digits_value 0 s of
              None \<Rightarrow> None
            | Some n \<Rightarrow> if n < 2 ^ bits then Some n else None))"

text \<open>
  \<open>strconv.ParseInt (s, 10, bits)\<close>: one optional sign, then digits, then the range check. The digits
  are read as an unsigned number of 64 bits first, whatever \<open>bits\<close> is.
\<close>

definition parseInt :: "nat \<Rightarrow> string \<Rightarrow> int option" where
  "parseInt bits s =
     (case s of
        [] \<Rightarrow> None
      | c # cs \<Rightarrow>
          let neg = (c = CHR ''-'');
              digits = (if c = CHR ''+'' \<or> c = CHR ''-'' then cs else s) in
          (case parseUint 64 digits of
             None \<Rightarrow> None
           | Some un \<Rightarrow>
               if \<not> neg \<and> un \<ge> 2 ^ (bits - 1) then None
               else if neg \<and> un > 2 ^ (bits - 1) then None
               else Some (if neg then - int un else int un)))"

text \<open>\<open>strconv.Atoi\<close>: \<open>ParseInt\<close> at the width of \<open>int\<close>.\<close>

definition atoi :: "string \<Rightarrow> int option" where
  "atoi s = parseInt 64 s"

lemma byte_char_of: "n < 256 \<Longrightarrow> byte (char_of n) = n"
  by (simp add: byte_def)

lemma digit_char_digit: "d < 10 \<Longrightarrow> is_digit_char (digit_char d)"
  by (simp add: is_digit_char_def digit_char_def in_bytes_def byte_char_of)

lemma digit_value_char: "d < 10 \<Longrightarrow> digit_value (digit_char d) = d"
  by (simp add: digit_value_def digit_char_def byte_char_of)

lemma dec_nat_digits: "c \<in> set (dec_nat n) \<Longrightarrow> is_digit_char c"
proof (induction n rule: dec_nat.induct)
  case (1 n)
  then show ?case
    by (subst (asm) dec_nat.simps) (auto simp: digit_char_digit split: if_splits)
qed

lemma dec_nat_nonempty [simp]: "dec_nat n \<noteq> []"
  by (subst dec_nat.simps) simp

lemma digits_value_append:
  "digits_value acc (s @ t) = Option.bind (digits_value acc s) (\<lambda>m. digits_value m t)"
  by (induction acc s rule: digits_value.induct) auto

lemma digits_value_dec_nat: "digits_value 0 (dec_nat n) = Some n"
proof (induction n rule: dec_nat.induct)
  case (1 n)
  then show ?case
    by (subst dec_nat.simps)
      (auto simp: digits_value_append digit_char_digit digit_value_char)
qed

lemma dec_nat_inj: "dec_nat m = dec_nat n \<longleftrightarrow> m = n"
  by (metis digits_value_dec_nat option.inject)

lemma dec_nat_no_sign: "dec_nat n = c # cs \<Longrightarrow> c \<noteq> CHR ''+'' \<and> c \<noteq> CHR ''-''"
  using dec_nat_digits [of c n] by (auto simp: is_digit_char_def in_bytes_def byte_def)

lemma parseUint_dec_nat: "n < 2 ^ bits \<Longrightarrow> parseUint bits (dec_nat n) = Some n"
  by (simp add: parseUint_def digits_value_dec_nat)

lemma parseUint_range: "parseUint bits s = Some n \<Longrightarrow> n < 2 ^ bits"
  by (auto simp: parseUint_def split: if_splits option.splits)

lemma parseInt_formatInt:
  assumes "in_int64 x"
  shows "parseInt 64 (formatInt x) = Some x"
proof (cases "x < 0")
  case True
  with assms have "nat (- x) \<le> 2 ^ 63" and "nat (- x) < 2 ^ 64"
    by (auto simp: in_int64_def minInt_def nat_less_iff)
  with True show ?thesis
    by (simp add: formatInt_def parseInt_def parseUint_dec_nat not_less)
next
  case False
  with assms have range: "nat x < 2 ^ 63"
    by (simp add: in_int64_def maxInt_def nat_less_iff)
  obtain c cs where dec: "dec_nat (nat x) = c # cs"
    by (meson dec_nat_nonempty neq_Nil_conv)
  have "parseUint 64 (c # cs) = Some (nat x)"
    using parseUint_dec_nat [of "nat x" 64] range dec by simp
  with False dec dec_nat_no_sign [OF dec] range show ?thesis
    by (simp add: formatInt_def parseInt_def not_le)
qed

lemma parseInt_range: "parseInt 64 s = Some x \<Longrightarrow> in_int64 x"
  by (auto simp: parseInt_def in_int64_def minInt_def maxInt_def not_le not_less Let_def
      split: list.splits option.splits if_splits)

section \<open>Other string functions\<close>

text \<open>
  \<open>strings.ToUpper\<close> on ASCII text, where Go works byte by byte. The sources call it on the sort
  directions and null orders of a reviewed plan, which are ASCII.
\<close>

definition to_upper_ascii :: "string \<Rightarrow> string" where
  "to_upper_ascii = map (\<lambda>c. if in_bytes 97 122 c then char_of (byte c - 32) else c)"

end
