(* ===== verification/GoBase64.thy ===== *)
theory GoBase64
  imports GoText
begin

text \<open>
  \<open>base64.RawURLEncoding\<close> of Go's standard library: \<open>EncodeToString\<close> over the URL-safe alphabet
  without padding, and \<open>DecodeString\<close> as the library does it outside strict mode: carriage returns
  and line feeds are skipped wherever they stand, any other byte outside the alphabet is an error, a
  single left-over character is an error, and left-over bits are ignored.
\<close>

definition sextet_char :: "nat \<Rightarrow> char" where
  "sextet_char n =
     (if n < 26 then char_of (65 + n)
      else if n < 52 then char_of (71 + n)
      else if n < 62 then char_of (n - 4)
      else if n = 62 then CHR ''-''
      else CHR ''_'')"

definition char_sextet :: "char \<Rightarrow> nat option" where
  "char_sextet c =
     (let b = byte c in
      if 65 \<le> b \<and> b \<le> 90 then Some (b - 65)
      else if 97 \<le> b \<and> b \<le> 122 then Some (b - 71)
      else if 48 \<le> b \<and> b \<le> 57 then Some (b + 4)
      else if b = 45 then Some 62
      else if b = 95 then Some 63
      else None)"

fun encode_groups :: "nat list \<Rightarrow> nat list" where
  "encode_groups [] = []"
| "encode_groups [a] = [a div 4, (a mod 4) * 16]"
| "encode_groups [a, b] = [a div 4, (a mod 4) * 16 + b div 16, (b mod 16) * 4]"
| "encode_groups (a # b # c # r) =
     a div 4 # ((a mod 4) * 16 + b div 16) # ((b mod 16) * 4 + c div 64) # (c mod 64)
       # encode_groups r"

fun decode_groups :: "nat list \<Rightarrow> nat list option" where
  "decode_groups [] = Some []"
| "decode_groups [a] = None"
| "decode_groups [a, b] = Some [(a * 4 + b div 16) mod 256]"
| "decode_groups [a, b, c] =
     Some [(a * 4 + b div 16) mod 256, ((b mod 16) * 16 + c div 4) mod 256]"
| "decode_groups (a # b # c # d # r) =
     map_option
       (\<lambda>bs. (a * 4 + b div 16) mod 256 # ((b mod 16) * 16 + c div 4) mod 256
             # ((c mod 4) * 64 + d) mod 256 # bs)
       (decode_groups r)"

definition base64_encode :: "string \<Rightarrow> string" where
  "base64_encode bs = map sextet_char (encode_groups (map byte bs))"

definition base64_decode :: "string \<Rightarrow> string option" where
  "base64_decode s =
     Option.bind (those (map char_sextet (filter (\<lambda>c. byte c \<noteq> 10 \<and> byte c \<noteq> 13) s)))
       (\<lambda>vs. map_option (map char_of) (decode_groups vs))"

lemma sextet_char_byte:
  "n < 64 \<Longrightarrow> byte (sextet_char n) =
     (if n < 26 then 65 + n else if n < 52 then 71 + n else if n < 62 then n - 4
      else if n = 62 then 45 else 95)"
  by (simp add: sextet_char_def byte_char_of) (simp add: byte_def)

lemma char_sextet_char: "n < 64 \<Longrightarrow> char_sextet (sextet_char n) = Some n"
  by (auto simp: char_sextet_def sextet_char_byte Let_def)

lemma sextet_char_visible: "n < 64 \<Longrightarrow> byte (sextet_char n) \<noteq> 10 \<and> byte (sextet_char n) \<noteq> 13"
  by (auto simp: sextet_char_byte)

text \<open>Three bytes are four sextets, and back.\<close>

lemma sextets_less:
  fixes a b c :: nat
  assumes "a < 256" "b < 256" "c < 256"
  shows "a div 4 < 64" and "(a mod 4) * 16 < 64" and "(a mod 4) * 16 + b div 16 < 64"
    and "(b mod 16) * 4 < 64" and "(b mod 16) * 4 + c div 64 < 64" and "c mod 64 < 64"
proof -
  have "a mod 4 < 4" "b mod 16 < 16" "b div 16 < 16" "c div 64 < 4" using assms by auto
  then show "a div 4 < 64" "(a mod 4) * 16 < 64" "(a mod 4) * 16 + b div 16 < 64"
    "(b mod 16) * 4 < 64" "(b mod 16) * 4 + c div 64 < 64" "c mod 64 < 64"
    using assms by auto
qed

lemma sextets_rejoin:
  fixes a b c :: nat
  assumes "a < 256" "b < 256" "c < 256"
  shows "(a div 4 * 4 + (a mod 4 * 16 + b div 16) div 16) mod 256 = a"
    and "(a div 4 * 4 + a mod 4 * 16 div 16) mod 256 = a"
    and "((a mod 4 * 16 + b div 16) mod 16 * 16 + (b mod 16 * 4 + c div 64) div 4) mod 256 = b"
    and "((a mod 4 * 16 + b div 16) mod 16 * 16 + b mod 16 * 4 div 4) mod 256 = b"
    and "((b mod 16 * 4 + c div 64) mod 4 * 64 + c mod 64) mod 256 = c"
proof -
  have "(a mod 4 * 16 + b div 16) div 16 = a mod 4" "(a mod 4 * 16 + b div 16) mod 16 = b div 16"
    "(b mod 16 * 4 + c div 64) div 4 = b mod 16" "(b mod 16 * 4 + c div 64) mod 4 = c div 64"
    using assms by simp_all
  then show "(a div 4 * 4 + (a mod 4 * 16 + b div 16) div 16) mod 256 = a"
    "(a div 4 * 4 + a mod 4 * 16 div 16) mod 256 = a"
    "((a mod 4 * 16 + b div 16) mod 16 * 16 + (b mod 16 * 4 + c div 64) div 4) mod 256 = b"
    "((a mod 4 * 16 + b div 16) mod 16 * 16 + b mod 16 * 4 div 4) mod 256 = b"
    "((b mod 16 * 4 + c div 64) mod 4 * 64 + c mod 64) mod 256 = c"
    using assms by simp_all
qed

lemma encode_groups_less: "\<forall>b \<in> set bs. b < 256 \<Longrightarrow> \<forall>v \<in> set (encode_groups bs). v < 64"
proof (induction bs rule: encode_groups.induct)
  case (2 a)
  then show ?case using sextets_less [of a 0 0] by simp
next
  case (3 a b)
  then show ?case using sextets_less [of a b 0] by simp
next
  case (4 a b c r)
  then show ?case using sextets_less [of a b c] by simp
qed simp

lemma decode_encode_groups:
  "\<forall>b \<in> set bs. b < 256 \<Longrightarrow> decode_groups (encode_groups bs) = Some bs"
proof (induction bs rule: encode_groups.induct)
  case (2 a)
  then show ?case using sextets_rejoin [of a 0 0] by simp
next
  case (3 a b)
  then show ?case using sextets_rejoin [of a b 0] by simp
next
  case (4 a b c r)
  then show ?case using sextets_rejoin [of a b c] by simp
qed simp

lemma those_map_Some: "(\<forall>x \<in> set xs. f (g x) = Some x) \<Longrightarrow> those (map f (map g xs)) = Some xs"
  by (induction xs) auto

lemma char_of_byte [simp]: "char_of (byte c) = c"
  by (simp add: byte_def)

lemma base64_decode_encode: "base64_decode (base64_encode bs) = Some bs"
proof -
  let ?vs = "encode_groups (map byte bs)"
  have bytes: "\<forall>b \<in> set (map byte bs). b < 256" by (simp add: byte_less)
  have less: "\<forall>v \<in> set ?vs. v < 64" by (rule encode_groups_less [OF bytes])
  have "filter (\<lambda>c. byte c \<noteq> 10 \<and> byte c \<noteq> 13) (map sextet_char ?vs) = map sextet_char ?vs"
    using less sextet_char_visible by (auto intro!: filter_True)
  moreover have "those (map char_sextet (map sextet_char ?vs)) = Some ?vs"
    by (rule those_map_Some) (use less char_sextet_char in auto)
  ultimately show ?thesis
    by (simp add: base64_decode_def base64_encode_def decode_encode_groups [OF bytes] comp_def)
qed

lemma base64_encode_inj: "base64_encode a = base64_encode b \<longleftrightarrow> a = b"
  by (metis base64_decode_encode option.inject)

lemma base64_encode_alphabet:
  assumes "c \<in> set (base64_encode bs)"
  shows "char_sextet c \<noteq> None"
proof -
  have "\<forall>b \<in> set (map byte bs). b < 256" by (simp add: byte_less)
  with assms show ?thesis
    using encode_groups_less [OF \<open>\<forall>b \<in> set (map byte bs). b < 256\<close>] char_sextet_char
    by (auto simp: base64_encode_def)
qed

lemma base64_encode_no_dot: "CHR ''.'' \<notin> set (base64_encode bs)"
proof
  assume "CHR ''.'' \<in> set (base64_encode bs)"
  then have "char_sextet CHR ''.'' \<noteq> None" by (rule base64_encode_alphabet)
  then show False by (simp add: char_sextet_def byte_def)
qed

text \<open>The texts that decode to something they are the encoding of are exactly the encodings.\<close>

lemma base64_canonical_iff:
  "(\<exists>bs. base64_decode s = Some bs \<and> base64_encode bs = s) \<longleftrightarrow> s \<in> range base64_encode"
  by (metis base64_decode_encode rangeE rangeI)

lemma length_encode_groups: "length (encode_groups bs) = (4 * length bs + 2) div 3"
  by (induction bs rule: encode_groups.induct) auto

lemma length_base64_encode: "length (base64_encode bs) = (4 * length bs + 2) div 3"
  by (simp add: base64_encode_def length_encode_groups)

end
