(* ===== verification/ApiTypes.thy ===== *)
theory ApiTypes
  imports GoBase64
begin

text \<open>
  The data model of \<open>types.go\<close>: typed values with their constructors and the canonical-text test,
  optional request components, filter expressions, sort terms, page requests and requests. The named
  string types of the source (\<open>ValueType\<close>, \<open>Operator\<close>, \<open>Logic\<close>, \<open>Direction\<close>, \<open>NullOrder\<close>, \<open>PageMode\<close>,
  \<open>CursorDirection\<close>) are open in Go: a caller may pass any string. They are strings here too, with
  the source's constants as abbreviations.
\<close>

section \<open>Values\<close>

type_synonym ValueType = string

abbreviation TypeString :: ValueType where "TypeString \<equiv> ''string''"
abbreviation TypeInt :: ValueType where "TypeInt \<equiv> ''int''"
abbreviation TypeUint :: ValueType where "TypeUint \<equiv> ''uint''"
abbreviation TypeFloat :: ValueType where "TypeFloat \<equiv> ''float''"
abbreviation TypeBool :: ValueType where "TypeBool \<equiv> ''bool''"
abbreviation TypeTime :: ValueType where "TypeTime \<equiv> ''time''"
abbreviation TypeBytes :: ValueType where "TypeBytes \<equiv> ''bytes''"
abbreviation TypeNull :: ValueType where "TypeNull \<equiv> ''null''"

record Value =
  v_type :: ValueType
  v_text :: string

definition zeroValue :: Value where
  "zeroValue = \<lparr>v_type = [], v_text = []\<rparr>"

text \<open>
  Floating-point and calendar text are conversions of the standard library whose values the sources
  never look at; they are the arguments \<open>fl\<close> and \<open>tm\<close> of the definitions that use them.
\<close>

record 'f float_std =
  fl_parse :: "string \<Rightarrow> 'f option"    \<comment> \<open>\<open>strconv.ParseFloat (s, 64)\<close>\<close>
  fl_format :: "'f \<Rightarrow> string"          \<comment> \<open>\<open>strconv.FormatFloat (x, 'g', -1, 64)\<close>\<close>
  fl_isNaN :: "'f \<Rightarrow> bool"
  fl_isInf :: "'f \<Rightarrow> bool"

record 't time_std =
  tm_parse :: "string \<Rightarrow> 't option"    \<comment> \<open>\<open>time.Parse (time.RFC3339Nano, s)\<close>\<close>
  tm_format :: "'t \<Rightarrow> string"          \<comment> \<open>\<open>t.UTC().Format (time.RFC3339Nano)\<close>\<close>

definition StringValue :: "string \<Rightarrow> Value" where
  "StringValue value = \<lparr>v_type = TypeString, v_text = value\<rparr>"

definition IntValue :: "int \<Rightarrow> Value" where
  "IntValue value = \<lparr>v_type = TypeInt, v_text = formatInt value\<rparr>"

definition UintValue :: "nat \<Rightarrow> Value" where
  "UintValue value = \<lparr>v_type = TypeUint, v_text = dec_nat value\<rparr>"

definition FloatValue :: "'f float_std \<Rightarrow> 'f \<Rightarrow> Value" where
  "FloatValue fl value =
     (if fl_isNaN fl value \<or> fl_isInf fl value then zeroValue
      else \<lparr>v_type = TypeFloat, v_text = fl_format fl value\<rparr>)"

definition formatBool :: "bool \<Rightarrow> string" where
  "formatBool b = (if b then ''true'' else ''false'')"

definition BoolValue :: "bool \<Rightarrow> Value" where
  "BoolValue value = \<lparr>v_type = TypeBool, v_text = formatBool value\<rparr>"

definition TimeValue :: "'t time_std \<Rightarrow> 't \<Rightarrow> Value" where
  "TimeValue tm value = \<lparr>v_type = TypeTime, v_text = tm_format tm value\<rparr>"

definition BytesValue :: "string \<Rightarrow> Value" where
  "BytesValue value = \<lparr>v_type = TypeBytes, v_text = base64_encode value\<rparr>"

definition NullValue :: Value where
  "NullValue = \<lparr>v_type = TypeNull, v_text = []\<rparr>"

definition validType :: "ValueType \<Rightarrow> bool" where
  "validType value \<longleftrightarrow>
     value \<in> {TypeString, TypeInt, TypeUint, TypeFloat, TypeBool, TypeTime, TypeBytes}"

definition validValueType :: "ValueType \<Rightarrow> bool" where
  "validValueType valueType \<longleftrightarrow> validType valueType \<or> valueType = TypeNull"

text \<open>\<open>strconv.ParseBool\<close>.\<close>

definition parseBool :: "string \<Rightarrow> bool option" where
  "parseBool s =
     (if s \<in> {''1'', ''t'', ''T'', ''TRUE'', ''true'', ''True''} then Some True
      else if s \<in> {''0'', ''f'', ''F'', ''FALSE'', ''false'', ''False''} then Some False
      else None)"

definition canonicalValue ::
  "'f float_std \<Rightarrow> 't time_std \<Rightarrow> ValueType \<Rightarrow> string \<Rightarrow> bool" where
  "canonicalValue fl tm valueType value =
     (if valueType = TypeString then True
      else if valueType = TypeInt then
        (case parseInt 64 value of None \<Rightarrow> False | Some parsed \<Rightarrow> formatInt parsed = value)
      else if valueType = TypeUint then
        (case parseUint 64 value of None \<Rightarrow> False | Some parsed \<Rightarrow> dec_nat parsed = value)
      else if valueType = TypeFloat then
        (case fl_parse fl value of
           None \<Rightarrow> False
         | Some parsed \<Rightarrow>
             \<not> fl_isInf fl parsed \<and> \<not> fl_isNaN fl parsed \<and> fl_format fl parsed = value)
      else if valueType = TypeBool then
        (case parseBool value of None \<Rightarrow> False | Some parsed \<Rightarrow> formatBool parsed = value)
      else if valueType = TypeTime then
        (case tm_parse tm value of None \<Rightarrow> False | Some parsed \<Rightarrow> tm_format tm parsed = value)
      else if valueType = TypeBytes then
        (case base64_decode value of None \<Rightarrow> False | Some parsed \<Rightarrow> base64_encode parsed = value)
      else if valueType = TypeNull then value = []
      else False)"

section \<open>Optional components\<close>

text \<open>An \<open>Optional[T]\<close> is present with a value or absent.\<close>

type_synonym 'a Optional = "'a option"

abbreviation (input) Present :: "'a \<Rightarrow> 'a Optional" where "Present \<equiv> Some"

definition IsPresent :: "'a Optional \<Rightarrow> bool" where
  "IsPresent o' \<longleftrightarrow> o' \<noteq> None"

section \<open>Filters\<close>

type_synonym Operator = string

abbreviation OpEqual :: Operator where "OpEqual \<equiv> ''eq''"
abbreviation OpNotEqual :: Operator where "OpNotEqual \<equiv> ''neq''"
abbreviation OpLess :: Operator where "OpLess \<equiv> ''lt''"
abbreviation OpLessOrEqual :: Operator where "OpLessOrEqual \<equiv> ''lte''"
abbreviation OpGreater :: Operator where "OpGreater \<equiv> ''gt''"
abbreviation OpGreaterOrEqual :: Operator where "OpGreaterOrEqual \<equiv> ''gte''"
abbreviation OpIn :: Operator where "OpIn \<equiv> ''in''"
abbreviation OpNotIn :: Operator where "OpNotIn \<equiv> ''not_in''"
abbreviation OpBetween :: Operator where "OpBetween \<equiv> ''between''"
abbreviation OpIsNull :: Operator where "OpIsNull \<equiv> ''is_null''"
abbreviation OpContains :: Operator where "OpContains \<equiv> ''contains''"
abbreviation OpStartsWith :: Operator where "OpStartsWith \<equiv> ''starts_with''"
abbreviation OpEndsWith :: Operator where "OpEndsWith \<equiv> ''ends_with''"

type_synonym Logic = string

abbreviation LogicAnd :: Logic where "LogicAnd \<equiv> ''and''"
abbreviation LogicOr :: Logic where "LogicOr \<equiv> ''or''"
abbreviation LogicNot :: Logic where "LogicNot \<equiv> ''not''"

record Predicate =
  pr_Name :: string
  pr_Operator :: Operator
  pr_Values :: "Value list"

datatype FilterExpr = FilterExpr
  (fe_Predicate: "Predicate option")
  (fe_Logic: Logic)
  (fe_Children: "FilterExpr list")

section \<open>Sorts, pages and requests\<close>

type_synonym Direction = string

abbreviation Ascending :: Direction where "Ascending \<equiv> ''asc''"
abbreviation Descending :: Direction where "Descending \<equiv> ''desc''"

type_synonym NullOrder = string

abbreviation NullsFirst :: NullOrder where "NullsFirst \<equiv> ''first''"
abbreviation NullsLast :: NullOrder where "NullsLast \<equiv> ''last''"

record SortTerm =
  st_Name :: string
  st_Direction :: Direction
  st_Nulls :: NullOrder

type_synonym PageMode = string

abbreviation PageNone :: PageMode where "PageNone \<equiv> ''none''"
abbreviation PageCursor :: PageMode where "PageCursor \<equiv> ''cursor''"
abbreviation PageOffset :: PageMode where "PageOffset \<equiv> ''offset''"

type_synonym CursorDirection = string

abbreviation CursorForward :: CursorDirection where "CursorForward \<equiv> ''forward''"
abbreviation CursorBackward :: CursorDirection where "CursorBackward \<equiv> ''backward''"

record CursorState =
  cs_Direction :: CursorDirection
  cs_Positions :: "Value list"
  cs_Policy :: string

record PageRequest =
  pg_Mode :: PageMode
  pg_Size :: int
  pg_After :: string
  pg_Before :: string
  pg_Offset :: int

definition zeroPage :: PageRequest where
  "zeroPage = \<lparr>pg_Mode = [], pg_Size = 0, pg_After = [], pg_Before = [], pg_Offset = 0\<rparr>"

record Request =
  rq_SchemaRevision :: "string Optional"
  rq_Fields :: "string list Optional"
  rq_Includes :: "string list Optional"
  rq_Filter :: "FilterExpr option"
  rq_Sorts :: "SortTerm list Optional"
  rq_Page :: PageRequest

definition zeroRequest :: Request where
  "zeroRequest =
     \<lparr>rq_SchemaRevision = None, rq_Fields = None, rq_Includes = None, rq_Filter = None,
      rq_Sorts = None, rq_Page = zeroPage\<rparr>"

section \<open>Lemmas\<close>

lemma validType_not_null: "validType t \<Longrightarrow> t \<noteq> TypeNull \<and> t \<noteq> []"
  by (auto simp: validType_def)

lemma parseBool_canonical:
  "(\<exists>b. parseBool s = Some b \<and> formatBool b = s) \<longleftrightarrow> s = ''true'' \<or> s = ''false''"
proof
  assume "\<exists>b. parseBool s = Some b \<and> formatBool b = s"
  then show "s = ''true'' \<or> s = ''false''" by (auto simp: formatBool_def split: if_splits)
next
  have "parseBool ''true'' = Some True" and "parseBool ''false'' = Some False"
    by (simp_all add: parseBool_def)
  moreover assume "s = ''true'' \<or> s = ''false''"
  ultimately show "\<exists>b. parseBool s = Some b \<and> formatBool b = s"
    by (auto simp: formatBool_def)
qed

lemma canonical_int_iff:
  "canonicalValue fl tm TypeInt s \<longleftrightarrow> (\<exists>x. in_int64 x \<and> s = formatInt x)"
proof
  assume "canonicalValue fl tm TypeInt s"
  then obtain x where "parseInt 64 s = Some x" and "formatInt x = s"
    by (auto simp: canonicalValue_def split: option.splits)
  then show "\<exists>x. in_int64 x \<and> s = formatInt x" using parseInt_range by blast
next
  assume "\<exists>x. in_int64 x \<and> s = formatInt x"
  then obtain x where "in_int64 x" and s: "s = formatInt x" by blast
  then have "parseInt 64 s = Some x" using parseInt_formatInt by blast
  then show "canonicalValue fl tm TypeInt s" by (simp add: canonicalValue_def s)
qed

lemma canonical_uint_iff:
  "canonicalValue fl tm TypeUint s \<longleftrightarrow> (\<exists>x < 2 ^ 64. s = dec_nat x)"
proof
  assume "canonicalValue fl tm TypeUint s"
  then obtain x where "parseUint 64 s = Some x" and "dec_nat x = s"
    by (auto simp: canonicalValue_def split: option.splits)
  then show "\<exists>x < 2 ^ 64. s = dec_nat x" using parseUint_range by blast
next
  assume "\<exists>x < 2 ^ 64. s = dec_nat x"
  then obtain x :: nat where "x < 2 ^ 64" and s: "s = dec_nat x" by blast
  then have "parseUint 64 s = Some x" using parseUint_dec_nat by blast
  then show "canonicalValue fl tm TypeUint s" by (simp add: canonicalValue_def s)
qed

lemma canonical_bytes_iff:
  "canonicalValue fl tm TypeBytes s \<longleftrightarrow> s \<in> range base64_encode"
  by (auto simp: canonicalValue_def base64_decode_encode split: option.splits intro: sym)

lemma canonical_bool_iff: "canonicalValue fl tm TypeBool s \<longleftrightarrow> s = ''true'' \<or> s = ''false''"
  using parseBool_canonical [of s] by (auto simp: canonicalValue_def split: option.splits)

end
