(* ===== verification/ApiErrors.thy ===== *)
theory ApiErrors
  imports ApiTypes
begin

text \<open>
  \<open>errors.go\<close>: violations, the \<open>Violations\<close> error value and the bounded collector that validation and
  compilation fill. A collector only ever grows by \<open>add\<close>; \<open>grows\<close> is that relation, and the interface
  \<open>collecting\<close> is what every validation loop of the schema and of the compiler promises about it.
\<close>

section \<open>Violations and the collector\<close>

type_synonym ErrorCode = string

abbreviation CodeInvalidElement :: ErrorCode where "CodeInvalidElement \<equiv> ''invalid_element''"
abbreviation CodeUnsupported :: ErrorCode where "CodeUnsupported \<equiv> ''unsupported_operation''"
abbreviation CodeConflict :: ErrorCode where "CodeConflict \<equiv> ''conflict''"
abbreviation CodeAuthorization :: ErrorCode where "CodeAuthorization \<equiv> ''authorization_rejected''"
abbreviation CodeCostLimit :: ErrorCode where "CodeCostLimit \<equiv> ''cost_limit''"
abbreviation CodeCursorFailure :: ErrorCode where "CodeCursorFailure \<equiv> ''cursor_failure''"
abbreviation CodeVersionMismatch :: ErrorCode where "CodeVersionMismatch \<equiv> ''version_mismatch''"
abbreviation CodeLimitExceeded :: ErrorCode where "CodeLimitExceeded \<equiv> ''limit_exceeded''"

record Violation =
  vi_Code :: ErrorCode
  vi_Path :: string
  vi_Message :: string

text \<open>A \<open>*Violations\<close> is nil or points to a list of items; the library never stores an empty one.\<close>

type_synonym Violations = "Violation list"

definition Violations_Error :: "Violations option \<Rightarrow> string" where
  "Violations_Error v =
     (case v of
        None \<Rightarrow> ''query validation failed''
      | Some items \<Rightarrow>
          if items = [] then ''query validation failed''
          else join_with ''; '' (map (\<lambda>item. vi_Path item @ '': '' @ vi_Message item) items))"

definition Violations_Items :: "Violations option \<Rightarrow> Violation list" where
  "Violations_Items v = (case v of None \<Rightarrow> [] | Some items \<Rightarrow> items)"

record violationCollector =
  vc_limit :: int
  vc_items :: "Violation list"

definition vc_new :: "int \<Rightarrow> violationCollector" where
  "vc_new limit = \<lparr>vc_limit = limit, vc_items = []\<rparr>"

definition vc_add ::
  "ErrorCode \<Rightarrow> string \<Rightarrow> string \<Rightarrow> violationCollector \<Rightarrow> violationCollector" where
  "vc_add code path message c =
     (if vc_limit c > 0 \<and> int (length (vc_items c)) \<ge> vc_limit c then c
      else c\<lparr>vc_items := vc_items c @ [\<lparr>vi_Code = code, vi_Path = path, vi_Message = message\<rparr>]\<rparr>)"

definition vc_err :: "violationCollector \<Rightarrow> Violations option" where
  "vc_err c = (if vc_items c = [] then None else Some (vc_items c))"

section \<open>Growth\<close>

text \<open>\<open>grows c c'\<close>: \<open>c'\<close> is \<open>c\<close> after some calls of \<open>add\<close>. A collector is clean when it is empty.\<close>

inductive grows :: "violationCollector \<Rightarrow> violationCollector \<Rightarrow> bool" where
  grows_refl [grows_intros]: "grows c c"
| grows_add [grows_intros]: "grows c c' \<Longrightarrow> grows c (vc_add code path message c')"

declare grows_refl [simp]

abbreviation clean :: "violationCollector \<Rightarrow> bool" where
  "clean c \<equiv> vc_items c = []"

lemma grows_trans: "grows b c \<Longrightarrow> grows a b \<Longrightarrow> grows a c"
  by (induction rule: grows.induct) (auto intro: grows_intros)

lemma vc_add_not_clean [simp]: "\<not> clean (vc_add code path message c)"
  by (auto simp: vc_add_def)

lemma vc_add_limit [simp]: "vc_limit (vc_add code path message c) = vc_limit c"
  by (simp add: vc_add_def)

lemma clean_vc_new [simp]: "clean (vc_new limit)" "vc_limit (vc_new limit) = limit"
  by (simp_all add: vc_new_def)

lemma vc_err_None [simp]: "vc_err c = None \<longleftrightarrow> clean c"
  by (simp add: vc_err_def)

lemma vc_err_Some: "vc_err c = Some items \<longleftrightarrow> \<not> clean c \<and> items = vc_items c"
  by (auto simp: vc_err_def)

lemma grows_limit: "grows c c' \<Longrightarrow> vc_limit c' = vc_limit c"
  by (induction rule: grows.induct) auto

lemma grows_prefix: "grows c c' \<Longrightarrow> prefix (vc_items c) (vc_items c')"
  by (induction rule: grows.induct) (auto simp: vc_add_def)

lemma grows_clean: "grows c c' \<Longrightarrow> clean c' \<Longrightarrow> clean c"
  by (induction rule: grows.induct) auto

lemma grows_bounded:
  "grows c c' \<Longrightarrow> 0 < vc_limit c \<Longrightarrow> int (length (vc_items c)) \<le> vc_limit c \<Longrightarrow>
   int (length (vc_items c')) \<le> vc_limit c"
  by (induction rule: grows.induct) (auto simp: vc_add_def grows_limit)

lemma grows_clean_eq: "grows c c' \<Longrightarrow> clean c' \<Longrightarrow> c' = c"
  by (induction rule: grows.induct) auto

lemma grows_if [grows_intros]:
  "(b \<Longrightarrow> grows c x) \<Longrightarrow> (\<not> b \<Longrightarrow> grows c y) \<Longrightarrow> grows c (if b then x else y)"
  by simp

lemma clean_if [simp]:
  "clean (if b then vc_add code path message c else c') \<longleftrightarrow> \<not> b \<and> clean c'"
  "clean (if b then c' else vc_add code path message c) \<longleftrightarrow> b \<and> clean c'"
  by simp_all

text \<open>
  The interface of a loop body that collects violations: \<open>col\<close> reads the collector of the loop's
  state, and no step takes a violation away.
\<close>

locale collecting =
  fixes col :: "'s \<Rightarrow> violationCollector"
    and body :: "nat \<Rightarrow> 'a \<Rightarrow> 's \<Rightarrow> 's"
  assumes body_grows: "grows (col s) (col (body i x s))"
begin

lemma loop_grows: "grows (col s) (col (range_loop body i xs s))"
proof (induction xs arbitrary: i s)
  case (Cons x xs)
  have "grows (col (body i x s)) (col (range_loop body (Suc i) xs (body i x s)))"
    by (rule Cons.IH)
  then show ?case using body_grows grows_trans by fastforce
qed simp

lemma loop_clean: "clean (col (range_loop body i xs s)) \<Longrightarrow> clean (col s)"
  by (rule grows_clean [OF loop_grows])

lemma loop_clean_Cons:
  "clean (col (range_loop body i (x # xs) s)) \<Longrightarrow> clean (col (body i x s))"
  using loop_clean [of "Suc i" xs "body i x s"] by simp

text \<open>
  A clean run of the loop is a clean run of every step: what the steps establish and keep, under the
  knowledge that they reported nothing, holds at the end.
\<close>

lemma loop_clean_induct:
  assumes "clean (col (range_loop body i xs s))" and "P s"
    and "\<And>j x s. x \<in> set xs \<Longrightarrow> P s \<Longrightarrow> clean (col (body j x s)) \<Longrightarrow> P (body j x s)"
  shows "P (range_loop body i xs s)"
  using assms
proof (induction xs arbitrary: i s)
  case (Cons x xs)
  then show ?case
    using loop_clean_Cons [OF Cons.prems(1)] by simp
qed simp

end

section \<open>Errors as text\<close>

text \<open>The summary text is stable and never empty.\<close>

lemma Violations_Error_nonempty: "Violations_Error v \<noteq> []"
proof (cases v)
  case (Some items)
  show ?thesis
  proof (cases items)
    case Nil
    with Some show ?thesis by (simp add: Violations_Error_def)
  next
    case (Cons a more)
    with Some show ?thesis by (cases more) (simp_all add: Violations_Error_def)
  qed
qed (simp add: Violations_Error_def)

end
