(* ===== verification/ApiSchema.thy ===== *)
theory ApiSchema
  imports ApiErrors
begin

text \<open>
  \<open>schema.go\<close>: the declarations of a schema, their validation by \<open>NewSchema\<close>, and the immutable
  \<open>Schema\<close> it returns. The loops keep the source's order of checks; the maps a schema builds
  (\<open>fieldIndex\<close>, \<open>filterIndex\<close>, \<open>sortIndex\<close>, \<open>relationIndex\<close>) are HOL maps, the set of allowed logical
  operations is a set.
\<close>

section \<open>Declarations\<close>

record Bounds =
  b_MaxRequestBytes :: int
  b_MaxFields :: int
  b_MaxIncludes :: int
  b_MaxIncludeDepth :: int
  b_MaxFilterDepth :: int
  b_MaxFilterNodes :: int
  b_MaxValues :: int
  b_MaxMembership :: int
  b_MaxStringBytes :: int
  b_MaxSorts :: int
  b_MaxPageSize :: int
  b_MaxCursorBytes :: int
  b_MaxCanonicalBytes :: int
  b_MaxErrors :: int
  b_MaxCost :: int

record FieldDefinition =
  fd_Name :: string
  fd_Type :: ValueType
  fd_Default :: bool
  fd_Required :: bool
  fd_Deprecated :: bool
  fd_Cost :: int

record FilterDefinition =
  fl_Name :: string
  fl_Type :: ValueType
  fl_Operators :: "Operator list"
  fl_Protected :: bool
  fl_Deprecated :: bool
  fl_Nullable :: bool
  fl_AllowEmpty :: bool
  fl_Cost :: int

record PaginationDefinition =
  pd_Cursor :: bool
  pd_Offset :: bool
  pd_DefaultPageSize :: int
  pd_MaxOffset :: int

record SortDefinition =
  sd_Name :: string
  sd_Type :: ValueType
  sd_TieBreaker :: bool
  sd_Nulls :: NullOrder
  sd_Cost :: int

datatype RelationshipDefinition = RelationshipDefinition
  (rd_Name: string)
  (rd_Resource: string)
  (rd_Cost: int)
  (rd_Relationships: "RelationshipDefinition list")

record SchemaConfig =
  cf_Resource :: string
  cf_Revision :: string
  cf_Fields :: "FieldDefinition list"
  cf_Filters :: "FilterDefinition list"
  cf_Sorts :: "SortDefinition list"
  cf_Relationships :: "RelationshipDefinition list"
  cf_DefaultSort :: "SortTerm list"
  cf_AllowedLogic :: "Logic list"
  cf_Pagination :: PaginationDefinition
  cf_Bounds :: Bounds

record relationshipNode =
  rn_definition :: RelationshipDefinition
  rn_depth :: nat

record Schema =
  sc_resource :: string
  sc_revision :: string
  sc_fields :: "FieldDefinition list"
  sc_fieldIndex :: "string \<rightharpoonup> nat"
  sc_filters :: "FilterDefinition list"
  sc_filterIndex :: "string \<rightharpoonup> nat"
  sc_sorts :: "SortDefinition list"
  sc_sortIndex :: "string \<rightharpoonup> nat"
  sc_relationships :: "RelationshipDefinition list"
  sc_relationIndex :: "string \<rightharpoonup> relationshipNode"
  sc_defaultSort :: "SortTerm list"
  sc_allowedLogic :: "Logic set"
  sc_bounds :: Bounds
  sc_pagination :: PaginationDefinition

section \<open>Bounds\<close>

definition boundValues :: "Bounds \<Rightarrow> int list" where
  "boundValues b =
     [b_MaxRequestBytes b, b_MaxFields b, b_MaxIncludes b, b_MaxIncludeDepth b,
      b_MaxFilterDepth b, b_MaxFilterNodes b, b_MaxValues b, b_MaxMembership b,
      b_MaxStringBytes b, b_MaxSorts b, b_MaxPageSize b, b_MaxCursorBytes b,
      b_MaxCanonicalBytes b, b_MaxErrors b, b_MaxCost b]"

definition fallback :: "int \<Rightarrow> int \<Rightarrow> int" where
  "fallback value def = (if value \<le> 0 then def else value)"

definition normalizedBounds :: "Bounds \<Rightarrow> Bounds" where
  "normalizedBounds b =
     \<lparr>b_MaxRequestBytes = fallback (b_MaxRequestBytes b) (16 * 1024),
      b_MaxFields = fallback (b_MaxFields b) 64,
      b_MaxIncludes = fallback (b_MaxIncludes b) 16,
      b_MaxIncludeDepth = fallback (b_MaxIncludeDepth b) 4,
      b_MaxFilterDepth = fallback (b_MaxFilterDepth b) 8,
      b_MaxFilterNodes = fallback (b_MaxFilterNodes b) 128,
      b_MaxValues = fallback (b_MaxValues b) 256,
      b_MaxMembership = fallback (b_MaxMembership b) 100,
      b_MaxStringBytes = fallback (b_MaxStringBytes b) 4096,
      b_MaxSorts = fallback (b_MaxSorts b) 8,
      b_MaxPageSize = fallback (b_MaxPageSize b) 100,
      b_MaxCursorBytes = fallback (b_MaxCursorBytes b) 4096,
      b_MaxCanonicalBytes = fallback (b_MaxCanonicalBytes b) (64 * 1024),
      b_MaxErrors = fallback (b_MaxErrors b) 16,
      b_MaxCost = fallback (b_MaxCost b) 1000\<rparr>"

text \<open>\<open>fmt.Sprintf ("%s[%d]", prefix, index)\<close>.\<close>

definition indexed_path :: "string \<Rightarrow> nat \<Rightarrow> string" where
  "indexed_path path index = path @ ''['' @ dec_nat index @ '']''"

definition validateBound :: "nat \<Rightarrow> int \<Rightarrow> violationCollector \<Rightarrow> violationCollector" where
  "validateBound index value collector =
     (if value < 0 then
        vc_add CodeInvalidElement (indexed_path ''schema.bounds'' index)
          ''bound must not be negative'' collector
      else collector)"

definition validateDeclaredBounds :: "Bounds \<Rightarrow> violationCollector \<Rightarrow> violationCollector" where
  "validateDeclaredBounds bounds collector =
     range_loop validateBound 0 (boundValues bounds) collector"

section \<open>Names\<close>

definition validName :: "string \<Rightarrow> bool" where
  "validName value \<longleftrightarrow>
     value \<noteq> [] \<and> valid_utf8 value \<and>
     (\<forall>(index, rune) \<in> set (go_runes 0 value).
        \<not> ((rune < 97 \<or> rune > 122) \<and> (index = 0 \<or> rune < 48 \<or> rune > 57) \<and>
           (index = 0 \<or> rune \<noteq> 95)))"

definition relationshipDepth :: "string \<Rightarrow> nat" where
  "relationshipDepth path = 1 + length (filter (\<lambda>(index, rune). rune = 46) (go_runes 0 path))"

fun cloneRelationship :: "RelationshipDefinition \<Rightarrow> RelationshipDefinition" where
  "cloneRelationship (RelationshipDefinition name resource cost relationships) =
     RelationshipDefinition name resource cost (map cloneRelationship relationships)"

definition cloneFilters :: "FilterDefinition list \<Rightarrow> FilterDefinition list" where
  "cloneFilters filters = map (\<lambda>f. f\<lparr>fl_Operators := fl_Operators f @ []\<rparr>) filters"

section \<open>Validation of the declarations\<close>

definition operatorSupportsType :: "Operator \<Rightarrow> ValueType \<Rightarrow> bool \<Rightarrow> bool" where
  "operatorSupportsType operator valueType nullable \<longleftrightarrow>
     (if operator \<in> {OpEqual, OpNotEqual, OpIn, OpNotIn} then True
      else if operator \<in> {OpLess, OpLessOrEqual, OpGreater, OpGreaterOrEqual, OpBetween}
      then valueType \<noteq> TypeBool \<and> valueType \<noteq> TypeBytes
      else if operator = OpIsNull then nullable
      else if operator \<in> {OpContains, OpStartsWith, OpEndsWith} then valueType = TypeString
      else False)"

definition validateField ::
  "int \<Rightarrow> nat \<Rightarrow> FieldDefinition \<Rightarrow> (string \<rightharpoonup> nat) \<times> violationCollector \<Rightarrow>
   (string \<rightharpoonup> nat) \<times> violationCollector" where
  "validateField maxCost index field = (\<lambda>(fieldIndex, collector).
     let path = indexed_path ''schema.fields'' index;
         collector =
           (if \<not> validName (fd_Name field) \<or> \<not> validType (fd_Type field)
            then vc_add CodeInvalidElement path ''field name and type must be valid'' collector
            else collector);
         collector =
           (if fd_Cost field < 0 \<or> fd_Cost field > maxCost
            then vc_add CodeInvalidElement path ''field cost is outside its bounds'' collector
            else collector)
     in if fieldIndex (fd_Name field) \<noteq> None
        then (fieldIndex, vc_add CodeConflict path ''field is duplicated'' collector)
        else (fieldIndex(fd_Name field \<mapsto> index), collector))"

definition validateOperator ::
  "string \<Rightarrow> FilterDefinition \<Rightarrow> nat \<Rightarrow> Operator \<Rightarrow> Operator set \<times> violationCollector \<Rightarrow>
   Operator set \<times> violationCollector" where
  "validateOperator path filter' index operator = (\<lambda>(seenOperators, collector).
     let collector =
           (if operator \<in> seenOperators
            then vc_add CodeConflict path ''filter operator is duplicated'' collector
            else collector);
         seenOperators = insert operator seenOperators;
         collector =
           (if \<not> operatorSupportsType operator (fl_Type filter') (fl_Nullable filter')
            then vc_add CodeUnsupported path ''filter operator does not support its type'' collector
            else collector)
     in (seenOperators, collector))"

definition validateFilter ::
  "int \<Rightarrow> nat \<Rightarrow> FilterDefinition \<Rightarrow> (string \<rightharpoonup> nat) \<times> violationCollector \<Rightarrow>
   (string \<rightharpoonup> nat) \<times> violationCollector" where
  "validateFilter maxCost index filter' = (\<lambda>(filterIndex, collector).
     let path = indexed_path ''schema.filters'' index;
         collector =
           (if \<not> validName (fl_Name filter') \<or> \<not> validType (fl_Type filter')
               \<or> length (fl_Operators filter') = 0
            then vc_add CodeInvalidElement path ''filter declaration is invalid'' collector
            else collector);
         collector =
           (if fl_Cost filter' < 0 \<or> fl_Cost filter' > maxCost
            then vc_add CodeInvalidElement path ''filter cost is outside its bounds'' collector
            else collector);
         collector =
           snd (range_loop (validateOperator path filter') 0 (fl_Operators filter') ({}, collector))
     in if filterIndex (fl_Name filter') \<noteq> None
        then (filterIndex, vc_add CodeConflict path ''filter is duplicated'' collector)
        else (filterIndex(fl_Name filter' \<mapsto> index), collector))"

definition validateSort ::
  "int \<Rightarrow> nat \<Rightarrow> SortDefinition \<Rightarrow> (string \<rightharpoonup> nat) \<times> violationCollector \<Rightarrow>
   (string \<rightharpoonup> nat) \<times> violationCollector" where
  "validateSort maxCost index sort' = (\<lambda>(sortIndex, collector).
     let path = indexed_path ''schema.sorts'' index;
         collector =
           (if \<not> validName (sd_Name sort') \<or> \<not> validType (sd_Type sort')
            then vc_add CodeInvalidElement path ''sort declaration is invalid'' collector
            else collector);
         collector =
           (if sd_Nulls sort' \<noteq> [] \<and> sd_Nulls sort' \<noteq> NullsFirst \<and> sd_Nulls sort' \<noteq> NullsLast
            then vc_add CodeInvalidElement path ''sort null ordering is invalid'' collector
            else collector);
         collector =
           (if sd_Cost sort' < 0 \<or> sd_Cost sort' > maxCost
            then vc_add CodeInvalidElement path ''sort cost is outside its bounds'' collector
            else collector)
     in if sortIndex (sd_Name sort') \<noteq> None
        then (sortIndex, vc_add CodeConflict path ''sort is duplicated'' collector)
        else (sortIndex(sd_Name sort' \<mapsto> index), collector))"

definition childName :: "string \<Rightarrow> string \<Rightarrow> string" where
  "childName parent name = (if parent \<noteq> [] then parent @ ''.'' @ name else name)"

text \<open>One declared edge, before the descent into its own relationships.\<close>

definition indexRelationship ::
  "int \<Rightarrow> string \<Rightarrow> string \<Rightarrow> RelationshipDefinition \<Rightarrow>
   (string \<rightharpoonup> relationshipNode) \<times> violationCollector \<Rightarrow>
   (string \<rightharpoonup> relationshipNode) \<times> violationCollector" where
  "indexRelationship maxCost path fullName relation = (\<lambda>(relationIndex, collector).
     let collector =
           (if \<not> validName (rd_Name relation) \<or> \<not> validName (rd_Resource relation)
            then vc_add CodeInvalidElement path ''relationship declaration is invalid'' collector
            else collector);
         collector =
           (if rd_Cost relation < 0 \<or> rd_Cost relation > maxCost
            then vc_add CodeInvalidElement path ''relationship cost is outside its bounds'' collector
            else collector)
     in if relationIndex fullName \<noteq> None
        then (relationIndex, vc_add CodeConflict path ''relationship is duplicated'' collector)
        else (relationIndex(fullName \<mapsto>
                \<lparr>rn_definition = cloneRelationship relation,
                 rn_depth = relationshipDepth fullName\<rparr>), collector))"

fun indexRelationships ::
  "int \<Rightarrow> nat \<Rightarrow> RelationshipDefinition list \<Rightarrow> string \<Rightarrow> string \<Rightarrow> string set \<Rightarrow>
   (string \<rightharpoonup> relationshipNode) \<times> violationCollector \<Rightarrow>
   (string \<rightharpoonup> relationshipNode) \<times> violationCollector" where
  "indexRelationships maxCost index [] parent schemaPath ancestors s = s"
| "indexRelationships maxCost index
     (RelationshipDefinition name resource cost relationships # rest)
     parent schemaPath ancestors s =
     (let relation = RelationshipDefinition name resource cost relationships;
          path = indexed_path schemaPath index;
          fullName = childName parent name;
          s1 = indexRelationship maxCost path fullName relation s;
          s2 =
            (if resource \<in> ancestors
             then (fst s1, vc_add CodeConflict path ''relationship creates a resource cycle'' (snd s1))
             else indexRelationships maxCost 0 relationships fullName (path @ ''.relationships'')
                    (insert resource ancestors) s1)
      in indexRelationships maxCost (Suc index) rest parent schemaPath ancestors s2)"

definition validateDefinitions :: "Schema \<times> violationCollector \<Rightarrow> Schema \<times> violationCollector" where
  "validateDefinitions = (\<lambda>(schema, collector).
     let maxCost = b_MaxCost (sc_bounds schema);
         (fieldIndex, collector) =
           range_loop (validateField maxCost) 0 (sc_fields schema) (sc_fieldIndex schema, collector);
         (filterIndex, collector) =
           range_loop (validateFilter maxCost) 0 (sc_filters schema)
             (sc_filterIndex schema, collector);
         (sortIndex, collector) =
           range_loop (validateSort maxCost) 0 (sc_sorts schema) (sc_sortIndex schema, collector);
         (relationIndex, collector) =
           indexRelationships maxCost 0 (sc_relationships schema) [] ''schema.relationships''
             {sc_resource schema} (sc_relationIndex schema, collector)
     in (schema\<lparr>sc_fieldIndex := fieldIndex, sc_filterIndex := filterIndex,
           sc_sortIndex := sortIndex, sc_relationIndex := relationIndex\<rparr>, collector))"

text \<open>One term of the default sort; the state is the names seen, whether a tie-breaker occurred, and
  the collector.\<close>

definition validateDefaultTerm ::
  "Schema \<Rightarrow> nat \<Rightarrow> SortTerm \<Rightarrow> string set \<times> bool \<times> violationCollector \<Rightarrow>
   string set \<times> bool \<times> violationCollector" where
  "validateDefaultTerm schema index term' = (\<lambda>(seen, defaultHasTieBreaker, collector).
     let path = indexed_path ''schema.default_sort'' index;
         definition' = map_option (\<lambda>i. sc_sorts schema ! i) (sc_sortIndex schema (st_Name term'));
         collector =
           (if definition' = None \<or>
               (st_Direction term' \<noteq> Ascending \<and> st_Direction term' \<noteq> Descending)
            then vc_add CodeInvalidElement path ''default sort is invalid'' collector
            else collector);
         collector =
           (if st_Nulls term' \<noteq> [] \<and> st_Nulls term' \<noteq> NullsFirst \<and> st_Nulls term' \<noteq> NullsLast
            then vc_add CodeInvalidElement path ''default sort null ordering is invalid'' collector
            else (case definition' of
                    None \<Rightarrow> collector
                  | Some d \<Rightarrow>
                      if st_Nulls term' \<noteq> [] \<and> st_Nulls term' \<noteq> sd_Nulls d
                      then vc_add CodeUnsupported path
                             ''default sort null ordering is not available'' collector
                      else collector));
         collector =
           (if st_Name term' \<in> seen
            then vc_add CodeConflict path ''default sort is duplicated'' collector
            else collector);
         defaultHasTieBreaker =
           (case definition' of
              None \<Rightarrow> defaultHasTieBreaker
            | Some d \<Rightarrow> if sd_TieBreaker d then True else defaultHasTieBreaker)
     in (insert (st_Name term') seen, defaultHasTieBreaker, collector))"

definition validatePagination :: "Schema \<Rightarrow> violationCollector \<Rightarrow> violationCollector" where
  "validatePagination schema collector =
     (let bounds = sc_bounds schema;
          pagination = sc_pagination schema;
          collector =
            (if int (length (sc_defaultSort schema)) > b_MaxSorts bounds
             then vc_add CodeInvalidElement ''schema.default_sort''
                    ''default sort exceeds the sort limit'' collector
             else collector);
          collector =
            (if pd_Cursor pagination \<or> pd_Offset pagination then
               let collector =
                     (if pd_DefaultPageSize pagination \<le> 0 \<or>
                         pd_DefaultPageSize pagination > b_MaxPageSize bounds
                      then vc_add CodeInvalidElement ''schema.pagination''
                             ''default page size is outside its bounds'' collector
                      else collector);
                   collector =
                     (if pd_Offset pagination \<and> pd_MaxOffset pagination < 0
                      then vc_add CodeInvalidElement ''schema.pagination''
                             ''maximum offset is outside its bounds'' collector
                      else collector)
               in (if pd_Cursor pagination \<and>
                      length (filter sd_TieBreaker (sc_sorts schema)) \<noteq> 1
                   then vc_add CodeConflict ''schema.pagination''
                          ''cursor pagination requires one tie-breaker'' collector
                   else collector)
             else collector);
          (seen, defaultHasTieBreaker, collector) =
            range_loop (validateDefaultTerm schema) 0 (sc_defaultSort schema)
              ({}, False, collector)
      in if pd_Cursor pagination \<and> int (length (sc_defaultSort schema)) \<ge> b_MaxSorts bounds
            \<and> \<not> defaultHasTieBreaker
         then vc_add CodeConflict ''schema.default_sort''
                ''default cursor sort leaves no room for its tie-breaker'' collector
         else collector)"

section \<open>NewSchema\<close>

definition validateLogic ::
  "nat \<Rightarrow> Logic \<Rightarrow> Logic set \<times> violationCollector \<Rightarrow> Logic set \<times> violationCollector" where
  "validateLogic index logic = (\<lambda>(allowed, collector).
     let path = indexed_path ''schema.allowed_logic'' index in
     if logic \<noteq> LogicAnd \<and> logic \<noteq> LogicOr \<and> logic \<noteq> LogicNot
     then (allowed, vc_add CodeInvalidElement path ''logical operation is invalid'' collector)
     else if logic \<in> allowed
     then (allowed, vc_add CodeConflict path ''logical operation is duplicated'' collector)
     else (insert logic allowed, collector))"

definition initialSchema :: "SchemaConfig \<Rightarrow> Schema" where
  "initialSchema config =
     \<lparr>sc_resource = cf_Resource config, sc_revision = cf_Revision config,
      sc_fields = cf_Fields config, sc_fieldIndex = Map.empty,
      sc_filters = cloneFilters (cf_Filters config), sc_filterIndex = Map.empty,
      sc_sorts = cf_Sorts config, sc_sortIndex = Map.empty,
      sc_relationships = cf_Relationships config, sc_relationIndex = Map.empty,
      sc_defaultSort = cf_DefaultSort config, sc_allowedLogic = {},
      sc_bounds = normalizedBounds (cf_Bounds config), sc_pagination = cf_Pagination config\<rparr>"

definition defaultedLogic :: "SchemaConfig \<Rightarrow> Logic list" where
  "defaultedLogic config =
     (if length (cf_AllowedLogic config) = 0 then [LogicAnd] else cf_AllowedLogic config)"

definition validateHeader :: "SchemaConfig \<Rightarrow> violationCollector \<Rightarrow> violationCollector" where
  "validateHeader config collector =
     (let collector = validateDeclaredBounds (cf_Bounds config) collector;
          collector =
            (if \<not> validName (cf_Resource config)
             then vc_add CodeInvalidElement ''schema.resource''
                    ''resource must be valid and non-empty'' collector
             else collector)
      in if cf_Revision config = [] \<or> \<not> valid_utf8 (cf_Revision config)
         then vc_add CodeInvalidElement ''schema.revision''
                ''revision must be valid and non-empty'' collector
         else collector)"

definition NewSchema :: "SchemaConfig \<Rightarrow> Violations + Schema" where
  "NewSchema config =
     (let collector = vc_new (b_MaxErrors (normalizedBounds (cf_Bounds config)));
          collector = validateHeader config collector;
          (allowedLogic, collector) =
            range_loop validateLogic 0 (defaultedLogic config) ({}, collector);
          (schema, collector) =
            validateDefinitions ((initialSchema config)\<lparr>sc_allowedLogic := allowedLogic\<rparr>, collector);
          collector = validatePagination schema collector
      in (case vc_err collector of Some err \<Rightarrow> Inl err | None \<Rightarrow> Inr schema))"

end
