(* ===== verification/SchemaNames.thy ===== *)
theory SchemaNames
  imports ApiSchema
begin

text \<open>
  Capability names and dotted relationship paths: the rune loops of \<open>validName\<close>,
  \<open>relationshipDepth\<close> and \<open>relationshipPrefixes\<close> characterised byte by byte.
\<close>

section \<open>Names\<close>

definition name_char :: "char \<Rightarrow> bool" where
  "name_char c \<longleftrightarrow> in_bytes 97 122 c \<or> in_bytes 48 57 c \<or> byte c = 95"

lemma name_char_ascii: "name_char c \<Longrightarrow> byte c < 128"
  by (auto simp: name_char_def in_bytes_def)

lemma validName_iff [code]:
  "validName s \<longleftrightarrow> s \<noteq> [] \<and> in_bytes 97 122 (hd s) \<and> (\<forall>c \<in> set s. name_char c)"
proof -
  define Q where "Q i r \<longleftrightarrow>
    \<not> ((r < 97 \<or> r > 122) \<and> (i = 0 \<or> r < 48 \<or> r > 57) \<and> (i = 0 \<or> r \<noteq> 95))" for i r :: nat
  have "Q i r \<Longrightarrow> r < 128" for i r by (auto simp: Q_def)
  then have "(\<forall>(i, r) \<in> set (go_runes 0 s). Q i r) \<longleftrightarrow> (\<forall>i < length s. Q i (byte (s ! i)))"
    using go_runes_all_ascii [of Q 0 s] by auto
  then have valid: "validName s \<longleftrightarrow> s \<noteq> [] \<and> valid_utf8 s \<and> (\<forall>i < length s. Q i (byte (s ! i)))"
    by (simp add: validName_def Q_def)
  have Q: "Q i (byte c) \<longleftrightarrow> (if i = 0 then in_bytes 97 122 c else name_char c)" for i c
    by (auto simp: Q_def name_char_def in_bytes_def)
  show ?thesis
  proof (cases s)
    case (Cons c cs)
    have all: "(\<forall>i < length s. Q i (byte (s ! i))) \<longleftrightarrow>
        in_bytes 97 122 c \<and> (\<forall>x \<in> set cs. name_char x)"
      by (simp add: Cons Q All_less_Suc2 all_set_conv_all_nth)
    have "in_bytes 97 122 c \<Longrightarrow> name_char c" by (simp add: name_char_def)
    moreover have "\<forall>x \<in> set s. name_char x \<Longrightarrow> valid_utf8 s"
      using name_char_ascii by (blast intro: valid_utf8_ascii)
    moreover have "set s = insert c (set cs)" "hd s = c" "s \<noteq> []" by (simp_all add: Cons)
    ultimately show ?thesis unfolding valid all by auto
  qed (simp add: validName_def)
qed

lemma validName_no_dot: "validName s \<Longrightarrow> CHR ''.'' \<notin> set s"
  by (auto simp: validName_iff name_char_def in_bytes_def byte_def)

lemma validName_no_nul: "validName s \<Longrightarrow> CHR 0x00 \<notin> set s"
  by (auto simp: validName_iff name_char_def in_bytes_def byte_def)

lemma validName_nonempty: "validName s \<Longrightarrow> s \<noteq> []"
  by (simp add: validName_iff)

section \<open>Dotted paths\<close>

lemma byte_dot: "byte c = 46 \<longleftrightarrow> c = CHR ''.''"
  using byte_eq_iff [of c "CHR ''.''"] by (simp add: byte_def)

lemma relationshipDepth_count: "relationshipDepth path = Suc (count_list path CHR ''.'')"
proof -
  have "length (filter (\<lambda>(i, r). r = 46) (go_runes 0 path)) =
      length (filter (\<lambda>i. byte (path ! i) = 46) [0..<length path])"
    using arg_cong [OF go_runes_select_ascii [of 46 0 path], of length] by simp
  also have "\<dots> = length (filter (\<lambda>c. c = CHR ''.'') path)"
    using arg_cong [OF filter_map [of "\<lambda>c. c = CHR ''.''" "(!) path" "[0..<length path]"], of length]
    by (simp add: map_nth byte_dot comp_def)
  also have "\<dots> = count_list path CHR ''.''"
    by (induction path) auto
  finally show ?thesis by (simp add: relationshipDepth_def)
qed

text \<open>\<open>relationshipPrefixes\<close> of \<open>compile.go\<close>: every proper dotted prefix of a path, then the path.\<close>

definition relationshipPrefixes :: "string \<Rightarrow> string list" where
  "relationshipPrefixes path =
     map (\<lambda>(index, rune). take index path)
       (filter (\<lambda>(index, rune). rune = 46) (go_runes 0 path)) @ [path]"

lemma relationshipPrefixes_bytes:
  "relationshipPrefixes path =
     map (\<lambda>i. take i path) (filter (\<lambda>i. path ! i = CHR ''.'') [0..<length path]) @ [path]"
proof -
  have "map (\<lambda>(i, r). take i path) (filter (\<lambda>(i, r). r = 46) (go_runes 0 path)) =
      map (\<lambda>i. take i path) (map fst (filter (\<lambda>(i, r). r = 46) (go_runes 0 path)))"
    by (simp add: case_prod_beta' comp_def)
  also have "\<dots> = map (\<lambda>i. take i path) (filter (\<lambda>i. path ! i = CHR ''.'') [0..<length path])"
    by (simp add: go_runes_select_ascii byte_dot)
  finally show ?thesis by (simp add: relationshipPrefixes_def)
qed

lemma relationshipPrefixes_plain: "CHR ''.'' \<notin> set name \<Longrightarrow> relationshipPrefixes name = [name]"
  by (auto simp: relationshipPrefixes_bytes filter_empty_conv in_set_conv_nth)

lemma relationshipPrefixes_child:
  assumes "CHR ''.'' \<notin> set name"
  shows "relationshipPrefixes (parent @ CHR ''.'' # name) =
    relationshipPrefixes parent @ [parent @ CHR ''.'' # name]"
proof -
  let ?s = "parent @ CHR ''.'' # name" and ?n = "length parent"
  have "[0..<length ?s] = [0..<?n] @ ?n # [Suc ?n..<length ?s]"
    using upt_add_eq_append [of 0 ?n "Suc (length name)"] upt_conv_Cons [of ?n "length ?s"] by simp
  moreover have "filter (\<lambda>i. ?s ! i = CHR ''.'') [Suc ?n..<length ?s] = []"
    using assms by (auto simp: filter_empty_conv nth_append nth_Cons' in_set_conv_nth)
  moreover have "filter (\<lambda>i. ?s ! i = CHR ''.'') [0..<?n] =
      filter (\<lambda>i. parent ! i = CHR ''.'') [0..<?n]"
    by (rule filter_cong) (auto simp: nth_append)
  moreover have "map (\<lambda>i. take i ?s) (filter (\<lambda>i. parent ! i = CHR ''.'') [0..<?n]) =
      map (\<lambda>i. take i parent) (filter (\<lambda>i. parent ! i = CHR ''.'') [0..<?n])"
    by (rule map_cong) auto
  ultimately show ?thesis
    by (simp add: relationshipPrefixes_bytes nth_append)
qed

lemma length_relationshipPrefixes: "length (relationshipPrefixes path) = relationshipDepth path"
  by (simp add: relationshipPrefixes_def relationshipDepth_def)

lemma relationshipPrefixes_self: "path \<in> set (relationshipPrefixes path)"
  by (simp add: relationshipPrefixes_def)

lemma relationshipDepth_child:
  "CHR ''.'' \<notin> set name \<Longrightarrow>
   relationshipDepth (parent @ CHR ''.'' # name) = Suc (relationshipDepth parent)"
  by (simp add: relationshipDepth_count)

end
