(* ===== verification/SchemaDeclarations.thy ===== *)
theory SchemaDeclarations
  imports SchemaNames
begin

text \<open>
  What the declaration loops of \<open>validateDefinitions\<close> establish. Fields, filters and sorts share one
  contract, the locale \<open>declaring\<close>: the body checks a declaration and files its position under its
  name unless the name is taken. The locale is interpreted on the three bodies of the source.
\<close>

section \<open>The contract of a declaration loop\<close>

locale declaring =
  fixes name_of :: "'d \<Rightarrow> string"
    and ok :: "'d \<Rightarrow> bool"
    and body :: "nat \<Rightarrow> 'd \<Rightarrow> (string \<rightharpoonup> nat) \<times> violationCollector \<Rightarrow>
      (string \<rightharpoonup> nat) \<times> violationCollector"
  assumes body_index:
      "fst (body i d s) =
         (if fst s (name_of d) \<noteq> None then fst s else (fst s)(name_of d \<mapsto> i))"
    and body_extends: "grows (snd s) (snd (body i d s))"
    and body_clean:
      "clean (snd (body i d s)) \<longleftrightarrow> clean (snd s) \<and> ok d \<and> fst s (name_of d) = None"
begin

sublocale coll: collecting snd body
  by unfold_locales (rule body_extends)

lemma declared_clean:
  assumes "indexes name_of ds0 (fst s)"
  shows "clean (snd (range_loop body (length ds0) ds s)) \<longleftrightarrow>
    clean (snd s) \<and> (\<forall>d \<in> set ds. ok d) \<and> distinct (map name_of (ds0 @ ds))"
  using assms
proof (induction ds arbitrary: ds0 s)
  case Nil
  then show ?case using indexes_distinct by auto
next
  case (Cons d ds)
  let ?s = "body (length ds0) d s"
  show ?case
  proof (cases "clean (snd s) \<and> ok d \<and> fst s (name_of d) = None")
    case True
    then have "indexes name_of (ds0 @ [d]) (fst ?s)"
      using Cons.prems by (auto simp: body_index intro!: indexes_snoc)
    from Cons.IH [OF this] True show ?thesis by (simp add: body_clean)
  next
    case False
    then have "\<not> clean (snd (range_loop body (length ds0) (d # ds) s))"
      using coll.loop_clean_Cons body_clean by blast
    moreover have "fst s (name_of d) \<noteq> None \<Longrightarrow> name_of d \<in> name_of ` set ds0"
      using indexes_dom [OF Cons.prems] by blast
    ultimately show ?thesis using False by auto
  qed
qed

lemma declared_index:
  assumes "indexes name_of ds0 (fst s)"
    and "clean (snd (range_loop body (length ds0) ds s))"
  shows "indexes name_of (ds0 @ ds) (fst (range_loop body (length ds0) ds s))"
  using assms
proof (induction ds arbitrary: ds0 s)
  case (Cons d ds)
  let ?s = "body (length ds0) d s"
  have "clean (snd ?s)" using Cons.prems(2) by (rule coll.loop_clean_Cons)
  then have "indexes name_of (ds0 @ [d]) (fst ?s)"
    using Cons.prems(1) by (auto simp: body_index body_clean intro!: indexes_snoc)
  from Cons.IH [OF this] Cons.prems(2) show ?case by simp
qed simp

lemma all_declared:
  assumes "range_loop body 0 ds (Map.empty, c) = (idx, c')"
  shows "clean c' \<longleftrightarrow> clean c \<and> (\<forall>d \<in> set ds. ok d) \<and> distinct (map name_of ds)"
    and "clean c' \<Longrightarrow> indexes name_of ds idx"
    and "grows c c'"
  using assms declared_clean [of "[]" "(Map.empty, c)" ds]
    declared_index [of "[]" "(Map.empty, c)" ds] coll.loop_grows [of "(Map.empty, c)" 0 ds]
  by (auto simp: indexes_empty)

end

section \<open>Fields, filters and sorts\<close>

definition field_ok :: "int \<Rightarrow> FieldDefinition \<Rightarrow> bool" where
  "field_ok maxCost f \<longleftrightarrow>
     validName (fd_Name f) \<and> validType (fd_Type f) \<and> 0 \<le> fd_Cost f \<and> fd_Cost f \<le> maxCost"

definition filter_ok :: "int \<Rightarrow> FilterDefinition \<Rightarrow> bool" where
  "filter_ok maxCost f \<longleftrightarrow>
     validName (fl_Name f) \<and> validType (fl_Type f) \<and> fl_Operators f \<noteq> [] \<and>
     0 \<le> fl_Cost f \<and> fl_Cost f \<le> maxCost \<and> distinct (fl_Operators f) \<and>
     (\<forall>op \<in> set (fl_Operators f). operatorSupportsType op (fl_Type f) (fl_Nullable f))"

definition nulls_ok :: "NullOrder \<Rightarrow> bool" where
  "nulls_ok n \<longleftrightarrow> n = [] \<or> n = NullsFirst \<or> n = NullsLast"

definition sort_ok :: "int \<Rightarrow> SortDefinition \<Rightarrow> bool" where
  "sort_ok maxCost d \<longleftrightarrow>
     validName (sd_Name d) \<and> validType (sd_Type d) \<and> nulls_ok (sd_Nulls d) \<and>
     0 \<le> sd_Cost d \<and> sd_Cost d \<le> maxCost"

lemma validateOperator_grows: "grows (snd s) (snd (validateOperator path f i op s))"
  by (auto simp: validateOperator_def Let_def case_prod_beta intro!: grows_intros)

interpretation operators: collecting snd "validateOperator path f" for path f
  by unfold_locales (rule validateOperator_grows)

lemma validateOperators_clean:
  "clean (snd (range_loop (validateOperator path f) i ops s)) \<longleftrightarrow>
     clean (snd s) \<and> distinct ops \<and> set ops \<inter> fst s = {} \<and>
     (\<forall>op \<in> set ops. operatorSupportsType op (fl_Type f) (fl_Nullable f))"
proof (induction ops arbitrary: i s)
  case (Cons op ops)
  show ?case
    by (auto simp: Cons.IH) (auto simp: validateOperator_def Let_def case_prod_beta split: if_splits)
qed simp

interpretation fields: declaring fd_Name "field_ok maxCost" "validateField maxCost" for maxCost
proof unfold_locales
  fix i d and s :: "(string \<rightharpoonup> nat) \<times> violationCollector"
  show "fst (validateField maxCost i d s) =
      (if fst s (fd_Name d) \<noteq> None then fst s else (fst s)(fd_Name d \<mapsto> i))"
    by (simp add: validateField_def Let_def case_prod_beta)
  show "grows (snd s) (snd (validateField maxCost i d s))"
    by (auto simp: validateField_def Let_def case_prod_beta intro!: grows_intros)
  show "clean (snd (validateField maxCost i d s)) \<longleftrightarrow>
      clean (snd s) \<and> field_ok maxCost d \<and> fst s (fd_Name d) = None"
    by (auto simp: validateField_def Let_def case_prod_beta field_ok_def)
qed

interpretation filters: declaring fl_Name "filter_ok maxCost" "validateFilter maxCost" for maxCost
proof unfold_locales
  fix i d and s :: "(string \<rightharpoonup> nat) \<times> violationCollector"
  show "fst (validateFilter maxCost i d s) =
      (if fst s (fl_Name d) \<noteq> None then fst s else (fst s)(fl_Name d \<mapsto> i))"
    by (simp add: validateFilter_def Let_def case_prod_beta)
  have loop: "grows c (snd (range_loop (validateOperator p d) 0 ops ({}, c')))" if "grows c c'" for c c' p ops
    using operators.loop_grows [of "({}, c')" p d 0 ops] that by (auto intro: grows_trans)
  show "grows (snd s) (snd (validateFilter maxCost i d s))"
    by (auto simp: validateFilter_def Let_def case_prod_beta intro!: grows_intros loop)
  show "clean (snd (validateFilter maxCost i d s)) \<longleftrightarrow>
      clean (snd s) \<and> filter_ok maxCost d \<and> fst s (fl_Name d) = None"
    by (auto simp: validateFilter_def Let_def case_prod_beta filter_ok_def validateOperators_clean)
qed

interpretation sorts: declaring sd_Name "sort_ok maxCost" "validateSort maxCost" for maxCost
proof unfold_locales
  fix i d and s :: "(string \<rightharpoonup> nat) \<times> violationCollector"
  show "fst (validateSort maxCost i d s) =
      (if fst s (sd_Name d) \<noteq> None then fst s else (fst s)(sd_Name d \<mapsto> i))"
    by (simp add: validateSort_def Let_def case_prod_beta)
  show "grows (snd s) (snd (validateSort maxCost i d s))"
    by (auto simp: validateSort_def Let_def case_prod_beta intro!: grows_intros)
  show "clean (snd (validateSort maxCost i d s)) \<longleftrightarrow>
      clean (snd s) \<and> sort_ok maxCost d \<and> fst s (sd_Name d) = None"
    by (simp add: validateSort_def Let_def case_prod_beta sort_ok_def nulls_ok_def not_less) blast
qed

section \<open>Relationships\<close>

text \<open>
  The edges of a relationship tree in the order the source visits them, with their full dotted names.
\<close>

fun rel_entries ::
  "string \<Rightarrow> RelationshipDefinition list \<Rightarrow> (string \<times> RelationshipDefinition) list" where
  "rel_entries parent [] = []"
| "rel_entries parent (RelationshipDefinition name resource cost children # rest) =
     (let fullName = childName parent name in
      (fullName, RelationshipDefinition name resource cost children)
        # rel_entries fullName children @ rel_entries parent rest)"

text \<open>Every edge is well declared and no edge leads back to a resource above it.\<close>

fun rels_ok :: "int \<Rightarrow> string set \<Rightarrow> RelationshipDefinition list \<Rightarrow> bool" where
  "rels_ok maxCost ancestors [] \<longleftrightarrow> True"
| "rels_ok maxCost ancestors (RelationshipDefinition name resource cost children # rest) \<longleftrightarrow>
     validName name \<and> validName resource \<and> 0 \<le> cost \<and> cost \<le> maxCost \<and> resource \<notin> ancestors \<and>
     rels_ok maxCost (insert resource ancestors) children \<and> rels_ok maxCost ancestors rest"

definition entry_node :: "string \<times> RelationshipDefinition \<Rightarrow> string \<times> relationshipNode" where
  "entry_node e =
     (fst e, \<lparr>rn_definition = snd e, rn_depth = relationshipDepth (fst e)\<rparr>)"

lemma cloneRelationship_id [simp]: "cloneRelationship r = r"
proof (induction r)
  case (RelationshipDefinition name resource cost children)
  then have "map cloneRelationship children = children" by (simp add: map_idI)
  then show ?case by simp
qed

lemma cloneFilters_id [simp]: "cloneFilters fs = fs"
  by (simp add: cloneFilters_def)

lemma indexRelationship_grows: "grows (snd s) (snd (indexRelationship mc path full r s))"
  by (auto simp: indexRelationship_def Let_def case_prod_beta intro!: grows_intros)

lemma indexRelationship_index:
  "fst (indexRelationship mc path full r s) =
     (if fst s full \<noteq> None then fst s
      else (fst s)(full \<mapsto> \<lparr>rn_definition = r, rn_depth = relationshipDepth full\<rparr>))"
  by (simp add: indexRelationship_def Let_def case_prod_beta)

lemma indexRelationship_clean:
  "clean (snd (indexRelationship mc path full r s)) \<longleftrightarrow>
     clean (snd s) \<and> validName (rd_Name r) \<and> validName (rd_Resource r) \<and> 0 \<le> rd_Cost r \<and>
     rd_Cost r \<le> mc \<and> fst s full = None"
  by (auto simp: indexRelationship_def Let_def case_prod_beta)

lemma indexRelationships_grows:
  "grows (snd s) (snd (indexRelationships mc i rels parent path anc s))"
proof (induction mc i rels parent path anc s rule: indexRelationships.induct)
  case (2 mc i name resource cost children rest parent path anc s)
  let ?r = "RelationshipDefinition name resource cost children"
  let ?p = "indexed_path path i" and ?full = "childName parent name"
  define s1 where "s1 = indexRelationship mc ?p ?full ?r s"
  define s2 where "s2 =
    (if resource \<in> anc
     then (fst s1, vc_add CodeConflict ?p ''relationship creates a resource cycle'' (snd s1))
     else indexRelationships mc 0 children ?full (?p @ ''.relationships'') (insert resource anc) s1)"
  have "grows (snd s) (snd s1)" unfolding s1_def by (rule indexRelationship_grows)
  moreover have "grows (snd s1) (snd s2)"
    unfolding s2_def using 2(1) by (auto simp: s1_def intro: grows_intros)
  moreover have "grows (snd s2) (snd (indexRelationships mc (Suc i) rest parent path anc s2))"
    using 2(2) by (simp add: s1_def s2_def)
  moreover have "indexRelationships mc i (?r # rest) parent path anc s =
      indexRelationships mc (Suc i) rest parent path anc s2"
    by (simp only: indexRelationships.simps Let_def s1_def s2_def)
  ultimately show ?case by (metis grows_trans)
qed simp

text \<open>
  A clean run over the tree: every edge is well declared, the full names are pairwise different and
  not yet in the index, and the index gains exactly the edges of the tree.
\<close>

lemma indexRelationships_clean:
  "clean (snd (indexRelationships mc i rels parent path anc s)) \<longleftrightarrow>
     clean (snd s) \<and> rels_ok mc anc rels \<and> distinct (map fst (rel_entries parent rels)) \<and>
     dom (fst s) \<inter> fst ` set (rel_entries parent rels) = {}"
  "clean (snd (indexRelationships mc i rels parent path anc s)) \<Longrightarrow>
     fst (indexRelationships mc i rels parent path anc s) =
     fst s ++ map_of (map entry_node (rel_entries parent rels))"
proof (induction mc i rels parent path anc s rule: indexRelationships.induct)
  case (1 mc i parent path anc s)
  case 1 show ?case by simp
next
  case (1 mc i parent path anc s)
  case 2 show ?case by simp
next
  case (2 mc i name resource cost children rest parent path anc s)
  let ?r = "RelationshipDefinition name resource cost children"
  let ?p = "indexed_path path i" and ?full = "childName parent name"
  define s1 where "s1 = indexRelationship mc ?p ?full ?r s"
  define s2 where "s2 =
    (if resource \<in> anc
     then (fst s1, vc_add CodeConflict ?p ''relationship creates a resource cycle'' (snd s1))
     else indexRelationships mc 0 children ?full (?p @ ''.relationships'') (insert resource anc) s1)"
  let ?e1 = "rel_entries ?full children" and ?e2 = "rel_entries parent rest"
  have step: "indexRelationships mc i (?r # rest) parent path anc s =
      indexRelationships mc (Suc i) rest parent path anc s2"
    by (simp only: indexRelationships.simps Let_def s1_def s2_def)
  have entries: "rel_entries parent (?r # rest) = (?full, ?r) # ?e1 @ ?e2"
    by (simp add: Let_def)
  have s1: "clean (snd s1) \<longleftrightarrow> clean (snd s) \<and> validName name \<and> validName resource \<and> 0 \<le> cost \<and>
      cost \<le> mc \<and> fst s ?full = None"
    "clean (snd s1) \<Longrightarrow> fst s1 = (fst s)(?full \<mapsto> \<lparr>rn_definition = ?r, rn_depth = relationshipDepth ?full\<rparr>)"
    by (auto simp: s1_def indexRelationship_clean indexRelationship_index)
  have s2: "clean (snd s2) \<longleftrightarrow> resource \<notin> anc \<and> clean (snd s1) \<and> rels_ok mc (insert resource anc) children \<and>
      distinct (map fst ?e1) \<and> dom (fst s1) \<inter> fst ` set ?e1 = {}"
    "clean (snd s2) \<Longrightarrow> fst s2 = fst s1 ++ map_of (map entry_node ?e1)"
    using 2(1,2) [OF refl refl refl prod.collapse] by (auto simp: s1_def s2_def)
  have doms: "clean (snd s2) \<Longrightarrow> dom (fst s2) = insert ?full (dom (fst s)) \<union> fst ` set ?e1"
    using s1(2) s2 by (auto simp: dom_map_of_conv_image_fst image_image entry_node_def)
  have rest: "clean (snd (indexRelationships mc (Suc i) rest parent path anc s2)) \<longleftrightarrow>
      clean (snd s2) \<and> rels_ok mc anc rest \<and> distinct (map fst ?e2) \<and>
      dom (fst s2) \<inter> fst ` set ?e2 = {}"
    "clean (snd (indexRelationships mc (Suc i) rest parent path anc s2)) \<Longrightarrow>
      fst (indexRelationships mc (Suc i) rest parent path anc s2) =
      fst s2 ++ map_of (map entry_node ?e2)"
    using 2(3,4) by (auto simp: s1_def s2_def)
  have doms1: "clean (snd s1) \<Longrightarrow> dom (fst s1) = insert ?full (dom (fst s))"
    using s1(2) by auto
  have free: "fst s ?full = None \<longleftrightarrow> ?full \<notin> dom (fst s)" by (simp add: domIff)
  case 1
  show ?case
  proof -
    define A B D where "A = fst ` set ?e1" and "B = fst ` set ?e2" and "D = dom (fst s)"
    have names: "distinct (map fst ((?full, ?r) # ?e1 @ ?e2)) \<longleftrightarrow>
        ?full \<notin> A \<and> ?full \<notin> B \<and> distinct (map fst ?e1) \<and> distinct (map fst ?e2) \<and> A \<inter> B = {}"
      by (auto simp: A_def B_def)
    have set: "fst ` set ((?full, ?r) # ?e1 @ ?e2) = insert ?full (A \<union> B)"
      by (auto simp: A_def B_def)
    note abs = A_def [symmetric] B_def [symmetric] D_def [symmetric]
    show ?thesis
    proof (cases "clean (snd s1)")
      case True
      note d1 = doms1 [OF True, unfolded abs]
      from s2(1) have c2: "clean (snd s2) \<longleftrightarrow> resource \<notin> anc \<and>
          rels_ok mc (insert resource anc) children \<and> distinct (map fst ?e1) \<and>
          insert ?full D \<inter> A = {}"
        using True d1 abs by simp
      show ?thesis
      proof (cases "clean (snd s2)")
        case c: True
        then have "dom (fst s2) = insert ?full D \<union> A" using doms abs by simp
        then show ?thesis
          unfolding step rest(1) entries names set abs rels_ok.simps
          using c c2 True s1(1) free abs by auto
      next
        case False
        then show ?thesis
          unfolding step rest(1) entries names set abs rels_ok.simps
          using c2 by auto
      qed
    next
      case False
      then show ?thesis
        unfolding step rest(1) entries names set abs rels_ok.simps
        using s1(1) s2(1) free abs by auto
    qed
  qed
  case 2
  then have fin: "clean (snd (indexRelationships mc (Suc i) rest parent path anc s2))"
    by (simp only: step)
  then have c2: "clean (snd s2)" and disj2: "dom (fst s2) \<inter> fst ` set ?e2 = {}"
    using rest(1) by blast+
  then have c1: "clean (snd s1)" and disj1: "dom (fst s1) \<inter> fst ` set ?e1 = {}"
    using s2(1) by blast+
  have "?full \<notin> fst ` set ?e1" "?full \<notin> fst ` set ?e2" "fst ` set ?e1 \<inter> fst ` set ?e2 = {}"
    using disj1 disj2 doms1 [OF c1] doms [OF c2] by auto
  then have "(fst s)(?full \<mapsto> \<lparr>rn_definition = ?r, rn_depth = relationshipDepth ?full\<rparr>)
      ++ map_of (map entry_node ?e1) ++ map_of (map entry_node ?e2) =
      fst s ++ map_of ((?full, \<lparr>rn_definition = ?r, rn_depth = relationshipDepth ?full\<rparr>)
        # map entry_node ?e1 @ map entry_node ?e2)"
    by (intro map_add_blocks) (simp_all add: image_image entry_node_def)
  moreover have "entry_node (?full, ?r) =
      (?full, \<lparr>rn_definition = ?r, rn_depth = relationshipDepth ?full\<rparr>)"
    by (simp add: entry_node_def)
  ultimately show ?case
    unfolding step entries rest(2) [OF fin] s2(2) [OF c2] s1(2) [OF c1]
    by (simp only: list.map map_append)
qed

text \<open>
  With valid names, every dotted prefix of a declared path is a declared path itself (or lies above
  the point where the enumeration started).
\<close>

fun rels_names_ok :: "RelationshipDefinition list \<Rightarrow> bool" where
  "rels_names_ok [] \<longleftrightarrow> True"
| "rels_names_ok (RelationshipDefinition name resource cost children # rest) \<longleftrightarrow>
     validName name \<and> rels_names_ok children \<and> rels_names_ok rest"

lemma rels_ok_names: "rels_ok mc anc rels \<Longrightarrow> rels_names_ok rels"
  by (induction mc anc rels rule: rels_ok.induct) auto

lemma childName_prefixes:
  "validName name \<Longrightarrow>
   relationshipPrefixes (childName parent name) =
     (if parent = [] then [] else relationshipPrefixes parent) @ [childName parent name]"
  using validName_no_dot [of name]
  by (auto simp: childName_def relationshipPrefixes_plain relationshipPrefixes_child)

lemma rel_entries_prefixes:
  "rels_names_ok rels \<Longrightarrow> p \<in> fst ` set (rel_entries parent rels) \<Longrightarrow>
   set (relationshipPrefixes p) \<subseteq>
     fst ` set (rel_entries parent rels) \<union> (if parent = [] then {} else set (relationshipPrefixes parent))"
proof (induction parent rels rule: rel_entries.induct)
  case (2 parent name resource cost children rest)
  let ?full = "childName parent name"
  have full: "set (relationshipPrefixes ?full) =
      insert ?full (if parent = [] then {} else set (relationshipPrefixes parent))"
    using 2(3) by (simp add: childName_prefixes)
  have "?full \<noteq> []" using 2(3) validName_nonempty by (auto simp: childName_def)
  define A B where "A = fst ` set (rel_entries ?full children)" and "B = fst ` set (rel_entries parent rest)"
  have all: "fst ` set (rel_entries parent (RelationshipDefinition name resource cost children # rest)) =
      insert ?full (A \<union> B)"
    by (simp add: Let_def image_Un A_def B_def)
  have "p \<in> A \<Longrightarrow> set (relationshipPrefixes p) \<subseteq> A \<union> set (relationshipPrefixes ?full)"
    and "p \<in> B \<Longrightarrow> set (relationshipPrefixes p) \<subseteq>
      B \<union> (if parent = [] then {} else set (relationshipPrefixes parent))"
    using 2(1,2,3) \<open>?full \<noteq> []\<close> by (simp_all add: A_def B_def)
  with 2(4) full show ?case unfolding all by auto
qed simp

lemma rel_entries_nodes:
  "rels_ok mc anc rels \<Longrightarrow> (p, r) \<in> set (rel_entries parent rels) \<Longrightarrow>
   validName (rd_Name r) \<and> validName (rd_Resource r) \<and> 0 \<le> rd_Cost r \<and> rd_Cost r \<le> mc \<and>
   rd_Resource r \<notin> anc"
  by (induction mc anc rels arbitrary: parent rule: rels_ok.induct) (auto simp: Let_def)

end
