(* ===== verification/SchemaCorrect.thy ===== *)
theory SchemaCorrect
  imports SchemaDeclarations
begin

text \<open>
  Correctness of \<open>NewSchema\<close>: it accepts a configuration exactly when \<open>valid_config\<close> holds of it, and
  the schema it returns satisfies the invariant \<open>wf_schema\<close> that the compiler relies on.
\<close>

section \<open>Bounds\<close>

definition wf_bounds :: "Bounds \<Rightarrow> bool" where
  "wf_bounds b \<longleftrightarrow> (\<forall>v \<in> set (boundValues b). 0 < v)"

definition bounds_in_range :: "Bounds \<Rightarrow> bool" where
  "bounds_in_range b \<longleftrightarrow> (\<forall>v \<in> set (boundValues b). in_int64 v)"

lemma wf_normalizedBounds: "wf_bounds (normalizedBounds b)"
  by (simp add: wf_bounds_def boundValues_def normalizedBounds_def fallback_def)

lemma normalizedBounds_in_range: "bounds_in_range b \<Longrightarrow> bounds_in_range (normalizedBounds b)"
  by (simp add: bounds_in_range_def boundValues_def normalizedBounds_def fallback_def
      in_int64_def minInt_def maxInt_def)

lemma normalizedBounds_idem: "normalizedBounds (normalizedBounds b) = normalizedBounds b"
  by (simp add: normalizedBounds_def fallback_def)

lemma normalizedBounds_positive: "wf_bounds b \<Longrightarrow> normalizedBounds b = b"
  by (simp add: wf_bounds_def boundValues_def normalizedBounds_def fallback_def)

interpretation bounds: collecting id validateBound
  by unfold_locales (auto simp: validateBound_def intro: grows_intros)

lemma validateBounds_clean:
  "clean (range_loop validateBound i vs c) \<longleftrightarrow> clean c \<and> (\<forall>v \<in> set vs. 0 \<le> v)"
  by (induction vs arbitrary: i c) (auto simp: validateBound_def)

section \<open>Allowed logic\<close>

interpretation logic: collecting snd validateLogic
  by unfold_locales
    (auto simp: validateLogic_def Let_def case_prod_beta intro: grows_intros)

abbreviation known_logic :: "Logic set" where
  "known_logic \<equiv> {LogicAnd, LogicOr, LogicNot}"

lemma validateLogics_clean:
  "clean (snd (range_loop validateLogic i ls s)) \<longleftrightarrow>
     clean (snd s) \<and> set ls \<subseteq> known_logic \<and> distinct ls \<and> set ls \<inter> fst s = {}"
proof (induction ls arbitrary: i s)
  case (Cons l ls)
  show ?case
    by (auto simp: Cons.IH) (auto simp: validateLogic_def Let_def case_prod_beta split: if_splits)
qed simp

lemma validateLogics_set:
  "clean (snd (range_loop validateLogic i ls s)) \<Longrightarrow>
   fst (range_loop validateLogic i ls s) = fst s \<union> set ls"
proof (induction ls arbitrary: i s)
  case (Cons l ls)
  have "clean (snd (validateLogic i l s))"
    using Cons.prems by (rule logic.loop_clean_Cons)
  then have "fst (validateLogic i l s) = insert l (fst s)"
    by (auto simp: validateLogic_def Let_def case_prod_beta split: if_splits)
  with Cons show ?case by simp
qed simp

section \<open>Pagination and the default sort\<close>

text \<open>The position of a sort declaration, as the source looks it up.\<close>

definition sort_def :: "Schema \<Rightarrow> string \<Rightarrow> SortDefinition option" where
  "sort_def schema name = map_option (\<lambda>i. sc_sorts schema ! i) (sc_sortIndex schema name)"

definition default_term_ok :: "Schema \<Rightarrow> SortTerm \<Rightarrow> bool" where
  "default_term_ok schema t \<longleftrightarrow>
     (\<exists>d. sort_def schema (st_Name t) = Some d \<and>
       (st_Direction t = Ascending \<or> st_Direction t = Descending) \<and>
       nulls_ok (st_Nulls t) \<and> (st_Nulls t = [] \<or> st_Nulls t = sd_Nulls d))"

lemma default_term_ok_code [code]:
  "default_term_ok schema t \<longleftrightarrow>
     (case sort_def schema (st_Name t) of
        None \<Rightarrow> False
      | Some d \<Rightarrow>
          (st_Direction t = Ascending \<or> st_Direction t = Descending) \<and>
          nulls_ok (st_Nulls t) \<and> (st_Nulls t = [] \<or> st_Nulls t = sd_Nulls d))"
  by (cases "sort_def schema (st_Name t)") (simp_all add: default_term_ok_def)

definition is_tie_breaker :: "Schema \<Rightarrow> string \<Rightarrow> bool" where
  "is_tie_breaker schema name \<longleftrightarrow>
     (case sort_def schema name of None \<Rightarrow> False | Some d \<Rightarrow> sd_TieBreaker d)"

definition pagination_ok :: "Schema \<Rightarrow> bool" where
  "pagination_ok s \<longleftrightarrow>
     (let p = sc_pagination s; n = int (length (sc_defaultSort s)) in
      n \<le> b_MaxSorts (sc_bounds s) \<and>
      (pd_Cursor p \<or> pd_Offset p \<longrightarrow>
         0 < pd_DefaultPageSize p \<and> pd_DefaultPageSize p \<le> b_MaxPageSize (sc_bounds s)) \<and>
      (pd_Offset p \<longrightarrow> 0 \<le> pd_MaxOffset p) \<and>
      (pd_Cursor p \<longrightarrow> length (filter sd_TieBreaker (sc_sorts s)) = 1) \<and>
      (\<forall>t \<in> set (sc_defaultSort s). default_term_ok s t) \<and>
      distinct (map st_Name (sc_defaultSort s)) \<and>
      (pd_Cursor p \<longrightarrow> n < b_MaxSorts (sc_bounds s) \<or>
         (\<exists>t \<in> set (sc_defaultSort s). is_tie_breaker s (st_Name t))))"

abbreviation default_col :: "string set \<times> bool \<times> violationCollector \<Rightarrow> violationCollector" where
  "default_col s \<equiv> snd (snd s)"

interpretation defaults: collecting default_col "validateDefaultTerm schema" for schema
  by unfold_locales
    (auto simp: validateDefaultTerm_def Let_def case_prod_beta split: option.splits
      intro!: grows_intros)

lemma validateDefaultTerm_clean:
  "clean (default_col (validateDefaultTerm schema i t s)) \<longleftrightarrow>
     clean (default_col s) \<and> default_term_ok schema t \<and> st_Name t \<notin> fst s"
  by (auto simp: validateDefaultTerm_def Let_def case_prod_beta default_term_ok_def nulls_ok_def
      sort_def_def split: option.splits)

lemma validateDefaultTerm_state:
  "fst (validateDefaultTerm schema i t s) = insert (st_Name t) (fst s)"
  "fst (snd (validateDefaultTerm schema i t s)) =
     (fst (snd s) \<or> is_tie_breaker schema (st_Name t))"
  by (auto simp: validateDefaultTerm_def Let_def case_prod_beta is_tie_breaker_def sort_def_def
      split: option.splits)

lemma validateDefaultTerms:
  "clean (default_col (range_loop (validateDefaultTerm schema) i ts s)) \<longleftrightarrow>
     clean (default_col s) \<and> (\<forall>t \<in> set ts. default_term_ok schema t) \<and>
     distinct (map st_Name ts) \<and> st_Name ` set ts \<inter> fst s = {}"
  "fst (snd (range_loop (validateDefaultTerm schema) i ts s)) \<longleftrightarrow>
     fst (snd s) \<or> (\<exists>t \<in> set ts. is_tie_breaker schema (st_Name t))"
  by (induction ts arbitrary: i s) (auto simp: validateDefaultTerm_clean validateDefaultTerm_state)

lemma validatePagination_clean:
  "clean (validatePagination schema c) \<longleftrightarrow> clean c \<and> pagination_ok schema"
  by (cases "pd_Cursor (sc_pagination schema)"; cases "pd_Offset (sc_pagination schema)")
    (auto simp: validatePagination_def pagination_ok_def Let_def case_prod_beta
      validateDefaultTerms not_le not_less)

lemma validatePagination_grows: "grows c (validatePagination schema c)"
proof -
  have loop: "grows c (default_col (range_loop (validateDefaultTerm schema) 0 ts ({}, False, c')))"
    if "grows c c'" for c' ts
    using defaults.loop_grows [of "({}, False, c')" schema 0 ts] that by (auto intro: grows_trans)
  show ?thesis
    unfolding validatePagination_def Let_def case_prod_beta by (intro grows_intros loop)
qed

section \<open>The schema invariant\<close>

definition header_ok :: "string \<Rightarrow> string \<Rightarrow> bool" where
  "header_ok resource revision \<longleftrightarrow>
     validName resource \<and> revision \<noteq> [] \<and> valid_utf8 revision"

definition wf_schema :: "Schema \<Rightarrow> bool" where
  "wf_schema s \<longleftrightarrow>
     header_ok (sc_resource s) (sc_revision s) \<and>
     wf_bounds (sc_bounds s) \<and>
     sc_allowedLogic s \<subseteq> known_logic \<and> sc_allowedLogic s \<noteq> {} \<and>
     indexes fd_Name (sc_fields s) (sc_fieldIndex s) \<and>
     (\<forall>f \<in> set (sc_fields s). field_ok (b_MaxCost (sc_bounds s)) f) \<and>
     indexes fl_Name (sc_filters s) (sc_filterIndex s) \<and>
     (\<forall>f \<in> set (sc_filters s). filter_ok (b_MaxCost (sc_bounds s)) f) \<and>
     indexes sd_Name (sc_sorts s) (sc_sortIndex s) \<and>
     (\<forall>d \<in> set (sc_sorts s). sort_ok (b_MaxCost (sc_bounds s)) d) \<and>
     rels_ok (b_MaxCost (sc_bounds s)) {sc_resource s} (sc_relationships s) \<and>
     distinct (map fst (rel_entries [] (sc_relationships s))) \<and>
     sc_relationIndex s = map_of (map entry_node (rel_entries [] (sc_relationships s))) \<and>
     pagination_ok s"

text \<open>
  The same conditions on a configuration, before any schema exists: the default sort is judged
  against the position index of the declared sorts.
\<close>

definition valid_config :: "SchemaConfig \<Rightarrow> bool" where
  "valid_config cfg \<longleftrightarrow>
     (let s = initialSchema cfg; mc = b_MaxCost (sc_bounds s) in
      header_ok (cf_Resource cfg) (cf_Revision cfg) \<and>
      (\<forall>v \<in> set (boundValues (cf_Bounds cfg)). 0 \<le> v) \<and>
      set (cf_AllowedLogic cfg) \<subseteq> known_logic \<and> distinct (cf_AllowedLogic cfg) \<and>
      (\<forall>f \<in> set (cf_Fields cfg). field_ok mc f) \<and> distinct (map fd_Name (cf_Fields cfg)) \<and>
      (\<forall>f \<in> set (cf_Filters cfg). filter_ok mc f) \<and> distinct (map fl_Name (cf_Filters cfg)) \<and>
      (\<forall>d \<in> set (cf_Sorts cfg). sort_ok mc d) \<and> distinct (map sd_Name (cf_Sorts cfg)) \<and>
      rels_ok mc {cf_Resource cfg} (cf_Relationships cfg) \<and>
      distinct (map fst (rel_entries [] (cf_Relationships cfg))) \<and>
      pagination_ok (s\<lparr>sc_sortIndex := positions sd_Name (cf_Sorts cfg)\<rparr>))"

section \<open>NewSchema\<close>

text \<open>The schema that a valid configuration is turned into.\<close>

definition built_schema :: "SchemaConfig \<Rightarrow> Schema" where
  "built_schema cfg =
     (initialSchema cfg)
       \<lparr>sc_allowedLogic := set (defaultedLogic cfg),
        sc_fieldIndex := positions fd_Name (cf_Fields cfg),
        sc_filterIndex := positions fl_Name (cf_Filters cfg),
        sc_sortIndex := positions sd_Name (cf_Sorts cfg),
        sc_relationIndex := map_of (map entry_node (rel_entries [] (cf_Relationships cfg)))\<rparr>"

lemma validateHeader_clean:
  "clean (validateHeader cfg c) \<longleftrightarrow>
     clean c \<and> header_ok (cf_Resource cfg) (cf_Revision cfg) \<and>
     (\<forall>v \<in> set (boundValues (cf_Bounds cfg)). 0 \<le> v)"
  by (auto simp: validateHeader_def validateDeclaredBounds_def Let_def header_ok_def
      validateBounds_clean)

lemma validateHeader_grows: "grows c (validateHeader cfg c)"
  using bounds.loop_grows [of c 0 "boundValues (cf_Bounds cfg)"]
  by (auto simp: validateHeader_def validateDeclaredBounds_def Let_def intro!: grows_intros)

lemma defaultedLogic_ok:
  "set (defaultedLogic cfg) \<subseteq> known_logic \<and> distinct (defaultedLogic cfg) \<longleftrightarrow>
     set (cf_AllowedLogic cfg) \<subseteq> known_logic \<and> distinct (cf_AllowedLogic cfg)"
  "set (defaultedLogic cfg) \<noteq> {}"
  by (auto simp: defaultedLogic_def)

lemma validateDefinitions_result:
  assumes run: "validateDefinitions (s, c) = (s', c')"
    and empty: "sc_fieldIndex s = Map.empty" "sc_filterIndex s = Map.empty"
      "sc_sortIndex s = Map.empty" "sc_relationIndex s = Map.empty"
  shows "clean c' \<longleftrightarrow> clean c \<and>
      (\<forall>f \<in> set (sc_fields s). field_ok (b_MaxCost (sc_bounds s)) f) \<and>
      distinct (map fd_Name (sc_fields s)) \<and>
      (\<forall>f \<in> set (sc_filters s). filter_ok (b_MaxCost (sc_bounds s)) f) \<and>
      distinct (map fl_Name (sc_filters s)) \<and>
      (\<forall>d \<in> set (sc_sorts s). sort_ok (b_MaxCost (sc_bounds s)) d) \<and>
      distinct (map sd_Name (sc_sorts s)) \<and>
      rels_ok (b_MaxCost (sc_bounds s)) {sc_resource s} (sc_relationships s) \<and>
      distinct (map fst (rel_entries [] (sc_relationships s)))"
    and "clean c' \<Longrightarrow> s' = s
      \<lparr>sc_fieldIndex := positions fd_Name (sc_fields s),
       sc_filterIndex := positions fl_Name (sc_filters s),
       sc_sortIndex := positions sd_Name (sc_sorts s),
       sc_relationIndex := map_of (map entry_node (rel_entries [] (sc_relationships s)))\<rparr>"
    and "grows c c'"
proof -
  let ?mc = "b_MaxCost (sc_bounds s)"
  obtain fi c1 where f: "range_loop (validateField ?mc) 0 (sc_fields s) (Map.empty, c) = (fi, c1)"
    by fastforce
  obtain li c2 where l: "range_loop (validateFilter ?mc) 0 (sc_filters s) (Map.empty, c1) = (li, c2)"
    by fastforce
  obtain si c3 where d: "range_loop (validateSort ?mc) 0 (sc_sorts s) (Map.empty, c2) = (si, c3)"
    by fastforce
  obtain ri c4 where r: "indexRelationships ?mc 0 (sc_relationships s) [] ''schema.relationships''
      {sc_resource s} (Map.empty, c3) = (ri, c4)"
    by fastforce
  note F = fields.all_declared [OF f] and L = filters.all_declared [OF l]
    and D = sorts.all_declared [OF d]
  have s': "s' = s\<lparr>sc_fieldIndex := fi, sc_filterIndex := li, sc_sortIndex := si,
      sc_relationIndex := ri\<rparr>" and c': "c' = c4"
    using run by (simp_all add: validateDefinitions_def empty f l d r)
  have R: "clean c4 \<longleftrightarrow> clean c3 \<and> rels_ok ?mc {sc_resource s} (sc_relationships s) \<and>
      distinct (map fst (rel_entries [] (sc_relationships s)))"
    "clean c4 \<Longrightarrow> ri = map_of (map entry_node (rel_entries [] (sc_relationships s)))"
    "grows c3 c4"
    using indexRelationships_clean [of ?mc 0 "sc_relationships s" "[]" "''schema.relationships''"
        "{sc_resource s}" "(Map.empty, c3)"]
      indexRelationships_grows [of "(Map.empty, c3)" ?mc 0 "sc_relationships s" "[]"
        "''schema.relationships''" "{sc_resource s}"]
    by (simp_all add: r)
  show "grows c c'"
    unfolding c' using F(3) L(3) D(3) R(3) by (blast intro: grows_trans)
  show iff: "clean c' \<longleftrightarrow> clean c \<and>
      (\<forall>f \<in> set (sc_fields s). field_ok ?mc f) \<and> distinct (map fd_Name (sc_fields s)) \<and>
      (\<forall>f \<in> set (sc_filters s). filter_ok ?mc f) \<and> distinct (map fl_Name (sc_filters s)) \<and>
      (\<forall>d \<in> set (sc_sorts s). sort_ok ?mc d) \<and> distinct (map sd_Name (sc_sorts s)) \<and>
      rels_ok ?mc {sc_resource s} (sc_relationships s) \<and>
      distinct (map fst (rel_entries [] (sc_relationships s)))"
    unfolding c' R(1) D(1) L(1) F(1) by blast
  assume clean: "clean c'"
  then have "clean c1" "clean c2" "clean c3"
    using F(1) L(1) D(1) R(1) c' by blast+
  then show "s' = s
      \<lparr>sc_fieldIndex := positions fd_Name (sc_fields s),
       sc_filterIndex := positions fl_Name (sc_filters s),
       sc_sortIndex := positions sd_Name (sc_sorts s),
       sc_relationIndex := map_of (map entry_node (rel_entries [] (sc_relationships s)))\<rparr>"
    using F(2) L(2) D(2) R(2) clean positions_index indexes_unique iff
    unfolding s' c' by metis
qed

lemma NewSchema_result:
  "NewSchema cfg = Inr s \<longleftrightarrow> valid_config cfg \<and> s = built_schema cfg"
  "NewSchema cfg = Inl items \<Longrightarrow>
     items \<noteq> [] \<and> int (length items) \<le> b_MaxErrors (normalizedBounds (cf_Bounds cfg))"
proof -
  define lim where "lim = b_MaxErrors (normalizedBounds (cf_Bounds cfg))"
  define c1 where "c1 = validateHeader cfg (vc_new lim)"
  obtain al c2 where l: "range_loop validateLogic 0 (defaultedLogic cfg) ({}, c1) = (al, c2)"
    by fastforce
  let ?s0 = "(initialSchema cfg)\<lparr>sc_allowedLogic := al\<rparr>"
  obtain s1 c3 where d: "validateDefinitions (?s0, c2) = (s1, c3)" by fastforce
  define c4 where "c4 = validatePagination s1 c3"
  have run: "NewSchema cfg = (case vc_err c4 of Some err \<Rightarrow> Inl err | None \<Rightarrow> Inr s1)"
    by (simp add: NewSchema_def Let_def lim_def [symmetric] c1_def [symmetric] l d c4_def)
  have L: "clean c2 \<longleftrightarrow> clean c1 \<and> set (cf_AllowedLogic cfg) \<subseteq> known_logic \<and>
      distinct (cf_AllowedLogic cfg)"
    "clean c2 \<Longrightarrow> al = set (defaultedLogic cfg)" "grows c1 c2"
    using validateLogics_clean [of 0 "defaultedLogic cfg" "({}, c1)"]
      validateLogics_set [of 0 "defaultedLogic cfg" "({}, c1)"]
      logic.loop_grows [of "({}, c1)" 0 "defaultedLogic cfg"] defaultedLogic_ok(1) [of cfg]
    by (simp_all add: l)
  note D = validateDefinitions_result [OF d, simplified initialSchema_def, simplified]
  have grow: "grows (vc_new lim) c4"
    unfolding c4_def
    using validateHeader_grows L(3) D(3) validatePagination_grows grows_trans c1_def by metis
  have s1: "clean c3 \<Longrightarrow> s1 = built_schema cfg"
    using D(1,2) L(2) by (simp add: built_schema_def initialSchema_def)
  have page: "pagination_ok (built_schema cfg) \<longleftrightarrow>
      pagination_ok ((initialSchema cfg)\<lparr>sc_sortIndex := positions sd_Name (cf_Sorts cfg)\<rparr>)"
    by (simp add: pagination_ok_def built_schema_def default_term_ok_def is_tie_breaker_def
        sort_def_def)
  have "clean c4 \<longleftrightarrow> valid_config cfg"
    unfolding c4_def validatePagination_clean valid_config_def
    using D(1) L(1) s1 page
    by (auto simp: c1_def validateHeader_clean Let_def initialSchema_def)
  moreover have "clean c4 \<Longrightarrow> s1 = built_schema cfg"
    using s1 by (simp add: c4_def validatePagination_clean)
  ultimately show "NewSchema cfg = Inr s \<longleftrightarrow> valid_config cfg \<and> s = built_schema cfg"
    unfolding run by (auto split: option.splits simp: vc_err_def)
  assume "NewSchema cfg = Inl items"
  then have "items = vc_items c4" and "items \<noteq> []"
    unfolding run by (auto split: option.splits simp: vc_err_def split: if_splits)
  moreover have "0 < lim"
    by (simp add: lim_def normalizedBounds_def fallback_def)
  ultimately show "items \<noteq> [] \<and> int (length items) \<le> b_MaxErrors (normalizedBounds (cf_Bounds cfg))"
    using grows_bounded [OF grow] by (simp add: lim_def)
qed

section \<open>What the compiler relies on\<close>

lemma wf_built_schema: "valid_config cfg \<Longrightarrow> wf_schema (built_schema cfg)"
  unfolding valid_config_def wf_schema_def Let_def
  using positions_index [of fd_Name "cf_Fields cfg"] positions_index [of fl_Name "cf_Filters cfg"]
    positions_index [of sd_Name "cf_Sorts cfg"] defaultedLogic_ok [of cfg]
  by (simp add: built_schema_def initialSchema_def wf_normalizedBounds pagination_ok_def
      default_term_ok_def is_tie_breaker_def sort_def_def)

lemma NewSchema_wf_schema: "NewSchema cfg = Inr s \<Longrightarrow> wf_schema s"
  using wf_built_schema by (simp add: NewSchema_result)

lemma wf_schema_bounds:
  assumes "wf_schema s"
  shows "0 < b_MaxRequestBytes (sc_bounds s)" "0 < b_MaxFields (sc_bounds s)"
    "0 < b_MaxIncludes (sc_bounds s)" "0 < b_MaxIncludeDepth (sc_bounds s)"
    "0 < b_MaxFilterDepth (sc_bounds s)" "0 < b_MaxFilterNodes (sc_bounds s)"
    "0 < b_MaxValues (sc_bounds s)" "0 < b_MaxMembership (sc_bounds s)"
    "0 < b_MaxStringBytes (sc_bounds s)" "0 < b_MaxSorts (sc_bounds s)"
    "0 < b_MaxPageSize (sc_bounds s)" "0 < b_MaxCursorBytes (sc_bounds s)"
    "0 < b_MaxCanonicalBytes (sc_bounds s)" "0 < b_MaxErrors (sc_bounds s)"
    "0 < b_MaxCost (sc_bounds s)"
  using assms by (simp_all add: wf_schema_def wf_bounds_def boundValues_def)

lemma wf_schema_field:
  "wf_schema s \<Longrightarrow> sc_fieldIndex s n = Some i \<Longrightarrow>
   i < length (sc_fields s) \<and> fd_Name (sc_fields s ! i) = n \<and>
   field_ok (b_MaxCost (sc_bounds s)) (sc_fields s ! i)"
  using indexes_Some [of fd_Name "sc_fields s" "sc_fieldIndex s" n i] by (auto simp: wf_schema_def)

lemma wf_schema_filter:
  "wf_schema s \<Longrightarrow> sc_filterIndex s n = Some i \<Longrightarrow>
   i < length (sc_filters s) \<and> fl_Name (sc_filters s ! i) = n \<and>
   filter_ok (b_MaxCost (sc_bounds s)) (sc_filters s ! i)"
  using indexes_Some [of fl_Name "sc_filters s" "sc_filterIndex s" n i] by (auto simp: wf_schema_def)

lemma wf_schema_sort:
  "wf_schema s \<Longrightarrow> sc_sortIndex s n = Some i \<Longrightarrow>
   i < length (sc_sorts s) \<and> sd_Name (sc_sorts s ! i) = n \<and>
   sort_ok (b_MaxCost (sc_bounds s)) (sc_sorts s ! i)"
  using indexes_Some [of sd_Name "sc_sorts s" "sc_sortIndex s" n i] by (auto simp: wf_schema_def)

lemma wf_schema_relation:
  assumes wf: "wf_schema s" and node: "sc_relationIndex s p = Some node"
  shows "rn_depth node = relationshipDepth p"
    and "validName (rd_Name (rn_definition node))"
    and "0 \<le> rd_Cost (rn_definition node)" and "rd_Cost (rn_definition node) \<le> b_MaxCost (sc_bounds s)"
    and "rd_Resource (rn_definition node) \<noteq> sc_resource s"
    and "\<forall>q \<in> set (relationshipPrefixes p). sc_relationIndex s q \<noteq> None"
proof -
  let ?es = "rel_entries [] (sc_relationships s)"
  have idx: "sc_relationIndex s = map_of (map entry_node ?es)"
    and rels: "rels_ok (b_MaxCost (sc_bounds s)) {sc_resource s} (sc_relationships s)"
    using wf by (simp_all add: wf_schema_def)
  have "(p, node) \<in> set (map entry_node ?es)"
    by (rule map_of_SomeD) (use node idx in simp)
  then obtain r where e: "(p, r) \<in> set ?es"
    and n: "node = \<lparr>rn_definition = r, rn_depth = relationshipDepth p\<rparr>"
    by (auto simp: entry_node_def)
  show "rn_depth node = relationshipDepth p" by (simp add: n)
  show "validName (rd_Name (rn_definition node))" "0 \<le> rd_Cost (rn_definition node)"
    "rd_Cost (rn_definition node) \<le> b_MaxCost (sc_bounds s)"
    "rd_Resource (rn_definition node) \<noteq> sc_resource s"
    using rel_entries_nodes [OF rels e] by (auto simp: n)
  have "p \<in> fst ` set ?es" using e by force
  then have "set (relationshipPrefixes p) \<subseteq> fst ` set ?es"
    using rel_entries_prefixes [OF rels_ok_names [OF rels], of p "[]"] by simp
  moreover have "dom (sc_relationIndex s) = fst ` set ?es"
    unfolding idx by (simp add: dom_map_of_conv_image_fst image_image entry_node_def)
  ultimately show "\<forall>q \<in> set (relationshipPrefixes p). sc_relationIndex s q \<noteq> None" by blast
qed

end
