(* ===== verification/ApiPlan.thy ===== *)
theory ApiPlan
  imports SchemaCorrect
begin

text \<open>
  \<open>plan.go\<close> and the data types of \<open>compile.go\<close> it refers to: the compiled plan, its accessors (which
  return copies: in a model without aliasing, the values themselves) and \<open>cloneFilter\<close>.
\<close>

record Constraint =
  cn_Name :: string
  cn_Value :: Value
  cn_Protected :: bool

record Plan =
  pl_resource :: string
  pl_revision :: string
  pl_responseFields :: "string list"
  pl_executionFields :: "string list"
  pl_includes :: "string list"
  pl_filter :: "FilterExpr option"
  pl_constraints :: "Constraint list"
  pl_sorts :: "SortTerm list"
  pl_page :: PageRequest
  pl_cursor :: "CursorState option"
  pl_cost :: int
  pl_costExceeded :: bool
  pl_maxCanonical :: int

fun cloneFilter :: "FilterExpr \<Rightarrow> FilterExpr" where
  "cloneFilter (FilterExpr predicate logic children) =
     FilterExpr
       (map_option
         (\<lambda>p. \<lparr>pr_Name = pr_Name p, pr_Operator = pr_Operator p, pr_Values = pr_Values p\<rparr>)
         predicate)
       logic (map cloneFilter children)"

text \<open>A copy is equal to its original: the compiler's snapshots lose and change nothing.\<close>

lemma cloneFilter_id [simp]: "cloneFilter f = f"
proof (induction f)
  case (FilterExpr predicate logic children)
  then have "map cloneFilter children = children" by (simp add: map_idI)
  then show ?case by (cases predicate) simp_all
qed

definition Plan_Resource :: "Plan \<Rightarrow> string" where
  "Plan_Resource p = pl_resource p"

definition Plan_SchemaRevision :: "Plan \<Rightarrow> string" where
  "Plan_SchemaRevision p = pl_revision p"

definition Plan_ResponseFields :: "Plan \<Rightarrow> string list" where
  "Plan_ResponseFields p = pl_responseFields p"

definition Plan_Includes :: "Plan \<Rightarrow> string list" where
  "Plan_Includes p = pl_includes p"

definition Plan_Page :: "Plan \<Rightarrow> PageRequest" where
  "Plan_Page p = pl_page p"

definition Plan_Cost :: "Plan \<Rightarrow> int" where
  "Plan_Cost p = pl_cost p"

definition Plan_ExecutionFields :: "Plan \<Rightarrow> string list" where
  "Plan_ExecutionFields p = pl_executionFields p"

definition Plan_MandatoryConstraints :: "Plan \<Rightarrow> Constraint list" where
  "Plan_MandatoryConstraints p = pl_constraints p"

definition Plan_Filter :: "Plan \<Rightarrow> FilterExpr option" where
  "Plan_Filter p = map_option cloneFilter (pl_filter p)"

definition Plan_Sorts :: "Plan \<Rightarrow> SortTerm list" where
  "Plan_Sorts p = pl_sorts p"

definition Plan_Cursor :: "Plan \<Rightarrow> CursorState option" where
  "Plan_Cursor p =
     map_option
       (\<lambda>c. \<lparr>cs_Direction = cs_Direction c, cs_Positions = cs_Positions c, cs_Policy = cs_Policy c\<rparr>)
       (pl_cursor p)"

end
