(* ===== verification/ApiCompile.thy ===== *)
theory ApiCompile
  imports ApiPlan
begin

text \<open>
  \<open>compile.go\<close>: compilation of a request against a schema. The application's callbacks (the
  authorizer and the cursor decoder) may keep state, so both take a world of type \<open>'w\<close> and return the
  next one. The environment of a compilation is the violation collector, that world, and the trace of
  the callbacks made so far, in order.
\<close>

section \<open>Options and environment\<close>

type_synonym CapabilityKind = string

abbreviation CapabilityField :: CapabilityKind where "CapabilityField \<equiv> ''field''"
abbreviation CapabilityFilter :: CapabilityKind where "CapabilityFilter \<equiv> ''filter''"
abbreviation CapabilitySort :: CapabilityKind where "CapabilitySort \<equiv> ''sort''"
abbreviation CapabilityRelationship :: CapabilityKind where
  "CapabilityRelationship \<equiv> ''relationship''"

record Capability =
  cp_Kind :: CapabilityKind
  cp_Name :: string

type_synonym 'w AuthorizeFunc = "Capability \<Rightarrow> 'w \<Rightarrow> bool \<times> 'w"

text \<open>A decoder is given the token, the schema revision and the sorts; \<open>Inl\<close> is its error.\<close>

type_synonym 'w CursorDecoder =
  "string \<Rightarrow> string \<Rightarrow> SortTerm list \<Rightarrow> 'w \<Rightarrow> (string + CursorState) \<times> 'w"

record 'w CompileOptions =
  co_Authorize :: "'w AuthorizeFunc option"
  co_MandatoryConstraints :: "Constraint list"
  co_CursorDecoder :: "'w CursorDecoder option"

datatype callback =
  Asked Capability bool
| Decoded string string "SortTerm list" bool

record 'w env =
  en_col :: violationCollector
  en_world :: 'w
  en_trace :: "callback list"

definition en_add :: "ErrorCode \<Rightarrow> string \<Rightarrow> string \<Rightarrow> 'w env \<Rightarrow> 'w env" where
  "en_add code path message e = e\<lparr>en_col := vc_add code path message (en_col e)\<rparr>"

definition authorized ::
  "'w CompileOptions \<Rightarrow> CapabilityKind \<Rightarrow> string \<Rightarrow> 'w env \<Rightarrow> bool \<times> 'w env" where
  "authorized options kind name e =
     (case co_Authorize options of
        None \<Rightarrow> (True, e)
      | Some authorize \<Rightarrow>
          let capability = \<lparr>cp_Kind = kind, cp_Name = name\<rparr>;
              (allowed, w) = authorize capability (en_world e)
          in (allowed, e\<lparr>en_world := w, en_trace := en_trace e @ [Asked capability allowed]\<rparr>))"

section \<open>Cost\<close>

definition addPlanCost :: "Schema \<Rightarrow> int \<Rightarrow> Plan \<Rightarrow> Plan" where
  "addPlanCost schema amount plan =
     (if pl_costExceeded plan \<or> amount > go_sub (b_MaxCost (sc_bounds schema)) (pl_cost plan)
      then plan\<lparr>pl_costExceeded := True\<rparr>
      else plan\<lparr>pl_cost := go_add (pl_cost plan) amount\<rparr>)"

text \<open>A read of a missing map key yields the zero index.\<close>

definition index_or_zero :: "(string \<rightharpoonup> nat) \<Rightarrow> string \<Rightarrow> nat" where
  "index_or_zero idx n = (case idx n of None \<Rightarrow> 0 | Some i \<Rightarrow> i)"

fun filterCost :: "Schema \<Rightarrow> FilterExpr \<Rightarrow> int"
  and filterCosts :: "Schema \<Rightarrow> FilterExpr list \<Rightarrow> int \<Rightarrow> int" where
  "filterCost schema (FilterExpr predicate logic children) =
     (case predicate of
        Some p \<Rightarrow> fl_Cost (sc_filters schema ! index_or_zero (sc_filterIndex schema) (pr_Name p))
      | None \<Rightarrow> filterCosts schema children 0)"
| "filterCosts schema [] cost = cost"
| "filterCosts schema (child # rest) cost =
     (let childCost = filterCost schema child in
      if childCost > go_sub maxInt cost then maxInt
      else filterCosts schema rest (go_add cost childCost))"

section \<open>Mandatory constraints\<close>

definition compileConstraint ::
  "Schema \<Rightarrow> nat \<Rightarrow> Constraint \<Rightarrow> string set \<times> 'w env \<Rightarrow> string set \<times> 'w env" where
  "compileConstraint schema index constraint = (\<lambda>(seen, e).
     let path = indexed_path ''constraints'' index;
         e = (if \<not> validName (cn_Name constraint) \<or> \<not> validType (v_type (cn_Value constraint))
              then en_add CodeInvalidElement path ''mandatory constraint is invalid'' e else e);
         e = (if cn_Name constraint \<in> seen
              then en_add CodeConflict path ''mandatory constraint is duplicated'' e else e);
         e = (if int (length (v_text (cn_Value constraint))) > b_MaxStringBytes (sc_bounds schema)
              then en_add CodeLimitExceeded path ''mandatory constraint exceeds the size limit'' e
              else e)
     in (insert (cn_Name constraint) seen, e))"

definition compileConstraints ::
  "Schema \<Rightarrow> Constraint list \<Rightarrow> Plan \<times> 'w env \<Rightarrow> Plan \<times> 'w env" where
  "compileConstraints schema constraints = (\<lambda>(plan, e).
     let (constraints, e) =
           (if int (length constraints) > b_MaxValues (sc_bounds schema)
            then (take (nat (b_MaxValues (sc_bounds schema))) constraints,
                  en_add CodeLimitExceeded ''constraints''
                    ''mandatory constraint count exceeds the limit'' e)
            else (constraints, e));
         plan = plan\<lparr>pl_constraints := constraints\<rparr>;
         (seen, e) = range_loop (compileConstraint schema) 0 constraints ({}, e)
     in (plan, e))"

section \<open>Fields\<close>

definition compileField ::
  "Schema \<Rightarrow> 'w CompileOptions \<Rightarrow> nat \<Rightarrow> string \<Rightarrow> string set \<times> Plan \<times> 'w env \<Rightarrow>
   string set \<times> Plan \<times> 'w env" where
  "compileField schema options index name = (\<lambda>(seen, plan, e).
     let path = indexed_path ''fields'' index in
     (case sc_fieldIndex schema name of
        None \<Rightarrow> (seen, plan, en_add CodeInvalidElement path ''field is not available'' e)
      | Some definitionIndex \<Rightarrow>
          if name \<in> seen
          then (seen, plan, en_add CodeConflict path ''field is duplicated'' e)
          else
            let seen = insert name seen in
            if fd_Deprecated (sc_fields schema ! definitionIndex)
            then (seen, plan, en_add CodeUnsupported path ''field is deprecated'' e)
            else
              let (allowed, e) = authorized options CapabilityField name e in
              if \<not> allowed
              then (seen, plan, en_add CodeAuthorization path ''capability is not available'' e)
              else
                (seen,
                 addPlanCost schema (fd_Cost (sc_fields schema ! definitionIndex))
                   (plan\<lparr>pl_responseFields := pl_responseFields plan @ [name]\<rparr>),
                 e)))"

definition requireField ::
  "Schema \<Rightarrow> nat \<Rightarrow> FieldDefinition \<Rightarrow> string set \<times> Plan \<Rightarrow> string set \<times> Plan" where
  "requireField schema index field = (\<lambda>(executionSeen, plan).
     if fd_Required field \<and> fd_Name field \<notin> executionSeen
     then (insert (fd_Name field) executionSeen,
           addPlanCost schema (fd_Cost field)
             (plan\<lparr>pl_executionFields := pl_executionFields plan @ [fd_Name field]\<rparr>))
     else (executionSeen, plan))"

definition compileFields ::
  "Schema \<Rightarrow> string list Optional \<Rightarrow> 'w CompileOptions \<Rightarrow> Plan \<times> 'w env \<Rightarrow> Plan \<times> 'w env" where
  "compileFields schema requested options = (\<lambda>(plan, e).
     let names =
           (case requested of
              Some names \<Rightarrow> names
            | None \<Rightarrow> map fd_Name (filter fd_Default (sc_fields schema)));
         (names, e) =
           (if int (length names) > b_MaxFields (sc_bounds schema)
            then (take (nat (b_MaxFields (sc_bounds schema))) names,
                  en_add CodeLimitExceeded ''fields'' ''field count exceeds the limit'' e)
            else (names, e));
         (seen, plan, e) = range_loop (compileField schema options) 0 names ({}, plan, e);
         executionSeen = set (pl_responseFields plan);
         (executionSeen, plan) =
           range_loop (requireField schema) 0 (sc_fields schema) (executionSeen, plan);
         plan = plan\<lparr>pl_executionFields := pl_executionFields plan @ pl_responseFields plan\<rparr>
     in (plan, e))"

section \<open>Includes\<close>

text \<open>The edges of one path: the loop breaks at the first denied edge.\<close>

fun compileEdges ::
  "Schema \<Rightarrow> 'w CompileOptions \<Rightarrow> string \<Rightarrow> string list \<Rightarrow> string set \<times> Plan \<times> 'w env \<Rightarrow>
   bool \<times> string set \<times> Plan \<times> 'w env" where
  "compileEdges schema options path [] s = (True, s)"
| "compileEdges schema options path (edge # edges) (seenEdges, plan, e) =
     (if edge \<in> seenEdges then compileEdges schema options path edges (seenEdges, plan, e)
      else
        let (allowed, e) = authorized options CapabilityRelationship edge e in
        if \<not> allowed
        then (False, seenEdges, plan,
              en_add CodeAuthorization path ''capability is not available'' e)
        else
          compileEdges schema options path edges
            (insert edge seenEdges,
             addPlanCost schema
               (case sc_relationIndex schema edge of
                  None \<Rightarrow> 0
                | Some node \<Rightarrow> rd_Cost (rn_definition node)) plan,
             e))"

definition compileInclude ::
  "Schema \<Rightarrow> 'w CompileOptions \<Rightarrow> nat \<Rightarrow> string \<Rightarrow> string set \<times> string set \<times> Plan \<times> 'w env \<Rightarrow>
   string set \<times> string set \<times> Plan \<times> 'w env" where
  "compileInclude schema options index name = (\<lambda>(seen, seenEdges, plan, e).
     let path = indexed_path ''includes'' index in
     (case sc_relationIndex schema name of
        None \<Rightarrow>
          (seen, seenEdges, plan,
           en_add CodeInvalidElement path ''relationship is not available'' e)
      | Some node \<Rightarrow>
          if int (rn_depth node) > b_MaxIncludeDepth (sc_bounds schema)
          then (seen, seenEdges, plan,
                en_add CodeLimitExceeded path ''include depth exceeds the limit'' e)
          else if name \<in> seen
          then (seen, seenEdges, plan,
                en_add CodeConflict path ''relationship is duplicated'' e)
          else
            let seen = insert name seen;
                (allowed, seenEdges, plan, e) =
                  compileEdges schema options path (relationshipPrefixes name) (seenEdges, plan, e)
            in if \<not> allowed then (seen, seenEdges, plan, e)
               else (seen, seenEdges, plan\<lparr>pl_includes := pl_includes plan @ [name]\<rparr>, e)))"

definition compileIncludes ::
  "Schema \<Rightarrow> string list Optional \<Rightarrow> 'w CompileOptions \<Rightarrow> Plan \<times> 'w env \<Rightarrow> Plan \<times> 'w env" where
  "compileIncludes schema requested options = (\<lambda>(plan, e).
     (case requested of
        None \<Rightarrow> (plan, e)
      | Some includes \<Rightarrow>
          let (includes, e) =
                (if int (length includes) > b_MaxIncludes (sc_bounds schema)
                 then (take (nat (b_MaxIncludes (sc_bounds schema))) includes,
                       en_add CodeLimitExceeded ''includes'' ''include count exceeds the limit'' e)
                 else (includes, e));
              (seen, seenEdges, plan, e) =
                range_loop (compileInclude schema options) 0 includes ({}, {}, plan, e)
          in (plan, e)))"

section \<open>Filters\<close>

text \<open>
  The counters of one filter compilation: the nodes and values counted so far and the pairs of name
  and operator already used, keyed by the two texts with a zero byte between them.
\<close>

record 'w filter_state =
  fs_nodes :: int
  fs_values :: int
  fs_seen :: "string set"
  fs_env :: "'w env"

definition fs_add :: "ErrorCode \<Rightarrow> string \<Rightarrow> string \<Rightarrow> 'w filter_state \<Rightarrow> 'w filter_state" where
  "fs_add code path message s = s\<lparr>fs_env := en_add code path message (fs_env s)\<rparr>"

definition pair_key :: "string \<Rightarrow> string \<Rightarrow> string" where
  "pair_key a b = a @ CHR 0x00 # b"

definition containsOperator :: "Operator list \<Rightarrow> Operator \<Rightarrow> bool" where
  "containsOperator operators wanted \<longleftrightarrow> wanted \<in> set operators"

definition validatePredicateValue ::
  "Schema \<Rightarrow> FilterDefinition \<Rightarrow> string \<Rightarrow> nat \<Rightarrow> Value \<Rightarrow> string set \<times> 'w env \<Rightarrow>
   string set \<times> 'w env" where
  "validatePredicateValue schema definition' path index value = (\<lambda>(seen, e).
     let key = pair_key (v_type value) (v_text value);
         e = (if key \<in> seen
              then en_add CodeConflict path ''filter value is duplicated'' e else e);
         e = (if v_type value \<noteq> fl_Type definition'
              then en_add CodeInvalidElement path ''filter value type does not match'' e else e);
         e = (if int (length (v_text value)) > b_MaxStringBytes (sc_bounds schema)
              then en_add CodeLimitExceeded path ''filter value exceeds the size limit'' e else e);
         e = (if v_type value = TypeString \<and> v_text value = [] \<and> \<not> fl_AllowEmpty definition'
              then en_add CodeInvalidElement path ''empty filter value is not allowed'' e else e)
     in (insert key seen, e))"

text \<open>The operand count of an operator; \<open>-1\<close> is any number within the membership bound.\<close>

definition wanted_values :: "Operator \<Rightarrow> int" where
  "wanted_values operator =
     (if operator = OpIsNull then 0
      else if operator = OpBetween then 2
      else if operator = OpIn \<or> operator = OpNotIn then - 1
      else 1)"

definition validatePredicateValues ::
  "Schema \<Rightarrow> FilterDefinition \<Rightarrow> Predicate \<Rightarrow> string \<Rightarrow> 'w env \<Rightarrow> 'w env" where
  "validatePredicateValues schema definition' predicate path e =
     (let want = wanted_values (pr_Operator predicate);
          count = int (length (pr_Values predicate));
          e = (if (pr_Operator predicate = OpIn \<or> pr_Operator predicate = OpNotIn) \<and>
                  (count = 0 \<or> count > b_MaxMembership (sc_bounds schema))
               then en_add CodeLimitExceeded path
                      ''membership value count is outside its bounds'' e
               else e);
          e = (if want \<ge> 0 \<and> count \<noteq> want
               then en_add CodeConflict path ''filter has an invalid value count'' e else e)
      in snd (range_loop (validatePredicateValue schema definition' path) 0 (pr_Values predicate)
               ({}, e)))"

text \<open>The predicate leaf of \<open>compileFilterNode\<close>; \<open>None\<close> is the nil it returns after a violation.\<close>

definition compilePredicate ::
  "Schema \<Rightarrow> 'w CompileOptions \<Rightarrow> string \<Rightarrow> FilterExpr \<Rightarrow> Predicate \<Rightarrow> 'w filter_state \<Rightarrow>
   FilterExpr option \<times> 'w filter_state" where
  "compilePredicate schema options path node predicate s =
     (case sc_filterIndex schema (pr_Name predicate) of
        None \<Rightarrow> (None, fs_add CodeInvalidElement path ''filter is not available'' s)
      | Some definitionIndex \<Rightarrow>
          let (allowed, e) = authorized options CapabilityFilter (pr_Name predicate) (fs_env s);
              s = s\<lparr>fs_env := e\<rparr>;
              definition' = sc_filters schema ! definitionIndex;
              key = pair_key (pr_Name predicate) (pr_Operator predicate) in
          if \<not> allowed
          then (None, fs_add CodeAuthorization path ''capability is not available'' s)
          else if fl_Deprecated definition'
          then (None, fs_add CodeUnsupported path ''filter is deprecated'' s)
          else if key \<in> fs_seen s
          then (None, fs_add CodeConflict path ''filter is duplicated'' s)
          else
            let s = s\<lparr>fs_seen := insert key (fs_seen s)\<rparr>;
                s = (if \<not> containsOperator (fl_Operators definition') (pr_Operator predicate)
                     then fs_add CodeUnsupported path ''filter operation is not available'' s
                     else s);
                count = int (length (pr_Values predicate)) in
            if count > b_MaxValues (sc_bounds schema) - fs_values s
            then (None, fs_add CodeLimitExceeded path ''filter value count exceeds the limit'' s)
            else
              (Some (cloneFilter node),
               s\<lparr>fs_values := fs_values s + count,
                 fs_env := validatePredicateValues schema definition' predicate path (fs_env s)\<rparr>))"

fun compileFilterNode ::
  "Schema \<Rightarrow> 'w CompileOptions \<Rightarrow> string \<Rightarrow> int \<Rightarrow> FilterExpr \<Rightarrow> 'w filter_state \<Rightarrow>
   FilterExpr option \<times> 'w filter_state"
and compileFilterChildren ::
  "Schema \<Rightarrow> 'w CompileOptions \<Rightarrow> string \<Rightarrow> int \<Rightarrow> nat \<Rightarrow> FilterExpr list \<Rightarrow> FilterExpr list \<Rightarrow>
   'w filter_state \<Rightarrow> FilterExpr list \<times> 'w filter_state" where
  "compileFilterNode schema options path depth (FilterExpr predicate logic children) s =
     (let s = s\<lparr>fs_nodes := fs_nodes s + 1\<rparr> in
      if depth > b_MaxFilterDepth (sc_bounds schema)
      then (None, fs_add CodeLimitExceeded path ''filter depth exceeds the limit'' s)
      else if (predicate = None) = (length children = 0)
      then (None, fs_add CodeConflict path
                    ''filter must contain exactly one predicate or logical group'' s)
      else
        (case predicate of
           Some p \<Rightarrow>
             compilePredicate schema options path (FilterExpr predicate logic children) p s
         | None \<Rightarrow>
             let s = (if logic \<notin> sc_allowedLogic schema
                      then fs_add CodeUnsupported path ''logical operation is not available'' s
                      else s);
                 s = (if logic = LogicNot \<and> length children \<noteq> 1
                      then fs_add CodeConflict path ''not requires exactly one child'' s
                      else s);
                 (kept, s) =
                   compileFilterChildren schema options path depth 0 children [] s
             in (Some (FilterExpr None logic kept), s)))"
| "compileFilterChildren schema options path depth index [] kept s = (kept, s)"
| "compileFilterChildren schema options path depth index (child # rest) kept s =
     (if fs_nodes s \<ge> b_MaxFilterNodes (sc_bounds schema)
      then (kept, fs_add CodeLimitExceeded path ''filter node count exceeds the limit'' s)
      else
        let (result, s) =
              compileFilterNode schema options (indexed_path (path @ ''.children'') index)
                (depth + 1) child s
        in compileFilterChildren schema options path depth (Suc index) rest
             (case result of None \<Rightarrow> kept | Some child' \<Rightarrow> kept @ [child']) s)"

definition compileFilter ::
  "Schema \<Rightarrow> FilterExpr option \<Rightarrow> 'w CompileOptions \<Rightarrow> 'w env \<Rightarrow> FilterExpr option \<times> 'w env" where
  "compileFilter schema filter' options e =
     (case filter' of
        None \<Rightarrow> (None, e)
      | Some root \<Rightarrow>
          let (result, s) =
                compileFilterNode schema options ''filter'' 1 root
                  \<lparr>fs_nodes = 0, fs_values = 0, fs_seen = {}, fs_env = e\<rparr>
          in (result, fs_env s))"

section \<open>Sorts\<close>

definition compileSort ::
  "Schema \<Rightarrow> 'w CompileOptions \<Rightarrow> nat \<Rightarrow> SortTerm \<Rightarrow> string set \<times> SortTerm list \<times> 'w env \<Rightarrow>
   string set \<times> SortTerm list \<times> 'w env" where
  "compileSort schema options index term' = (\<lambda>(seen, result, e).
     let path = indexed_path ''sorts'' index in
     (case sc_sortIndex schema (st_Name term') of
        None \<Rightarrow> (seen, result, en_add CodeInvalidElement path ''sort is not available'' e)
      | Some definitionIndex \<Rightarrow>
          if st_Name term' \<in> seen
          then (seen, result, en_add CodeConflict path ''sort is duplicated'' e)
          else
            let seen = insert (st_Name term') seen in
            if st_Direction term' \<noteq> Ascending \<and> st_Direction term' \<noteq> Descending
            then (seen, result, en_add CodeInvalidElement path ''sort direction is invalid'' e)
            else
              let (allowed, e) = authorized options CapabilitySort (st_Name term') e in
              if \<not> allowed
              then (seen, result,
                    en_add CodeAuthorization path ''capability is not available'' e)
              else if st_Nulls term' \<noteq> [] \<and> st_Nulls term' \<noteq> NullsFirst \<and> st_Nulls term' \<noteq> NullsLast
              then (seen, result,
                    en_add CodeInvalidElement path ''sort null ordering is invalid'' e)
              else
                let declaredNulls = sd_Nulls (sc_sorts schema ! definitionIndex) in
                if st_Nulls term' \<noteq> [] \<and> st_Nulls term' \<noteq> declaredNulls
                then (seen, result,
                      en_add CodeUnsupported path ''sort null ordering is not available'' e)
                else
                  (seen,
                   result @ [if st_Nulls term' = [] then term'\<lparr>st_Nulls := declaredNulls\<rparr>
                             else term'],
                   e)))"

definition compileSorts ::
  "Schema \<Rightarrow> SortTerm list Optional \<Rightarrow> 'w CompileOptions \<Rightarrow> 'w env \<Rightarrow> SortTerm list \<times> 'w env" where
  "compileSorts schema requested options e =
     (let sorts = (case requested of Some sorts \<Rightarrow> sorts | None \<Rightarrow> sc_defaultSort schema);
          (sorts, e) =
            (if int (length sorts) > b_MaxSorts (sc_bounds schema)
             then (take (nat (b_MaxSorts (sc_bounds schema))) sorts,
                   en_add CodeLimitExceeded ''sorts'' ''sort count exceeds the limit'' e)
             else (sorts, e));
          (seen, result, e) = range_loop (compileSort schema options) 0 sorts ({}, [], e)
      in (result, e))"

section \<open>Pages\<close>

definition normalizePage :: "Schema \<Rightarrow> PageRequest \<Rightarrow> PageRequest" where
  "normalizePage schema page =
     (let page = (if pg_Mode page = [] then page\<lparr>pg_Mode := PageNone\<rparr> else page) in
      if pg_Mode page \<noteq> PageNone \<and> pg_Size page = 0
      then page\<lparr>pg_Size := pd_DefaultPageSize (sc_pagination schema)\<rparr> else page)"

text \<open>
  The checks of \<open>compilePage\<close> on the page before the sorts are completed. The source interleaves the
  two normalisations with the first checks, which do not read what they change.
\<close>

definition checkPage :: "Schema \<Rightarrow> PageRequest \<Rightarrow> 'w env \<Rightarrow> 'w env" where
  "checkPage schema page e =
     (let pagination = sc_pagination schema;
          bounds = sc_bounds schema;
          mode = pg_Mode page;
          e = (if mode = PageCursor \<and> \<not> pd_Cursor pagination
               then en_add CodeUnsupported ''page.mode'' ''cursor pagination is not available'' e
               else e);
          e = (if mode = PageOffset \<and> \<not> pd_Offset pagination
               then en_add CodeUnsupported ''page.mode'' ''offset pagination is not available'' e
               else e);
          e = (if mode = PageOffset \<and>
                  (pg_Offset page < 0 \<or> pg_Offset page > pd_MaxOffset pagination)
               then en_add CodeLimitExceeded ''page.offset'' ''offset is outside its bounds'' e
               else e);
          e = (if pg_Size page < 0 \<or> pg_Size page > b_MaxPageSize bounds
               then en_add CodeLimitExceeded ''page.size'' ''page size is outside its bounds'' e
               else e);
          e = (if pg_After page \<noteq> [] \<and> pg_Before page \<noteq> []
               then en_add CodeConflict ''page'' ''after and before cursors conflict'' e else e);
          e = (if int (length (pg_After page)) > b_MaxCursorBytes bounds
               then en_add CodeLimitExceeded ''page.after'' ''cursor exceeds the size limit'' e
               else e);
          e = (if int (length (pg_Before page)) > b_MaxCursorBytes bounds
               then en_add CodeLimitExceeded ''page.before'' ''cursor exceeds the size limit'' e
               else e);
          e = (if mode \<noteq> PageNone \<and> mode \<noteq> PageCursor \<and> mode \<noteq> PageOffset
               then en_add CodeUnsupported ''page.mode'' ''pagination mode is not available'' e
               else e)
      in if mode = PageNone then
           (if pg_Size page \<noteq> 0 \<or> pg_After page \<noteq> [] \<or> pg_Before page \<noteq> [] \<or> pg_Offset page \<noteq> 0
            then en_add CodeConflict ''page'' ''pagination state requires an active mode'' e
            else e)
         else if mode = PageCursor then
           (if pg_Offset page \<noteq> 0
            then en_add CodeConflict ''page.offset'' ''offset conflicts with cursor pagination'' e
            else e)
         else if mode = PageOffset then
           (if pg_After page \<noteq> [] \<or> pg_Before page \<noteq> []
            then en_add CodeConflict ''page'' ''cursor conflicts with offset pagination'' e
            else e)
         else e)"

text \<open>The search for the tie-breaker: the loop returns at the first one declared.\<close>

fun completeOrder ::
  "Schema \<Rightarrow> 'w CompileOptions \<Rightarrow> SortDefinition list \<Rightarrow> SortTerm list \<Rightarrow> 'w env \<Rightarrow>
   SortTerm list \<times> 'w env" where
  "completeOrder schema options [] sorts e = (sorts, e)"
| "completeOrder schema options (definition' # definitions) sorts e =
     (if sd_TieBreaker definition' then
        (if sd_Name definition' \<notin> st_Name ` set sorts then
           (if int (length sorts) \<ge> b_MaxSorts (sc_bounds schema)
            then (sorts,
                  en_add CodeLimitExceeded ''sorts''
                    ''cursor total order exceeds the sort limit'' e)
            else
              let (allowed, e) = authorized options CapabilitySort (sd_Name definition') e in
              if \<not> allowed
              then (sorts,
                    en_add CodeAuthorization ''sorts'' ''capability is not available'' e)
              else
                (sorts @ [\<lparr>st_Name = sd_Name definition', st_Direction = Ascending,
                           st_Nulls = sd_Nulls definition'\<rparr>], e))
         else (sorts, e))
      else completeOrder schema options definitions sorts e)"

definition compilePage ::
  "Schema \<Rightarrow> PageRequest \<Rightarrow> SortTerm list \<Rightarrow> 'w CompileOptions \<Rightarrow> 'w env \<Rightarrow>
   PageRequest \<times> SortTerm list \<times> 'w env" where
  "compilePage schema page sorts options e =
     (let page = normalizePage schema page;
          e = checkPage schema page e;
          (sorts, e) =
            (if pg_Mode page = PageCursor
             then completeOrder schema options (sc_sorts schema) sorts e
             else (sorts, e))
      in (page, sorts, e))"

section \<open>Cursors\<close>

text \<open>The positions of a decoded state against the plan's sorts: the loop returns at the first bad one.\<close>

fun positionsOk :: "Schema \<Rightarrow> Value list \<Rightarrow> SortTerm list \<Rightarrow> bool" where
  "positionsOk schema (position # rest) (term' # sorts) =
     (let definition' = sc_sorts schema ! index_or_zero (sc_sortIndex schema) (st_Name term') in
      if int (length (v_text position)) > b_MaxStringBytes (sc_bounds schema) \<or>
         (v_type position \<noteq> TypeNull \<and> v_type position \<noteq> sd_Type definition')
      then False
      else positionsOk schema rest sorts)"
| "positionsOk schema _ _ = True"

definition cursorFailure :: "'w env \<Rightarrow> 'w env" where
  "cursorFailure e = en_add CodeCursorFailure ''page'' ''cursor could not be verified'' e"

definition compileCursor :: "Schema \<Rightarrow> 'w CompileOptions \<Rightarrow> Plan \<times> 'w env \<Rightarrow> Plan \<times> 'w env" where
  "compileCursor schema options = (\<lambda>(plan, e).
     let page = pl_page plan in
     if pg_Mode page \<noteq> PageCursor \<or> (pg_After page = [] \<and> pg_Before page = []) \<or>
        (pg_After page \<noteq> [] \<and> pg_Before page \<noteq> [])
     then (plan, e)
     else
       let (token, expectedDirection) =
             (if pg_Before page \<noteq> [] then (pg_Before page, CursorBackward)
              else (pg_After page, CursorForward)) in
       (case co_CursorDecoder options of
          None \<Rightarrow> (plan, cursorFailure e)
        | Some decode \<Rightarrow>
            let (answer, w) = decode token (sc_revision schema) (pl_sorts plan) (en_world e);
                e = e\<lparr>en_world := w,
                      en_trace := en_trace e @
                        [Decoded token (sc_revision schema) (pl_sorts plan) (\<not> isl answer)]\<rparr> in
            (case answer of
               Inl err \<Rightarrow> (plan, cursorFailure e)
             | Inr state \<Rightarrow>
                 if cs_Direction state \<noteq> expectedDirection \<or>
                    length (cs_Positions state) \<noteq> length (pl_sorts plan) \<or>
                    int (length (cs_Policy state)) > b_MaxStringBytes (sc_bounds schema)
                 then (plan, cursorFailure e)
                 else if \<not> positionsOk schema (cs_Positions state) (pl_sorts plan)
                 then (plan, cursorFailure e)
                 else
                   (plan\<lparr>pl_cursor := Some \<lparr>cs_Direction = cs_Direction state,
                                            cs_Positions = cs_Positions state,
                                            cs_Policy = cs_Policy state\<rparr>,
                         pl_page := page\<lparr>pg_After := [], pg_Before := []\<rparr>\<rparr>,
                    e))))"

section \<open>Compile\<close>

definition initialPlan :: "Schema \<Rightarrow> Request \<Rightarrow> Plan" where
  "initialPlan schema request =
     \<lparr>pl_resource = sc_resource schema, pl_revision = sc_revision schema,
      pl_responseFields = [], pl_executionFields = [], pl_includes = [], pl_filter = None,
      pl_constraints = [], pl_sorts = [], pl_page = rq_Page request, pl_cursor = None,
      pl_cost = 1, pl_costExceeded = False,
      pl_maxCanonical = b_MaxCanonicalBytes (sc_bounds schema)\<rparr>"

definition sortCost :: "Schema \<Rightarrow> nat \<Rightarrow> SortTerm \<Rightarrow> Plan \<Rightarrow> Plan" where
  "sortCost schema index term' plan =
     addPlanCost schema
       (sd_Cost (sc_sorts schema ! index_or_zero (sc_sortIndex schema) (st_Name term'))) plan"

text \<open>The charges made after the cursor: the filter, then every sort term of the plan.\<close>

definition chargePlan :: "Schema \<Rightarrow> Plan \<Rightarrow> Plan" where
  "chargePlan schema plan =
     (let plan =
            (case pl_filter plan of
               None \<Rightarrow> plan
             | Some f \<Rightarrow> addPlanCost schema (filterCost schema f) plan)
      in range_loop (sortCost schema) 0 (pl_sorts plan) plan)"

definition compileAll ::
  "Schema \<Rightarrow> Request \<Rightarrow> 'w CompileOptions \<Rightarrow> 'w env \<Rightarrow> Plan \<times> 'w env" where
  "compileAll schema request options e =
     (let e = (case rq_SchemaRevision request of
                 None \<Rightarrow> e
               | Some revision \<Rightarrow>
                   if revision \<noteq> sc_revision schema
                   then en_add CodeVersionMismatch ''schema_revision''
                          ''schema revision does not match'' e
                   else e);
          (plan, e) =
            compileConstraints schema (co_MandatoryConstraints options)
              (initialPlan schema request, e);
          (plan, e) = compileFields schema (rq_Fields request) options (plan, e);
          (plan, e) = compileIncludes schema (rq_Includes request) options (plan, e);
          (filter', e) = compileFilter schema (rq_Filter request) options e;
          (sorts, e) = compileSorts schema (rq_Sorts request) options e;
          (page, sorts, e) = compilePage schema (pl_page plan) sorts options e;
          (plan, e) =
            compileCursor schema options
              (plan\<lparr>pl_filter := filter', pl_sorts := sorts, pl_page := page\<rparr>, e);
          plan = chargePlan schema plan;
          e = (if pl_costExceeded plan \<or> pl_cost plan > b_MaxCost (sc_bounds schema)
               then en_add CodeCostLimit ''query'' ''projected query cost exceeds the limit'' e
               else e)
      in (plan, e))"

text \<open>
  \<open>Compile\<close> starts in a world and returns, next to the plan or the violations, the world after its
  callbacks and the trace of the calls it made; \<open>None\<close> is a nil schema.
\<close>

definition Compile ::
  "Schema option \<Rightarrow> Request \<Rightarrow> 'w CompileOptions \<Rightarrow> 'w \<Rightarrow>
   (Violations + Plan) \<times> 'w \<times> callback list" where
  "Compile schema request options w =
     (case schema of
        None \<Rightarrow>
          (Inl [\<lparr>vi_Code = CodeInvalidElement, vi_Path = ''schema'',
                 vi_Message = ''schema is required''\<rparr>], w, [])
      | Some schema \<Rightarrow>
          let (plan, e) =
                compileAll schema request options
                  \<lparr>en_col = vc_new (b_MaxErrors (sc_bounds schema)), en_world = w, en_trace = []\<rparr>
          in ((case vc_err (en_col e) of Some err \<Rightarrow> Inl err | None \<Rightarrow> Inr plan),
              en_world e, en_trace e))"

end
