(* ===== verification/CompileSelect.thy ===== *)
theory CompileSelect
  imports ApiCompile
begin

text \<open>
  The selection loops of the compiler: fields, include paths and sorts. Each loop checks every
  requested element and asks the authorizer about it; the locale \<open>selecting\<close> is the contract the
  field and the sort loop share. The lemmas say when a loop reports nothing, and what it has then
  computed: its result, its charges, and the sequence of authorizer calls it made.
\<close>

section \<open>Environments\<close>

abbreviation en_clean :: "'w env \<Rightarrow> bool" where
  "en_clean e \<equiv> clean (en_col e)"

lemma en_add_clean [simp]: "\<not> en_clean (en_add code path message e)"
  by (simp add: en_add_def)

lemma en_add_col [simp]: "en_col (en_add code path message e) = vc_add code path message (en_col e)"
  by (simp add: en_add_def)

lemma authorized_col [simp]: "en_col (snd (authorized options kind name e)) = en_col e"
  by (simp add: authorized_def Let_def case_prod_beta split: option.splits)

lemma authorized_col_eq: "authorized options kind name e = (b, e') \<Longrightarrow> en_col e' = en_col e"
  by (metis authorized_col snd_conv)

text \<open>Asking for a list of capabilities in order, stopping at the first that is denied.\<close>

abbreviation cap :: "CapabilityKind \<Rightarrow> string \<Rightarrow> Capability" where
  "cap kind name \<equiv> \<lparr>cp_Kind = kind, cp_Name = name\<rparr>"

fun ask_all :: "'w CompileOptions \<Rightarrow> Capability list \<Rightarrow> 'w env \<Rightarrow> bool \<times> 'w env" where
  "ask_all options [] e = (True, e)"
| "ask_all options (c # cs) e =
     (let (allowed, e) = authorized options (cp_Kind c) (cp_Name c) e in
      if allowed then ask_all options cs e else (False, e))"

lemma ask_all_append:
  "ask_all options (cs @ ds) e =
     (if fst (ask_all options cs e) then ask_all options ds (snd (ask_all options cs e))
      else ask_all options cs e)"
  by (induction cs arbitrary: e) (auto simp: Let_def case_prod_beta)

lemma ask_all_col [simp]: "en_col (snd (ask_all options cs e)) = en_col e"
  by (induction cs arbitrary: e) (auto simp: Let_def case_prod_beta)

lemma ask_all_single [simp]:
  "ask_all options [c] e = authorized options (cp_Kind c) (cp_Name c) e"
  by (simp add: Let_def case_prod_beta prod_eq_iff)

section \<open>Charges\<close>

definition charge :: "Schema \<Rightarrow> int list \<Rightarrow> Plan \<Rightarrow> Plan" where
  "charge schema amounts plan = fold (addPlanCost schema) amounts plan"

lemma charge_simps [simp]:
  "charge schema [] plan = plan"
  "charge schema (a # as) plan = charge schema as (addPlanCost schema a plan)"
  by (simp_all add: charge_def)

lemma charge_append: "charge schema (as @ bs) plan = charge schema bs (charge schema as plan)"
  by (simp add: charge_def)

lemma addPlanCost_frame [simp]:
  "addPlanCost schema a (plan\<lparr>pl_responseFields := x\<rparr>) = (addPlanCost schema a plan)\<lparr>pl_responseFields := x\<rparr>"
  "addPlanCost schema a (plan\<lparr>pl_executionFields := x\<rparr>) = (addPlanCost schema a plan)\<lparr>pl_executionFields := x\<rparr>"
  "addPlanCost schema a (plan\<lparr>pl_includes := x\<rparr>) = (addPlanCost schema a plan)\<lparr>pl_includes := x\<rparr>"
  "addPlanCost schema a (plan\<lparr>pl_filter := y\<rparr>) = (addPlanCost schema a plan)\<lparr>pl_filter := y\<rparr>"
  "addPlanCost schema a (plan\<lparr>pl_constraints := cs\<rparr>) = (addPlanCost schema a plan)\<lparr>pl_constraints := cs\<rparr>"
  "addPlanCost schema a (plan\<lparr>pl_sorts := ts\<rparr>) = (addPlanCost schema a plan)\<lparr>pl_sorts := ts\<rparr>"
  "addPlanCost schema a (plan\<lparr>pl_page := pg\<rparr>) = (addPlanCost schema a plan)\<lparr>pl_page := pg\<rparr>"
  "addPlanCost schema a (plan\<lparr>pl_cursor := cu\<rparr>) = (addPlanCost schema a plan)\<lparr>pl_cursor := cu\<rparr>"
  by (simp_all add: addPlanCost_def)

lemma addPlanCost_keeps [simp]:
  "pl_resource (addPlanCost schema a plan) = pl_resource plan"
  "pl_revision (addPlanCost schema a plan) = pl_revision plan"
  "pl_responseFields (addPlanCost schema a plan) = pl_responseFields plan"
  "pl_executionFields (addPlanCost schema a plan) = pl_executionFields plan"
  "pl_includes (addPlanCost schema a plan) = pl_includes plan"
  "pl_filter (addPlanCost schema a plan) = pl_filter plan"
  "pl_constraints (addPlanCost schema a plan) = pl_constraints plan"
  "pl_sorts (addPlanCost schema a plan) = pl_sorts plan"
  "pl_page (addPlanCost schema a plan) = pl_page plan"
  "pl_cursor (addPlanCost schema a plan) = pl_cursor plan"
  "pl_maxCanonical (addPlanCost schema a plan) = pl_maxCanonical plan"
  by (simp_all add: addPlanCost_def)

lemma charge_frame [simp]:
  "charge schema as (plan\<lparr>pl_responseFields := x\<rparr>) = (charge schema as plan)\<lparr>pl_responseFields := x\<rparr>"
  "charge schema as (plan\<lparr>pl_executionFields := x\<rparr>) = (charge schema as plan)\<lparr>pl_executionFields := x\<rparr>"
  "charge schema as (plan\<lparr>pl_includes := x\<rparr>) = (charge schema as plan)\<lparr>pl_includes := x\<rparr>"
  "charge schema as (plan\<lparr>pl_filter := y\<rparr>) = (charge schema as plan)\<lparr>pl_filter := y\<rparr>"
  "charge schema as (plan\<lparr>pl_constraints := cs\<rparr>) = (charge schema as plan)\<lparr>pl_constraints := cs\<rparr>"
  "charge schema as (plan\<lparr>pl_sorts := ts\<rparr>) = (charge schema as plan)\<lparr>pl_sorts := ts\<rparr>"
  "charge schema as (plan\<lparr>pl_page := pg\<rparr>) = (charge schema as plan)\<lparr>pl_page := pg\<rparr>"
  "charge schema as (plan\<lparr>pl_cursor := cu\<rparr>) = (charge schema as plan)\<lparr>pl_cursor := cu\<rparr>"
  by (induction as arbitrary: plan) simp_all

lemma charge_keeps [simp]:
  "pl_resource (charge schema as plan) = pl_resource plan"
  "pl_revision (charge schema as plan) = pl_revision plan"
  "pl_responseFields (charge schema as plan) = pl_responseFields plan"
  "pl_executionFields (charge schema as plan) = pl_executionFields plan"
  "pl_includes (charge schema as plan) = pl_includes plan"
  "pl_filter (charge schema as plan) = pl_filter plan"
  "pl_constraints (charge schema as plan) = pl_constraints plan"
  "pl_sorts (charge schema as plan) = pl_sorts plan"
  "pl_page (charge schema as plan) = pl_page plan"
  "pl_cursor (charge schema as plan) = pl_cursor plan"
  "pl_maxCanonical (charge schema as plan) = pl_maxCanonical plan"
  by (induction as arbitrary: plan) simp_all

section \<open>The contract of a selection loop\<close>

locale selecting =
  fixes key :: "'a \<Rightarrow> string"
    and ok :: "'a \<Rightarrow> bool"
    and kind :: CapabilityKind
    and accept :: "'a \<Rightarrow> 'r \<Rightarrow> 'r"
    and options :: "'w CompileOptions"
    and body :: "nat \<Rightarrow> 'a \<Rightarrow> string set \<times> 'r \<times> 'w env \<Rightarrow> string set \<times> 'r \<times> 'w env"
  assumes step_grows: "grows (en_col (snd (snd s))) (en_col (snd (snd (body i x s))))"
    and step_clean:
      "en_clean (snd (snd (body i x (seen, r, e)))) \<longleftrightarrow>
         en_clean e \<and> ok x \<and> key x \<notin> seen \<and> fst (authorized options kind (key x) e)"
    and step_result:
      "en_clean (snd (snd (body i x (seen, r, e)))) \<Longrightarrow>
         body i x (seen, r, e) =
           (insert (key x) seen, accept x r, snd (authorized options kind (key x) e))"
begin

sublocale coll: collecting "\<lambda>s. en_col (snd (snd s))" body
  by unfold_locales (rule step_grows)

lemma selected_clean:
  "en_clean (snd (snd (range_loop body i xs (seen, r, e)))) \<longleftrightarrow>
     en_clean e \<and> (\<forall>x \<in> set xs. ok x) \<and> distinct (map key xs) \<and> key ` set xs \<inter> seen = {} \<and>
     fst (ask_all options (map (\<lambda>x. cap kind (key x)) xs) e)"
proof (induction xs arbitrary: i seen r e)
  case (Cons x xs)
  show ?case
  proof (cases "en_clean (snd (snd (body i x (seen, r, e))))")
    case True
    note step = step_clean [of i x seen r e, THEN iffD1, OF True]
    have "range_loop body i (x # xs) (seen, r, e) = range_loop body (Suc i) xs
        (insert (key x) seen, accept x r, snd (authorized options kind (key x) e))"
      by (simp add: step_result [OF True])
    with step show ?thesis
      by (simp only: Cons.IH) (auto simp: Let_def case_prod_beta)
  next
    case False
    then have "\<not> en_clean (snd (snd (range_loop body i (x # xs) (seen, r, e))))"
      using coll.loop_clean_Cons by blast
    then show ?thesis
      using False step_clean [of i x seen r e] by (auto simp: Let_def case_prod_beta)
  qed
qed simp

lemma selected_result:
  "en_clean (snd (snd (range_loop body i xs (seen, r, e)))) \<Longrightarrow>
     range_loop body i xs (seen, r, e) =
       (seen \<union> key ` set xs, fold accept xs r,
        snd (ask_all options (map (\<lambda>x. cap kind (key x)) xs) e))"
proof (induction xs arbitrary: i seen r e)
  case (Cons x xs)
  have clean: "en_clean (snd (snd (body i x (seen, r, e))))"
    using Cons.prems by (rule coll.loop_clean_Cons)
  have run: "range_loop body i (x # xs) (seen, r, e) = range_loop body (Suc i) xs
      (insert (key x) seen, accept x r, snd (authorized options kind (key x) e))"
    by (simp add: step_result [OF clean])
  show ?case
    using Cons.IH [OF Cons.prems [unfolded run]] step_clean [THEN iffD1, OF clean]
    unfolding run by (simp add: Let_def case_prod_beta)
qed simp

end

section \<open>Fields\<close>

definition field_def :: "Schema \<Rightarrow> string \<Rightarrow> FieldDefinition option" where
  "field_def schema name = map_option (\<lambda>i. sc_fields schema ! i) (sc_fieldIndex schema name)"

definition field_selectable :: "Schema \<Rightarrow> string \<Rightarrow> bool" where
  "field_selectable schema name \<longleftrightarrow>
     (case field_def schema name of None \<Rightarrow> False | Some f \<Rightarrow> \<not> fd_Deprecated f)"

definition field_cost :: "Schema \<Rightarrow> string \<Rightarrow> int" where
  "field_cost schema name = (case field_def schema name of None \<Rightarrow> 0 | Some f \<Rightarrow> fd_Cost f)"

definition accept_field :: "Schema \<Rightarrow> string \<Rightarrow> Plan \<Rightarrow> Plan" where
  "accept_field schema name plan =
     addPlanCost schema (field_cost schema name)
       (plan\<lparr>pl_responseFields := pl_responseFields plan @ [name]\<rparr>)"

interpretation fields: selecting id "field_selectable schema" CapabilityField
  "accept_field schema" options "compileField schema options"
  for schema :: Schema and options :: "'w CompileOptions"
proof unfold_locales
  fix i x seen and r :: Plan and e :: "'w env" and s :: "string set \<times> Plan \<times> 'w env"
  show "grows (en_col (snd (snd s))) (en_col (snd (snd (compileField schema options i x s))))"
    by (auto simp: compileField_def Let_def case_prod_beta split: option.splits
        intro: grows_intros)
  show "en_clean (snd (snd (compileField schema options i x (seen, r, e)))) \<longleftrightarrow>
      en_clean e \<and> field_selectable schema x \<and> id x \<notin> seen \<and>
      fst (authorized options CapabilityField (id x) e)"
    by (cases "sc_fieldIndex schema x")
      (simp_all add: compileField_def Let_def case_prod_beta field_selectable_def field_def_def)
  assume "en_clean (snd (snd (compileField schema options i x (seen, r, e))))"
  then show "compileField schema options i x (seen, r, e) =
      (insert (id x) seen, accept_field schema x r,
       snd (authorized options CapabilityField (id x) e))"
    by (auto simp: compileField_def Let_def case_prod_beta accept_field_def field_cost_def
        field_def_def split: option.splits if_splits)
qed

lemma accept_fields:
  "fold (accept_field schema) names plan =
     charge schema (map (field_cost schema) names)
       (plan\<lparr>pl_responseFields := pl_responseFields plan @ names\<rparr>)"
  by (induction names arbitrary: plan) (simp_all add: accept_field_def)

text \<open>The server-only fields a plan must load next to a selection.\<close>

definition required_names :: "Schema \<Rightarrow> string set \<Rightarrow> string list" where
  "required_names schema selected =
     map fd_Name (filter (\<lambda>f. fd_Required f \<and> fd_Name f \<notin> selected) (sc_fields schema))"

lemma requireFields:
  "distinct (map fd_Name fs) \<Longrightarrow>
   range_loop (requireField schema) i fs (seen, plan) =
     (seen \<union> set (map fd_Name (filter fd_Required fs)),
      charge schema (map fd_Cost (filter (\<lambda>f. fd_Required f \<and> fd_Name f \<notin> seen) fs))
        (plan\<lparr>pl_executionFields := pl_executionFields plan @
           map fd_Name (filter (\<lambda>f. fd_Required f \<and> fd_Name f \<notin> seen) fs)\<rparr>))"
proof (induction fs arbitrary: i seen plan)
  case (Cons f fs)
  have "filter (\<lambda>g. fd_Required g \<and> fd_Name g \<noteq> fd_Name f \<and> fd_Name g \<notin> seen) fs =
      filter (\<lambda>g. fd_Required g \<and> fd_Name g \<notin> seen) fs"
    using Cons.prems by (intro filter_cong [OF refl]) (simp, metis image_eqI)
  with Cons show ?case
    by (auto simp: requireField_def)
qed simp

definition selected_fields :: "Schema \<Rightarrow> string list Optional \<Rightarrow> string list" where
  "selected_fields schema requested =
     (case requested of
        Some names \<Rightarrow> names
      | None \<Rightarrow> map fd_Name (filter fd_Default (sc_fields schema)))"

definition fields_ok :: "Schema \<Rightarrow> string list \<Rightarrow> bool" where
  "fields_ok schema names \<longleftrightarrow>
     int (length names) \<le> b_MaxFields (sc_bounds schema) \<and>
     (\<forall>n \<in> set names. field_selectable schema n) \<and> distinct names"

definition with_fields :: "Schema \<Rightarrow> string list \<Rightarrow> Plan \<Rightarrow> Plan" where
  "with_fields schema names plan =
     charge schema
       (map (field_cost schema) names @ map (field_cost schema) (required_names schema (set names)))
       (plan\<lparr>pl_responseFields := names,
             pl_executionFields := required_names schema (set names) @ names\<rparr>)"

lemma field_cost_declared:
  "wf_schema schema \<Longrightarrow> f \<in> set (sc_fields schema) \<Longrightarrow> field_cost schema (fd_Name f) = fd_Cost f"
  using indexes_mem [of fd_Name "sc_fields schema" "sc_fieldIndex schema" f]
  by (auto simp: field_cost_def field_def_def wf_schema_def)

text \<open>The list a loop runs over and the environment it starts in, after the count check.\<close>

definition truncated ::
  "int \<Rightarrow> string \<Rightarrow> string \<Rightarrow> 'a list \<Rightarrow> 'w env \<Rightarrow> 'a list \<times> 'w env" where
  "truncated limit path message xs e =
     (if int (length xs) > limit
      then (take (nat limit) xs, en_add CodeLimitExceeded path message e) else (xs, e))"

lemma truncated_grows: "grows (en_col e) (en_col (snd (truncated limit path message xs e)))"
  by (auto simp: truncated_def intro: grows_intros)

lemma truncated_clean:
  "en_clean (snd (truncated limit path message xs e)) \<longleftrightarrow> en_clean e \<and> int (length xs) \<le> limit"
  by (simp add: truncated_def)

lemma truncated_id:
  "int (length xs) \<le> limit \<Longrightarrow> truncated limit path message xs e = (xs, e)"
  by (simp add: truncated_def)

lemma compileFields_unfold:
  "compileFields schema requested options (plan, e) =
     (let (names, e1) = truncated (b_MaxFields (sc_bounds schema)) ''fields''
            ''field count exceeds the limit'' (selected_fields schema requested) e;
          (seen, plan1, e2) = range_loop (compileField schema options) 0 names ({}, plan, e1);
          (executionSeen, plan2) = range_loop (requireField schema) 0 (sc_fields schema)
            (set (pl_responseFields plan1), plan1)
      in (plan2\<lparr>pl_executionFields := pl_executionFields plan2 @ pl_responseFields plan2\<rparr>, e2))"
  by (simp add: compileFields_def truncated_def selected_fields_def Let_def)

lemma compileFields_env:
  "snd (compileFields schema requested options (plan, e)) =
     (let (names, e1) = truncated (b_MaxFields (sc_bounds schema)) ''fields''
            ''field count exceeds the limit'' (selected_fields schema requested) e
      in snd (snd (range_loop (compileField schema options) 0 names ({}, plan, e1))))"
  by (simp add: compileFields_unfold Let_def case_prod_beta)

lemma compileFields_grows:
  "grows (en_col e) (en_col (snd (compileFields schema requested options (plan, e))))"
proof -
  define run where "run = truncated (b_MaxFields (sc_bounds schema)) ''fields''
    ''field count exceeds the limit'' (selected_fields schema requested) e"
  have "grows (en_col e) (en_col (snd run))"
    unfolding run_def by (rule truncated_grows)
  moreover have "grows (en_col (snd run)) (en_col (snd (snd
      (range_loop (compileField schema options) 0 (fst run) ({}, plan, snd run)))))"
    using fields.coll.loop_grows
      [of "({}, plan, snd run)" schema options 0 "fst run"] by simp
  ultimately show ?thesis
    unfolding compileFields_env run_def [symmetric] Let_def case_prod_beta
    by (blast intro: grows_trans)
qed

lemma compileFields_clean:
  "en_clean (snd (compileFields schema requested options (plan, e))) \<longleftrightarrow>
     en_clean e \<and> fields_ok schema (selected_fields schema requested) \<and>
     fst (ask_all options (map (cap CapabilityField) (selected_fields schema requested)) e)"
proof -
  define run where "run = truncated (b_MaxFields (sc_bounds schema)) ''fields''
    ''field count exceeds the limit'' (selected_fields schema requested) e"
  have clean: "en_clean (snd run) \<longleftrightarrow> en_clean e \<and>
      int (length (selected_fields schema requested)) \<le> b_MaxFields (sc_bounds schema)"
    unfolding run_def by (rule truncated_clean)
  have env: "en_clean (snd (compileFields schema requested options (plan, e))) \<longleftrightarrow>
      en_clean (snd run) \<and> (\<forall>n \<in> set (fst run). field_selectable schema n) \<and> distinct (fst run) \<and>
      fst (ask_all options (map (cap CapabilityField) (fst run)) (snd run))"
    unfolding compileFields_env run_def [symmetric]
    using fields.selected_clean [of schema options 0 "fst run" "{}" plan "snd run"]
    by (simp add: case_prod_beta)
  show ?thesis
  proof (cases "int (length (selected_fields schema requested)) \<le> b_MaxFields (sc_bounds schema)")
    case True
    then have "run = (selected_fields schema requested, e)"
      unfolding run_def by (rule truncated_id)
    with True show ?thesis unfolding env by (simp add: fields_ok_def)
  next
    case False
    then show ?thesis unfolding env clean by (simp add: fields_ok_def)
  qed
qed

lemma required_costs:
  assumes "wf_schema schema"
  shows "map fd_Cost (filter (\<lambda>f. fd_Required f \<and> fd_Name f \<notin> s) (sc_fields schema)) =
    map (field_cost schema) (required_names schema s)"
  by (simp add: required_names_def field_cost_declared [OF assms])

lemma compileFields_result:
  assumes wf: "wf_schema schema"
    and fresh: "pl_responseFields plan = []" "pl_executionFields plan = []"
    and clean: "en_clean (snd (compileFields schema requested options (plan, e)))"
  shows "compileFields schema requested options (plan, e) =
      (with_fields schema (selected_fields schema requested) plan,
       snd (ask_all options (map (cap CapabilityField) (selected_fields schema requested)) e))"
proof -
  let ?names = "selected_fields schema requested"
  have "fields_ok schema ?names"
    using clean compileFields_clean by blast
  then have trunc: "truncated (b_MaxFields (sc_bounds schema)) ''fields''
      ''field count exceeds the limit'' ?names e = (?names, e)"
    by (intro truncated_id) (simp add: fields_ok_def)
  have "en_clean (snd (snd (range_loop (compileField schema options) 0 ?names ({}, plan, e))))"
    using clean by (simp add: compileFields_env trunc)
  from fields.selected_result [OF this]
  have loop: "range_loop (compileField schema options) 0 ?names ({}, plan, e) =
      (set ?names, charge schema (map (field_cost schema) ?names) (plan\<lparr>pl_responseFields := ?names\<rparr>),
       snd (ask_all options (map (cap CapabilityField) ?names) e))"
    by (simp add: accept_fields fresh)
  have "distinct (map fd_Name (sc_fields schema))"
    using wf by (auto simp: wf_schema_def intro: indexes_distinct)
  note req = requireFields [OF this]
  show ?thesis
    unfolding compileFields_unfold trunc
    by (simp add: loop req required_costs [OF wf] with_fields_def charge_append fresh)
      (simp add: required_names_def)
qed

section \<open>Includes\<close>

definition edge_cost :: "Schema \<Rightarrow> string \<Rightarrow> int" where
  "edge_cost schema edge =
     (case sc_relationIndex schema edge of None \<Rightarrow> 0 | Some node \<Rightarrow> rd_Cost (rn_definition node))"

abbreviation edge_caps :: "string list \<Rightarrow> Capability list" where
  "edge_caps edges \<equiv> map (cap CapabilityRelationship) edges"

lemma compileEdges_grows:
  "grows (en_col (snd (snd s))) (en_col (snd (snd (snd (compileEdges schema options path edges s)))))"
proof (induction edges arbitrary: s)
  case (Cons edge edges)
  obtain seenEdges plan e where s: "s = (seenEdges, plan, e)" by (metis prod_cases3)
  obtain b e1 where ask: "authorized options CapabilityRelationship edge e = (b, e1)"
    by fastforce
  have col: "en_col e1 = en_col e" using ask by (rule authorized_col_eq)
  show ?case
  proof (cases "edge \<in> seenEdges")
    case True
    then show ?thesis using Cons [of s] by (simp add: s)
  next
    case False
    show ?thesis
    proof (cases b)
      case True
      with Cons [of "(insert edge seenEdges, addPlanCost schema (edge_cost schema edge) plan, e1)"]
      show ?thesis using False by (simp add: s ask col edge_cost_def)
    next
      case b: False
      then show ?thesis using False by (auto simp: s ask col intro: grows_intros)
    qed
  qed
qed simp

lemma compileEdges_run:
  "fst (ask_all options (edge_caps (fresh_of seenEdges edges)) e) \<Longrightarrow>
   compileEdges schema options path edges (seenEdges, plan, e) =
     (True, seenEdges \<union> set edges,
      charge schema (map (edge_cost schema) (fresh_of seenEdges edges)) plan,
      snd (ask_all options (edge_caps (fresh_of seenEdges edges)) e))"
proof (induction edges arbitrary: seenEdges plan e)
  case (Cons edge edges)
  show ?case
  proof (cases "edge \<in> seenEdges")
    case True
    with Cons show ?thesis by (simp add: insert_absorb)
  next
    case False
    obtain b e1 where ask: "authorized options CapabilityRelationship edge e = (b, e1)"
      by fastforce
    with False Cons.prems have b: b by (cases b) simp_all
    with False Cons.prems ask
    have "fst (ask_all options (edge_caps (fresh_of (insert edge seenEdges) edges)) e1)" by simp
    from Cons.IH [OF this, of "addPlanCost schema (edge_cost schema edge) plan"]
    show ?thesis using False ask b by (simp add: edge_cost_def)
  qed
qed simp

lemma compileEdges_denied:
  assumes "\<not> fst (ask_all options (edge_caps (fresh_of seenEdges edges)) e)"
  shows "\<not> fst (compileEdges schema options path edges (seenEdges, plan, e)) \<and>
    \<not> en_clean (snd (snd (snd (compileEdges schema options path edges (seenEdges, plan, e)))))"
  using assms
proof (induction edges arbitrary: seenEdges plan e)
  case (Cons edge edges)
  obtain b e1 where ask: "authorized options CapabilityRelationship edge e = (b, e1)"
    by fastforce
  with Cons show ?case
    by (cases "edge \<in> seenEdges"; cases b) (auto simp: insert_absorb)
qed simp

definition include_ok :: "Schema \<Rightarrow> string \<Rightarrow> bool" where
  "include_ok schema name \<longleftrightarrow>
     (case sc_relationIndex schema name of
        None \<Rightarrow> False
      | Some node \<Rightarrow> int (rn_depth node) \<le> b_MaxIncludeDepth (sc_bounds schema))"

abbreviation include_env ::
  "string set \<times> string set \<times> Plan \<times> 'w env \<Rightarrow> 'w env" where
  "include_env s \<equiv> snd (snd (snd s))"

lemma compileInclude_grows:
  "grows (en_col (include_env s)) (en_col (include_env (compileInclude schema options i name s)))"
proof -
  obtain seen seenEdges plan e where s: "s = (seen, seenEdges, plan, e)" by (metis prod_cases4)
  define run where "run = compileEdges schema options (indexed_path ''includes'' i)
    (relationshipPrefixes name) (seenEdges, plan, e)"
  have run: "grows (en_col e) (en_col (snd (snd (snd run))))"
    unfolding run_def using compileEdges_grows [of "(seenEdges, plan, e)"] by simp
  show ?thesis
  proof (cases "sc_relationIndex schema name")
    case None
    then show ?thesis by (simp add: s compileInclude_def grows_add)
  next
    case (Some node)
    show ?thesis
      unfolding s compileInclude_def Some Let_def case_prod_beta prod.case option.case fst_conv
        snd_conv run_def [symmetric]
      by (auto simp: run intro!: grows_intros)
  qed
qed

interpretation paths: collecting "\<lambda>s. en_col (include_env s)" "compileInclude schema options"
  for schema :: Schema and options :: "'w CompileOptions"
  by unfold_locales (rule compileInclude_grows)

lemma compileInclude_clean:
  "en_clean (include_env (compileInclude schema options i name (seen, seenEdges, plan, e))) \<longleftrightarrow>
     en_clean e \<and> include_ok schema name \<and> name \<notin> seen \<and>
     fst (ask_all options (edge_caps (fresh_of seenEdges (relationshipPrefixes name))) e)"
proof (cases "fst (ask_all options (edge_caps (fresh_of seenEdges (relationshipPrefixes name))) e)")
  case True
  then show ?thesis
    using compileEdges_run [OF True, of schema "indexed_path ''includes'' i" plan]
    by (auto simp: compileInclude_def Let_def case_prod_beta include_ok_def split: option.splits)
next
  case False
  from compileEdges_denied [OF this, of schema "indexed_path ''includes'' i" plan] False
  show ?thesis
    by (auto simp: compileInclude_def Let_def case_prod_beta include_ok_def split: option.splits)
qed

lemma compileInclude_result:
  assumes "en_clean (include_env (compileInclude schema options i name (seen, seenEdges, plan, e)))"
  shows "compileInclude schema options i name (seen, seenEdges, plan, e) =
    (insert name seen, seenEdges \<union> set (relationshipPrefixes name),
     charge schema (map (edge_cost schema) (fresh_of seenEdges (relationshipPrefixes name)))
       (plan\<lparr>pl_includes := pl_includes plan @ [name]\<rparr>),
     snd (ask_all options (edge_caps (fresh_of seenEdges (relationshipPrefixes name))) e))"
proof -
  have ok: "include_ok schema name" "name \<notin> seen"
    "fst (ask_all options (edge_caps (fresh_of seenEdges (relationshipPrefixes name))) e)"
    using assms compileInclude_clean by blast+
  then show ?thesis
    using compileEdges_run [OF ok(3), of schema "indexed_path ''includes'' i" plan]
    by (auto simp: compileInclude_def Let_def case_prod_beta include_ok_def split: option.splits)
qed

text \<open>The capabilities a list of include paths asks for: every prefix once, in order.\<close>

definition include_edges :: "string list \<Rightarrow> string list" where
  "include_edges names = concat (map relationshipPrefixes names)"

lemma include_edges_simps [simp]:
  "include_edges [] = []"
  "include_edges (n # ns) = relationshipPrefixes n @ include_edges ns"
  by (simp_all add: include_edges_def)

lemma includes_clean:
  "en_clean (include_env (range_loop (compileInclude schema options) i names (seen, seenEdges, plan, e)))
   \<longleftrightarrow> en_clean e \<and> (\<forall>n \<in> set names. include_ok schema n) \<and> distinct names \<and> set names \<inter> seen = {} \<and>
     fst (ask_all options (edge_caps (fresh_of seenEdges (include_edges names))) e)"
proof (induction names arbitrary: i seen seenEdges plan e)
  case (Cons n ns)
  let ?step = "compileInclude schema options i n (seen, seenEdges, plan, e)"
  show ?case
  proof (cases "en_clean (include_env ?step)")
    case True
    note step = compileInclude_clean [of schema options i n seen seenEdges plan e, THEN iffD1, OF True]
    have "range_loop (compileInclude schema options) i (n # ns) (seen, seenEdges, plan, e) =
        range_loop (compileInclude schema options) (Suc i) ns
          (compileInclude schema options i n (seen, seenEdges, plan, e))"
      by simp
    then show ?thesis
      using step
      by (simp only: compileInclude_result [OF True] Cons.IH)
        (auto simp: fresh_of_append ask_all_append)
  next
    case False
    then have "\<not> en_clean (include_env
        (range_loop (compileInclude schema options) i (n # ns) (seen, seenEdges, plan, e)))"
      using paths.loop_clean_Cons by blast
    then show ?thesis
      using False compileInclude_clean [of schema options i n seen seenEdges plan e]
      by (auto simp: fresh_of_append ask_all_append)
  qed
qed simp

lemma includes_result:
  assumes "en_clean (include_env
    (range_loop (compileInclude schema options) i names (seen, seenEdges, plan, e)))"
  shows "range_loop (compileInclude schema options) i names (seen, seenEdges, plan, e) =
    (seen \<union> set names, seenEdges \<union> set (include_edges names),
     charge schema (map (edge_cost schema) (fresh_of seenEdges (include_edges names)))
       (plan\<lparr>pl_includes := pl_includes plan @ names\<rparr>),
     snd (ask_all options (edge_caps (fresh_of seenEdges (include_edges names))) e))"
  using assms
proof (induction names arbitrary: i seen seenEdges plan e)
  case (Cons n ns)
  have clean: "en_clean (include_env (compileInclude schema options i n (seen, seenEdges, plan, e)))"
    using Cons.prems by (rule paths.loop_clean_Cons)
  note step = compileInclude_clean [THEN iffD1, OF clean]
  have run: "range_loop (compileInclude schema options) i (n # ns) (seen, seenEdges, plan, e) =
      range_loop (compileInclude schema options) (Suc i) ns
        (insert n seen, seenEdges \<union> set (relationshipPrefixes n),
         charge schema (map (edge_cost schema) (fresh_of seenEdges (relationshipPrefixes n)))
           (plan\<lparr>pl_includes := pl_includes plan @ [n]\<rparr>),
         snd (ask_all options (edge_caps (fresh_of seenEdges (relationshipPrefixes n))) e))"
    by (simp add: compileInclude_result [OF clean])
  show ?case
    using Cons.IH [OF Cons.prems [unfolded run]] step
    unfolding run by (simp add: fresh_of_append ask_all_append charge_append Un_assoc)
qed simp

definition includes_ok :: "Schema \<Rightarrow> string list \<Rightarrow> bool" where
  "includes_ok schema names \<longleftrightarrow>
     int (length names) \<le> b_MaxIncludes (sc_bounds schema) \<and>
     (\<forall>n \<in> set names. include_ok schema n) \<and> distinct names"

definition with_includes :: "Schema \<Rightarrow> string list \<Rightarrow> Plan \<Rightarrow> Plan" where
  "with_includes schema names plan =
     charge schema (map (edge_cost schema) (fresh_of {} (include_edges names)))
       (plan\<lparr>pl_includes := names\<rparr>)"

abbreviation requested_includes :: "string list Optional \<Rightarrow> string list" where
  "requested_includes requested \<equiv> (case requested of None \<Rightarrow> [] | Some names \<Rightarrow> names)"

abbreviation include_caps :: "string list \<Rightarrow> Capability list" where
  "include_caps names \<equiv> edge_caps (fresh_of {} (include_edges names))"

lemma compileIncludes_unfold:
  "compileIncludes schema (Some names) options (plan, e) =
     (let (names, e1) = truncated (b_MaxIncludes (sc_bounds schema)) ''includes''
            ''include count exceeds the limit'' names e;
          s = range_loop (compileInclude schema options) 0 names ({}, {}, plan, e1)
      in (fst (snd (snd s)), include_env s))"
  by (simp add: compileIncludes_def truncated_def Let_def case_prod_beta)

lemma compileIncludes_grows:
  "grows (en_col e) (en_col (snd (compileIncludes schema requested options (plan, e))))"
proof (cases requested)
  case (Some names)
  define run where "run = truncated (b_MaxIncludes (sc_bounds schema)) ''includes''
    ''include count exceeds the limit'' names e"
  have "grows (en_col e) (en_col (snd run))"
    unfolding run_def by (rule truncated_grows)
  moreover have "grows (en_col (snd run)) (en_col (include_env
      (range_loop (compileInclude schema options) 0 (fst run) ({}, {}, plan, snd run))))"
    using paths.loop_grows [of "({}, {}, plan, snd run)" schema options 0 "fst run"] by simp
  ultimately show ?thesis
    unfolding Some compileIncludes_unfold run_def [symmetric] Let_def case_prod_beta snd_conv
    by (blast intro: grows_trans)
qed (simp add: compileIncludes_def)

lemma compileIncludes_clean:
  "0 \<le> b_MaxIncludes (sc_bounds schema) \<Longrightarrow>
   en_clean (snd (compileIncludes schema requested options (plan, e))) \<longleftrightarrow>
     en_clean e \<and> includes_ok schema (requested_includes requested) \<and>
     fst (ask_all options (include_caps (requested_includes requested)) e)"
proof (cases requested)
  case (Some names)
  define run where "run = truncated (b_MaxIncludes (sc_bounds schema)) ''includes''
    ''include count exceeds the limit'' names e"
  have clean: "en_clean (snd run) \<longleftrightarrow> en_clean e \<and>
      int (length names) \<le> b_MaxIncludes (sc_bounds schema)"
    unfolding run_def by (rule truncated_clean)
  have env: "en_clean (snd (compileIncludes schema (Some names) options (plan, e))) \<longleftrightarrow>
      en_clean (snd run) \<and> (\<forall>n \<in> set (fst run). include_ok schema n) \<and> distinct (fst run) \<and>
      fst (ask_all options (include_caps (fst run)) (snd run))"
    unfolding compileIncludes_unfold run_def [symmetric] Let_def case_prod_beta snd_conv
    using includes_clean [of schema options 0 "fst run" "{}" "{}" plan "snd run"] by simp
  show ?thesis
  proof (cases "int (length names) \<le> b_MaxIncludes (sc_bounds schema)")
    case True
    then have "run = (names, e)"
      unfolding run_def by (rule truncated_id)
    with True show ?thesis unfolding Some env by (simp add: includes_ok_def)
  next
    case False
    then show ?thesis unfolding Some env clean by (simp add: includes_ok_def)
  qed
qed (simp add: compileIncludes_def includes_ok_def)

lemma compileIncludes_result:
  assumes fresh: "pl_includes plan = []"
    and bound: "0 \<le> b_MaxIncludes (sc_bounds schema)"
    and clean: "en_clean (snd (compileIncludes schema requested options (plan, e)))"
  shows "compileIncludes schema requested options (plan, e) =
      (with_includes schema (requested_includes requested) plan,
       snd (ask_all options (include_caps (requested_includes requested)) e))"
proof (cases requested)
  case None
  have "plan\<lparr>pl_includes := []\<rparr> = plan" using fresh by (cases plan) simp
  with None show ?thesis by (simp add: compileIncludes_def with_includes_def)
next
  case (Some names)
  have "includes_ok schema names"
    using clean compileIncludes_clean [OF bound, of requested options plan e] Some by simp
  then have trunc: "truncated (b_MaxIncludes (sc_bounds schema)) ''includes''
      ''include count exceeds the limit'' names e = (names, e)"
    by (intro truncated_id) (simp add: includes_ok_def)
  have "en_clean (include_env (range_loop (compileInclude schema options) 0 names ({}, {}, plan, e)))"
    using clean unfolding Some compileIncludes_unfold trunc by simp
  from includes_result [OF this] show ?thesis
    unfolding Some compileIncludes_unfold trunc by (simp add: with_includes_def fresh)
qed

section \<open>Sorts\<close>

definition sort_term_ok :: "Schema \<Rightarrow> SortTerm \<Rightarrow> bool" where
  "sort_term_ok schema t \<longleftrightarrow>
     (case sort_def schema (st_Name t) of
        None \<Rightarrow> False
      | Some d \<Rightarrow>
          st_Direction t \<in> {Ascending, Descending} \<and>
          (st_Nulls t = [] \<or> st_Nulls t \<in> {NullsFirst, NullsLast} \<and> st_Nulls t = sd_Nulls d))"

text \<open>A term without a null ordering takes the declared one.\<close>

definition complete_term :: "Schema \<Rightarrow> SortTerm \<Rightarrow> SortTerm" where
  "complete_term schema t =
     (if st_Nulls t = []
      then t\<lparr>st_Nulls := (case sort_def schema (st_Name t) of None \<Rightarrow> [] | Some d \<Rightarrow> sd_Nulls d)\<rparr>
      else t)"

definition accept_sort :: "Schema \<Rightarrow> SortTerm \<Rightarrow> SortTerm list \<Rightarrow> SortTerm list" where
  "accept_sort schema t result = result @ [complete_term schema t]"

lemma compileSort_clean:
  "en_clean (snd (snd (compileSort schema options i x (seen, r, e)))) \<longleftrightarrow>
     en_clean e \<and> sort_term_ok schema x \<and> st_Name x \<notin> seen \<and>
     fst (authorized options CapabilitySort (st_Name x) e)"
proof (cases "sc_sortIndex schema (st_Name x)")
  case None
  then show ?thesis by (simp add: compileSort_def sort_term_ok_def sort_def_def)
next
  case (Some j)
  show ?thesis
    apply (cases "st_Name x \<in> seen"; cases "fst (authorized options CapabilitySort (st_Name x) e)";
      cases "st_Nulls x = []")
    apply (simp_all add: Some compileSort_def Let_def case_prod_beta sort_term_ok_def sort_def_def)
    done
qed

lemma compileSort_result:
  assumes "en_clean (snd (snd (compileSort schema options i x (seen, r, e))))"
  shows "compileSort schema options i x (seen, r, e) =
    (insert (st_Name x) seen, accept_sort schema x r,
     snd (authorized options CapabilitySort (st_Name x) e))"
proof -
  have ok: "sort_term_ok schema x" "st_Name x \<notin> seen"
    "fst (authorized options CapabilitySort (st_Name x) e)"
    using assms by (simp_all add: compileSort_clean)
  then obtain j where j: "sc_sortIndex schema (st_Name x) = Some j"
    by (auto simp: sort_term_ok_def sort_def_def split: option.splits)
  have dir: "(st_Direction x \<noteq> Ascending \<and> st_Direction x \<noteq> Descending) = False"
    and nulls: "(st_Nulls x \<noteq> [] \<and> st_Nulls x \<noteq> NullsFirst \<and> st_Nulls x \<noteq> NullsLast) = False"
      "(st_Nulls x \<noteq> [] \<and> st_Nulls x \<noteq> sd_Nulls (sc_sorts schema ! j)) = False"
    using ok(1) unfolding sort_term_ok_def sort_def_def j by (simp_all, blast+)
  show ?thesis
    using ok unfolding compileSort_def Let_def case_prod_beta accept_sort_def complete_term_def
      sort_def_def prod.case j option.case dir nulls
    by simp
qed

interpretation ordering_terms: selecting st_Name "sort_term_ok schema" CapabilitySort
  "accept_sort schema" options "compileSort schema options"
  for schema :: Schema and options :: "'w CompileOptions"
proof unfold_locales
  fix i x and s :: "string set \<times> SortTerm list \<times> 'w env"
  show "grows (en_col (snd (snd s))) (en_col (snd (snd (compileSort schema options i x s))))"
    by (auto simp: compileSort_def Let_def case_prod_beta split: option.splits
        intro: grows_intros)
qed (fact compileSort_clean, rule compileSort_result)

lemma accept_sorts:
  "fold (accept_sort schema) ts result = result @ map (complete_term schema) ts"
  by (induction ts arbitrary: result) (simp_all add: accept_sort_def)

definition requested_sorts :: "Schema \<Rightarrow> SortTerm list Optional \<Rightarrow> SortTerm list" where
  "requested_sorts schema requested =
     (case requested of Some sorts \<Rightarrow> sorts | None \<Rightarrow> sc_defaultSort schema)"

definition sorts_selected_ok :: "Schema \<Rightarrow> SortTerm list \<Rightarrow> bool" where
  "sorts_selected_ok schema sorts \<longleftrightarrow>
     int (length sorts) \<le> b_MaxSorts (sc_bounds schema) \<and>
     (\<forall>t \<in> set sorts. sort_term_ok schema t) \<and> distinct (map st_Name sorts)"

abbreviation sort_caps :: "SortTerm list \<Rightarrow> Capability list" where
  "sort_caps sorts \<equiv> map (\<lambda>t. cap CapabilitySort (st_Name t)) sorts"

lemma compileSorts_unfold:
  "compileSorts schema requested options e =
     (let (sorts, e1) = truncated (b_MaxSorts (sc_bounds schema)) ''sorts''
            ''sort count exceeds the limit'' (requested_sorts schema requested) e
      in snd (range_loop (compileSort schema options) 0 sorts ({}, [], e1)))"
  by (simp add: compileSorts_def truncated_def requested_sorts_def Let_def case_prod_beta)

lemma compileSorts_grows:
  "grows (en_col e) (en_col (snd (compileSorts schema requested options e)))"
proof -
  define run where "run = truncated (b_MaxSorts (sc_bounds schema)) ''sorts''
    ''sort count exceeds the limit'' (requested_sorts schema requested) e"
  have "grows (en_col e) (en_col (snd run))"
    unfolding run_def by (rule truncated_grows)
  moreover have "grows (en_col (snd run)) (en_col (snd (snd
      (range_loop (compileSort schema options) 0 (fst run) ({}, [], snd run)))))"
    using ordering_terms.coll.loop_grows [of "({}, [], snd run)" schema options 0 "fst run"] by simp
  ultimately show ?thesis
    unfolding compileSorts_unfold run_def [symmetric] Let_def case_prod_beta
    by (blast intro: grows_trans)
qed

lemma compileSorts_clean:
  "en_clean (snd (compileSorts schema requested options e)) \<longleftrightarrow>
     en_clean e \<and> sorts_selected_ok schema (requested_sorts schema requested) \<and>
     fst (ask_all options (sort_caps (requested_sorts schema requested)) e)"
proof -
  let ?sorts = "requested_sorts schema requested"
  define run where "run = truncated (b_MaxSorts (sc_bounds schema)) ''sorts''
    ''sort count exceeds the limit'' ?sorts e"
  have clean: "en_clean (snd run) \<longleftrightarrow> en_clean e \<and> int (length ?sorts) \<le> b_MaxSorts (sc_bounds schema)"
    unfolding run_def by (rule truncated_clean)
  have env: "en_clean (snd (compileSorts schema requested options e)) \<longleftrightarrow>
      en_clean (snd run) \<and> (\<forall>t \<in> set (fst run). sort_term_ok schema t) \<and>
      distinct (map st_Name (fst run)) \<and> fst (ask_all options (sort_caps (fst run)) (snd run))"
    unfolding compileSorts_unfold run_def [symmetric] Let_def case_prod_beta
    using ordering_terms.selected_clean [of schema options 0 "fst run" "{}" "[]" "snd run"] by simp
  show ?thesis
  proof (cases "int (length ?sorts) \<le> b_MaxSorts (sc_bounds schema)")
    case True
    then have "run = (?sorts, e)"
      unfolding run_def by (rule truncated_id)
    with True show ?thesis unfolding env by (simp add: sorts_selected_ok_def)
  next
    case False
    then show ?thesis unfolding env clean by (simp add: sorts_selected_ok_def)
  qed
qed

lemma compileSorts_result:
  assumes "en_clean (snd (compileSorts schema requested options e))"
  shows "compileSorts schema requested options e =
    (map (complete_term schema) (requested_sorts schema requested),
     snd (ask_all options (sort_caps (requested_sorts schema requested)) e))"
proof -
  let ?sorts = "requested_sorts schema requested"
  have "sorts_selected_ok schema ?sorts"
    using assms by (simp add: compileSorts_clean)
  then have trunc: "truncated (b_MaxSorts (sc_bounds schema)) ''sorts''
      ''sort count exceeds the limit'' ?sorts e = (?sorts, e)"
    by (intro truncated_id) (simp add: sorts_selected_ok_def)
  have "en_clean (snd (snd (range_loop (compileSort schema options) 0 ?sorts ({}, [], e))))"
    using assms unfolding compileSorts_unfold trunc by simp
  from ordering_terms.selected_result [OF this] show ?thesis
    unfolding compileSorts_unfold trunc by (simp add: accept_sorts)
qed

section \<open>Mandatory constraints\<close>

definition constraint_ok :: "Schema \<Rightarrow> Constraint \<Rightarrow> bool" where
  "constraint_ok schema c \<longleftrightarrow>
     validName (cn_Name c) \<and> validType (v_type (cn_Value c)) \<and>
     int (length (v_text (cn_Value c))) \<le> b_MaxStringBytes (sc_bounds schema)"

definition constraints_ok :: "Schema \<Rightarrow> Constraint list \<Rightarrow> bool" where
  "constraints_ok schema cs \<longleftrightarrow>
     int (length cs) \<le> b_MaxValues (sc_bounds schema) \<and>
     (\<forall>c \<in> set cs. constraint_ok schema c) \<and> distinct (map cn_Name cs)"

lemma compileConstraint_grows:
  "grows (en_col (snd s)) (en_col (snd (compileConstraint schema i c s)))"
  by (auto simp: compileConstraint_def Let_def case_prod_beta if_distrib [of en_col]
      intro!: grows_intros)

interpretation mandatory: collecting "\<lambda>s. en_col (snd s)" "compileConstraint schema"
  for schema :: Schema
  by unfold_locales (rule compileConstraint_grows)

lemma compileConstraint_clean:
  "en_clean (snd (compileConstraint schema i c (seen, e))) \<longleftrightarrow>
     en_clean e \<and> constraint_ok schema c \<and> cn_Name c \<notin> seen"
  by (auto simp: compileConstraint_def Let_def constraint_ok_def if_distrib [of en_col])

lemma compileConstraint_keep:
  assumes "en_clean (snd (compileConstraint schema i c (seen, e)))"
  shows "compileConstraint schema i c (seen, e) = (insert (cn_Name c) seen, e)"
  using assms compileConstraint_clean [of schema i c seen e]
  by (auto simp: compileConstraint_def Let_def constraint_ok_def)

lemma constraint_loop:
  "en_clean (snd (range_loop (compileConstraint schema) i cs (seen, e))) \<longleftrightarrow>
     en_clean e \<and> (\<forall>c \<in> set cs. constraint_ok schema c) \<and> distinct (map cn_Name cs) \<and>
     cn_Name ` set cs \<inter> seen = {}"
  "en_clean (snd (range_loop (compileConstraint schema) i cs (seen, e))) \<Longrightarrow>
     snd (range_loop (compileConstraint schema) i cs (seen, e)) = e"
proof (induction cs arbitrary: i seen e)
  case (Cons c cs)
  {
    case 1
    show ?case
    proof (cases "en_clean (snd (compileConstraint schema i c (seen, e)))")
      case True
      with compileConstraint_clean [of schema i c seen e] show ?thesis
        by (simp add: compileConstraint_keep [OF True] Cons.IH(1)) blast
    next
      case False
      then have "\<not> en_clean (snd (range_loop (compileConstraint schema) i (c # cs) (seen, e)))"
        using mandatory.loop_clean_Cons by blast
      with False compileConstraint_clean [of schema i c seen e] show ?thesis by auto
    qed
  next
    case 2
    then have "en_clean (snd (compileConstraint schema i c (seen, e)))"
      by (rule mandatory.loop_clean_Cons)
    note keep = compileConstraint_keep [OF this]
    have run: "range_loop (compileConstraint schema) i (c # cs) (seen, e) =
        range_loop (compileConstraint schema) (Suc i) cs (insert (cn_Name c) seen, e)"
      by (simp add: keep)
    from 2 show ?case unfolding run by (rule Cons.IH(2))
  }
qed simp_all

lemma compileConstraints_unfold:
  "compileConstraints schema cs (plan, e) =
     (let (cs, e1) = truncated (b_MaxValues (sc_bounds schema)) ''constraints''
            ''mandatory constraint count exceeds the limit'' cs e
      in (plan\<lparr>pl_constraints := cs\<rparr>,
          snd (range_loop (compileConstraint schema) 0 cs ({}, e1))))"
  by (simp add: compileConstraints_def truncated_def Let_def case_prod_beta)

lemma compileConstraints_grows:
  "grows (en_col e) (en_col (snd (compileConstraints schema cs (plan, e))))"
proof -
  define run where "run = truncated (b_MaxValues (sc_bounds schema)) ''constraints''
    ''mandatory constraint count exceeds the limit'' cs e"
  have "grows (en_col e) (en_col (snd run))"
    unfolding run_def by (rule truncated_grows)
  moreover have "grows (en_col (snd run)) (en_col (snd
      (range_loop (compileConstraint schema) 0 (fst run) ({}, snd run))))"
    using mandatory.loop_grows [of "({}, snd run)" schema 0 "fst run"] by simp
  ultimately show ?thesis
    unfolding compileConstraints_unfold run_def [symmetric] Let_def case_prod_beta snd_conv
    by (blast intro: grows_trans)
qed

lemma compileConstraints_clean:
  "en_clean (snd (compileConstraints schema cs (plan, e))) \<longleftrightarrow> en_clean e \<and> constraints_ok schema cs"
proof (cases "int (length cs) \<le> b_MaxValues (sc_bounds schema)")
  case True
  show ?thesis
    unfolding compileConstraints_unfold truncated_id [OF True]
    using True by (simp add: constraint_loop(1) constraints_ok_def)
next
  case False
  then show ?thesis
    unfolding compileConstraints_unfold truncated_def
    by (simp add: constraint_loop(1) constraints_ok_def)
qed

lemma compileConstraints_result:
  assumes "en_clean (snd (compileConstraints schema cs (plan, e)))"
  shows "compileConstraints schema cs (plan, e) = (plan\<lparr>pl_constraints := cs\<rparr>, e)"
proof -
  have "int (length cs) \<le> b_MaxValues (sc_bounds schema)"
    using assms by (simp add: compileConstraints_clean constraints_ok_def)
  note trunc = truncated_id [OF this]
  from assms constraint_loop(2) show ?thesis
    unfolding compileConstraints_unfold trunc by force
qed

end
