(* ===== verification/CompileFilter.thy ===== *)
theory CompileFilter
  imports CompileSelect
begin

text \<open>
  Filter compilation: when a filter tree is accepted, and what the compiler has done then. A tree is
  accepted exactly when its shape respects the depth, node and logic rules, every predicate is
  declared with admissible values, no name and operator pair occurs twice, the values fit their
  bound, and the authorizer allows every filter name in the order of the leaves; the tree is
  returned unchanged.
\<close>

section \<open>Trees\<close>

fun filter_nodes :: "FilterExpr \<Rightarrow> int" and filter_nodes_list :: "FilterExpr list \<Rightarrow> int" where
  "filter_nodes (FilterExpr predicate logic children) = 1 + filter_nodes_list children"
| "filter_nodes_list [] = 0"
| "filter_nodes_list (f # fs) = filter_nodes f + filter_nodes_list fs"

lemma filter_nodes_pos: "0 < filter_nodes f" "0 \<le> filter_nodes_list fs"
  by (induction f and fs rule: filter_nodes_filter_nodes_list.induct) auto

text \<open>The predicates of a tree in the order the compiler meets them.\<close>

fun predicates :: "FilterExpr \<Rightarrow> Predicate list"
  and predicates_list :: "FilterExpr list \<Rightarrow> Predicate list" where
  "predicates (FilterExpr predicate logic children) =
     (case predicate of Some p \<Rightarrow> [p] | None \<Rightarrow> predicates_list children)"
| "predicates_list [] = []"
| "predicates_list (f # fs) = predicates f @ predicates_list fs"

fun shape_ok :: "Schema \<Rightarrow> int \<Rightarrow> FilterExpr \<Rightarrow> bool"
  and shape_ok_list :: "Schema \<Rightarrow> int \<Rightarrow> FilterExpr list \<Rightarrow> bool" where
  "shape_ok schema depth (FilterExpr predicate logic children) \<longleftrightarrow>
     depth \<le> b_MaxFilterDepth (sc_bounds schema) \<and>
     (case predicate of
        Some p \<Rightarrow> children = []
      | None \<Rightarrow>
          children \<noteq> [] \<and> logic \<in> sc_allowedLogic schema \<and>
          (logic = LogicNot \<longrightarrow> length children = 1) \<and> shape_ok_list schema (depth + 1) children)"
| "shape_ok_list schema depth [] \<longleftrightarrow> True"
| "shape_ok_list schema depth (f # fs) \<longleftrightarrow> shape_ok schema depth f \<and> shape_ok_list schema depth fs"

section \<open>Predicates\<close>

definition filter_def :: "Schema \<Rightarrow> string \<Rightarrow> FilterDefinition option" where
  "filter_def schema name = map_option (\<lambda>i. sc_filters schema ! i) (sc_filterIndex schema name)"

definition value_ok :: "Schema \<Rightarrow> FilterDefinition \<Rightarrow> Value \<Rightarrow> bool" where
  "value_ok schema d v \<longleftrightarrow>
     v_type v = fl_Type d \<and>
     int (length (v_text v)) \<le> b_MaxStringBytes (sc_bounds schema) \<and>
     (v_type v = TypeString \<and> v_text v = [] \<longrightarrow> fl_AllowEmpty d)"

definition value_key :: "Value \<Rightarrow> string" where
  "value_key v = pair_key (v_type v) (v_text v)"

definition membership :: "Operator \<Rightarrow> bool" where
  "membership operator \<longleftrightarrow> operator = OpIn \<or> operator = OpNotIn"

definition values_ok :: "Schema \<Rightarrow> FilterDefinition \<Rightarrow> Predicate \<Rightarrow> bool" where
  "values_ok schema d p \<longleftrightarrow>
     (let count = int (length (pr_Values p)) in
      (membership (pr_Operator p) \<longrightarrow> 0 < count \<and> count \<le> b_MaxMembership (sc_bounds schema)) \<and>
      (\<not> membership (pr_Operator p) \<longrightarrow> count = wanted_values (pr_Operator p)) \<and>
      (\<forall>v \<in> set (pr_Values p). value_ok schema d v) \<and>
      distinct (map value_key (pr_Values p)))"

definition predicate_ok :: "Schema \<Rightarrow> Predicate \<Rightarrow> bool" where
  "predicate_ok schema p \<longleftrightarrow>
     (case filter_def schema (pr_Name p) of
        None \<Rightarrow> False
      | Some d \<Rightarrow>
          \<not> fl_Deprecated d \<and> pr_Operator p \<in> set (fl_Operators d) \<and> values_ok schema d p)"

definition predicate_key :: "Predicate \<Rightarrow> string" where
  "predicate_key p = pair_key (pr_Name p) (pr_Operator p)"

definition value_count :: "Predicate list \<Rightarrow> int" where
  "value_count ps = sum_list (map (\<lambda>p. int (length (pr_Values p))) ps)"

lemma value_count_simps [simp]:
  "value_count [] = 0"
  "value_count (p # ps) = int (length (pr_Values p)) + value_count ps"
  "value_count (ps @ qs) = value_count ps + value_count qs"
  by (simp_all add: value_count_def)

lemma value_count_nonneg [simp]: "0 \<le> value_count ps"
  by (induction ps) auto

text \<open>Keys of pairs are pairs, as long as the first component has no zero byte.\<close>

lemma pair_key_eq:
  assumes "CHR 0x00 \<notin> set a" "CHR 0x00 \<notin> set a'"
  shows "pair_key a b = pair_key a' b' \<longleftrightarrow> a = a' \<and> b = b'"
proof -
  have "a = a'" if "a @ CHR 0x00 # b = a' @ CHR 0x00 # b'"
    using that assms
  proof (induction a arbitrary: a')
    case Nil
    then show ?case by (cases a') auto
  next
    case (Cons x a)
    then show ?case by (cases a') auto
  qed
  then show ?thesis by (auto simp: pair_key_def)
qed

text \<open>Values of one type have distinct keys exactly when they are distinct.\<close>

lemma value_keys_distinct:
  assumes "\<forall>v \<in> set vs. v_type v = t"
  shows "distinct (map value_key vs) \<longleftrightarrow> distinct vs"
proof -
  have "inj_on value_key (set vs)"
    by (rule inj_onI) (use assms in \<open>auto simp: value_key_def pair_key_def\<close>)
  then show ?thesis by (simp add: distinct_map)
qed

subsection \<open>The values of a predicate\<close>

lemma validatePredicateValue_grows:
  "grows (en_col (snd s)) (en_col (snd (validatePredicateValue schema d path i v s)))"
  by (auto simp: validatePredicateValue_def Let_def case_prod_beta if_distrib [of en_col]
      intro!: grows_intros)

interpretation operands: collecting "\<lambda>s. en_col (snd s)" "validatePredicateValue schema d path"
  for schema :: Schema and d :: FilterDefinition and path :: string
  by unfold_locales (rule validatePredicateValue_grows)

lemma validatePredicateValue_clean:
  "en_clean (snd (validatePredicateValue schema d path i v (seen, e))) \<longleftrightarrow>
     en_clean e \<and> value_ok schema d v \<and> value_key v \<notin> seen"
  by (simp add: validatePredicateValue_def Let_def value_ok_def value_key_def
      if_distrib [of en_col] not_less)

lemma validatePredicateValue_keep:
  assumes "en_clean (snd (validatePredicateValue schema d path i v (seen, e)))"
  shows "validatePredicateValue schema d path i v (seen, e) = (insert (value_key v) seen, e)"
proof -
  have ok: "value_ok schema d v" "value_key v \<notin> seen"
    using assms by (simp_all add: validatePredicateValue_clean)
  have "(pair_key (v_type v) (v_text v) \<in> seen) = False"
    using ok(2) unfolding value_key_def by blast
  moreover have "(v_type v \<noteq> fl_Type d) = False"
    using ok(1) unfolding value_ok_def by blast
  moreover have "(b_MaxStringBytes (sc_bounds schema) < int (length (v_text v))) = False"
    using ok(1) unfolding value_ok_def by (simp only: not_less [symmetric] simp_thms)
  moreover have "(v_type v = TypeString \<and> v_text v = [] \<and> \<not> fl_AllowEmpty d) = False"
    using ok(1) unfolding value_ok_def by blast
  ultimately have none: "(pair_key (v_type v) (v_text v) \<in> seen) = False"
    "(v_type v \<noteq> fl_Type d) = False"
    "(b_MaxStringBytes (sc_bounds schema) < int (length (v_text v))) = False"
    "(v_type v = TypeString \<and> v_text v = [] \<and> \<not> fl_AllowEmpty d) = False"
    by this+
  show ?thesis
    unfolding validatePredicateValue_def Let_def prod.case none if_False value_key_def ..
qed

lemma operand_loop:
  "en_clean (snd (range_loop (validatePredicateValue schema d path) i vs (seen, e))) \<longleftrightarrow>
     en_clean e \<and> (\<forall>v \<in> set vs. value_ok schema d v) \<and> distinct (map value_key vs) \<and>
     value_key ` set vs \<inter> seen = {}"
  "en_clean (snd (range_loop (validatePredicateValue schema d path) i vs (seen, e))) \<Longrightarrow>
     snd (range_loop (validatePredicateValue schema d path) i vs (seen, e)) = e"
proof (induction vs arbitrary: i seen e)
  case (Cons v vs)
  let ?body = "validatePredicateValue schema d path"
  {
    case 1
    show ?case
    proof (cases "en_clean (snd (?body i v (seen, e)))")
      case True
      with validatePredicateValue_clean [of schema d path i v seen e] show ?thesis
        by (simp add: validatePredicateValue_keep [OF True] Cons.IH(1)) blast
    next
      case False
      then have "\<not> en_clean (snd (range_loop ?body i (v # vs) (seen, e)))"
        using operands.loop_clean_Cons by blast
      with False validatePredicateValue_clean [of schema d path i v seen e] show ?thesis by auto
    qed
  next
    case 2
    then have "en_clean (snd (?body i v (seen, e)))"
      by (rule operands.loop_clean_Cons)
    note keep = validatePredicateValue_keep [OF this]
    have run: "range_loop ?body i (v # vs) (seen, e) =
        range_loop ?body (Suc i) vs (insert (value_key v) seen, e)"
      by (simp add: keep)
    from 2 show ?case unfolding run by (rule Cons.IH(2))
  }
qed simp_all

text \<open>The count checks of \<open>validatePredicateValues\<close>, before its loop.\<close>

definition countChecks :: "Schema \<Rightarrow> Predicate \<Rightarrow> string \<Rightarrow> 'w env \<Rightarrow> 'w env" where
  "countChecks schema p path e =
     (let want = wanted_values (pr_Operator p);
          count = int (length (pr_Values p));
          e = (if (pr_Operator p = OpIn \<or> pr_Operator p = OpNotIn) \<and>
                  (count = 0 \<or> count > b_MaxMembership (sc_bounds schema))
               then en_add CodeLimitExceeded path
                      ''membership value count is outside its bounds'' e
               else e)
      in if want \<ge> 0 \<and> count \<noteq> want
         then en_add CodeConflict path ''filter has an invalid value count'' e else e)"

lemma validatePredicateValues_unfold:
  "validatePredicateValues schema d p path e =
     snd (range_loop (validatePredicateValue schema d path) 0 (pr_Values p)
       ({}, countChecks schema p path e))"
  by (simp only: validatePredicateValues_def countChecks_def Let_def)

definition count_ok :: "Schema \<Rightarrow> Predicate \<Rightarrow> bool" where
  "count_ok schema p \<longleftrightarrow>
     (let count = int (length (pr_Values p)) in
      (membership (pr_Operator p) \<longrightarrow> 0 < count \<and> count \<le> b_MaxMembership (sc_bounds schema)) \<and>
      (\<not> membership (pr_Operator p) \<longrightarrow> count = wanted_values (pr_Operator p)))"

lemma countChecks_grows: "grows (en_col e) (en_col (countChecks schema p path e))"
  unfolding countChecks_def Let_def by (auto simp: if_distrib [of en_col] intro!: grows_intros)

lemma count_ok_iff:
  "count_ok schema p \<longleftrightarrow>
     \<not> ((pr_Operator p = OpIn \<or> pr_Operator p = OpNotIn) \<and>
        (int (length (pr_Values p)) = 0 \<or>
         int (length (pr_Values p)) > b_MaxMembership (sc_bounds schema))) \<and>
     \<not> (wanted_values (pr_Operator p) \<ge> 0 \<and>
        int (length (pr_Values p)) \<noteq> wanted_values (pr_Operator p))"
proof -
  have "wanted_values (pr_Operator p) \<ge> 0 \<longleftrightarrow> \<not> membership (pr_Operator p)"
    by (auto simp: membership_def wanted_values_def)
  moreover have "0 < int (length (pr_Values p)) \<longleftrightarrow> int (length (pr_Values p)) \<noteq> 0" by simp
  ultimately show ?thesis
    unfolding count_ok_def Let_def membership_def by (simp only: not_less [symmetric]) blast
qed

lemma countChecks_clean:
  "en_clean (countChecks schema p path e) \<longleftrightarrow> en_clean e \<and> count_ok schema p"
  unfolding countChecks_def Let_def count_ok_iff
  by (simp only: if_distrib [of en_col] en_add_col clean_if) blast

lemma countChecks_keep: "count_ok schema p \<Longrightarrow> countChecks schema p path e = e"
  unfolding countChecks_def Let_def count_ok_iff by (simp only: if_False simp_thms)

lemma validatePredicateValues_grows:
  "grows (en_col e) (en_col (validatePredicateValues schema d p path e))"
  using operands.loop_grows [of "({}, countChecks schema p path e)" schema d path 0 "pr_Values p"]
    grows_trans [OF _ countChecks_grows]
  unfolding validatePredicateValues_unfold snd_conv by blast

lemma values_ok_iff:
  "values_ok schema d p \<longleftrightarrow>
     count_ok schema p \<and> (\<forall>v \<in> set (pr_Values p). value_ok schema d v) \<and>
     distinct (map value_key (pr_Values p))"
  by (simp add: values_ok_def count_ok_def Let_def)

lemma validatePredicateValues_clean:
  "en_clean (validatePredicateValues schema d p path e) \<longleftrightarrow> en_clean e \<and> values_ok schema d p"
  unfolding validatePredicateValues_unfold operand_loop(1) values_ok_iff countChecks_clean by simp

lemma validatePredicateValues_keep:
  assumes "en_clean (validatePredicateValues schema d p path e)"
  shows "validatePredicateValues schema d p path e = e"
proof -
  have "count_ok schema p"
    using assms by (simp add: validatePredicateValues_clean values_ok_iff)
  from assms operand_loop(2) show ?thesis
    unfolding validatePredicateValues_unfold countChecks_keep [OF \<open>count_ok schema p\<close>] by blast
qed

section \<open>Leaves\<close>

abbreviation filter_caps :: "Predicate list \<Rightarrow> Capability list" where
  "filter_caps ps \<equiv> map (\<lambda>p. cap CapabilityFilter (pr_Name p)) ps"

text \<open>The state after a clean run over \<open>n\<close> nodes with the predicates \<open>ps\<close>, and when it is clean.\<close>

definition taken ::
  "'w CompileOptions \<Rightarrow> int \<Rightarrow> Predicate list \<Rightarrow> 'w filter_state \<Rightarrow> 'w filter_state" where
  "taken options n ps s =
     \<lparr>fs_nodes = fs_nodes s + n, fs_values = fs_values s + value_count ps,
      fs_seen = fs_seen s \<union> predicate_key ` set ps,
      fs_env = snd (ask_all options (filter_caps ps) (fs_env s))\<rparr>"

definition takes :: "Schema \<Rightarrow> 'w CompileOptions \<Rightarrow> Predicate list \<Rightarrow> 'w filter_state \<Rightarrow> bool" where
  "takes schema options ps s \<longleftrightarrow>
     (\<forall>p \<in> set ps. predicate_ok schema p) \<and> distinct (map predicate_key ps) \<and>
     predicate_key ` set ps \<inter> fs_seen s = {} \<and>
     fs_values s + value_count ps \<le> b_MaxValues (sc_bounds schema) \<and>
     fst (ask_all options (filter_caps ps) (fs_env s))"

lemma taken_append:
  "fst (ask_all options (filter_caps ps) (fs_env s)) \<Longrightarrow>
   taken options (n + m) (ps @ qs) s = taken options m qs (taken options n ps s)"
  by (auto simp: taken_def ask_all_append)

lemma takes_append:
  "takes schema options (ps @ qs) s \<longleftrightarrow>
     takes schema options ps s \<and> takes schema options qs (taken options n ps s)"
proof -
  have "fs_values s + value_count ps + value_count qs \<le> k \<Longrightarrow> fs_values s + value_count ps \<le> k" for k
    using value_count_nonneg [of qs] by linarith
  then show ?thesis
    by (auto simp: takes_def taken_def ask_all_append add.assoc)
qed

abbreviation fs_clean :: "'w filter_state \<Rightarrow> bool" where
  "fs_clean s \<equiv> en_clean (fs_env s)"

lemma fs_add_col [simp]: "en_col (fs_env (fs_add code path m s)) = vc_add code path m (en_col (fs_env s))"
  by (simp add: fs_add_def)

lemma compilePredicate_grows:
  "grows (en_col (fs_env s)) (en_col (fs_env (snd (compilePredicate schema options path node p s))))"
proof (cases "sc_filterIndex schema (pr_Name p)")
  case (Some i)
  have vals: "grows (en_col e) (en_col (validatePredicateValues schema d p path e'))"
    if "grows (en_col e) (en_col e')" for e e' :: "'w env" and d
    using that validatePredicateValues_grows grows_trans by blast
  show ?thesis
    unfolding compilePredicate_def Some Let_def case_prod_beta option.case
    by (auto simp: if_distrib [of fs_env] if_distrib [of en_col] fs_add_def
        intro!: grows_intros vals)
qed (auto simp: compilePredicate_def intro: grows_intros)

definition leaf_ok ::
  "Schema \<Rightarrow> 'w CompileOptions \<Rightarrow> FilterDefinition \<Rightarrow> Predicate \<Rightarrow> 'w filter_state \<Rightarrow> bool" where
  "leaf_ok schema options d p s \<longleftrightarrow>
     fst (authorized options CapabilityFilter (pr_Name p) (fs_env s)) \<and>
     \<not> fl_Deprecated d \<and> predicate_key p \<notin> fs_seen s \<and>
     containsOperator (fl_Operators d) (pr_Operator p) \<and>
     int (length (pr_Values p)) \<le> b_MaxValues (sc_bounds schema) - fs_values s \<and>
     values_ok schema d p"

lemma compilePredicate_cases:
  assumes i: "sc_filterIndex schema (pr_Name p) = Some i"
  shows "fs_clean (snd (compilePredicate schema options path node p s)) \<longleftrightarrow>
      fs_clean s \<and> leaf_ok schema options (sc_filters schema ! i) p s"
    and "fs_clean s \<Longrightarrow> leaf_ok schema options (sc_filters schema ! i) p s \<Longrightarrow>
      compilePredicate schema options path node p s = (Some node, taken options 0 [p] s)"
proof -
  define d where "d = sc_filters schema ! i"
  define ask where "ask = authorized options CapabilityFilter (pr_Name p) (fs_env s)"
  have col: "en_col (snd ask) = en_col (fs_env s)"
    unfolding ask_def by simp
  show "fs_clean (snd (compilePredicate schema options path node p s)) \<longleftrightarrow>
      fs_clean s \<and> leaf_ok schema options (sc_filters schema ! i) p s"
    unfolding compilePredicate_def i option.case Let_def case_prod_beta ask_def [symmetric]
      d_def [symmetric] leaf_ok_def predicate_key_def
    by (simp add: fs_add_def col validatePredicateValues_clean not_less)
  assume clean: "fs_clean s" and ok: "leaf_ok schema options (sc_filters schema ! i) p s"
  have "validatePredicateValues schema d p path (snd ask) = snd ask"
    using ok clean col
    by (intro validatePredicateValues_keep)
      (simp add: validatePredicateValues_clean leaf_ok_def d_def)
  with ok show "compilePredicate schema options path node p s = (Some node, taken options 0 [p] s)"
    unfolding compilePredicate_def i option.case Let_def case_prod_beta ask_def [symmetric]
      d_def [symmetric] leaf_ok_def
    by (cases s) (simp add: predicate_key_def taken_def ask_def not_less del: ask_all.simps(2))
qed

lemma takes_single:
  "takes schema options [p] s \<longleftrightarrow>
     (\<exists>i. sc_filterIndex schema (pr_Name p) = Some i \<and>
        leaf_ok schema options (sc_filters schema ! i) p s)"
  by (cases "sc_filterIndex schema (pr_Name p)")
    (auto simp: takes_def predicate_ok_def filter_def_def containsOperator_def leaf_ok_def
      simp del: ask_all.simps(2))

lemma compilePredicate_clean:
  "fs_clean (snd (compilePredicate schema options path node p s)) \<longleftrightarrow>
     fs_clean s \<and> takes schema options [p] s"
proof (cases "sc_filterIndex schema (pr_Name p)")
  case None
  then show ?thesis by (simp add: compilePredicate_def takes_single)
next
  case (Some i)
  then show ?thesis by (simp add: takes_single compilePredicate_cases(1))
qed

lemma compilePredicate_result:
  assumes "fs_clean (snd (compilePredicate schema options path node p s))"
  shows "compilePredicate schema options path node p s = (Some node, taken options 0 [p] s)"
  using assms compilePredicate_cases(2) unfolding compilePredicate_clean takes_single by blast

section \<open>Nodes\<close>

lemma compileFilter_node_grows:
  "grows (en_col (fs_env s)) (en_col (fs_env (snd (compileFilterNode schema options path depth f s))))"
  "grows (en_col (fs_env s))
     (en_col (fs_env (snd (compileFilterChildren schema options path depth i fs kept s))))"
proof (induction schema options path depth f s and schema options path depth i fs kept s
    rule: compileFilterNode_compileFilterChildren.induct)
  case (1 schema options path depth predicate logic children s)
  define s1 where "s1 = s\<lparr>fs_nodes := fs_nodes s + 1\<rparr>"
  define s2 where "s2 = (if logic \<notin> sc_allowedLogic schema
    then fs_add CodeUnsupported path ''logical operation is not available'' s1 else s1)"
  define s3 where "s3 = (if logic = LogicNot \<and> length children \<noteq> 1
    then fs_add CodeConflict path ''not requires exactly one child'' s2 else s2)"
  have s1: "en_col (fs_env s1) = en_col (fs_env s)" by (simp add: s1_def)
  have s3: "grows (en_col (fs_env s)) (en_col (fs_env s3))"
    unfolding s3_def s2_def
    by (auto simp: if_distrib [of fs_env] if_distrib [of en_col] s1 intro!: grows_intros)
  show ?case
  proof (cases predicate)
    case (Some p)
    then show ?thesis
      using compilePredicate_grows [of s1 schema options path "FilterExpr predicate logic children" p]
      unfolding compileFilterNode.simps s1_def [symmetric] Let_def Some option.case
      by (auto simp: s1 intro!: grows_intros)
  next
    case None
    have "grows (en_col (fs_env s3)) (en_col (fs_env (snd
        (compileFilterChildren schema options path depth 0 children [] s3))))"
      if "\<not> depth > b_MaxFilterDepth (sc_bounds schema)" "children \<noteq> []"
      using "1.IH" [OF s1_def that(1) _ None s2_def s3_def] that(2) None by simp
    with s3 show ?thesis
      unfolding compileFilterNode.simps s1_def [symmetric] Let_def None option.case
        s2_def [symmetric] s3_def [symmetric] case_prod_beta
      by (auto simp: s1 intro!: grows_intros intro: grows_trans)
  qed
next
  case (3 schema options path depth i child rest kept s)
  show ?case
  proof (cases "fs_nodes s \<ge> b_MaxFilterNodes (sc_bounds schema)")
    case True
    then show ?thesis by (simp add: grows_add)
  next
    case False
    from grows_trans [OF "3.IH"(2) [OF False refl prod.collapse] "3.IH"(1) [OF False]] False
    show ?thesis by (simp add: Let_def case_prod_beta)
  qed
qed simp

section \<open>Clean runs\<close>

text \<open>
  The compiler checks the node count before each child, so a run from at most the allowed number of
  nodes is clean only if the whole tree fits.
\<close>

definition run_ok ::
  "Schema \<Rightarrow> 'w CompileOptions \<Rightarrow> int \<Rightarrow> Predicate list \<Rightarrow> 'w filter_state \<Rightarrow> bool" where
  "run_ok schema options n ps s \<longleftrightarrow>
     fs_clean s \<and> takes schema options ps s \<and>
     fs_nodes s + n \<le> b_MaxFilterNodes (sc_bounds schema)"

lemma taken_clean [simp]: "fs_clean (taken options n ps s) \<longleftrightarrow> fs_clean s"
  by (simp add: taken_def)

lemma taken_counts [simp]:
  "fs_nodes (taken options n ps s) = fs_nodes s + n"
  "fs_values (taken options n ps s) = fs_values s + value_count ps"
  by (simp_all add: taken_def)

lemma taken_nodes: "s\<lparr>fs_nodes := fs_nodes s + 1\<rparr> = taken options 1 [] s"
  by (simp add: taken_def)

lemma taken_taken_Nil: "taken options n ps (taken options m [] s) = taken options (m + n) ps s"
  by (simp add: taken_def add.assoc)

lemma takes_taken_Nil [simp]:
  "takes schema options ps (taken options n [] s) \<longleftrightarrow> takes schema options ps s"
  by (simp add: takes_def taken_def)

lemma compileFilter_runs:
  assumes "fs_values s \<le> b_MaxValues (sc_bounds schema)"
  shows "fs_nodes s < b_MaxFilterNodes (sc_bounds schema) \<Longrightarrow>
      (fs_clean (snd (compileFilterNode schema options path depth f s)) \<longleftrightarrow>
         shape_ok schema depth f \<and> run_ok schema options (filter_nodes f) (predicates f) s) \<and>
      (fs_clean (snd (compileFilterNode schema options path depth f s)) \<longrightarrow>
         compileFilterNode schema options path depth f s =
           (Some f, taken options (filter_nodes f) (predicates f) s))"
    and "fs_nodes s \<le> b_MaxFilterNodes (sc_bounds schema) \<Longrightarrow>
      (fs_clean (snd (compileFilterChildren schema options path depth i fs kept s)) \<longleftrightarrow>
         shape_ok_list schema (depth + 1) fs \<and>
         run_ok schema options (filter_nodes_list fs) (predicates_list fs) s) \<and>
      (fs_clean (snd (compileFilterChildren schema options path depth i fs kept s)) \<longrightarrow>
         compileFilterChildren schema options path depth i fs kept s =
           (kept @ fs, taken options (filter_nodes_list fs) (predicates_list fs) s))"
  using assms
proof (induction f and fs arbitrary: path depth s and path depth i kept s
    rule: filter_nodes_filter_nodes_list.induct)
  case (1 predicate logic children)
  define s1 where "s1 = taken options 1 [] s"
  have s1: "s\<lparr>fs_nodes := fs_nodes s + 1\<rparr> = s1" "fs_clean s1 \<longleftrightarrow> fs_clean s"
    "fs_nodes s1 \<le> b_MaxFilterNodes (sc_bounds schema)"
    "fs_values s1 \<le> b_MaxValues (sc_bounds schema)"
    using 1(2,3) by (simp_all add: s1_def taken_nodes)
  define deep where "deep \<longleftrightarrow> depth > b_MaxFilterDepth (sc_bounds schema)"
  define mixed where "mixed \<longleftrightarrow> (predicate = None) = (length children = 0)"
  note unfolded = compileFilterNode.simps s1(1) Let_def deep_def [symmetric] mixed_def [symmetric]
  show ?case
  proof (cases "deep \<or> mixed")
    case True
    then have "\<not> shape_ok schema depth (FilterExpr predicate logic children)"
      by (auto simp: deep_def mixed_def split: option.splits)
    moreover have "\<not> fs_clean (snd (compileFilterNode schema options path depth
        (FilterExpr predicate logic children) s))"
      using True unfolding unfolded by auto
    ultimately show ?thesis by blast
  next
    case flat: False
    show ?thesis
    proof (cases predicate)
      case (Some p)
      have run: "compileFilterNode schema options path depth (FilterExpr predicate logic children) s =
          compilePredicate schema options path (FilterExpr predicate logic children) p s1"
        using flat unfolding unfolded unfolding Some by simp
      have kids: "children = []" using flat Some by (auto simp: mixed_def)
      have "fs_clean (snd (compilePredicate schema options path
            (FilterExpr predicate logic children) p s1)) \<longleftrightarrow>
          shape_ok schema depth (FilterExpr predicate logic children) \<and>
          run_ok schema options 1 [p] s"
        using flat 1(2) kids Some s1(2)
        by (auto simp: compilePredicate_clean run_ok_def s1_def deep_def)
      then show ?thesis
        unfolding run using compilePredicate_result [of schema options path
            "FilterExpr predicate logic children" p s1]
        by (simp add: Some kids s1_def taken_taken_Nil)
    next
      case None
      have kids: "children \<noteq> []" using flat None by (auto simp: mixed_def)
      define s2 where "s2 = (if logic \<notin> sc_allowedLogic schema
        then fs_add CodeUnsupported path ''logical operation is not available'' s1 else s1)"
      define s3 where "s3 = (if logic = LogicNot \<and> length children \<noteq> 1
        then fs_add CodeConflict path ''not requires exactly one child'' s2 else s2)"
      define here where "here \<longleftrightarrow> logic \<in> sc_allowedLogic schema \<and>
        (logic = LogicNot \<longrightarrow> length children = 1)"
      let ?kids = "compileFilterChildren schema options path depth 0 children [] s3"
      have run: "compileFilterNode schema options path depth (FilterExpr predicate logic children) s =
          (Some (FilterExpr None logic (fst ?kids)), snd ?kids)"
        using flat kids
        unfolding unfolded
        unfolding None option.case s2_def [symmetric] s3_def [symmetric] case_prod_beta
        by simp
      have s3: "fs_clean s3 \<longleftrightarrow> fs_clean s \<and> here"
        unfolding s3_def s2_def here_def
        by (auto simp: if_distrib [of fs_env] if_distrib [of en_col] s1(2))
      have same: "here \<Longrightarrow> s3 = s1"
        unfolding s3_def s2_def here_def by auto
      have grow: "fs_clean (snd ?kids) \<Longrightarrow> fs_clean s3"
        using compileFilter_node_grows(2) grows_clean by blast
      note IH = 1(1) [OF s1(3,4), of path depth 0 "[]"]
      show ?thesis
      proof (cases here)
        case True
        show ?thesis
          unfolding run same [OF True] using IH True flat kids None s1(2)
          by (auto simp: run_ok_def here_def deep_def s1_def taken_taken_Nil add.assoc)
      next
        case False
        then have "\<not> shape_ok schema depth (FilterExpr predicate logic children)"
          using None by (auto simp: here_def)
        moreover from False s3 grow have "\<not> fs_clean (snd ?kids)" by blast
        ultimately show ?thesis unfolding run snd_conv by blast
      qed
    qed
  qed
next
  case 2
  then show ?case by (auto simp: run_ok_def takes_def taken_def)
next
  case (3 f fs)
  let ?run = "compileFilterChildren schema options path depth i (f # fs) kept s"
  show ?case
  proof (cases "fs_nodes s < b_MaxFilterNodes (sc_bounds schema)")
    case False
    then have "\<not> fs_clean (snd ?run)" by simp
    moreover have "\<not> run_ok schema options (filter_nodes_list (f # fs)) (predicates_list (f # fs)) s"
      using False filter_nodes_pos(1) [of f] filter_nodes_pos(2) [of fs] by (simp add: run_ok_def)
    ultimately show ?thesis by blast
  next
    case True
    define node where "node = compileFilterNode schema options
      (indexed_path (path @ ''.children'') i) (depth + 1) f s"
    have run: "?run = compileFilterChildren schema options path depth (Suc i) fs
        (case fst node of None \<Rightarrow> kept | Some child' \<Rightarrow> kept @ [child']) (snd node)"
      using True unfolding node_def by (simp add: Let_def case_prod_beta)
    note first = 3(1) [OF True 3(4), of "indexed_path (path @ ''.children'') i" "depth + 1",
        folded node_def]
    show ?thesis
    proof (cases "fs_clean (snd node)")
      case clean: True
      define s1 where "s1 = taken options (filter_nodes f) (predicates f) s"
      have node: "node = (Some f, s1)" and ok: "shape_ok schema (depth + 1) f"
        "run_ok schema options (filter_nodes f) (predicates f) s"
        using first clean by (simp_all add: s1_def)
      have "fs_nodes s1 \<le> b_MaxFilterNodes (sc_bounds schema)"
        "fs_values s1 \<le> b_MaxValues (sc_bounds schema)"
        using ok(2) by (simp_all add: s1_def run_ok_def takes_def)
      note rest = 3(2) [OF this, of path depth "Suc i" "kept @ [f]"]
      have ask: "fst (ask_all options (filter_caps (predicates f)) (fs_env s))"
        using ok(2) by (simp add: run_ok_def takes_def)
      have join: "run_ok schema options (filter_nodes_list (f # fs)) (predicates_list (f # fs)) s \<longleftrightarrow>
          run_ok schema options (filter_nodes_list fs) (predicates_list fs) s1"
        using ok(2) unfolding run_ok_def s1_def
        by (simp add: takes_append [where n = "filter_nodes f"] add.assoc)
      show ?thesis
        unfolding run node fst_conv snd_conv option.case join
        using rest ok(1) by (simp add: s1_def taken_append [OF ask])
    next
      case dirty: False
      then have "\<not> fs_clean (snd ?run)"
        unfolding run using compileFilter_node_grows(2) grows_clean by blast
      moreover have "\<not> (shape_ok_list schema (depth + 1) (f # fs) \<and>
          run_ok schema options (filter_nodes_list (f # fs)) (predicates_list (f # fs)) s)"
        using first dirty filter_nodes_pos(2) [of fs]
        by (auto simp: run_ok_def takes_append [where n = "filter_nodes f"])
      ultimately show ?thesis by blast
    qed
  qed
qed

section \<open>The filter of a request\<close>

definition empty_filter_state :: "'w env \<Rightarrow> 'w filter_state" where
  "empty_filter_state e = \<lparr>fs_nodes = 0, fs_values = 0, fs_seen = {}, fs_env = e\<rparr>"

definition filter_accepted :: "Schema \<Rightarrow> FilterExpr option \<Rightarrow> bool" where
  "filter_accepted schema filter' \<longleftrightarrow>
     (case filter' of
        None \<Rightarrow> True
      | Some f \<Rightarrow>
          shape_ok schema 1 f \<and> filter_nodes f \<le> b_MaxFilterNodes (sc_bounds schema) \<and>
          (\<forall>p \<in> set (predicates f). predicate_ok schema p) \<and>
          distinct (map (\<lambda>p. (pr_Name p, pr_Operator p)) (predicates f)) \<and>
          value_count (predicates f) \<le> b_MaxValues (sc_bounds schema))"

definition filter_asks :: "FilterExpr option \<Rightarrow> Capability list" where
  "filter_asks filter' = (case filter' of None \<Rightarrow> [] | Some f \<Rightarrow> filter_caps (predicates f))"

lemma compileFilter_unfold:
  "compileFilter schema (Some f) options e =
     map_prod id fs_env
       (compileFilterNode schema options ''filter'' 1 f (empty_filter_state e))"
  by (simp add: compileFilter_def empty_filter_state_def case_prod_beta map_prod_def)

lemma compileFilter_grows:
  "grows (en_col e) (en_col (snd (compileFilter schema filter' options e)))"
proof (cases filter')
  case (Some f)
  then show ?thesis
    using compileFilter_node_grows(1) [of "empty_filter_state e"]
    unfolding Some compileFilter_unfold by (simp add: empty_filter_state_def)
qed (simp add: compileFilter_def)

text \<open>Declared names carry no zero byte, so the keys of accepted predicates are the pairs themselves.\<close>

lemma predicate_keys_distinct:
  assumes wf: "wf_schema schema" and ok: "\<forall>p \<in> set ps. predicate_ok schema p"
  shows "distinct (map predicate_key ps) \<longleftrightarrow>
    distinct (map (\<lambda>p. (pr_Name p, pr_Operator p)) ps)"
proof -
  have name: "CHR 0x00 \<notin> set (pr_Name p)" if p: "p \<in> set ps" for p
  proof -
    from ok p obtain i where i: "sc_filterIndex schema (pr_Name p) = Some i"
      by (fastforce simp: predicate_ok_def filter_def_def split: option.splits)
    have "validName (pr_Name p)"
      using wf_schema_filter [OF wf i] by (auto simp: filter_ok_def)
    then show ?thesis by (rule validName_no_nul)
  qed
  have "predicate_key p = predicate_key q \<longleftrightarrow>
      (pr_Name p, pr_Operator p) = (pr_Name q, pr_Operator q)" if "p \<in> set ps" "q \<in> set ps" for p q
    using pair_key_eq [OF name name] that by (simp add: predicate_key_def)
  then show ?thesis by (simp add: distinct_map inj_on_def)
qed

lemma compileFilter_clean:
  assumes "wf_schema schema"
  shows "en_clean (snd (compileFilter schema filter' options e)) \<longleftrightarrow>
    en_clean e \<and> filter_accepted schema filter' \<and> fst (ask_all options (filter_asks filter') e)"
proof (cases filter')
  case None
  then show ?thesis by (simp add: compileFilter_def filter_accepted_def filter_asks_def)
next
  case (Some f)
  have bounds: "0 \<le> b_MaxValues (sc_bounds schema)" "0 < b_MaxFilterNodes (sc_bounds schema)"
    using wf_schema_bounds [OF assms] by simp_all
  have "fs_clean (snd (compileFilterNode schema options ''filter'' 1 f (empty_filter_state e))) \<longleftrightarrow>
      shape_ok schema 1 f \<and> run_ok schema options (filter_nodes f) (predicates f) (empty_filter_state e)"
    using compileFilter_runs(1) [of "empty_filter_state e" schema options "''filter''" 1 f] bounds
    by (simp add: empty_filter_state_def)
  then show ?thesis
    using predicate_keys_distinct [OF assms]
    unfolding Some compileFilter_unfold
    by (auto simp: run_ok_def takes_def filter_accepted_def filter_asks_def empty_filter_state_def)
qed

lemma compileFilter_result:
  assumes "wf_schema schema" and "en_clean (snd (compileFilter schema filter' options e))"
  shows "compileFilter schema filter' options e =
    (filter', snd (ask_all options (filter_asks filter') e))"
proof (cases filter')
  case None
  then show ?thesis by (simp add: compileFilter_def filter_asks_def)
next
  case (Some f)
  have bounds: "0 \<le> b_MaxValues (sc_bounds schema)" "0 < b_MaxFilterNodes (sc_bounds schema)"
    using wf_schema_bounds [OF assms(1)] by simp_all
  have "compileFilterNode schema options ''filter'' 1 f (empty_filter_state e) =
      (Some f, taken options (filter_nodes f) (predicates f) (empty_filter_state e))"
    using compileFilter_runs(1) [of "empty_filter_state e" schema options "''filter''" 1 f] bounds
      assms(2)
    unfolding Some compileFilter_unfold by (simp add: empty_filter_state_def)
  then show ?thesis
    unfolding Some compileFilter_unfold
    by (simp add: filter_asks_def taken_def empty_filter_state_def)
qed

end
