(* ===== verification/CompileOrder.thy ===== *)
theory CompileOrder
  imports CompileFilter
begin

text \<open>
  The last stages of the compiler: the page, the total order a cursor needs, the cursor state, and
  the cost of the whole plan. The cost is kept in 64-bit arithmetic with a sticky flag; on schemas
  whose bounds are 64-bit integers it is the exact sum of the charges, and the flag is set exactly
  when that sum exceeds the bound.
\<close>

section \<open>Pages\<close>

definition page_ok :: "Schema \<Rightarrow> PageRequest \<Rightarrow> bool" where
  "page_ok schema page \<longleftrightarrow>
     (let pagination = sc_pagination schema; bounds = sc_bounds schema in
      (pg_Mode page = PageNone \<and>
         pg_Size page = 0 \<and> pg_After page = [] \<and> pg_Before page = [] \<and> pg_Offset page = 0) \<or>
      (pg_Mode page = PageCursor \<and> pd_Cursor pagination \<and>
         0 \<le> pg_Size page \<and> pg_Size page \<le> b_MaxPageSize bounds \<and> pg_Offset page = 0 \<and>
         (pg_After page = [] \<or> pg_Before page = []) \<and>
         int (length (pg_After page)) \<le> b_MaxCursorBytes bounds \<and>
         int (length (pg_Before page)) \<le> b_MaxCursorBytes bounds) \<or>
      (pg_Mode page = PageOffset \<and> pd_Offset pagination \<and>
         0 \<le> pg_Size page \<and> pg_Size page \<le> b_MaxPageSize bounds \<and>
         0 \<le> pg_Offset page \<and> pg_Offset page \<le> pd_MaxOffset pagination \<and>
         pg_After page = [] \<and> pg_Before page = []))"

text \<open>A chain of independent checks, each adding a violation when its condition holds.\<close>

fun report :: "(bool \<times> ErrorCode \<times> string \<times> string) list \<Rightarrow> 'w env \<Rightarrow> 'w env" where
  "report [] e = e"
| "report ((b, code, path, message) # checks) e =
     report checks (if b then en_add code path message e else e)"

lemma report_grows: "grows (en_col e) (en_col (report checks e))"
proof (induction checks arbitrary: e)
  case (Cons c cs)
  obtain b code path message where c: "c = (b, code, path, message)" by (metis prod_cases4)
  have "grows (en_col e) (en_col (if b then en_add code path message e else e))"
    by (auto intro: grows_intros)
  with Cons show ?case unfolding c report.simps by (blast intro: grows_trans)
qed simp

lemma report_clean: "en_clean (report checks e) \<longleftrightarrow> en_clean e \<and> (\<forall>c \<in> set checks. \<not> fst c)"
proof (induction checks arbitrary: e)
  case (Cons c cs)
  then show ?case by (cases c) simp
qed simp

lemma report_keep: "\<forall>c \<in> set checks. \<not> fst c \<Longrightarrow> report checks e = e"
proof (induction checks arbitrary: e)
  case (Cons c cs)
  then show ?case by (cases c) simp
qed simp

definition pageChecks :: "Schema \<Rightarrow> PageRequest \<Rightarrow> (bool \<times> ErrorCode \<times> string \<times> string) list" where
  "pageChecks schema page =
     (let pagination = sc_pagination schema; bounds = sc_bounds schema; mode = pg_Mode page in
      [(mode = PageCursor \<and> \<not> pd_Cursor pagination,
          CodeUnsupported, ''page.mode'', ''cursor pagination is not available''),
       (mode = PageOffset \<and> \<not> pd_Offset pagination,
          CodeUnsupported, ''page.mode'', ''offset pagination is not available''),
       (mode = PageOffset \<and> (pg_Offset page < 0 \<or> pg_Offset page > pd_MaxOffset pagination),
          CodeLimitExceeded, ''page.offset'', ''offset is outside its bounds''),
       (pg_Size page < 0 \<or> pg_Size page > b_MaxPageSize bounds,
          CodeLimitExceeded, ''page.size'', ''page size is outside its bounds''),
       (pg_After page \<noteq> [] \<and> pg_Before page \<noteq> [],
          CodeConflict, ''page'', ''after and before cursors conflict''),
       (int (length (pg_After page)) > b_MaxCursorBytes bounds,
          CodeLimitExceeded, ''page.after'', ''cursor exceeds the size limit''),
       (int (length (pg_Before page)) > b_MaxCursorBytes bounds,
          CodeLimitExceeded, ''page.before'', ''cursor exceeds the size limit''),
       (mode \<noteq> PageNone \<and> mode \<noteq> PageCursor \<and> mode \<noteq> PageOffset,
          CodeUnsupported, ''page.mode'', ''pagination mode is not available''),
       (mode = PageNone \<and>
          (pg_Size page \<noteq> 0 \<or> pg_After page \<noteq> [] \<or> pg_Before page \<noteq> [] \<or> pg_Offset page \<noteq> 0),
          CodeConflict, ''page'', ''pagination state requires an active mode''),
       (mode = PageCursor \<and> pg_Offset page \<noteq> 0,
          CodeConflict, ''page.offset'', ''offset conflicts with cursor pagination''),
       (mode = PageOffset \<and> (pg_After page \<noteq> [] \<or> pg_Before page \<noteq> []),
          CodeConflict, ''page'', ''cursor conflicts with offset pagination'')])"

lemma mode_cases:
  obtains "pg_Mode page = PageNone" | "pg_Mode page = PageCursor" | "pg_Mode page = PageOffset"
    | "pg_Mode page \<noteq> PageNone" "pg_Mode page \<noteq> PageCursor" "pg_Mode page \<noteq> PageOffset"
  by blast

lemma checkPage_report: "checkPage schema page e = report (pageChecks schema page) e"
  by (cases rule: mode_cases [of page])
    (simp_all only: checkPage_def pageChecks_def report.simps Let_def simp_thms if_False if_True
      list.inject char.inject list.distinct)

lemma checkPage_grows: "grows (en_col e) (en_col (checkPage schema page e))"
  unfolding checkPage_report by (rule report_grows)

lemma checkPage_clean:
  assumes wf: "wf_schema schema"
  shows "en_clean (checkPage schema page e) \<longleftrightarrow> en_clean e \<and> page_ok schema page"
proof -
  note pos = wf_schema_bounds [OF wf]
  have "(\<forall>c \<in> set (pageChecks schema page). \<not> fst c) \<longleftrightarrow> page_ok schema page"
    by (cases rule: mode_cases [of page]) (use pos in \<open>auto simp: pageChecks_def page_ok_def Let_def\<close>)
  then show ?thesis unfolding checkPage_report report_clean by blast
qed

lemma checkPage_keep: "en_clean (checkPage schema page e) \<Longrightarrow> checkPage schema page e = e"
  unfolding checkPage_report report_clean using report_keep by blast

text \<open>An accepted page in an active mode has a positive size: a zero size takes the default.\<close>

lemma normalizePage_size:
  assumes "wf_schema schema" and "page_ok schema (normalizePage schema page)"
    and "pg_Mode (normalizePage schema page) \<noteq> PageNone"
  shows "0 < pg_Size (normalizePage schema page)"
proof -
  have "0 < pd_DefaultPageSize (sc_pagination schema)"
    if "pd_Cursor (sc_pagination schema) \<or> pd_Offset (sc_pagination schema)"
    using that assms(1) unfolding wf_schema_def pagination_ok_def Let_def by blast
  moreover have "pd_Cursor (sc_pagination schema) \<or> pd_Offset (sc_pagination schema)"
    and "0 \<le> pg_Size (normalizePage schema page)"
    using assms(2,3) by (auto simp: page_ok_def Let_def)
  ultimately show ?thesis
    using assms(3) by (cases "pg_Size page = 0") (auto simp: normalizePage_def Let_def)
qed

section \<open>Total orders\<close>

definition tie_breaker :: "Schema \<Rightarrow> SortDefinition option" where
  "tie_breaker schema = find sd_TieBreaker (sc_sorts schema)"

definition tie_term :: "SortDefinition \<Rightarrow> SortTerm" where
  "tie_term d = \<lparr>st_Name = sd_Name d, st_Direction = Ascending, st_Nulls = sd_Nulls d\<rparr>"

text \<open>The terms a page adds to its sorts: the tie-breaker, in cursor mode, unless it is there.\<close>

definition added_terms :: "Schema \<Rightarrow> PageRequest \<Rightarrow> SortTerm list \<Rightarrow> SortTerm list" where
  "added_terms schema page sorts =
     (if pg_Mode page = PageCursor then
        (case tie_breaker schema of
           None \<Rightarrow> []
         | Some d \<Rightarrow> if sd_Name d \<in> st_Name ` set sorts then [] else [tie_term d])
      else [])"

lemma completeOrder_run:
  "completeOrder schema options ds sorts e =
     (case find sd_TieBreaker ds of
        None \<Rightarrow> (sorts, e)
      | Some d \<Rightarrow> completeOrder schema options [d] sorts e)"
  by (induction ds) auto

lemma completeOrder_one:
  assumes "sd_TieBreaker d" and "int (length sorts) \<le> b_MaxSorts (sc_bounds schema)"
  defines "new \<equiv> (if sd_Name d \<in> st_Name ` set sorts then [] else [tie_term d])"
  shows "en_clean (snd (completeOrder schema options [d] sorts e)) \<longleftrightarrow>
      en_clean e \<and> int (length (sorts @ new)) \<le> b_MaxSorts (sc_bounds schema) \<and>
      fst (ask_all options (sort_caps new) e)"
    and "en_clean (snd (completeOrder schema options [d] sorts e)) \<Longrightarrow>
      completeOrder schema options [d] sorts e =
        (sorts @ new, snd (ask_all options (sort_caps new) e))"
proof -
  have new: "sd_Name d \<notin> st_Name ` set sorts \<Longrightarrow> new = [tie_term d]"
    "sd_Name d \<in> st_Name ` set sorts \<Longrightarrow> new = []" by (simp_all add: new_def)
  have ask: "sd_Name d \<notin> st_Name ` set sorts \<Longrightarrow>
      ask_all options (sort_caps new) e = authorized options CapabilitySort (sd_Name d) e"
    by (simp add: new tie_term_def del: ask_all.simps(2))
  show "en_clean (snd (completeOrder schema options [d] sorts e)) \<longleftrightarrow>
      en_clean e \<and> int (length (sorts @ new)) \<le> b_MaxSorts (sc_bounds schema) \<and>
      fst (ask_all options (sort_caps new) e)"
  proof (cases "sd_Name d \<in> st_Name ` set sorts")
    case True
    then show ?thesis using assms by (simp add: new)
  next
    case False
    have "int (length (sorts @ new)) \<le> b_MaxSorts (sc_bounds schema) \<longleftrightarrow>
        \<not> b_MaxSorts (sc_bounds schema) \<le> int (length sorts)"
      unfolding new(1) [OF False] by simp linarith
    then show ?thesis
      unfolding ask [OF False] using False assms(1) by (simp add: Let_def case_prod_beta)
  qed
  assume "en_clean (snd (completeOrder schema options [d] sorts e))"
  then show "completeOrder schema options [d] sorts e =
      (sorts @ new, snd (ask_all options (sort_caps new) e))"
    by (cases "sd_Name d \<in> st_Name ` set sorts")
      (use assms in \<open>simp_all add: new ask Let_def case_prod_beta tie_term_def del: ask_all.simps(2) split: if_splits\<close>)
qed

lemma completeOrder_grows:
  "grows (en_col e) (en_col (snd (completeOrder schema options ds sorts e)))"
  by (induction ds) (auto simp: Let_def case_prod_beta intro: grows_intros)

lemma compilePage_grows:
  "grows (en_col e) (en_col (snd (snd (compilePage schema page sorts options e))))"
proof -
  have "grows (en_col e) (en_col (snd (completeOrder schema options ds sorts
      (checkPage schema page' e))))" for ds page'
    using completeOrder_grows checkPage_grows grows_trans by blast
  then show ?thesis
    using checkPage_grows [of e schema "normalizePage schema page"]
    by (simp add: compilePage_def Let_def case_prod_beta)
qed

lemma compilePage_clean:
  fixes page :: PageRequest
  assumes wf: "wf_schema schema" and len: "int (length sorts) \<le> b_MaxSorts (sc_bounds schema)"
  defines "new \<equiv> added_terms schema (normalizePage schema page) sorts"
  shows "en_clean (snd (snd (compilePage schema page sorts options e))) \<longleftrightarrow>
      en_clean e \<and> page_ok schema (normalizePage schema page) \<and>
      int (length (sorts @ new)) \<le> b_MaxSorts (sc_bounds schema) \<and>
      fst (ask_all options (sort_caps new) e)"
    and "en_clean (snd (snd (compilePage schema page sorts options e))) \<Longrightarrow>
      compilePage schema page sorts options e =
        (normalizePage schema page, sorts @ new, snd (ask_all options (sort_caps new) e))"
proof -
  let ?page = "normalizePage schema page"
  let ?e = "checkPage schema ?page e"
  have run: "compilePage schema page sorts options e =
      (?page, if pg_Mode ?page = PageCursor
              then completeOrder schema options (sc_sorts schema) sorts ?e else (sorts, ?e))"
    by (simp add: compilePage_def Let_def case_prod_beta)
  show clean: "en_clean (snd (snd (compilePage schema page sorts options e))) \<longleftrightarrow>
      en_clean e \<and> page_ok schema (normalizePage schema page) \<and>
      int (length (sorts @ new)) \<le> b_MaxSorts (sc_bounds schema) \<and>
      fst (ask_all options (sort_caps new) e)"
  proof (cases "en_clean ?e")
    case True
    then have ok: "en_clean e" "page_ok schema ?page" and keep: "?e = e"
      using checkPage_clean [OF wf] checkPage_keep by blast+
    show ?thesis
    proof (cases "pg_Mode ?page = PageCursor")
      case cursor: True
      show ?thesis
      proof (cases "find sd_TieBreaker (sc_sorts schema)")
        case None
        then show ?thesis
          using ok cursor len
          by (simp add: run keep completeOrder_run new_def added_terms_def tie_breaker_def)
      next
        case (Some d)
        then have "sd_TieBreaker d" by (metis find_Some_iff)
        with ok cursor len Some show ?thesis
          unfolding run keep new_def added_terms_def tie_breaker_def
          using completeOrder_one(1) [OF _ len, of d options e] completeOrder_run [of schema options "sc_sorts schema" sorts e]
          by simp
      qed
    next
      case False
      then show ?thesis using ok len by (simp add: run keep new_def added_terms_def)
    qed
  next
    case False
    have "\<not> en_clean (snd (snd (compilePage schema page sorts options e)))"
      using False grows_clean [OF completeOrder_grows [of ?e schema options "sc_sorts schema" sorts]]
      unfolding run by auto
    moreover have "\<not> (en_clean e \<and> page_ok schema ?page)"
      using False checkPage_clean [OF wf] by blast
    ultimately show ?thesis by blast
  qed
  assume done': "en_clean (snd (snd (compilePage schema page sorts options e)))"
  then have "en_clean e" "page_ok schema ?page" using clean by blast+
  then have keep: "?e = e" using checkPage_clean [OF wf] checkPage_keep by blast
  show "compilePage schema page sorts options e =
      (normalizePage schema page, sorts @ new, snd (ask_all options (sort_caps new) e))"
  proof (cases "pg_Mode ?page = PageCursor")
    case cursor: True
    show ?thesis
    proof (cases "find sd_TieBreaker (sc_sorts schema)")
      case None
      then show ?thesis
        using cursor by (simp add: run keep completeOrder_run new_def added_terms_def tie_breaker_def)
    next
      case (Some d)
      then have d: "sd_TieBreaker d" by (metis find_Some_iff)
      have full: "completeOrder schema options (sc_sorts schema) sorts e =
          completeOrder schema options [d] sorts e"
        using completeOrder_run [of schema options "sc_sorts schema" sorts e] Some by simp
      from done' cursor have "en_clean (snd (completeOrder schema options [d] sorts e))"
        by (simp add: run keep full del: completeOrder.simps)
      from completeOrder_one(2) [OF d len this] cursor Some show ?thesis
        by (simp add: run keep full new_def added_terms_def tie_breaker_def del: completeOrder.simps)
    qed
  next
    case False
    then show ?thesis by (simp add: run keep new_def added_terms_def)
  qed
qed

section \<open>Cursors\<close>

text \<open>The token of a page and the direction it must carry; \<open>None\<close> when there is nothing to decode.\<close>

definition cursor_token :: "PageRequest \<Rightarrow> (string \<times> CursorDirection) option" where
  "cursor_token page =
     (if pg_Mode page \<noteq> PageCursor \<or> (pg_After page = [] \<and> pg_Before page = []) \<or>
         (pg_After page \<noteq> [] \<and> pg_Before page \<noteq> []) then None
      else if pg_Before page \<noteq> [] then Some (pg_Before page, CursorBackward)
      else Some (pg_After page, CursorForward))"

definition decode_token ::
  "'w CompileOptions \<Rightarrow> string \<Rightarrow> string \<Rightarrow> SortTerm list \<Rightarrow> 'w env \<Rightarrow> CursorState option \<times> 'w env" where
  "decode_token options token revision sorts e =
     (case co_CursorDecoder options of
        None \<Rightarrow> (None, e)
      | Some decode \<Rightarrow>
          let (answer, w) = decode token revision sorts (en_world e)
          in (case answer of Inl err \<Rightarrow> None | Inr state \<Rightarrow> Some state,
              e\<lparr>en_world := w,
                en_trace := en_trace e @ [Decoded token revision sorts (\<not> isl answer)]\<rparr>))"

definition position_ok :: "Schema \<Rightarrow> Value \<Rightarrow> SortTerm \<Rightarrow> bool" where
  "position_ok schema v t \<longleftrightarrow>
     int (length (v_text v)) \<le> b_MaxStringBytes (sc_bounds schema) \<and>
     (v_type v = TypeNull \<or>
      (\<exists>d. sort_def schema (st_Name t) = Some d \<and> v_type v = sd_Type d))"

lemma position_ok_code [code]:
  "position_ok schema v t \<longleftrightarrow>
     int (length (v_text v)) \<le> b_MaxStringBytes (sc_bounds schema) \<and>
     (v_type v = TypeNull \<or>
      (case sort_def schema (st_Name t) of None \<Rightarrow> False | Some d \<Rightarrow> v_type v = sd_Type d))"
  by (cases "sort_def schema (st_Name t)") (simp_all add: position_ok_def)

definition state_ok :: "Schema \<Rightarrow> CursorDirection \<Rightarrow> SortTerm list \<Rightarrow> CursorState \<Rightarrow> bool" where
  "state_ok schema direction sorts state \<longleftrightarrow>
     cs_Direction state = direction \<and>
     int (length (cs_Policy state)) \<le> b_MaxStringBytes (sc_bounds schema) \<and>
     list_all2 (position_ok schema) (cs_Positions state) sorts"

lemma positionsOk_iff:
  assumes "length vs = length ts" and "\<forall>t \<in> set ts. sort_def schema (st_Name t) \<noteq> None"
  shows "positionsOk schema vs ts \<longleftrightarrow> list_all2 (position_ok schema) vs ts"
  using assms
proof (induction vs ts rule: list_induct2)
  case (Cons v vs t ts)
  then obtain i where i: "sc_sortIndex schema (st_Name t) = Some i"
    by (auto simp: sort_def_def)
  with Cons show ?case
    by (auto simp: position_ok_def sort_def_def index_or_zero_def Let_def)
qed simp

lemma compileCursor_grows: "grows (en_col e) (en_col (snd (compileCursor schema options (plan, e))))"
  by (auto simp: compileCursor_def cursorFailure_def Let_def case_prod_beta
      split: option.splits sum.splits intro: grows_intros)

definition with_cursor :: "CursorState option \<Rightarrow> Plan \<Rightarrow> Plan" where
  "with_cursor state plan =
     (case state of
        None \<Rightarrow> plan
      | Some state \<Rightarrow>
          plan\<lparr>pl_cursor := Some state,
               pl_page := (pl_page plan)\<lparr>pg_After := [], pg_Before := []\<rparr>\<rparr>)"

text \<open>What decoding a page yields: the state of its cursor, if it has one, and the next world.\<close>

definition cursor_step ::
  "Schema \<Rightarrow> 'w CompileOptions \<Rightarrow> PageRequest \<Rightarrow> SortTerm list \<Rightarrow> 'w env \<Rightarrow> CursorState option \<times> 'w env"
  where
  "cursor_step schema options page sorts e =
     (case cursor_token page of
        None \<Rightarrow> (None, e)
      | Some (token, direction) \<Rightarrow> decode_token options token (sc_revision schema) sorts e)"

definition cursor_accepted ::
  "Schema \<Rightarrow> 'w CompileOptions \<Rightarrow> PageRequest \<Rightarrow> SortTerm list \<Rightarrow> 'w env \<Rightarrow> bool" where
  "cursor_accepted schema options page sorts e \<longleftrightarrow>
     (case cursor_token page of
        None \<Rightarrow> True
      | Some (token, direction) \<Rightarrow>
          (case fst (decode_token options token (sc_revision schema) sorts e) of
             None \<Rightarrow> False
           | Some state \<Rightarrow> state_ok schema direction sorts state))"

lemma compileCursor_run:
  "compileCursor schema options (plan, e) =
     (case cursor_token (pl_page plan) of
        None \<Rightarrow> (plan, e)
      | Some (token, direction) \<Rightarrow>
          let (answer, e) = decode_token options token (sc_revision schema) (pl_sorts plan) e in
          (case answer of
             None \<Rightarrow> (plan, cursorFailure e)
           | Some state \<Rightarrow>
               if cs_Direction state \<noteq> direction \<or>
                  length (cs_Positions state) \<noteq> length (pl_sorts plan) \<or>
                  int (length (cs_Policy state)) > b_MaxStringBytes (sc_bounds schema) \<or>
                  \<not> positionsOk schema (cs_Positions state) (pl_sorts plan)
               then (plan, cursorFailure e)
               else (with_cursor (Some state) plan, e)))"
proof -
  have "\<lparr>cs_Direction = cs_Direction c, cs_Positions = cs_Positions c, cs_Policy = cs_Policy c\<rparr> = c"
    for c :: CursorState by simp
  then show ?thesis
    by (simp add: compileCursor_def cursor_token_def decode_token_def with_cursor_def Let_def
        case_prod_beta split: option.split sum.split)
qed

lemma compileCursor_clean:
  assumes known: "\<forall>t \<in> set (pl_sorts plan). sort_def schema (st_Name t) \<noteq> None"
  shows "en_clean (snd (compileCursor schema options (plan, e))) \<longleftrightarrow>
      en_clean e \<and> cursor_accepted schema options (pl_page plan) (pl_sorts plan) e"
    and "en_clean (snd (compileCursor schema options (plan, e))) \<Longrightarrow>
      compileCursor schema options (plan, e) =
        (with_cursor (fst (cursor_step schema options (pl_page plan) (pl_sorts plan) e)) plan,
         snd (cursor_step schema options (pl_page plan) (pl_sorts plan) e))"
proof -
  have both: "(en_clean (snd (compileCursor schema options (plan, e))) \<longleftrightarrow>
      en_clean e \<and> cursor_accepted schema options (pl_page plan) (pl_sorts plan) e) \<and>
    (en_clean (snd (compileCursor schema options (plan, e))) \<longrightarrow>
      compileCursor schema options (plan, e) =
        (with_cursor (fst (cursor_step schema options (pl_page plan) (pl_sorts plan) e)) plan,
         snd (cursor_step schema options (pl_page plan) (pl_sorts plan) e)))"
  proof (cases "cursor_token (pl_page plan)")
    case None
    then show ?thesis
      by (simp add: compileCursor_run cursor_accepted_def cursor_step_def with_cursor_def)
  next
    case (Some td)
    obtain token direction where td: "td = (token, direction)" by fastforce
    obtain answer e1 where decode:
      "decode_token options token (sc_revision schema) (pl_sorts plan) e = (answer, e1)" by fastforce
    have col: "en_col e1 = en_col e"
      using decode by (auto simp: decode_token_def Let_def case_prod_beta split: option.splits)
    show ?thesis
    proof (cases answer)
      case None
      then show ?thesis
        by (simp add: compileCursor_run cursor_accepted_def Some td decode cursorFailure_def)
    next
      case answer: (Some state)
      have "state_ok schema direction (pl_sorts plan) state \<longleftrightarrow>
          \<not> (cs_Direction state \<noteq> direction \<or>
             length (cs_Positions state) \<noteq> length (pl_sorts plan) \<or>
             int (length (cs_Policy state)) > b_MaxStringBytes (sc_bounds schema) \<or>
             \<not> positionsOk schema (cs_Positions state) (pl_sorts plan))"
        using positionsOk_iff [OF _ known, of "cs_Positions state"]
        by (auto simp: state_ok_def dest: list_all2_lengthD)
      then show ?thesis
        by (simp add: compileCursor_run cursor_accepted_def cursor_step_def Some td decode answer
            cursorFailure_def col)
    qed
  qed
  then show "en_clean (snd (compileCursor schema options (plan, e))) \<longleftrightarrow>
      en_clean e \<and> cursor_accepted schema options (pl_page plan) (pl_sorts plan) e"
    and "en_clean (snd (compileCursor schema options (plan, e))) \<Longrightarrow>
      compileCursor schema options (plan, e) =
        (with_cursor (fst (cursor_step schema options (pl_page plan) (pl_sorts plan) e)) plan,
         snd (cursor_step schema options (pl_page plan) (pl_sorts plan) e))"
    by blast+
qed

section \<open>Cost\<close>

text \<open>
  Charging a plan, as long as the flag is unset and the cost is within the bound: the flag says
  whether the exact sum exceeds the bound, and below it the cost is that sum.
\<close>

definition cost_within :: "Schema \<Rightarrow> Plan \<Rightarrow> bool" where
  "cost_within schema plan \<longleftrightarrow> 0 \<le> pl_cost plan \<and> pl_cost plan \<le> b_MaxCost (sc_bounds schema)"

lemma charge_sum:
  assumes max: "b_MaxCost (sc_bounds schema) \<le> maxInt"
    and amounts: "\<forall>a \<in> set as. 0 \<le> a"
    and within: "cost_within schema plan" and unset: "\<not> pl_costExceeded plan"
  shows "pl_costExceeded (charge schema as plan) \<longleftrightarrow>
      pl_cost plan + sum_list as > b_MaxCost (sc_bounds schema)"
    and "pl_cost plan + sum_list as \<le> b_MaxCost (sc_bounds schema) \<Longrightarrow>
      charge schema as plan = plan\<lparr>pl_cost := pl_cost plan + sum_list as\<rparr>"
    and "cost_within schema (charge schema as plan)"
proof -
  let ?max = "b_MaxCost (sc_bounds schema)"
  have sticky: "pl_costExceeded p \<Longrightarrow> charge schema bs p = p" for p bs
  proof (induction bs)
    case (Cons b bs)
    then have "addPlanCost schema b p = p" by (cases p) (simp add: addPlanCost_def)
    with Cons show ?case by simp
  qed simp
  have "(pl_costExceeded (charge schema as plan) \<longleftrightarrow> pl_cost plan + sum_list as > ?max) \<and>
      (pl_cost plan + sum_list as \<le> ?max \<longrightarrow>
         charge schema as plan = plan\<lparr>pl_cost := pl_cost plan + sum_list as\<rparr>) \<and>
      cost_within schema (charge schema as plan)"
    using amounts within unset
  proof (induction as arbitrary: plan)
    case (Cons a as)
    have sub: "go_sub ?max (pl_cost plan) = ?max - pl_cost plan"
      using Cons.prems(2) max by (intro go_sub_nonneg) (simp_all add: cost_within_def)
    show ?case
    proof (cases "a > ?max - pl_cost plan")
      case True
      have "0 \<le> sum_list as" using Cons.prems(1) by (intro sum_list_nonneg_int) simp
      with True Cons.prems show ?thesis
        by (simp add: addPlanCost_def sub sticky cost_within_def)
    next
      case False
      have add: "go_add (pl_cost plan) a = pl_cost plan + a"
        using Cons.prems(1,2) False max
        by (intro go_add_id) (simp add: in_int64_def minInt_def cost_within_def)
      have step: "addPlanCost schema a plan = plan\<lparr>pl_cost := pl_cost plan + a\<rparr>"
        using False Cons.prems(3) by (simp add: addPlanCost_def sub add)
      have "cost_within schema (plan\<lparr>pl_cost := pl_cost plan + a\<rparr>)"
        using False Cons.prems by (simp add: cost_within_def)
      have sum: "pl_cost plan + sum_list (a # as) = pl_cost plan + a + sum_list as" by simp
      have "\<forall>b \<in> set as. 0 \<le> b" using Cons.prems(1) by simp
      from Cons.IH [OF this \<open>cost_within schema (plan\<lparr>pl_cost := pl_cost plan + a\<rparr>)\<close>] Cons.prems(3)
      show ?thesis unfolding charge_simps step sum by simp
    qed
  qed (simp add: cost_within_def)
  then show "pl_costExceeded (charge schema as plan) \<longleftrightarrow> pl_cost plan + sum_list as > ?max"
    and "pl_cost plan + sum_list as \<le> ?max \<Longrightarrow>
      charge schema as plan = plan\<lparr>pl_cost := pl_cost plan + sum_list as\<rparr>"
    and "cost_within schema (charge schema as plan)"
    by blast+
qed

text \<open>The cost of a filter saturates at the largest integer.\<close>

definition filter_cost :: "Schema \<Rightarrow> string \<Rightarrow> int" where
  "filter_cost schema name = (case filter_def schema name of None \<Rightarrow> 0 | Some d \<Rightarrow> fl_Cost d)"

definition leaf_costs :: "Schema \<Rightarrow> Predicate list \<Rightarrow> int" where
  "leaf_costs schema ps = sum_list (map (\<lambda>p. filter_cost schema (pr_Name p)) ps)"

lemma leaf_costs_simps [simp]:
  "leaf_costs schema [] = 0"
  "leaf_costs schema (p # ps) = filter_cost schema (pr_Name p) + leaf_costs schema ps"
  "leaf_costs schema (ps @ qs) = leaf_costs schema ps + leaf_costs schema qs"
  by (simp_all add: leaf_costs_def)

lemma filter_cost_range:
  assumes "wf_schema schema" and "b_MaxCost (sc_bounds schema) \<le> maxInt"
  shows "0 \<le> filter_cost schema name" "filter_cost schema name \<le> maxInt"
proof -
  have "0 \<le> filter_cost schema name \<and> filter_cost schema name \<le> maxInt"
  proof (cases "sc_filterIndex schema name")
    case None
    then show ?thesis by (simp add: filter_cost_def filter_def_def maxInt_def)
  next
    case (Some i)
    with wf_schema_filter [OF assms(1) Some] assms(2) show ?thesis
      by (simp add: filter_cost_def filter_def_def filter_ok_def)
  qed
  then show "0 \<le> filter_cost schema name" "filter_cost schema name \<le> maxInt" by simp_all
qed

lemma leaf_costs_nonneg:
  assumes "wf_schema schema" "b_MaxCost (sc_bounds schema) \<le> maxInt"
  shows "0 \<le> leaf_costs schema ps"
  using filter_cost_range(1) [OF assms] by (induction ps) (simp_all add: add_nonneg_nonneg)

definition declared_leaves :: "Schema \<Rightarrow> Predicate list \<Rightarrow> bool" where
  "declared_leaves schema ps \<longleftrightarrow> (\<forall>p \<in> set ps. filter_def schema (pr_Name p) \<noteq> None)"

lemma filterCost_sum:
  assumes wf: "wf_schema schema" and max: "b_MaxCost (sc_bounds schema) \<le> maxInt"
  shows "declared_leaves schema (predicates f) \<Longrightarrow>
      filterCost schema f = min maxInt (leaf_costs schema (predicates f))"
    and "declared_leaves schema (predicates_list fs) \<Longrightarrow> 0 \<le> c \<Longrightarrow> c \<le> maxInt \<Longrightarrow>
      filterCosts schema fs c = min maxInt (c + leaf_costs schema (predicates_list fs))"
proof (induction f and fs arbitrary: and c rule: predicates_predicates_list.induct)
  case (1 predicate logic children)
  show ?case
  proof (cases predicate)
    case None
    with 1 show ?thesis by (simp add: maxInt_def)
  next
    case (Some p)
    with 1 obtain i where "sc_filterIndex schema (pr_Name p) = Some i"
      by (auto simp: declared_leaves_def filter_def_def)
    then have "filterCost schema (FilterExpr predicate logic children) = filter_cost schema (pr_Name p)"
      by (simp add: Some filter_cost_def filter_def_def index_or_zero_def)
    with filter_cost_range(2) [OF wf max, of "pr_Name p"] show ?thesis by (simp add: Some)
  qed
next
  case (3 f fs)
  have f: "filterCost schema f = min maxInt (leaf_costs schema (predicates f))"
    using 3 by (simp add: declared_leaves_def)
  have pos: "0 \<le> leaf_costs schema (predicates f)" "0 \<le> leaf_costs schema (predicates_list fs)"
    using leaf_costs_nonneg [OF wf max] by blast+
  have filterCost_low: "0 \<le> filterCost schema f"
    unfolding f using pos(1) by (simp add: maxInt_def)
  have sub: "go_sub maxInt c = maxInt - c"
    using 3 by (intro go_sub_nonneg) (simp_all add: maxInt_def)
  show ?case
  proof (cases "filterCost schema f > maxInt - c")
    case True
    with f pos 3 show ?thesis by (simp add: sub)
  next
    case False
    then have le: "c + filterCost schema f \<le> maxInt" by linarith
    have add: "go_add c (filterCost schema f) = c + filterCost schema f"
      using le filterCost_low 3(4) by (intro go_add_id) (simp add: in_int64_def minInt_def)
    have rest: "filterCosts schema fs (c + filterCost schema f) =
        min maxInt (c + filterCost schema f + leaf_costs schema (predicates_list fs))"
      using 3(3,4) le filterCost_low by (intro 3(2)) (simp_all add: declared_leaves_def)
    have "filterCosts schema (f # fs) c = filterCosts schema fs (c + filterCost schema f)"
      using False by (simp add: sub add Let_def)
    also have "\<dots> = min maxInt (c + leaf_costs schema (predicates_list (f # fs)))"
      unfolding rest using f le pos 3(4) by (simp add: min_def split: if_splits)
    finally show ?thesis .
  qed
qed simp

lemma sortCosts_charge:
  "range_loop (sortCost schema) i sorts plan =
     charge schema
       (map (\<lambda>t. sd_Cost (sc_sorts schema ! index_or_zero (sc_sortIndex schema) (st_Name t))) sorts) plan"
  by (induction sorts arbitrary: i plan) (simp_all add: sortCost_def)

end
