(* ===== verification/CompileCorrect.thy ===== *)
theory CompileCorrect
  imports CompileOrder
begin

text \<open>
  Correctness of \<open>Compile\<close>: an abstract specification (when a request is accepted, what the plan
  then is, and which callbacks were made) and the proof that the staged compiler computes it. The
  specification mentions no stage, no collector and no loop.
\<close>

section \<open>The specification\<close>

definition final_sorts :: "Schema \<Rightarrow> Request \<Rightarrow> SortTerm list" where
  "final_sorts schema request =
     (let sorts = map (complete_term schema) (requested_sorts schema (rq_Sorts request))
      in sorts @ added_terms schema (normalizePage schema (rq_Page request)) sorts)"

definition request_ok :: "Schema \<Rightarrow> Request \<Rightarrow> bool" where
  "request_ok schema request \<longleftrightarrow>
     (case rq_SchemaRevision request of None \<Rightarrow> True | Some r \<Rightarrow> r = sc_revision schema) \<and>
     fields_ok schema (selected_fields schema (rq_Fields request)) \<and>
     includes_ok schema (requested_includes (rq_Includes request)) \<and>
     filter_accepted schema (rq_Filter request) \<and>
     sorts_selected_ok schema (requested_sorts schema (rq_Sorts request)) \<and>
     page_ok schema (normalizePage schema (rq_Page request)) \<and>
     int (length (final_sorts schema request)) \<le> b_MaxSorts (sc_bounds schema)"

text \<open>The capabilities a request needs, in the order in which they are asked for.\<close>

definition needed_caps :: "Schema \<Rightarrow> Request \<Rightarrow> Capability list" where
  "needed_caps schema request =
     map (cap CapabilityField) (selected_fields schema (rq_Fields request)) @
     include_caps (requested_includes (rq_Includes request)) @
     filter_asks (rq_Filter request) @
     sort_caps (final_sorts schema request)"

definition sort_cost :: "Schema \<Rightarrow> string \<Rightarrow> int" where
  "sort_cost schema name = (case sort_def schema name of None \<Rightarrow> 0 | Some d \<Rightarrow> sd_Cost d)"

text \<open>The exact cost: one unit, and the declared cost of everything the plan uses.\<close>

definition plan_cost :: "Schema \<Rightarrow> Request \<Rightarrow> int" where
  "plan_cost schema request =
     (let names = selected_fields schema (rq_Fields request) in
      1 + sum_list (map (field_cost schema) (names @ required_names schema (set names)))
        + sum_list (map (edge_cost schema)
            (fresh_of {} (include_edges (requested_includes (rq_Includes request)))))
        + (case rq_Filter request of None \<Rightarrow> 0 | Some f \<Rightarrow> leaf_costs schema (predicates f))
        + sum_list (map (\<lambda>t. sort_cost schema (st_Name t)) (final_sorts schema request)))"

definition spec_plan ::
  "Schema \<Rightarrow> Constraint list \<Rightarrow> Request \<Rightarrow> CursorState option \<Rightarrow> Plan" where
  "spec_plan schema constraints request state =
     (let names = selected_fields schema (rq_Fields request);
          page = normalizePage schema (rq_Page request) in
      \<lparr>pl_resource = sc_resource schema, pl_revision = sc_revision schema,
       pl_responseFields = names,
       pl_executionFields = required_names schema (set names) @ names,
       pl_includes = requested_includes (rq_Includes request),
       pl_filter = rq_Filter request,
       pl_constraints = constraints,
       pl_sorts = final_sorts schema request,
       pl_page = (case state of None \<Rightarrow> page | Some _ \<Rightarrow> page\<lparr>pg_After := [], pg_Before := []\<rparr>),
       pl_cursor = state,
       pl_cost = plan_cost schema request, pl_costExceeded = False,
       pl_maxCanonical = b_MaxCanonicalBytes (sc_bounds schema)\<rparr>)"

definition start_env :: "Schema \<Rightarrow> 'w \<Rightarrow> 'w env" where
  "start_env schema w =
     \<lparr>en_col = vc_new (b_MaxErrors (sc_bounds schema)), en_world = w, en_trace = []\<rparr>"

section \<open>The stages\<close>

lemma map_complete_names [simp]: "map st_Name (map (complete_term schema) ts) = map st_Name ts"
  by (simp add: complete_term_def)

lemma sort_caps_complete [simp]:
  "sort_caps (map (complete_term schema) ts) = sort_caps ts"
  by (simp add: complete_term_def)

lemma find_Some_mem: "find P xs = Some x \<Longrightarrow> x \<in> set xs"
  by (induction xs) (auto split: if_splits)

lemma added_terms_mem:
  assumes "t \<in> set (added_terms schema page sorts)"
  shows "\<exists>d. tie_breaker schema = Some d \<and> t = tie_term d"
proof (cases "tie_breaker schema")
  case None
  then have "added_terms schema page sorts = []" by (simp add: added_terms_def)
  with assms show ?thesis by simp
next
  case (Some d)
  then have "added_terms schema page sorts = [] \<or> added_terms schema page sorts = [tie_term d]"
    by (simp add: added_terms_def)
  with assms Some show ?thesis by auto
qed

lemma final_sorts_declared:
  assumes wf: "wf_schema schema"
    and ok: "sorts_selected_ok schema (requested_sorts schema (rq_Sorts request))"
    and t: "t \<in> set (final_sorts schema request)"
  shows "sort_def schema (st_Name t) \<noteq> None"
proof -
  have idx: "indexes sd_Name (sc_sorts schema) (sc_sortIndex schema)"
    using wf by (simp add: wf_schema_def)
  from t consider u where "u \<in> set (requested_sorts schema (rq_Sorts request))" "st_Name t = st_Name u"
    | d where "d \<in> set (sc_sorts schema)" "st_Name t = sd_Name d"
  proof (cases "t \<in> set (map (complete_term schema) (requested_sorts schema (rq_Sorts request)))")
    case True
    then obtain u where "u \<in> set (requested_sorts schema (rq_Sorts request))"
      and "t = complete_term schema u" by auto
    then show thesis using that(1) by (simp add: complete_term_def)
  next
    case False
    with t have "t \<in> set (added_terms schema (normalizePage schema (rq_Page request))
        (map (complete_term schema) (requested_sorts schema (rq_Sorts request))))"
      by (simp only: final_sorts_def Let_def set_append Un_iff simp_thms)
    then have "\<exists>d. tie_breaker schema = Some d \<and> t = tie_term d"
      by (rule added_terms_mem)
    then obtain d where "tie_breaker schema = Some d" "t = tie_term d" by blast
    then have "d \<in> set (sc_sorts schema)" "st_Name t = sd_Name d"
      by (simp_all add: tie_breaker_def tie_term_def find_Some_mem)
    then show thesis by (rule that(2))
  qed
  then show ?thesis
  proof cases
    case 1
    then have "sort_term_ok schema u" using ok by (simp add: sorts_selected_ok_def)
    with 1 show ?thesis by (auto simp: sort_term_ok_def split: option.splits)
  next
    case 2
    with indexes_mem [OF idx] show ?thesis by (fastforce simp: sort_def_def)
  qed
qed

definition revision_step :: "Schema \<Rightarrow> Request \<Rightarrow> 'w env \<Rightarrow> 'w env" where
  "revision_step schema request e =
     (case rq_SchemaRevision request of
        None \<Rightarrow> e
      | Some revision \<Rightarrow>
          if revision \<noteq> sc_revision schema
          then en_add CodeVersionMismatch ''schema_revision'' ''schema revision does not match'' e
          else e)"

lemma revision_step_clean:
  "en_clean (revision_step schema request e) \<longleftrightarrow>
     en_clean e \<and>
     (case rq_SchemaRevision request of None \<Rightarrow> True | Some r \<Rightarrow> r = sc_revision schema)"
  by (simp add: revision_step_def split: option.splits)

lemma revision_step_keep:
  "en_clean (revision_step schema request e) \<Longrightarrow> revision_step schema request e = e"
  by (simp add: revision_step_def split: option.splits if_splits)

lemma revision_step_grows: "grows (en_col e) (en_col (revision_step schema request e))"
  by (auto simp: revision_step_def intro: grows_intros split: option.splits)

text \<open>The plan and the environment before the cursor is decoded.\<close>

definition compileStages ::
  "Schema \<Rightarrow> Request \<Rightarrow> 'w CompileOptions \<Rightarrow> 'w env \<Rightarrow> Plan \<times> 'w env" where
  "compileStages schema request options e =
     (let (plan, e) = compileConstraints schema (co_MandatoryConstraints options)
            (initialPlan schema request, revision_step schema request e);
          (plan, e) = compileFields schema (rq_Fields request) options (plan, e);
          (plan, e) = compileIncludes schema (rq_Includes request) options (plan, e);
          (filter', e) = compileFilter schema (rq_Filter request) options e;
          (sorts, e) = compileSorts schema (rq_Sorts request) options e;
          (page, sorts, e) = compilePage schema (pl_page plan) sorts options e
      in (plan\<lparr>pl_filter := filter', pl_sorts := sorts, pl_page := page\<rparr>, e))"

lemma compileAll_stages:
  "compileAll schema request options e =
     (let (plan, e) = compileCursor schema options (compileStages schema request options e);
          plan = chargePlan schema plan
      in (plan,
          if pl_costExceeded plan \<or> pl_cost plan > b_MaxCost (sc_bounds schema)
          then en_add CodeCostLimit ''query'' ''projected query cost exceeds the limit'' e else e))"
  by (simp only: compileAll_def compileStages_def revision_step_def Let_def case_prod_beta
      fst_conv snd_conv prod.collapse)

definition stages_plan :: "Schema \<Rightarrow> Constraint list \<Rightarrow> Request \<Rightarrow> Plan" where
  "stages_plan schema constraints request =
     with_includes schema (requested_includes (rq_Includes request))
       (with_fields schema (selected_fields schema (rq_Fields request))
         ((initialPlan schema request)\<lparr>pl_constraints := constraints\<rparr>))
     \<lparr>pl_filter := rq_Filter request, pl_sorts := final_sorts schema request,
      pl_page := normalizePage schema (rq_Page request)\<rparr>"

lemma with_frames [simp]:
  "pl_includes (with_fields schema names plan) = pl_includes plan"
  "pl_page (with_fields schema names plan) = pl_page plan"
  "pl_page (with_includes schema names plan) = pl_page plan"
  by (simp_all add: with_fields_def with_includes_def)

lemma compileStages_correct:
  fixes options :: "'w CompileOptions" and request :: Request
  assumes wf: "wf_schema schema" and start: "en_clean e0"
  defines "run \<equiv> compileStages schema request options e0"
    and "asked \<equiv> ask_all options (needed_caps schema request) e0"
  shows "en_clean (snd run) \<longleftrightarrow>
      request_ok schema request \<and> constraints_ok schema (co_MandatoryConstraints options) \<and> fst asked"
    and "en_clean (snd run) \<Longrightarrow>
      run = (stages_plan schema (co_MandatoryConstraints options) request, snd asked)"
proof -
  let ?cs = "co_MandatoryConstraints options"
  let ?names = "selected_fields schema (rq_Fields request)"
  let ?incs = "requested_includes (rq_Includes request)"
  let ?sorts = "requested_sorts schema (rq_Sorts request)"
  let ?page = "normalizePage schema (rq_Page request)"
  define r where "r = revision_step schema request e0"
  define s1 where "s1 = compileConstraints schema ?cs (initialPlan schema request, r)"
  define s2 where "s2 = compileFields schema (rq_Fields request) options (fst s1, snd s1)"
  define s3 where "s3 = compileIncludes schema (rq_Includes request) options (fst s2, snd s2)"
  define s4 where "s4 = compileFilter schema (rq_Filter request) options (snd s3)"
  define s5 where "s5 = compileSorts schema (rq_Sorts request) options (snd s4)"
  define s6 where "s6 = compilePage schema (pl_page (fst s3)) (fst s5) options (snd s5)"
  have run: "run = ((fst s3)\<lparr>pl_filter := fst s4, pl_sorts := fst (snd s6), pl_page := fst s6\<rparr>,
      snd (snd s6))"
    unfolding run_def compileStages_def r_def s1_def s2_def s3_def s4_def s5_def s6_def
    by (simp only: Let_def case_prod_beta fst_conv snd_conv prod.collapse)
  define p1 where "p1 = (initialPlan schema request)\<lparr>pl_constraints := ?cs\<rparr>"
  define caps2 where "caps2 = map (cap CapabilityField) ?names"
  define caps3 where "caps3 = caps2 @ include_caps ?incs"
  define caps4 where "caps4 = caps3 @ filter_asks (rq_Filter request)"
  define caps5 where "caps5 = caps4 @ sort_caps ?sorts"
  define ok1 where "ok1 \<longleftrightarrow> (case rq_SchemaRevision request of None \<Rightarrow> True | Some r \<Rightarrow> r = sc_revision schema) \<and>
    constraints_ok schema ?cs"
  have c1: "en_clean (snd s1) \<longleftrightarrow> ok1"
    unfolding s1_def compileConstraints_clean r_def revision_step_clean ok1_def using start by blast
  have q1: "s1 = (p1, e0)" if "en_clean (snd s1)"
  proof -
    have "r = e0" using that revision_step_keep unfolding s1_def compileConstraints_clean r_def by blast
    then show ?thesis using compileConstraints_result that unfolding s1_def p1_def by blast
  qed
  define ok2 where "ok2 \<longleftrightarrow> ok1 \<and> fields_ok schema ?names \<and> fst (ask_all options caps2 e0)"
  have c2: "en_clean (snd s2) \<longleftrightarrow> ok2"
    using c1 q1 unfolding s2_def compileFields_clean ok2_def caps2_def by (metis snd_conv)
  have q2: "s2 = (with_fields schema ?names p1, snd (ask_all options caps2 e0))" if "en_clean (snd s2)"
  proof -
    have "s1 = (p1, e0)" using q1 c1 c2 that by (simp add: ok2_def)
    with that compileFields_result [OF wf, of p1 "rq_Fields request" options e0] show ?thesis
      unfolding s2_def caps2_def by (simp add: p1_def initialPlan_def)
  qed
  have inc: "0 \<le> b_MaxIncludes (sc_bounds schema)" using wf_schema_bounds [OF wf] by simp
  define ok3 where "ok3 \<longleftrightarrow> ok2 \<and> includes_ok schema ?incs \<and> fst (ask_all options caps3 e0)"
  have c3: "en_clean (snd s3) \<longleftrightarrow> ok3"
  proof (cases "en_clean (snd s2)")
    case True
    with q2 c2 show ?thesis
      unfolding s3_def compileIncludes_clean [OF inc] ok3_def caps3_def
      by (simp add: ask_all_append ok2_def)
  next
    case False
    with c2 show ?thesis unfolding s3_def compileIncludes_clean [OF inc] ok3_def by blast
  qed
  have q3: "s3 = (with_includes schema ?incs (with_fields schema ?names p1),
      snd (ask_all options caps3 e0))" if "en_clean (snd s3)"
  proof -
    have "ok2" using that c3 by (simp add: ok3_def)
    with q2 c2 have s2: "s2 = (with_fields schema ?names p1, snd (ask_all options caps2 e0))" by simp
    have "pl_includes (with_fields schema ?names p1) = []" by (simp add: p1_def initialPlan_def)
    from compileIncludes_result [OF this inc] that show ?thesis
      unfolding s3_def s2 using \<open>ok2\<close> by (simp add: caps3_def ask_all_append ok2_def)
  qed
  define ok4 where "ok4 \<longleftrightarrow> ok3 \<and> filter_accepted schema (rq_Filter request) \<and>
    fst (ask_all options caps4 e0)"
  have c4: "en_clean (snd s4) \<longleftrightarrow> ok4"
  proof (cases "en_clean (snd s3)")
    case True
    with q3 c3 show ?thesis
      unfolding s4_def compileFilter_clean [OF wf] ok4_def caps4_def
      by (simp add: ask_all_append ok3_def)
  next
    case False
    with c3 show ?thesis unfolding s4_def compileFilter_clean [OF wf] ok4_def by blast
  qed
  have q4: "s4 = (rq_Filter request, snd (ask_all options caps4 e0))" if "en_clean (snd s4)"
  proof -
    have "ok3" using that c4 by (simp add: ok4_def)
    with q3 c3 have "snd s3 = snd (ask_all options caps3 e0)" by simp
    with compileFilter_result [OF wf] that \<open>ok3\<close> show ?thesis
      unfolding s4_def by (simp add: caps4_def ask_all_append ok3_def)
  qed
  define ok5 where "ok5 \<longleftrightarrow> ok4 \<and> sorts_selected_ok schema ?sorts \<and> fst (ask_all options caps5 e0)"
  have c5: "en_clean (snd s5) \<longleftrightarrow> ok5"
  proof (cases "en_clean (snd s4)")
    case True
    with q4 c4 show ?thesis
      unfolding s5_def compileSorts_clean ok5_def caps5_def by (simp add: ask_all_append ok4_def)
  next
    case False
    with c4 show ?thesis unfolding s5_def compileSorts_clean ok5_def by blast
  qed
  have q5: "s5 = (map (complete_term schema) ?sorts, snd (ask_all options caps5 e0))"
    if "en_clean (snd s5)"
  proof -
    have "ok4" using that c5 by (simp add: ok5_def)
    with q4 c4 have "snd s4 = snd (ask_all options caps4 e0)" by simp
    with compileSorts_result that \<open>ok4\<close> show ?thesis
      unfolding s5_def by (simp add: caps5_def ask_all_append ok4_def)
  qed
  have caps: "needed_caps schema request =
      caps5 @ sort_caps (added_terms schema ?page (map (complete_term schema) ?sorts))"
    unfolding needed_caps_def final_sorts_def Let_def caps5_def caps4_def caps3_def caps2_def
      map_append sort_caps_complete append_assoc ..
  show clean: "en_clean (snd run) \<longleftrightarrow> request_ok schema request \<and> constraints_ok schema ?cs \<and> fst asked"
  proof (cases "en_clean (snd s5)")
    case True
    then have s5: "s5 = (map (complete_term schema) ?sorts, snd (ask_all options caps5 e0))" and ok5
      using q5 c5 by blast+
    then have ok3 and len: "int (length (map (complete_term schema) ?sorts)) \<le> b_MaxSorts (sc_bounds schema)"
      by (simp_all add: ok5_def ok4_def sorts_selected_ok_def)
    then have page: "pl_page (fst s3) = rq_Page request"
      using q3 c3 by (simp add: p1_def initialPlan_def)
    show ?thesis
      unfolding run snd_conv s6_def s5 page fst_conv compilePage_clean(1) [OF wf len]
      using \<open>ok5\<close> start
      by (simp add: request_ok_def asked_def caps ask_all_append ok5_def ok4_def ok3_def ok2_def ok1_def
          final_sorts_def Let_def)
  next
    case False
    have "\<not> en_clean (snd run)"
      using False grows_clean [OF compilePage_grows] unfolding run snd_conv s6_def by blast
    moreover have "\<not> (request_ok schema request \<and> constraints_ok schema ?cs \<and> fst asked)"
      using False c5
      by (auto simp: request_ok_def asked_def caps caps5_def caps4_def caps3_def caps2_def ask_all_append ok5_def ok4_def ok3_def ok2_def ok1_def
          split: if_splits)
    ultimately show ?thesis by blast
  qed
  assume final: "en_clean (snd run)"
  have "en_clean (snd s5)"
    using final grows_clean [OF compilePage_grows] unfolding run snd_conv s6_def by blast
  then have s5: "s5 = (map (complete_term schema) ?sorts, snd (ask_all options caps5 e0))" and ok5
    using q5 c5 by blast+
  then have s4: "s4 = (rq_Filter request, snd (ask_all options caps4 e0))"
    and s3: "s3 = (with_includes schema ?incs (with_fields schema ?names p1),
      snd (ask_all options caps3 e0))"
    and len: "int (length (map (complete_term schema) ?sorts)) \<le> b_MaxSorts (sc_bounds schema)"
    using q4 c4 q3 c3 by (simp_all add: ok5_def ok4_def sorts_selected_ok_def)
  have page: "pl_page (fst s3) = rq_Page request" by (simp add: s3 p1_def initialPlan_def)
  have s6: "s6 = (?page, final_sorts schema request, snd asked)"
    using compilePage_clean(2) [OF wf len, of "rq_Page request" options "snd (ask_all options caps5 e0)"]
      final \<open>ok5\<close>
    unfolding run snd_conv s6_def s5 page fst_conv
    by (simp add: final_sorts_def Let_def asked_def caps ask_all_append ok5_def)
  show "run = (stages_plan schema ?cs request, snd asked)"
    unfolding run s6 s4 s3 by (simp add: stages_plan_def p1_def)
qed

section \<open>The cost of a plan\<close>

text \<open>Every charge of a compilation, in order; the filter's is saturated.\<close>

definition charges :: "Schema \<Rightarrow> Request \<Rightarrow> int list" where
  "charges schema request =
     (let names = selected_fields schema (rq_Fields request) in
      map (field_cost schema) names @
      map (field_cost schema) (required_names schema (set names)) @
      map (edge_cost schema)
        (fresh_of {} (include_edges (requested_includes (rq_Includes request)))) @
      (case rq_Filter request of
         None \<Rightarrow> [] | Some f \<Rightarrow> [min maxInt (leaf_costs schema (predicates f))]) @
      map (\<lambda>t. sort_cost schema (st_Name t)) (final_sorts schema request))"

lemma sort_cost_index:
  "sort_def schema (st_Name t) \<noteq> None \<Longrightarrow>
   sd_Cost (sc_sorts schema ! index_or_zero (sc_sortIndex schema) (st_Name t)) =
     sort_cost schema (st_Name t)"
  by (auto simp: sort_def_def sort_cost_def index_or_zero_def)

lemma with_cursor_frame:
  "with_cursor state (charge schema as plan) = charge schema as (with_cursor state plan)"
  by (simp add: with_cursor_def split: option.splits)

lemma with_cursor_keeps [simp]:
  "pl_filter (with_cursor state plan) = pl_filter plan"
  "pl_sorts (with_cursor state plan) = pl_sorts plan"
  "pl_cost (with_cursor state plan) = pl_cost plan"
  "pl_costExceeded (with_cursor state plan) = pl_costExceeded plan"
  by (simp_all add: with_cursor_def split: option.splits)

definition base_plan ::
  "Schema \<Rightarrow> Constraint list \<Rightarrow> Request \<Rightarrow> CursorState option \<Rightarrow> Plan" where
  "base_plan schema constraints request state =
     (spec_plan schema constraints request state)\<lparr>pl_cost := 1\<rparr>"

lemma stages_plan_charged:
  "with_cursor state (stages_plan schema constraints request) =
     (let names = selected_fields schema (rq_Fields request) in
      charge schema
       (map (field_cost schema) names @
        map (field_cost schema) (required_names schema (set names)) @
        map (edge_cost schema)
          (fresh_of {} (include_edges (requested_includes (rq_Includes request)))))
       (base_plan schema constraints request state))"
proof -
  let ?fill = "\<lambda>p. p
        \<lparr>pl_constraints := constraints,
         pl_responseFields := selected_fields schema (rq_Fields request),
         pl_executionFields :=
           required_names schema (set (selected_fields schema (rq_Fields request))) @
           selected_fields schema (rq_Fields request),
         pl_includes := requested_includes (rq_Includes request),
         pl_filter := rq_Filter request, pl_sorts := final_sorts schema request,
         pl_page := normalizePage schema (rq_Page request)\<rparr>"
  have base: "base_plan schema constraints request state =
      with_cursor state (?fill (initialPlan schema request))"
    by (cases state) (simp_all add: with_cursor_def base_plan_def spec_plan_def initialPlan_def Let_def)
  have fill: "charge schema as (?fill p) = ?fill (charge schema as p)" for as p
    by simp
  have "stages_plan schema constraints request = charge schema
      (map (field_cost schema) (selected_fields schema (rq_Fields request)) @
       map (field_cost schema)
         (required_names schema (set (selected_fields schema (rq_Fields request)))) @
       map (edge_cost schema)
         (fresh_of {} (include_edges (requested_includes (rq_Includes request)))))
      (?fill (initialPlan schema request))"
    unfolding fill by (simp add: stages_plan_def with_fields_def with_includes_def charge_append)
  then show ?thesis
    by (simp only: with_cursor_frame base Let_def)
qed

lemma chargePlan_base:
  assumes wf: "wf_schema schema" and max: "b_MaxCost (sc_bounds schema) \<le> maxInt"
    and ok: "request_ok schema request"
  shows "chargePlan schema (with_cursor state (stages_plan schema constraints request)) =
    charge schema (charges schema request) (base_plan schema constraints request state)"
proof -
  let ?plan = "with_cursor state (stages_plan schema constraints request)"
  have sorts: "map (\<lambda>t. sd_Cost (sc_sorts schema ! index_or_zero (sc_sortIndex schema) (st_Name t)))
      (final_sorts schema request) = map (\<lambda>t. sort_cost schema (st_Name t)) (final_sorts schema request)"
    using final_sorts_declared [OF wf] ok by (auto simp: request_ok_def sort_cost_index)
  have filt: "filterCost schema f = min maxInt (leaf_costs schema (predicates f))"
    if "rq_Filter request = Some f" for f
  proof (rule filterCost_sum(1) [OF wf max])
    have "\<forall>p \<in> set (predicates f). predicate_ok schema p"
      using ok that by (simp add: request_ok_def filter_accepted_def)
    then show "declared_leaves schema (predicates f)"
      by (fastforce simp: declared_leaves_def predicate_ok_def split: option.splits)
  qed
  have "pl_filter ?plan = rq_Filter request" "pl_sorts ?plan = final_sorts schema request"
    by (simp_all add: stages_plan_def)
  then have "chargePlan schema ?plan = charge schema
      ((case rq_Filter request of
          None \<Rightarrow> [] | Some f \<Rightarrow> [min maxInt (leaf_costs schema (predicates f))]) @
       map (\<lambda>t. sort_cost schema (st_Name t)) (final_sorts schema request)) ?plan"
    by (simp add: chargePlan_def sortCosts_charge sorts [symmetric] filt charge_append
        split: option.split)
  then show ?thesis
    by (simp add: stages_plan_charged charges_def Let_def charge_append)
qed

lemma field_cost_nonneg: "wf_schema schema \<Longrightarrow> 0 \<le> field_cost schema n"
  using wf_schema_field [of schema n]
  by (auto simp: field_cost_def field_def_def field_ok_def split: option.splits)

lemma sort_cost_nonneg: "wf_schema schema \<Longrightarrow> 0 \<le> sort_cost schema n"
  using wf_schema_sort [of schema n]
  by (auto simp: sort_cost_def sort_def_def sort_ok_def split: option.splits)

lemma edge_cost_nonneg: "wf_schema schema \<Longrightarrow> 0 \<le> edge_cost schema n"
  using wf_schema_relation(3) [of schema n] by (auto simp: edge_cost_def split: option.splits)

lemma charges_nonneg:
  assumes "wf_schema schema" "b_MaxCost (sc_bounds schema) \<le> maxInt"
  shows "\<forall>a \<in> set (charges schema request). 0 \<le> a"
  using assms field_cost_nonneg sort_cost_nonneg edge_cost_nonneg leaf_costs_nonneg
  by (fastforce simp: charges_def Let_def maxInt_def split: option.splits)

text \<open>Below the bound, saturation changes nothing: the charges sum to the exact cost.\<close>

lemma charges_sum:
  assumes wf: "wf_schema schema" and max: "b_MaxCost (sc_bounds schema) \<le> maxInt"
  shows "1 + sum_list (charges schema request) \<le> b_MaxCost (sc_bounds schema) \<longleftrightarrow>
      plan_cost schema request \<le> b_MaxCost (sc_bounds schema)"
    and "plan_cost schema request \<le> b_MaxCost (sc_bounds schema) \<Longrightarrow>
      1 + sum_list (charges schema request) = plan_cost schema request"
proof -
  define rest where "rest =
    sum_list (map (field_cost schema) (selected_fields schema (rq_Fields request) @
        required_names schema (set (selected_fields schema (rq_Fields request)))))
      + sum_list (map (edge_cost schema)
          (fresh_of {} (include_edges (requested_includes (rq_Includes request)))))
      + sum_list (map (\<lambda>t. sort_cost schema (st_Name t)) (final_sorts schema request))"
  have rest: "0 \<le> rest"
    unfolding rest_def
    by (intro add_nonneg_nonneg sum_list_nonneg_int)
      (auto simp: field_cost_nonneg [OF wf] sort_cost_nonneg [OF wf] edge_cost_nonneg [OF wf])
  define leaves where "leaves = (case rq_Filter request of None \<Rightarrow> 0
    | Some f \<Rightarrow> leaf_costs schema (predicates f))"
  have leaves: "0 \<le> leaves"
    using leaf_costs_nonneg [OF assms] by (simp add: leaves_def split: option.splits)
  have sum: "sum_list (charges schema request) = rest + min maxInt leaves"
    by (simp add: charges_def rest_def leaves_def Let_def maxInt_def split: option.split)
  have cost: "plan_cost schema request = 1 + rest + leaves"
    by (simp add: plan_cost_def rest_def leaves_def Let_def)
  show "1 + sum_list (charges schema request) \<le> b_MaxCost (sc_bounds schema) \<longleftrightarrow>
      plan_cost schema request \<le> b_MaxCost (sc_bounds schema)"
    using rest leaves max unfolding sum cost by linarith
  show "plan_cost schema request \<le> b_MaxCost (sc_bounds schema) \<Longrightarrow>
      1 + sum_list (charges schema request) = plan_cost schema request"
    using rest leaves max unfolding sum cost by linarith
qed

lemma chargePlan_result:
  fixes constraints :: "Constraint list" and state :: "CursorState option"
  assumes wf: "wf_schema schema" and max: "b_MaxCost (sc_bounds schema) \<le> maxInt"
    and ok: "request_ok schema request"
  defines "plan \<equiv> chargePlan schema (with_cursor state (stages_plan schema constraints request))"
  shows "(pl_costExceeded plan \<or> pl_cost plan > b_MaxCost (sc_bounds schema)) \<longleftrightarrow>
      plan_cost schema request > b_MaxCost (sc_bounds schema)"
    and "plan_cost schema request \<le> b_MaxCost (sc_bounds schema) \<Longrightarrow>
      plan = spec_plan schema constraints request state"
proof -
  let ?base = "base_plan schema constraints request state"
  have "0 < b_MaxCost (sc_bounds schema)" using wf_schema_bounds [OF wf] by simp
  then have base: "cost_within schema ?base" "\<not> pl_costExceeded ?base" "pl_cost ?base = 1"
    by (simp_all add: cost_within_def base_plan_def spec_plan_def Let_def)
  note sum = charge_sum [OF max charges_nonneg [OF wf max, of request] base(1,2), unfolded base(3)]
  have plan: "plan = charge schema (charges schema request) ?base"
    unfolding plan_def by (rule chargePlan_base [OF wf max ok])
  show "(pl_costExceeded plan \<or> pl_cost plan > b_MaxCost (sc_bounds schema)) \<longleftrightarrow>
      plan_cost schema request > b_MaxCost (sc_bounds schema)"
    using sum(1,3) charges_sum(1) [OF wf max, of request]
    unfolding plan cost_within_def by linarith
  assume within: "plan_cost schema request \<le> b_MaxCost (sc_bounds schema)"
  then have "plan = ?base\<lparr>pl_cost := plan_cost schema request\<rparr>"
    using sum(2) charges_sum [OF wf max, of request] unfolding plan by simp
  then show "plan = spec_plan schema constraints request state"
    by (simp add: base_plan_def spec_plan_def Let_def)
qed

section \<open>Refinement\<close>

text \<open>The environment after the authorizer, and the one after the decoder.\<close>

definition asked_env :: "Schema \<Rightarrow> Request \<Rightarrow> 'w CompileOptions \<Rightarrow> 'w \<Rightarrow> bool \<times> 'w env" where
  "asked_env schema request options w =
     ask_all options (needed_caps schema request) (start_env schema w)"

definition decoded_env ::
  "Schema \<Rightarrow> Request \<Rightarrow> 'w CompileOptions \<Rightarrow> 'w \<Rightarrow> CursorState option \<times> 'w env" where
  "decoded_env schema request options w =
     cursor_step schema options (normalizePage schema (rq_Page request))
       (final_sorts schema request) (snd (asked_env schema request options w))"

definition accepts :: "Schema \<Rightarrow> Request \<Rightarrow> 'w CompileOptions \<Rightarrow> 'w \<Rightarrow> bool" where
  "accepts schema request options w \<longleftrightarrow>
     request_ok schema request \<and> constraints_ok schema (co_MandatoryConstraints options) \<and>
     fst (asked_env schema request options w) \<and>
     cursor_accepted schema options (normalizePage schema (rq_Page request))
       (final_sorts schema request) (snd (asked_env schema request options w)) \<and>
     plan_cost schema request \<le> b_MaxCost (sc_bounds schema)"

lemma compileStages_grows:
  "grows (en_col e) (en_col (snd (compileStages schema request options e)))"
proof -
  have pair: "grows (en_col e) (en_col (snd (compileConstraints schema cs p)))"
    "grows (en_col e) (en_col (snd (compileFields schema fs options p)))"
    "grows (en_col e) (en_col (snd (compileIncludes schema is options p)))"
    if "grows (en_col e) (en_col (snd p))" for p and cs fs "is"
    using that compileConstraints_grows compileFields_grows compileIncludes_grows grows_trans
    by (metis prod.collapse)+
  have env: "grows (en_col e) (en_col (snd (compileFilter schema f options e')))"
    "grows (en_col e) (en_col (snd (compileSorts schema ss options e')))"
    "grows (en_col e) (en_col (snd (snd (compilePage schema pg sorts options e'))))"
    if "grows (en_col e) (en_col e')" for e' f ss pg sorts
    using that compileFilter_grows compileSorts_grows compilePage_grows grows_trans by blast+
  show ?thesis
    unfolding compileStages_def Let_def case_prod_beta snd_conv prod.collapse
    by (intro env pair) (simp add: revision_step_grows)
qed

lemma compileAll_correct:
  fixes options :: "'w CompileOptions"
  assumes wf: "wf_schema schema" and max: "b_MaxCost (sc_bounds schema) \<le> maxInt"
  shows "en_clean (snd (compileAll schema request options (start_env schema w))) \<longleftrightarrow>
      accepts schema request options w"
    and "accepts schema request options w \<Longrightarrow>
      compileAll schema request options (start_env schema w) =
        (spec_plan schema (co_MandatoryConstraints options) request
           (fst (decoded_env schema request options w)),
         snd (decoded_env schema request options w))"
proof -
  let ?cs = "co_MandatoryConstraints options"
  let ?e = "start_env schema w"
  let ?asked = "asked_env schema request options w"
  have start: "en_clean ?e" by (simp add: start_env_def)
  define st where "st = compileStages schema request options ?e"
  define cu where "cu = compileCursor schema options st"
  have all: "compileAll schema request options ?e =
      (chargePlan schema (fst cu),
       if pl_costExceeded (chargePlan schema (fst cu)) \<or>
          pl_cost (chargePlan schema (fst cu)) > b_MaxCost (sc_bounds schema)
       then en_add CodeCostLimit ''query'' ''projected query cost exceeds the limit'' (snd cu)
       else snd cu)"
    unfolding compileAll_stages cu_def st_def by (simp only: Let_def case_prod_beta)
  note stages = compileStages_correct [OF wf start, of request options, folded st_def]
  have both: "(en_clean (snd (compileAll schema request options ?e)) \<longleftrightarrow> accepts schema request options w) \<and>
      (accepts schema request options w \<longrightarrow> compileAll schema request options ?e =
        (spec_plan schema ?cs request (fst (decoded_env schema request options w)),
         snd (decoded_env schema request options w)))"
  proof (cases "en_clean (snd st)")
    case False
    have "\<not> en_clean (snd cu)"
      using False grows_clean compileCursor_grows unfolding cu_def by (metis prod.collapse)
    then have "\<not> en_clean (snd (compileAll schema request options ?e))"
      unfolding all by simp
    moreover have "\<not> accepts schema request options w"
      using False stages(1) by (auto simp: accepts_def asked_env_def)
    ultimately show ?thesis by blast
  next
    case True
    then have st: "st = (stages_plan schema ?cs request, snd ?asked)"
      and ok: "request_ok schema request" "constraints_ok schema ?cs" "fst ?asked"
      using stages by (simp_all add: asked_env_def)
    have plan: "pl_page (stages_plan schema ?cs request) = normalizePage schema (rq_Page request)"
      "pl_sorts (stages_plan schema ?cs request) = final_sorts schema request"
      by (simp_all add: stages_plan_def)
    have known: "\<forall>t \<in> set (pl_sorts (stages_plan schema ?cs request)). sort_def schema (st_Name t) \<noteq> None"
      unfolding plan
    proof
      fix t
      assume "t \<in> set (final_sorts schema request)"
      then show "sort_def schema (st_Name t) \<noteq> None"
        using ok(1) by (intro final_sorts_declared [OF wf]) (simp_all add: request_ok_def)
    qed
    have clean: "en_clean (snd ?asked)" using True st by simp
    have run: "compileCursor schema options (stages_plan schema ?cs request, snd ?asked) = cu"
      by (simp add: cu_def st)
    note cursor = compileCursor_clean [OF known, of options "snd ?asked", unfolded plan run]
    show ?thesis
    proof (cases "en_clean (snd cu)")
      case False
      then have "\<not> en_clean (snd (compileAll schema request options ?e))"
        unfolding all by simp
      moreover have "\<not> accepts schema request options w"
        using False cursor(1) clean by (auto simp: accepts_def)
      ultimately show ?thesis by blast
    next
      case True
      let ?state = "fst (decoded_env schema request options w)"
      have cu: "cu = (with_cursor ?state (stages_plan schema ?cs request),
          snd (decoded_env schema request options w))"
        using cursor(2) [OF True] by (simp add: decoded_env_def)
      have "cursor_accepted schema options (normalizePage schema (rq_Page request))
          (final_sorts schema request) (snd ?asked)"
        using True cursor(1) by blast
      then have acc: "accepts schema request options w \<longleftrightarrow>
          plan_cost schema request \<le> b_MaxCost (sc_bounds schema)"
        using ok by (simp add: accepts_def)
      note cost = chargePlan_result [OF wf max ok(1), of ?state ?cs]
      have cl: "en_clean (snd (decoded_env schema request options w))" using True cu by simp
      show ?thesis
        unfolding all cu fst_conv snd_conv cost(1) acc
        using cost(2) cl by (simp add: not_less)
    qed
  qed
  then show "en_clean (snd (compileAll schema request options ?e)) \<longleftrightarrow> accepts schema request options w"
    and "accepts schema request options w \<Longrightarrow> compileAll schema request options ?e =
        (spec_plan schema ?cs request (fst (decoded_env schema request options w)),
         snd (decoded_env schema request options w))"
    by blast+
qed

text \<open>
  The compiler returns a plan exactly when the specification accepts, the plan is the specified one,
  and the callbacks made are the specified ones; otherwise it returns between one violation and the
  configured number of them.
\<close>

lemma Compile_unfold:
  "Compile (Some schema) request options w =
     (let (plan, e) = compileAll schema request options (start_env schema w)
      in ((case vc_err (en_col e) of Some err \<Rightarrow> Inl err | None \<Rightarrow> Inr plan), en_world e, en_trace e))"
  by (simp add: Compile_def start_env_def)

lemma Compile_Inr:
  assumes wf: "wf_schema schema" and max: "b_MaxCost (sc_bounds schema) \<le> maxInt"
  shows "Compile (Some schema) request options w = (Inr plan, w', trace) \<longleftrightarrow>
    accepts schema request options w \<and>
    plan = spec_plan schema (co_MandatoryConstraints options) request
      (fst (decoded_env schema request options w)) \<and>
    w' = en_world (snd (decoded_env schema request options w)) \<and>
    trace = en_trace (snd (decoded_env schema request options w))"
proof (cases "accepts schema request options w")
  case True
  from compileAll_correct(1) [OF wf max, of request options w] True
  have "en_clean (snd (compileAll schema request options (start_env schema w)))" by blast
  then have "vc_err (en_col (snd (decoded_env schema request options w))) = None"
    using compileAll_correct(2) [OF wf max True] by simp
  note none = this
  show ?thesis
    unfolding Compile_unfold compileAll_correct(2) [OF wf max True] Let_def prod.case none option.case
    using True by auto
next
  case False
  with compileAll_correct(1) [OF wf max, of request options w]
  have "\<not> en_clean (snd (compileAll schema request options (start_env schema w)))" by blast
  then obtain err where
    err: "vc_err (en_col (snd (compileAll schema request options (start_env schema w)))) = Some err"
    by (auto simp: vc_err_Some)
  show ?thesis
    unfolding Compile_unfold case_prod_beta Let_def err option.case using False by auto
qed

lemma Compile_Inl:
  assumes wf: "wf_schema schema" and "fst (Compile (Some schema) request options w) = Inl items"
  shows "items \<noteq> []" "int (length items) \<le> b_MaxErrors (sc_bounds schema)"
proof -
  let ?run = "compileAll schema request options (start_env schema w)"
  have "vc_err (en_col (snd ?run)) = Some items"
    using assms(2) unfolding Compile_unfold case_prod_beta Let_def
    by (simp split: option.splits)
  then have items: "items = vc_items (en_col (snd ?run))" "items \<noteq> []"
    by (auto simp: vc_err_Some)
  then show "items \<noteq> []" by simp
  have lim: "0 < b_MaxErrors (sc_bounds schema)" using wf_schema_bounds [OF wf] by simp
  have "grows (en_col (start_env schema w)) (en_col (snd (compileStages schema request options
      (start_env schema w))))"
    by (rule compileStages_grows)
  then have "grows (en_col (start_env schema w)) (en_col (snd (compileCursor schema options
      (compileStages schema request options (start_env schema w)))))"
    using compileCursor_grows [of "snd (compileStages schema request options (start_env schema w))" schema options
        "fst (compileStages schema request options (start_env schema w))"]
    by (simp only: prod.collapse) (rule grows_trans)
  then have "grows (en_col (start_env schema w)) (en_col (snd ?run))"
    unfolding compileAll_stages Let_def case_prod_beta by (auto intro: grows_intros)
  from grows_bounded [OF this] lim show "int (length items) \<le> b_MaxErrors (sc_bounds schema)"
    by (simp add: items start_env_def)
qed

end
