(* ===== verification/CompileTrace.thy ===== *)
theory CompileTrace
  imports CompileCorrect
begin

text \<open>
  What the compiler does to the world, on every run, accepted or not: it asks the authorizer only
  about capabilities the schema declares, and it calls the cursor decoder at most once, last, with
  the schema's own revision. The relation \<open>asking\<close> is a run that adds violations and asks about
  declared capabilities.
\<close>

section \<open>Declared capabilities\<close>

definition declared :: "Schema \<Rightarrow> Capability \<Rightarrow> bool" where
  "declared schema c \<longleftrightarrow>
     (if cp_Kind c = CapabilityField then field_selectable schema (cp_Name c)
      else if cp_Kind c = CapabilityRelationship then sc_relationIndex schema (cp_Name c) \<noteq> None
      else if cp_Kind c = CapabilityFilter then sc_filterIndex schema (cp_Name c) \<noteq> None
      else cp_Kind c = CapabilitySort \<and> sc_sortIndex schema (cp_Name c) \<noteq> None)"

inductive asking ::
  "(string \<Rightarrow> bool) \<Rightarrow> Schema \<Rightarrow> 'w CompileOptions \<Rightarrow> 'w env \<Rightarrow> 'w env \<Rightarrow> bool"
  for P :: "string \<Rightarrow> bool" and schema :: Schema and options :: "'w CompileOptions" where
  asking_refl: "asking P schema options e e"
| asking_add:
    "asking P schema options e e' \<Longrightarrow> P path \<Longrightarrow> asking P schema options e (en_add code path message e')"
| asking_ask:
    "asking P schema options e e' \<Longrightarrow> declared schema (cap kind name) \<Longrightarrow>
     asking P schema options e (snd (authorized options kind name e'))"

lemmas asking_intros = asking_refl asking_add asking_ask

lemma asking_if:
  "(b \<Longrightarrow> asking P schema options e x) \<Longrightarrow> (\<not> b \<Longrightarrow> asking P schema options e y) \<Longrightarrow>
   asking P schema options e (if b then x else y)"
  by simp

definition only_declared :: "Schema \<Rightarrow> callback list \<Rightarrow> bool" where
  "only_declared schema cs \<longleftrightarrow> (\<forall>c \<in> set cs. \<exists>d b. c = Asked d b \<and> declared schema d)"

lemma asking_trace:
  "asking P schema options e e' \<Longrightarrow> \<exists>cs. en_trace e' = en_trace e @ cs \<and> only_declared schema cs"
proof (induction rule: asking.induct)
  case (asking_refl e)
  show ?case by (rule exI [of _ "[]"]) (simp add: only_declared_def)
next
  case (asking_add e e' code path message)
  then show ?case by (simp add: en_add_def)
next
  case (asking_ask e e' kind name)
  then obtain cs where cs: "en_trace e' = en_trace e @ cs" "only_declared schema cs" by blast
  show ?case
  proof (cases "co_Authorize options")
    case None
    with cs show ?thesis by (auto simp: authorized_def)
  next
    case (Some authorize)
    have "en_trace (snd (authorized options kind name e')) =
        en_trace e @ cs @ [Asked (cap kind name) (fst (authorize (cap kind name) (en_world e')))]"
      by (simp add: authorized_def Some cs(1) Let_def case_prod_beta)
    moreover have "only_declared schema
        (cs @ [Asked (cap kind name) (fst (authorize (cap kind name) (en_world e')))])"
      using cs(2) asking_ask(2) by (auto simp: only_declared_def)
    ultimately show ?thesis by blast
  qed
qed

section \<open>The stages ask about declared capabilities\<close>

lemma asking_field:
  assumes "asking P schema options e0 (snd (snd s))" and "P (indexed_path ''fields'' i)"
  shows "asking P schema options e0 (snd (snd (compileField schema options i name s)))"
proof -
  obtain seen plan e where s: "s = (seen, plan, e)" by (metis prod_cases3)
  show ?thesis
  proof (cases "sc_fieldIndex schema name")
    case None
    with assms show ?thesis by (simp add: s compileField_def asking_add)
  next
    case (Some j)
    show ?thesis
    proof (cases "fd_Deprecated (sc_fields schema ! j)")
      case True
      with Some assms show ?thesis by (simp add: s compileField_def Let_def asking_add)
    next
      case False
      then have "declared schema (cap CapabilityField name)"
        by (simp add: declared_def field_selectable_def field_def_def Some)
      with assms Some False show ?thesis
        by (simp add: s compileField_def Let_def case_prod_beta asking_add asking_ask)
    qed
  qed
qed

lemma asking_truncated:
  "asking P schema options e0 e \<Longrightarrow> P path \<Longrightarrow>
   asking P schema options e0 (snd (truncated limit path message xs e))"
  by (simp add: truncated_def asking_add)

lemma truncated_length: "length (fst (truncated limit path message xs e)) \<le> length xs"
  by (simp add: truncated_def) linarith

text \<open>A stage may report at its own part of the request, and at the elements of its list.\<close>

definition parts_of :: "(string \<Rightarrow> bool) \<Rightarrow> string \<Rightarrow> 'a list \<Rightarrow> bool" where
  "parts_of P part xs \<longleftrightarrow> P part \<and> (\<forall>i < length xs. P (indexed_path part i))"

lemma parts_of_truncated:
  "parts_of P part xs \<Longrightarrow> i < length (fst (truncated limit path message xs e)) \<Longrightarrow>
   P (indexed_path part i)"
  using truncated_length [of limit path message xs e] by (simp add: parts_of_def)

lemma parts_of_self: "parts_of P part xs \<Longrightarrow> P part"
  by (simp add: parts_of_def)

lemma asking_fields:
  assumes "asking P schema options e0 e"
    and part: "parts_of P ''fields'' (selected_fields schema requested)"
  shows "asking P schema options e0 (snd (compileFields schema requested options (plan, e)))"
  unfolding compileFields_env Let_def case_prod_beta
  by (rule range_loop_indexed [where P = "\<lambda>s. asking P schema options e0 (snd (snd s))"])
    (simp_all add: asking_truncated assms(1) asking_field parts_of_self [OF part]
      parts_of_truncated [OF part])

lemma asking_edges:
  assumes "P path" and "\<forall>edge \<in> set edges. sc_relationIndex schema edge \<noteq> None"
    and "asking P schema options e0 (snd (snd s))"
  shows "asking P schema options e0 (snd (snd (snd (compileEdges schema options path edges s))))"
  using assms
proof (induction edges arbitrary: s)
  case (Cons edge edges)
  obtain seenEdges plan e where s: "s = (seenEdges, plan, e)" by (metis prod_cases3)
  have "declared schema (cap CapabilityRelationship edge)"
    using Cons.prems(2) by (simp add: declared_def)
  with Cons.prems(3) have ask:
    "asking P schema options e0 (snd (authorized options CapabilityRelationship edge e))"
    by (simp add: s asking_ask)
  show ?case
    using Cons ask by (simp add: s Let_def case_prod_beta asking_add)
qed simp

lemma asking_include:
  assumes wf: "wf_schema schema" and path: "P (indexed_path ''includes'' i)" and e: "asking P schema options e0 (include_env s)"
  shows "asking P schema options e0 (include_env (compileInclude schema options i name s))"
proof -
  obtain seen seenEdges plan e where s: "s = (seen, seenEdges, plan, e)" by (metis prod_cases4)
  show ?thesis
  proof (cases "sc_relationIndex schema name")
    case None
    with e path show ?thesis by (simp add: s compileInclude_def asking_add)
  next
    case (Some node)
    from asking_edges [of P, OF path wf_schema_relation(6) [OF wf Some], of options e0
        "(seenEdges, plan, e)"] e
    have "asking P schema options e0 (snd (snd (snd (compileEdges schema options
        (indexed_path ''includes'' i) (relationshipPrefixes name) (seenEdges, plan, e)))))"
      by (simp add: s)
    then show ?thesis
      unfolding s compileInclude_def Some option.case Let_def case_prod_beta prod.case
      using e path by (auto simp: s intro!: asking_if asking_add)
  qed
qed

lemma asking_includes:
  assumes wf: "wf_schema schema" and e: "asking P schema options e0 e"
    and part: "parts_of P ''includes'' (requested_includes requested)"
  shows "asking P schema options e0 (snd (compileIncludes schema requested options (plan, e)))"
proof (cases requested)
  case (Some names)
  then have names: "parts_of P ''includes'' names" using part by simp
  show ?thesis
    unfolding Some compileIncludes_unfold Let_def case_prod_beta snd_conv
    by (rule range_loop_indexed [where P = "\<lambda>s. asking P schema options e0 (include_env s)"])
      (simp_all add: asking_truncated asking_include [OF wf] e parts_of_self [OF names]
        parts_of_truncated [OF names])
qed (simp add: compileIncludes_def e)

lemma asking_values:
  fixes e0 :: "'w env"
  assumes "asking P schema options e0 e" and path: "P path"
  shows "asking P schema options e0 (validatePredicateValues schema d p path e)"
proof -
  have "asking P schema options e0 (snd (validatePredicateValue schema d path i v s))"
    if "asking P schema options e0 (snd s)" for i v and s :: "string set \<times> 'w env"
    using that path
    by (simp add: validatePredicateValue_def Let_def case_prod_beta asking_add)
  moreover have "asking P schema options e0 (countChecks schema p path e)"
    unfolding countChecks_def Let_def using assms by (intro asking_if asking_add)
  ultimately show ?thesis
    unfolding validatePredicateValues_unfold
    by (intro range_loop_invariant [where P = "\<lambda>s. asking P schema options e0 (snd s)"]) simp_all
qed

lemma asking_predicate:
  assumes "asking P schema options e0 (fs_env s)" and path: "P path"
  shows "asking P schema options e0 (fs_env (snd (compilePredicate schema options path node p s)))"
proof (cases "sc_filterIndex schema (pr_Name p)")
  case None
  with assms show ?thesis by (simp add: compilePredicate_def fs_add_def asking_add)
next
  case (Some i)
  then have "declared schema (cap CapabilityFilter (pr_Name p))" by (simp add: declared_def)
  with assms(1) have ask:
    "asking P schema options e0 (snd (authorized options CapabilityFilter (pr_Name p) (fs_env s)))"
    by (rule asking_ask)
  show ?thesis
    unfolding compilePredicate_def Some option.case Let_def case_prod_beta
    by (simp add: fs_add_def ask asking_add asking_values path)
qed

lemma asking_fs_add:
  "asking P schema options e0 (fs_env s) \<Longrightarrow> P path \<Longrightarrow>
   asking P schema options e0 (fs_env (fs_add code path message s))"
  by (simp add: fs_add_def asking_add)

text \<open>The node that a list of child numbers leads to, and the path by which it is reported.\<close>

fun node_at :: "FilterExpr \<Rightarrow> nat list \<Rightarrow> FilterExpr option" where
  "node_at f [] = Some f"
| "node_at (FilterExpr predicate logic children) (i # is) =
     (if i < length children then node_at (children ! i) is else None)"

fun node_path :: "string \<Rightarrow> nat list \<Rightarrow> string" where
  "node_path path [] = path"
| "node_path path (i # is) = node_path (indexed_path (path @ ''.children'') i) is"

definition nodes_of :: "(string \<Rightarrow> bool) \<Rightarrow> string \<Rightarrow> FilterExpr \<Rightarrow> bool" where
  "nodes_of P path f \<longleftrightarrow> (\<forall>is. node_at f is \<noteq> None \<longrightarrow> P (node_path path is))"

lemma nodes_of_root: "nodes_of P path f \<Longrightarrow> P path"
  unfolding nodes_of_def by (metis node_at.simps(1) node_path.simps(1) option.distinct(1))

lemma nodes_of_child:
  assumes "nodes_of P path (FilterExpr predicate logic children)" and "i < length children"
  shows "nodes_of P (indexed_path (path @ ''.children'') i) (children ! i)"
  unfolding nodes_of_def
proof (intro allI impI)
  fix "is"
  assume "node_at (children ! i) is \<noteq> None"
  then have "node_at (FilterExpr predicate logic children) (i # is) \<noteq> None" using assms(2) by simp
  with assms(1) show "P (node_path (indexed_path (path @ ''.children'') i) is)"
    unfolding nodes_of_def by (metis node_path.simps(2))
qed

lemma asking_filter_node:
  "asking P schema options e0 (fs_env s) \<Longrightarrow> nodes_of P path f \<Longrightarrow>
   asking P schema options e0 (fs_env (snd (compileFilterNode schema options path depth f s)))"
  "asking P schema options e0 (fs_env s) \<Longrightarrow> P path \<Longrightarrow>
   (\<forall>k < length fs. nodes_of P (indexed_path (path @ ''.children'') (i + k)) (fs ! k)) \<Longrightarrow>
   asking P schema options e0
     (fs_env (snd (compileFilterChildren schema options path depth i fs kept s)))"
proof (induction schema options path depth f s and schema options path depth i fs kept s
    rule: compileFilterNode_compileFilterChildren.induct)
  case (1 schema options path depth predicate logic children s)
  note path = nodes_of_root [OF "1.prems"(2)]
  define s1 where "s1 = s\<lparr>fs_nodes := fs_nodes s + 1\<rparr>"
  define s2 where "s2 = (if logic \<notin> sc_allowedLogic schema
    then fs_add CodeUnsupported path ''logical operation is not available'' s1 else s1)"
  define s3 where "s3 = (if logic = LogicNot \<and> length children \<noteq> 1
    then fs_add CodeConflict path ''not requires exactly one child'' s2 else s2)"
  have s1: "asking P schema options e0 (fs_env s1)" using "1.prems"(1) by (simp add: s1_def)
  then have s2: "asking P schema options e0 (fs_env s2)" by (simp add: s2_def asking_fs_add path)
  then have s3: "asking P schema options e0 (fs_env s3)" by (simp add: s3_def asking_fs_add path)
  show ?case
  proof (cases predicate)
    case (Some p)
    then show ?thesis
      using asking_predicate [OF s1 path] asking_fs_add [OF s1 path]
      unfolding compileFilterNode.simps s1_def [symmetric] Let_def Some option.case
      by simp
  next
    case None
    have nodes: "\<forall>k < length children.
        nodes_of P (indexed_path (path @ ''.children'') (0 + k)) (children ! k)"
      using nodes_of_child [OF "1.prems"(2)] by simp
    have "asking P schema options e0 (fs_env (snd
        (compileFilterChildren schema options path depth 0 children [] s3)))"
      if "\<not> depth > b_MaxFilterDepth (sc_bounds schema)" "children \<noteq> []"
      using "1.IH" [OF s1_def that(1) _ None s2_def s3_def s3 path nodes] that(2) None by simp
    then show ?thesis
      using asking_fs_add [OF s1 path]
      unfolding compileFilterNode.simps s1_def [symmetric] Let_def None option.case
        s2_def [symmetric] s3_def [symmetric] case_prod_beta
      by simp
  qed
next
  case (3 schema options path depth i child rest kept s)
  have first: "nodes_of P (indexed_path (path @ ''.children'') i) child"
    using "3.prems"(3) by (auto dest: spec [of _ 0])
  have later: "\<forall>k < length rest. nodes_of P (indexed_path (path @ ''.children'') (Suc i + k)) (rest ! k)"
    using "3.prems"(3) by (auto dest: spec [of _ "Suc k" for k])
  show ?case
  proof (cases "fs_nodes s \<ge> b_MaxFilterNodes (sc_bounds schema)")
    case True
    with 3 show ?thesis by (simp add: asking_fs_add)
  next
    case False
    with "3.IH"(2) [OF False refl prod.collapse "3.IH"(1) [OF False "3.prems"(1) first]
        "3.prems"(2) later]
    show ?thesis by (simp add: Let_def case_prod_beta)
  qed
qed simp

lemma asking_filter:
  assumes "asking P schema options e0 e"
    and "\<forall>f. filter' = Some f \<longrightarrow> nodes_of P ''filter'' f"
  shows "asking P schema options e0 (snd (compileFilter schema filter' options e))"
  using asking_filter_node(1) [of P schema options e0 "empty_filter_state e"] assms
  by (cases filter') (simp_all add: compileFilter_unfold empty_filter_state_def,
      simp add: compileFilter_def)

lemma asking_sort:
  assumes "asking P schema options e0 (snd (snd s))" and "P (indexed_path ''sorts'' i)"
  shows "asking P schema options e0 (snd (snd (compileSort schema options i t s)))"
proof -
  obtain seen result e where s: "s = (seen, result, e)" by (metis prod_cases3)
  show ?thesis
  proof (cases "sc_sortIndex schema (st_Name t)")
    case None
    with assms show ?thesis by (simp add: s compileSort_def asking_add)
  next
    case (Some j)
    then have "declared schema (cap CapabilitySort (st_Name t))" by (simp add: declared_def)
    with assms(1) have "asking P schema options e0 (snd (authorized options CapabilitySort (st_Name t) e))"
      by (simp add: s asking_ask)
    with assms show ?thesis
      unfolding s compileSort_def Some option.case prod.case Let_def case_prod_beta
      by (auto intro!: asking_if asking_add simp: if_distrib [of snd])
  qed
qed

lemma asking_sorts:
  assumes "asking P schema options e0 e"
    and part: "parts_of P ''sorts'' (requested_sorts schema requested)"
  shows "asking P schema options e0 (snd (compileSorts schema requested options e))"
  unfolding compileSorts_unfold Let_def case_prod_beta
  by (rule range_loop_indexed [where P = "\<lambda>s. asking P schema options e0 (snd (snd s))"])
    (simp_all add: asking_truncated assms(1) asking_sort parts_of_self [OF part]
      parts_of_truncated [OF part])

lemma asking_order:
  assumes wf: "wf_schema schema" and path: "P ''sorts''" and "set ds \<subseteq> set (sc_sorts schema)"
    and "asking P schema options e0 e"
  shows "asking P schema options e0 (snd (completeOrder schema options ds sorts e))"
  using assms(3,4)
proof (induction ds)
  case (Cons d ds)
  have "indexes sd_Name (sc_sorts schema) (sc_sortIndex schema)"
    using wf by (simp add: wf_schema_def)
  from indexes_mem [OF this, of d] Cons.prems(1) have "declared schema (cap CapabilitySort (sd_Name d))"
    by (auto simp: declared_def)
  with Cons path show ?case by (simp add: Let_def case_prod_beta asking_add asking_ask)
qed simp

lemma asking_report:
  "asking P schema options e0 e \<Longrightarrow> \<forall>(b, code, path, message) \<in> set checks. P path \<Longrightarrow>
   asking P schema options e0 (report checks e)"
  by (induction checks e rule: report.induct) (simp_all add: asking_add)

definition page_paths :: "string list" where
  "page_paths =
     [''page'', ''page.mode'', ''page.size'', ''page.offset'', ''page.after'', ''page.before'']"

lemma asking_page:
  assumes wf: "wf_schema schema" and "asking P schema options e0 e"
    and paths: "\<forall>path \<in> set page_paths. P path" and "P ''sorts''"
  shows "asking P schema options e0 (snd (snd (compilePage schema page sorts options e)))"
proof -
  have "\<forall>(b, code, path, message) \<in> set (pageChecks schema (normalizePage schema page)). P path"
    using paths by (simp add: pageChecks_def page_paths_def Let_def)
  note rep = asking_report [OF assms(2) this]
  show ?thesis
    using rep asking_order [of schema P, OF wf assms(4) order_refl rep]
    by (simp add: compilePage_def Let_def case_prod_beta checkPage_report)
qed

lemma asking_constraints:
  fixes e0 :: "'w env"
  assumes "asking P schema options e0 e" and part: "parts_of P ''constraints'' cs"
  shows "asking P schema options e0 (snd (compileConstraints schema cs (plan, e)))"
proof -
  have "asking P schema options e0 (snd (compileConstraint schema i c s))"
    if "asking P schema options e0 (snd s)" "P (indexed_path ''constraints'' i)"
    for i c and s :: "string set \<times> 'w env"
    using that by (simp add: compileConstraint_def Let_def case_prod_beta asking_add)
  then show ?thesis
    unfolding compileConstraints_unfold Let_def case_prod_beta snd_conv
    by (intro range_loop_indexed [where P = "\<lambda>s. asking P schema options e0 (snd s)"])
      (simp_all add: asking_truncated assms(1) parts_of_self [OF part] parts_of_truncated [OF part])
qed

text \<open>Where the stages of a compilation may report.\<close>

definition reports_at :: "(string \<Rightarrow> bool) \<Rightarrow> Schema \<Rightarrow> Request \<Rightarrow> 'w CompileOptions \<Rightarrow> bool" where
  "reports_at P schema request options \<longleftrightarrow>
     P ''schema_revision'' \<and> (\<forall>path \<in> set page_paths. P path) \<and> P ''query'' \<and>
     parts_of P ''constraints'' (co_MandatoryConstraints options) \<and>
     parts_of P ''fields'' (selected_fields schema (rq_Fields request)) \<and>
     parts_of P ''includes'' (requested_includes (rq_Includes request)) \<and>
     parts_of P ''sorts'' (requested_sorts schema (rq_Sorts request)) \<and>
     (\<forall>f. rq_Filter request = Some f \<longrightarrow> nodes_of P ''filter'' f)"

lemma asking_stages:
  assumes wf: "wf_schema schema" and "reports_at P schema request options"
  shows "asking P schema options e (snd (compileStages schema request options e))"
proof -
  note part = assms(2) [unfolded reports_at_def]
  have rev: "asking P schema options e (revision_step schema request e)"
    using part by (simp add: revision_step_def asking_refl asking_add split: option.split)
  have pair: "asking P schema options e (snd (compileConstraints schema (co_MandatoryConstraints options) p))"
    "asking P schema options e (snd (compileFields schema (rq_Fields request) options p))"
    "asking P schema options e (snd (compileIncludes schema (rq_Includes request) options p))"
    if "asking P schema options e (snd p)" for p
    using asking_constraints [OF that, of "co_MandatoryConstraints options" "fst p"]
      asking_fields [OF that, of "rq_Fields request" "fst p"]
      asking_includes [OF wf that, of "rq_Includes request" "fst p"] part by simp_all
  have "P ''sorts''" using part parts_of_self by blast
  then show ?thesis
    unfolding compileStages_def Let_def case_prod_beta snd_conv prod.collapse
    using part by (intro asking_page [OF wf] asking_sorts asking_filter pair) (simp_all add: rev)
qed

section \<open>The trace of a compilation\<close>

definition decoder_calls :: "Schema \<Rightarrow> Request \<Rightarrow> callback list \<Rightarrow> bool" where
  "decoder_calls schema request cs \<longleftrightarrow>
     cs = [] \<or>
     (\<exists>token sorts b. cs = [Decoded token (sc_revision schema) sorts b] \<and>
        token \<noteq> [] \<and> token \<in> {pg_After (rq_Page request), pg_Before (rq_Page request)})"

lemma compileCursor_trace:
  assumes page: "pg_After (pl_page plan) = pg_After (rq_Page request)"
    "pg_Before (pl_page plan) = pg_Before (rq_Page request)"
  shows "\<exists>cs. en_trace (snd (compileCursor schema options (plan, e))) = en_trace e @ cs \<and>
    decoder_calls schema request cs"
proof (cases "cursor_token (pl_page plan)")
  case None
  then show ?thesis by (simp add: compileCursor_run decoder_calls_def)
next
  case (Some td)
  obtain token direction where td: "td = (token, direction)" by fastforce
  have token: "token \<noteq> []" "token \<in> {pg_After (rq_Page request), pg_Before (rq_Page request)}"
    using Some page by (auto simp: td cursor_token_def split: if_splits)
  have fail: "en_trace (cursorFailure e') = en_trace e'" for e' :: "'a env"
    by (simp add: cursorFailure_def en_add_def)
  show ?thesis
  proof (cases "co_CursorDecoder options")
    case None
    then show ?thesis
      by (simp add: compileCursor_run Some td decode_token_def fail decoder_calls_def)
  next
    case decoder: (Some decode)
    have "en_trace (snd (compileCursor schema options (plan, e))) =
        en_trace (snd (decode_token options token (sc_revision schema) (pl_sorts plan) e))"
      by (simp add: compileCursor_run Some td fail Let_def case_prod_beta split: option.split)
    also have "\<dots> = en_trace e @ [Decoded token (sc_revision schema) (pl_sorts plan)
        (\<not> isl (fst (decode token (sc_revision schema) (pl_sorts plan) (en_world e))))]"
      by (simp add: decode_token_def decoder Let_def case_prod_beta)
    finally show ?thesis using token by (auto simp: decoder_calls_def)
  qed
qed

text \<open>No stage before the page touches the page of the plan.\<close>

lemma stages_keep_page:
  "pl_page (fst (compileConstraints schema cs (plan, e))) = pl_page plan"
  "pl_page (fst (compileFields schema fields' options (plan, e))) = pl_page plan"
  "pl_page (fst (compileIncludes schema includes' options (plan, e))) = pl_page plan"
proof -
  have field: "pl_page (fst (snd (compileField schema options i n s))) = pl_page (fst (snd s))"
    for i n and s :: "string set \<times> Plan \<times> 'a env"
    by (simp add: compileField_def Let_def case_prod_beta split: option.split)
  have required: "pl_page (snd (requireField schema i f s)) = pl_page (snd s)"
    for i f and s :: "string set \<times> Plan"
    by (simp add: requireField_def case_prod_beta)
  have edges: "pl_page (fst (snd (snd (compileEdges schema options path es s)))) = pl_page (fst (snd s))"
    for path es and s :: "string set \<times> Plan \<times> 'a env"
  proof (induction es arbitrary: s)
    case (Cons edge es)
    then show ?case by (cases s) (simp add: Let_def case_prod_beta)
  qed simp
  have incl: "pl_page (fst (snd (snd (compileInclude schema options i n s)))) =
      pl_page (fst (snd (snd s)))" for i n and s :: "string set \<times> string set \<times> Plan \<times> 'a env"
    by (simp add: compileInclude_def Let_def case_prod_beta edges split: option.split)
  have fields_loop: "pl_page (fst (snd (range_loop (compileField schema options) i ns s))) =
      pl_page (fst (snd s))" for i ns and s :: "string set \<times> Plan \<times> 'a env"
    by (rule range_loop_invariant) (simp_all add: field)
  have required_loop: "pl_page (snd (range_loop (requireField schema) i fs s)) = pl_page (snd s)"
    for i fs and s :: "string set \<times> Plan"
    by (rule range_loop_invariant) (simp_all add: required)
  have incl_loop: "pl_page (fst (snd (snd (range_loop (compileInclude schema options) i ns s)))) =
      pl_page (fst (snd (snd s)))" for i ns and s :: "string set \<times> string set \<times> Plan \<times> 'a env"
    by (rule range_loop_invariant) (simp_all add: incl)
  show "pl_page (fst (compileConstraints schema cs (plan, e))) = pl_page plan"
    unfolding compileConstraints_unfold by (simp add: Let_def case_prod_beta)
  show "pl_page (fst (compileFields schema fields' options (plan, e))) = pl_page plan"
    unfolding compileFields_unfold by (simp add: Let_def case_prod_beta required_loop fields_loop)
  show "pl_page (fst (compileIncludes schema includes' options (plan, e))) = pl_page plan"
    by (cases includes') (simp add: compileIncludes_def,
        simp add: compileIncludes_unfold Let_def case_prod_beta incl_loop)
qed

lemma stages_page:
  "pg_After (pl_page (fst (compileStages schema request options e))) = pg_After (rq_Page request)"
  "pg_Before (pl_page (fst (compileStages schema request options e))) = pg_Before (rq_Page request)"
proof -
  have norm: "pg_After (normalizePage schema page) = pg_After page"
    "pg_Before (normalizePage schema page) = pg_Before page" for page
    by (simp_all add: normalizePage_def Let_def)
  have keep: "pl_page (fst (compileConstraints schema cs p)) = pl_page (fst p)"
    "pl_page (fst (compileFields schema fields' options p)) = pl_page (fst p)"
    "pl_page (fst (compileIncludes schema includes' options p)) = pl_page (fst p)"
    for cs fields' includes' and p :: "Plan \<times> 'a env"
    by (cases p; simp add: stages_keep_page)+
  show "pg_After (pl_page (fst (compileStages schema request options e))) = pg_After (rq_Page request)"
    "pg_Before (pl_page (fst (compileStages schema request options e))) = pg_Before (rq_Page request)"
    unfolding compileStages_def Let_def case_prod_beta compilePage_def
    by (simp_all add: norm keep initialPlan_def)
qed

lemma Compile_trace:
  assumes wf: "wf_schema schema"
  shows "\<exists>asks calls. snd (snd (Compile (Some schema) request options w)) = asks @ calls \<and>
    only_declared schema asks \<and> decoder_calls schema request calls"
proof -
  define st where "st = compileStages schema request options (start_env schema w)"
  obtain asks where asks: "en_trace (snd st) = asks" "only_declared schema asks"
    using asking_trace [OF asking_stages [OF wf, of "\<lambda>_. True" request options "start_env schema w"]]
    by (auto simp: st_def start_env_def reports_at_def parts_of_def nodes_of_def)
  obtain calls where calls:
    "en_trace (snd (compileCursor schema options (fst st, snd st))) = en_trace (snd st) @ calls"
    "decoder_calls schema request calls"
    using compileCursor_trace [of "fst st" request schema options "snd st"] stages_page
    unfolding st_def by blast
  have "snd (snd (Compile (Some schema) request options w)) =
      en_trace (snd (compileCursor schema options st))"
    unfolding Compile_unfold compileAll_stages Let_def case_prod_beta snd_conv st_def
    by (simp add: en_add_def)
  with asks calls show ?thesis by auto
qed

end
