(* ===== verification/Sample.thy ===== *)
theory Sample
  imports CompileTrace
begin

text \<open>
  A small application: a schema of articles, requests against it, an authorizer that counts its
  calls, and a cursor decoder. The witnesses of the development evaluate the model on them.
\<close>

definition sampleField :: "string \<Rightarrow> bool \<Rightarrow> bool \<Rightarrow> bool \<Rightarrow> int \<Rightarrow> FieldDefinition" where
  "sampleField name dflt required deprecated cost =
     \<lparr>fd_Name = name, fd_Type = TypeString, fd_Default = dflt, fd_Required = required,
      fd_Deprecated = deprecated, fd_Cost = cost\<rparr>"

definition sampleBounds :: Bounds where
  "sampleBounds =
     \<lparr>b_MaxRequestBytes = 0, b_MaxFields = 4, b_MaxIncludes = 3, b_MaxIncludeDepth = 2,
      b_MaxFilterDepth = 3, b_MaxFilterNodes = 6, b_MaxValues = 8, b_MaxMembership = 3,
      b_MaxStringBytes = 64, b_MaxSorts = 3, b_MaxPageSize = 50, b_MaxCursorBytes = 4096,
      b_MaxCanonicalBytes = 0, b_MaxErrors = 5, b_MaxCost = 40\<rparr>"

definition sampleConfig :: SchemaConfig where
  "sampleConfig =
     \<lparr>cf_Resource = ''articles'', cf_Revision = ''v1'',
      cf_Fields =
        [sampleField ''id'' True False False 1, sampleField ''title'' True False False 1,
         sampleField ''owner_id'' False True False 1, sampleField ''legacy'' False False True 1],
      cf_Filters =
        [\<lparr>fl_Name = ''status'', fl_Type = TypeString, fl_Operators = [OpEqual, OpIn],
          fl_Protected = False, fl_Deprecated = False, fl_Nullable = False,
          fl_AllowEmpty = False, fl_Cost = 2\<rparr>,
         \<lparr>fl_Name = ''views'', fl_Type = TypeInt, fl_Operators = [OpBetween],
          fl_Protected = False, fl_Deprecated = False, fl_Nullable = False,
          fl_AllowEmpty = False, fl_Cost = 3\<rparr>],
      cf_Sorts =
        [\<lparr>sd_Name = ''created'', sd_Type = TypeTime, sd_TieBreaker = False, sd_Nulls = NullsLast,
          sd_Cost = 1\<rparr>,
         \<lparr>sd_Name = ''id'', sd_Type = TypeString, sd_TieBreaker = True, sd_Nulls = [], sd_Cost = 1\<rparr>],
      cf_Relationships =
        [RelationshipDefinition ''author'' ''people'' 5
           [RelationshipDefinition ''company'' ''companies'' 5 []]],
      cf_DefaultSort = [\<lparr>st_Name = ''created'', st_Direction = Descending, st_Nulls = []\<rparr>],
      cf_AllowedLogic = [LogicAnd, LogicNot],
      cf_Pagination =
        \<lparr>pd_Cursor = True, pd_Offset = True, pd_DefaultPageSize = 10, pd_MaxOffset = 100\<rparr>,
      cf_Bounds = sampleBounds\<rparr>"

definition sampleSchema :: Schema where
  "sampleSchema = built_schema sampleConfig"

lemma sample_header: "header_ok (cf_Resource sampleConfig) (cf_Revision sampleConfig)"
  by (simp add: sampleConfig_def header_ok_def validName_iff name_char_def in_bytes_def byte_def
      valid_utf8_ascii)

lemma sample_bounds: "b_MaxCost (sc_bounds (initialSchema sampleConfig)) = 40"
  by code_simp

lemma sampleConfig_valid: "valid_config sampleConfig"
  unfolding valid_config_def Let_def sample_bounds
  by (intro conjI sample_header; code_simp)

lemma NewSchema_sample: "NewSchema sampleConfig = Inr sampleSchema"
  using sampleConfig_valid by (simp add: NewSchema_result sampleSchema_def)

lemma sampleSchema_wf: "wf_schema sampleSchema"
  using NewSchema_sample by (rule NewSchema_wf_schema)

lemma sampleSchema_cost: "b_MaxCost (sc_bounds sampleSchema) \<le> maxInt"
  by code_simp

definition sampleFilter :: FilterExpr where
  "sampleFilter =
     FilterExpr None LogicAnd
       [FilterExpr
          (Some \<lparr>pr_Name = ''status'', pr_Operator = OpEqual, pr_Values = [StringValue ''open'']\<rparr>)
          [] [],
        FilterExpr None LogicNot
          [FilterExpr
             (Some \<lparr>pr_Name = ''views'', pr_Operator = OpBetween,
                    pr_Values = [IntValue 1, IntValue 9]\<rparr>) [] []]]"

definition sampleRequest :: Request where
  "sampleRequest =
     \<lparr>rq_SchemaRevision = Some ''v1'', rq_Fields = Some [''title'', ''id''],
      rq_Includes = Some [''author.company'', ''author''], rq_Filter = Some sampleFilter,
      rq_Sorts = None,
      rq_Page = \<lparr>pg_Mode = PageCursor, pg_Size = 0, pg_After = ''tok'', pg_Before = [],
                 pg_Offset = 0\<rparr>\<rparr>"

definition sampleState :: CursorState where
  "sampleState =
     \<lparr>cs_Direction = CursorForward,
      cs_Positions = [\<lparr>v_type = TypeTime, v_text = ''2024-01-01T00:00:00Z''\<rparr>, StringValue ''a7''],
      cs_Policy = ''p''\<rparr>"

text \<open>The world counts the callbacks; the authorizer allows everything but a field \<open>salary\<close>.\<close>

definition sampleOptions :: "nat CompileOptions" where
  "sampleOptions =
     \<lparr>co_Authorize = Some (\<lambda>c n. (cp_Name c \<noteq> ''salary'', Suc n)),
      co_MandatoryConstraints =
        [\<lparr>cn_Name = ''tenant'', cn_Value = StringValue ''t1'', cn_Protected = True\<rparr>],
      co_CursorDecoder =
        Some (\<lambda>token revision sorts n.
          (if token = ''tok'' then Inr sampleState else Inl ''bad token'', Suc n))\<rparr>"

lemma sample_accepts: "accepts sampleSchema sampleRequest sampleOptions 0"
  by code_simp

definition samplePlan :: Plan where
  "samplePlan = spec_plan sampleSchema (co_MandatoryConstraints sampleOptions) sampleRequest
     (Some sampleState)"

lemma sample_decoded:
  "fst (decoded_env sampleSchema sampleRequest sampleOptions 0) = Some sampleState"
  by code_simp

lemma Compile_sample:
  "\<exists>w trace. Compile (Some sampleSchema) sampleRequest sampleOptions 0 = (Inr samplePlan, w, trace)"
  using sample_accepts
  by (simp add: Compile_Inr [OF sampleSchema_wf sampleSchema_cost] samplePlan_def sample_decoded)

text \<open>A request the sample schema rejects on several grounds.\<close>

definition badRequest :: Request where
  "badRequest = sampleRequest\<lparr>rq_Fields := Some [''salary'', ''legacy'', ''id'', ''id'']\<rparr>"

end
