(* ===== verification/SchemaProperties.thy ===== *)
theory SchemaProperties
  imports Sample
begin

text \<open>
  The properties of \<open>NewSchema\<close> that a caller relies on, each applied to the sample configuration.
\<close>

text \<open>
  C4: \<open>NewSchema\<close> returns a schema exactly for the valid configurations (names,
  types, costs, operators, relationships without cycles, pagination, default order), and the schema
  is then the one built from the configuration with its defaults and its position indexes; the
  staged, violation-collecting validation computes exactly this.
\<close>

theorem NewSchema_accepts:
  "NewSchema cfg = Inr s \<longleftrightarrow> valid_config cfg \<and> s = built_schema cfg"
  by (rule NewSchema_result)

lemma NewSchema_relation_closed:
  assumes "NewSchema cfg = Inr s" and "sc_relationIndex s path = Some node"
  shows "(\<forall>q \<in> set (relationshipPrefixes path). sc_relationIndex s q \<noteq> None) \<and>
    rn_depth node = Suc (count_list path CHR ''.'') \<and>
    rd_Resource (rn_definition node) \<noteq> sc_resource s"
  using wf_schema_relation [OF NewSchema_wf_schema [OF assms(1)] assms(2)]
  by (simp add: relationshipDepth_count)

text \<open>
  C14: every schema \<open>NewSchema\<close> returns satisfies the schema invariant: positive
  bounds, unique valid names, indexes that hold exactly the declared positions, costs within the cost
  bound, and a default order the pagination can use. In its relationship index every dotted prefix of
  a declared path is declared, the stored depth of a path is its number of segments, and no
  relationship leads back to the schema's own resource.
\<close>

theorem NewSchema_invariant:
  assumes "NewSchema cfg = Inr s"
  shows "wf_schema s \<and>
    (\<forall>path node. sc_relationIndex s path = Some node \<longrightarrow>
       (\<forall>q \<in> set (relationshipPrefixes path). sc_relationIndex s q \<noteq> None) \<and>
       rn_depth node = Suc (count_list path CHR ''.'') \<and>
       rd_Resource (rn_definition node) \<noteq> sc_resource s)"
  using NewSchema_wf_schema [OF assms] NewSchema_relation_closed [OF assms] by blast

theorem NewSchema_invariant_witness:
  "wf_schema sampleSchema \<and> sc_relationIndex sampleSchema ''author'' \<noteq> None \<and>
   map_option rn_depth (sc_relationIndex sampleSchema ''author.company'') = Some 2"
proof -
  have "sc_relationIndex sampleSchema ''author.company'' \<noteq> None" by code_simp
  then obtain node where node: "sc_relationIndex sampleSchema ''author.company'' = Some node" by blast
  have "''author'' \<in> set (relationshipPrefixes ''author.company'')" by code_simp
  with NewSchema_invariant [OF NewSchema_sample] node show ?thesis by auto
qed

text \<open>
  A rejected configuration is reported with at least one violation and with at
  most the configured number of them.
\<close>

theorem NewSchema_rejects:
  assumes "NewSchema cfg = Inl items"
  shows "items \<noteq> [] \<and> int (length items) \<le> b_MaxErrors (normalizedBounds (cf_Bounds cfg))"
  using assms by (rule NewSchema_result)

lemma badConfig_invalid: "\<not> valid_config (sampleConfig\<lparr>cf_Resource := []\<rparr>)"
  by (simp add: valid_config_def Let_def header_ok_def validName_iff)

theorem NewSchema_rejects_witness:
  "\<exists>items. NewSchema (sampleConfig\<lparr>cf_Resource := []\<rparr>) = Inl items \<and> items \<noteq> [] \<and>
     int (length items) \<le> 5"
proof -
  have "\<nexists>s. NewSchema (sampleConfig\<lparr>cf_Resource := []\<rparr>) = Inr s"
    using badConfig_invalid by (simp add: NewSchema_result)
  then obtain items where items: "NewSchema (sampleConfig\<lparr>cf_Resource := []\<rparr>) = Inl items"
    by (metis sumE)
  have "b_MaxErrors (normalizedBounds (cf_Bounds (sampleConfig\<lparr>cf_Resource := []\<rparr>))) = 5"
    by code_simp
  with NewSchema_rejects [OF items] items show ?thesis by auto
qed

end
