(* ===== verification/CompileProperties.thy ===== *)
theory CompileProperties
  imports Sample
begin

text \<open>
  The properties of \<open>Compile\<close> that its callers rely on, each applied to the sample request.
\<close>

section \<open>Refinement\<close>

text \<open>
  C1: for a well-formed schema \<open>Compile\<close> returns a plan exactly when the request, the
  mandatory constraints, the authorizer, the cursor decoder and the exact cost satisfy the
  specification \<open>accepts\<close>; the plan is then the specified one, and the callbacks made and the world
  they leave are the specified ones.
\<close>

theorem Compile_refines:
  assumes "wf_schema schema" and "b_MaxCost (sc_bounds schema) \<le> maxInt"
  shows "Compile (Some schema) request options w = (Inr plan, w', trace) \<longleftrightarrow>
    accepts schema request options w \<and>
    plan = spec_plan schema (co_MandatoryConstraints options) request
      (fst (decoded_env schema request options w)) \<and>
    w' = en_world (snd (decoded_env schema request options w)) \<and>
    trace = en_trace (snd (decoded_env schema request options w))"
  using assms by (rule Compile_Inr)

theorem Compile_refines_witness:
  "fst (Compile (Some sampleSchema) sampleRequest sampleOptions 0) = Inr samplePlan"
proof -
  have "accepts sampleSchema sampleRequest sampleOptions 0 \<and> samplePlan = spec_plan sampleSchema
      (co_MandatoryConstraints sampleOptions) sampleRequest
      (fst (decoded_env sampleSchema sampleRequest sampleOptions 0))"
    by (simp add: sample_accepts samplePlan_def sample_decoded)
  then have "Compile (Some sampleSchema) sampleRequest sampleOptions 0 = (Inr samplePlan,
      en_world (snd (decoded_env sampleSchema sampleRequest sampleOptions 0)),
      en_trace (snd (decoded_env sampleSchema sampleRequest sampleOptions 0)))"
    by (simp add: Compile_refines [OF sampleSchema_wf sampleSchema_cost])
  then show ?thesis by simp
qed

text \<open>
  C12: when \<open>Compile\<close> returns violations there is at least one, and no more than the
  schema's error bound.
\<close>

theorem Compile_rejects:
  assumes "wf_schema schema" and "fst (Compile (Some schema) request options w) = Inl items"
  shows "items \<noteq> [] \<and> int (length items) \<le> b_MaxErrors (sc_bounds schema)"
  using Compile_Inl [OF assms] by blast

lemma badRequest_rejected: "\<exists>items. fst (Compile (Some sampleSchema) badRequest sampleOptions 0) = Inl items"
proof -
  have "\<not> accepts sampleSchema badRequest sampleOptions 0" by code_simp
  then have none: "Compile (Some sampleSchema) badRequest sampleOptions 0 \<noteq> (Inr p, w, t)" for p w t
    by (simp add: Compile_Inr [OF sampleSchema_wf sampleSchema_cost])
  show ?thesis
  proof (cases "fst (Compile (Some sampleSchema) badRequest sampleOptions 0)")
    case (Inr p)
    then show ?thesis
      using none [of p] prod.collapse [of "Compile (Some sampleSchema) badRequest sampleOptions 0"]
      by (metis surj_pair)
  qed blast
qed

theorem Compile_rejects_witness:
  "\<exists>items. fst (Compile (Some sampleSchema) badRequest sampleOptions 0) = Inl items \<and>
     items \<noteq> [] \<and> int (length items) \<le> b_MaxErrors (sc_bounds sampleSchema)"
proof -
  obtain items where run: "fst (Compile (Some sampleSchema) badRequest sampleOptions 0) = Inl items"
    using badRequest_rejected by (rule exE)
  show ?thesis
    by (rule exI, rule conjI, rule run, rule Compile_rejects [OF sampleSchema_wf run])
qed

section \<open>Callbacks\<close>

text \<open>
  C2: on every run, accepted or rejected, the authorizer is asked only about
  capabilities that the schema declares (no name taken from the request reaches it unchecked), and
  the cursor decoder is called at most once, after every authorization, with a non-empty token of
  the request and the schema's own revision.
\<close>

theorem Compile_callbacks:
  assumes "wf_schema schema"
  shows "\<exists>asks calls. snd (snd (Compile (Some schema) request options w)) = asks @ calls \<and>
    only_declared schema asks \<and> decoder_calls schema request calls"
  using assms by (rule Compile_trace)

theorem Compile_callbacks_witness:
  "\<exists>asks calls. snd (snd (Compile (Some sampleSchema) badRequest sampleOptions 0)) = asks @ calls \<and>
    only_declared sampleSchema asks \<and> decoder_calls sampleSchema badRequest calls"
  using sampleSchema_wf by (rule Compile_callbacks)

text \<open>What an accepted request asked for was allowed, one capability after the other.\<close>

lemma ask_all_trace:
  assumes "fst (ask_all options cs e)" and "co_Authorize options = Some authorize"
  shows "en_trace (snd (ask_all options cs e)) = en_trace e @ map (\<lambda>c. Asked c True) cs"
  using assms(1)
proof (induction cs arbitrary: e)
  case (Cons c cs)
  then show ?case
    by (simp add: Let_def case_prod_beta authorized_def assms(2) split: if_splits)
qed simp

lemma cursor_step_trace:
  "\<exists>calls. en_trace (snd (cursor_step schema options page sorts e)) = en_trace e @ calls \<and>
     (\<forall>c \<in> set calls. \<exists>t r s b. c = Decoded t r s b)"
  by (auto simp: cursor_step_def decode_token_def Let_def case_prod_beta split: option.split)

lemma accepted_trace:
  assumes "accepts schema request options w" and "co_Authorize options = Some authorize"
  shows "\<exists>calls. en_trace (snd (decoded_env schema request options w)) =
    map (\<lambda>c. Asked c True) (needed_caps schema request) @ calls \<and>
    (\<forall>c \<in> set calls. \<exists>t r s b. c = Decoded t r s b)"
proof -
  have "fst (asked_env schema request options w)" using assms(1) by (simp add: accepts_def)
  then have "en_trace (snd (asked_env schema request options w)) =
      map (\<lambda>c. Asked c True) (needed_caps schema request)"
    using ask_all_trace [OF _ assms(2)] by (simp add: asked_env_def start_env_def)
  then show ?thesis
    using cursor_step_trace [of schema options "normalizePage schema (rq_Page request)"
        "final_sorts schema request" "snd (asked_env schema request options w)"]
    by (simp add: decoded_env_def)
qed

lemma needed_caps_mem:
  assumes "wf_schema schema" and "request_ok schema request"
  shows "(\<forall>n \<in> set (selected_fields schema (rq_Fields request)).
      cap CapabilityField n \<in> set (needed_caps schema request)) \<and>
    (\<forall>n \<in> set (requested_includes (rq_Includes request)). \<forall>q \<in> set (relationshipPrefixes n).
      cap CapabilityRelationship q \<in> set (needed_caps schema request)) \<and>
    (\<forall>f. rq_Filter request = Some f \<longrightarrow> (\<forall>p \<in> set (predicates f).
      cap CapabilityFilter (pr_Name p) \<in> set (needed_caps schema request))) \<and>
    (\<forall>t \<in> set (final_sorts schema request).
      cap CapabilitySort (st_Name t) \<in> set (needed_caps schema request))"
proof -
  have "q \<in> set (fresh_of {} (include_edges (requested_includes (rq_Includes request))))"
    if "n \<in> set (requested_includes (rq_Includes request))" "q \<in> set (relationshipPrefixes n)" for n q
    using that by (auto simp: set_fresh_of include_edges_def)
  then show ?thesis
    by (auto simp: needed_caps_def filter_asks_def)
qed



end
