(* ===== verification/PlanProperties.thy ===== *)
theory PlanProperties
  imports Sample
begin

text \<open>
  What the adapters may assume of a compiled plan: the invariants of the plans \<open>Compile\<close> returns,
  each read off the refinement theorem and applied to the sample request.
\<close>

lemma compiled:
  assumes "wf_schema schema" and "b_MaxCost (sc_bounds schema) \<le> maxInt"
    and "Compile (Some schema) request options w = (Inr plan, w', trace)"
  obtains state where "accepts schema request options w" "request_ok schema request"
    "state = fst (decoded_env schema request options w)"
    "plan = spec_plan schema (co_MandatoryConstraints options) request state"
  using assms(3) by (simp add: Compile_Inr [OF assms(1,2)] accepts_def)

section \<open>Fields and includes\<close>

lemma required_names_set:
  "set (required_names schema sel) = fd_Name ` {f \<in> set (sc_fields schema). fd_Required f} - sel"
  by (auto simp: required_names_def)

lemma required_names_distinct: "wf_schema schema \<Longrightarrow> distinct (required_names schema sel)"
  using indexes_distinct [of fd_Name "sc_fields schema" "sc_fieldIndex schema"]
  by (auto simp: required_names_def wf_schema_def distinct_map intro: inj_on_subset)

lemma compiled_fields:
  assumes "wf_schema schema" and "b_MaxCost (sc_bounds schema) \<le> maxInt"
    and "Compile (Some schema) request options w = (Inr plan, w', trace)"
  shows "(\<forall>n \<in> set (pl_responseFields plan). field_selectable schema n) \<and>
    distinct (pl_responseFields plan) \<and>
    int (length (pl_responseFields plan)) \<le> b_MaxFields (sc_bounds schema) \<and>
    distinct (pl_executionFields plan) \<and>
    set (pl_executionFields plan) = set (pl_responseFields plan) \<union>
      fd_Name ` {f \<in> set (sc_fields schema). fd_Required f}"
proof -
  from assms obtain state where ok: "request_ok schema request"
    and plan: "plan = spec_plan schema (co_MandatoryConstraints options) request state"
    by (rule compiled)
  from ok have "fields_ok schema (pl_responseFields plan)"
    by (simp add: plan spec_plan_def request_ok_def Let_def)
  then show ?thesis
    using required_names_distinct [OF assms(1), of "set (pl_responseFields plan)"]
    by (auto simp: plan spec_plan_def Let_def fields_ok_def required_names_set)
qed

lemma compiled_includes:
  assumes "wf_schema schema" and "b_MaxCost (sc_bounds schema) \<le> maxInt"
    and "Compile (Some schema) request options w = (Inr plan, w', trace)"
  shows "distinct (pl_includes plan) \<and>
    int (length (pl_includes plan)) \<le> b_MaxIncludes (sc_bounds schema) \<and>
    (\<forall>n \<in> set (pl_includes plan).
       int (relationshipDepth n) \<le> b_MaxIncludeDepth (sc_bounds schema) \<and>
       (\<forall>q \<in> set (relationshipPrefixes n). sc_relationIndex schema q \<noteq> None))"
proof -
  from assms obtain state where ok: "request_ok schema request"
    and plan: "plan = spec_plan schema (co_MandatoryConstraints options) request state"
    by (rule compiled)
  have incs: "includes_ok schema (pl_includes plan)"
    using ok by (simp add: plan spec_plan_def request_ok_def Let_def)
  have "int (relationshipDepth n) \<le> b_MaxIncludeDepth (sc_bounds schema) \<and>
      (\<forall>q \<in> set (relationshipPrefixes n). sc_relationIndex schema q \<noteq> None)"
    if "n \<in> set (pl_includes plan)" for n
  proof -
    from incs that obtain node where node: "sc_relationIndex schema n = Some node"
      and "int (rn_depth node) \<le> b_MaxIncludeDepth (sc_bounds schema)"
      by (auto simp: includes_ok_def include_ok_def split: option.splits)
    with wf_schema_relation(1,6) [OF assms(1) node] show ?thesis by simp
  qed
  with incs show ?thesis by (simp add: includes_ok_def)
qed

text \<open>
  C15: the response fields of a plan are declared, not deprecated, without repetition and
  within the field bound; its execution fields are exactly these and the schema's required fields,
  each once. Its include paths are declared with all their prefixes, without repetition, no deeper than
  the depth bound and no more than the include bound.
\<close>

theorem Plan_selection:
  assumes "wf_schema schema" and "b_MaxCost (sc_bounds schema) \<le> maxInt"
    and "Compile (Some schema) request options w = (Inr plan, w', trace)"
  shows "(\<forall>n \<in> set (pl_responseFields plan). field_selectable schema n) \<and>
    distinct (pl_responseFields plan) \<and>
    int (length (pl_responseFields plan)) \<le> b_MaxFields (sc_bounds schema) \<and>
    distinct (pl_executionFields plan) \<and>
    set (pl_executionFields plan) = set (pl_responseFields plan) \<union>
      fd_Name ` {f \<in> set (sc_fields schema). fd_Required f} \<and>
    distinct (pl_includes plan) \<and>
    int (length (pl_includes plan)) \<le> b_MaxIncludes (sc_bounds schema) \<and>
    (\<forall>n \<in> set (pl_includes plan).
       int (relationshipDepth n) \<le> b_MaxIncludeDepth (sc_bounds schema) \<and>
       (\<forall>q \<in> set (relationshipPrefixes n). sc_relationIndex schema q \<noteq> None))"
  by (intro conjI compiled_fields [OF assms, THEN conjunct1])
    (simp_all add: compiled_fields [OF assms] compiled_includes [OF assms])

theorem Plan_selection_witness:
  "pl_executionFields samplePlan = [''owner_id'', ''title'', ''id''] \<and>
   distinct (pl_executionFields samplePlan) \<and>
   pl_includes samplePlan = [''author.company'', ''author''] \<and> distinct (pl_includes samplePlan)"
proof -
  obtain w trace where
    "Compile (Some sampleSchema) sampleRequest sampleOptions 0 = (Inr samplePlan, w, trace)"
    using Compile_sample by blast
  from Plan_selection [OF sampleSchema_wf sampleSchema_cost this]
  have "distinct (pl_executionFields samplePlan) \<and> distinct (pl_includes samplePlan)" by blast
  moreover have "pl_executionFields samplePlan = [''owner_id'', ''title'', ''id'']"
    "pl_includes samplePlan = [''author.company'', ''author'']" by code_simp+
  ultimately show ?thesis by blast
qed

section \<open>Filters and constraints\<close>

text \<open>
  C16: the filter of a plan is the filter of the request, unchanged, and the mandatory
  constraints are the server's, unchanged: the request can neither remove nor replace one. The
  filter respects the depth, node and value bounds, and each of its predicates is declared, not
  deprecated, uses an operator its declaration allows, and has values of the declared type in the
  number the operator wants.
\<close>

theorem Plan_filter:
  assumes "wf_schema schema" and "b_MaxCost (sc_bounds schema) \<le> maxInt"
    and "Compile (Some schema) request options w = (Inr plan, w', trace)"
  shows "pl_filter plan = rq_Filter request \<and>
    pl_constraints plan = co_MandatoryConstraints options \<and>
    filter_accepted schema (pl_filter plan)"
proof -
  from assms obtain state where ok: "request_ok schema request"
    and plan: "plan = spec_plan schema (co_MandatoryConstraints options) request state"
    by (rule compiled)
  then show ?thesis by (simp add: spec_plan_def request_ok_def Let_def)
qed

theorem Plan_filter_witness:
  "pl_filter samplePlan = Some sampleFilter \<and> filter_accepted sampleSchema (Some sampleFilter)"
proof -
  obtain w trace where
    "Compile (Some sampleSchema) sampleRequest sampleOptions 0 = (Inr samplePlan, w, trace)"
    using Compile_sample by blast
  note filt = Plan_filter [OF sampleSchema_wf sampleSchema_cost this]
  then have eq: "pl_filter samplePlan = Some sampleFilter" by (simp add: sampleRequest_def)
  show ?thesis unfolding eq [symmetric] using filt by blast
qed

section \<open>Order, page and cursor\<close>

lemma tie_breaker_unique:
  assumes wf: "wf_schema schema" and cursor: "pd_Cursor (sc_pagination schema)"
  shows "\<exists>d. tie_breaker schema = Some d \<and> sort_def schema (sd_Name d) = Some d \<and>
    (\<forall>n. is_tie_breaker schema n \<longleftrightarrow> n = sd_Name d)"
proof -
  have idx: "indexes sd_Name (sc_sorts schema) (sc_sortIndex schema)"
    and "length (filter sd_TieBreaker (sc_sorts schema)) = 1"
    using wf cursor by (simp_all add: wf_schema_def pagination_ok_def Let_def)
  then obtain d where only: "filter sd_TieBreaker (sc_sorts schema) = [d]"
    by (auto simp: length_Suc_conv)
  have "find sd_TieBreaker xs = Some d" if "filter sd_TieBreaker xs = [d]" for xs
    using that by (induction xs) (auto split: if_splits)
  with only have find: "tie_breaker schema = Some d" by (simp add: tie_breaker_def)
  have d: "d \<in> set (sc_sorts schema)" "sd_TieBreaker d"
    using arg_cong [OF only, of set] by auto
  obtain i where i: "sc_sortIndex schema (sd_Name d) = Some i" "sc_sorts schema ! i = d"
    using indexes_mem [OF idx d(1)] by blast
  have "is_tie_breaker schema n \<longleftrightarrow> n = sd_Name d" for n
  proof
    assume "is_tie_breaker schema n"
    then obtain j where j: "sc_sortIndex schema n = Some j" "sd_TieBreaker (sc_sorts schema ! j)"
      by (auto simp: is_tie_breaker_def sort_def_def split: option.splits)
    have "sc_sorts schema ! j \<in> set (filter sd_TieBreaker (sc_sorts schema))"
      and "sd_Name (sc_sorts schema ! j) = n"
      using indexes_Some [OF idx j(1)] j(2) by simp_all
    then show "n = sd_Name d" using only by simp
  qed (simp add: is_tie_breaker_def sort_def_def i d(2))
  with find i show ?thesis by (auto simp: sort_def_def)
qed

lemma final_sorts_ok:
  assumes wf: "wf_schema schema" and ok: "request_ok schema request"
  shows "distinct (map st_Name (final_sorts schema request)) \<and>
    (\<forall>t \<in> set (final_sorts schema request). \<exists>d. sort_def schema (st_Name t) = Some d \<and>
       st_Direction t \<in> {Ascending, Descending} \<and> st_Nulls t = sd_Nulls d)"
proof -
  let ?sorts = "requested_sorts schema (rq_Sorts request)"
  let ?page = "normalizePage schema (rq_Page request)"
  let ?new = "added_terms schema ?page (map (complete_term schema) ?sorts)"
  have sorts: "\<forall>t \<in> set ?sorts. sort_term_ok schema t" "distinct (map st_Name ?sorts)"
    using ok by (simp_all add: request_ok_def sorts_selected_ok_def)
  have final: "final_sorts schema request = map (complete_term schema) ?sorts @ ?new"
    by (simp add: final_sorts_def Let_def)
  have old: "\<exists>d. sort_def schema (st_Name t) = Some d \<and>
      st_Direction t \<in> {Ascending, Descending} \<and> st_Nulls t = sd_Nulls d"
    if "t \<in> set (map (complete_term schema) ?sorts)" for t
  proof -
    from that obtain u where u: "u \<in> set ?sorts" "t = complete_term schema u" by auto
    with sorts(1) have "sort_term_ok schema u" by blast
    then show ?thesis
      by (cases "sort_def schema (st_Name u)") (auto simp: sort_term_ok_def u(2) complete_term_def)
  qed
  have new: "\<exists>d. tie_breaker schema = Some d \<and> ?new = [tie_term d] \<and> pg_Mode ?page = PageCursor \<and>
      sd_Name d \<notin> st_Name ` set (map (complete_term schema) ?sorts)" if "?new \<noteq> []"
    using that unfolding added_terms_def by (simp split: if_splits option.splits) blast
  have tie: "sort_def schema (sd_Name d) = Some d" if "tie_breaker schema = Some d" "pg_Mode ?page = PageCursor" for d
  proof -
    have "pd_Cursor (sc_pagination schema)"
      using ok that(2) by (simp add: request_ok_def page_ok_def Let_def)
    with tie_breaker_unique [OF wf] that(1) show ?thesis by fastforce
  qed
  show ?thesis
  proof (cases "?new = []")
    case True
    have "distinct (map st_Name (map (complete_term schema) ?sorts))"
      unfolding map_complete_names by (rule sorts(2))
    with True old show ?thesis unfolding final True by simp
  next
    case False
    from new [OF this] obtain d where d: "tie_breaker schema = Some d" "?new = [tie_term d]"
      "pg_Mode ?page = PageCursor" "sd_Name d \<notin> st_Name ` set (map (complete_term schema) ?sorts)"
      by blast
    have "set (map st_Name (map (complete_term schema) ?sorts)) = set (map st_Name ?sorts)"
      unfolding map_complete_names ..
    with d(4) have "sd_Name d \<notin> set (map st_Name ?sorts)" by (simp add: image_image)
    then have "distinct (map st_Name (map (complete_term schema) ?sorts @ [tie_term d]))"
      unfolding map_append map_complete_names using sorts(2) by (simp add: tie_term_def)
    moreover have "\<exists>e. sort_def schema (st_Name t) = Some e \<and>
        st_Direction t \<in> {Ascending, Descending} \<and> st_Nulls t = sd_Nulls e"
      if "t \<in> set (map (complete_term schema) ?sorts @ [tie_term d])" for t
      using that old [of t] tie [OF d(1,3)] by (auto simp: tie_term_def)
    ultimately show ?thesis unfolding final d(2) by blast
  qed
qed

text \<open>
  C17: the sort terms of a plan are declared, without repetition, within the sort bound,
  and carry the declared null ordering; in cursor mode exactly one of them is the unique
  tie-breaker, so that the order is total.
\<close>

theorem Plan_order:
  assumes "wf_schema schema" and "b_MaxCost (sc_bounds schema) \<le> maxInt"
    and "Compile (Some schema) request options w = (Inr plan, w', trace)"
  shows "distinct (map st_Name (pl_sorts plan)) \<and>
    int (length (pl_sorts plan)) \<le> b_MaxSorts (sc_bounds schema) \<and>
    (\<forall>t \<in> set (pl_sorts plan). \<exists>d. sort_def schema (st_Name t) = Some d \<and>
       st_Direction t \<in> {Ascending, Descending} \<and> st_Nulls t = sd_Nulls d) \<and>
    (pg_Mode (pl_page plan) = PageCursor \<longrightarrow>
       (\<exists>!t. t \<in> set (pl_sorts plan) \<and> is_tie_breaker schema (st_Name t)))"
proof -
  from assms obtain state where ok: "request_ok schema request"
    and plan: "plan = spec_plan schema (co_MandatoryConstraints options) request state"
    by (rule compiled)
  have sorts: "pl_sorts plan = final_sorts schema request"
    by (simp add: plan spec_plan_def Let_def)
  have mode: "pg_Mode (pl_page plan) = pg_Mode (normalizePage schema (rq_Page request))"
    by (simp add: plan spec_plan_def Let_def split: option.split)
  have len: "int (length (final_sorts schema request)) \<le> b_MaxSorts (sc_bounds schema)"
    using ok by (simp add: request_ok_def)
  have "\<exists>!t. t \<in> set (final_sorts schema request) \<and> is_tie_breaker schema (st_Name t)"
    if cur: "pg_Mode (normalizePage schema (rq_Page request)) = PageCursor"
  proof -
    have "pd_Cursor (sc_pagination schema)"
      using ok cur by (simp add: request_ok_def page_ok_def Let_def)
    from tie_breaker_unique [OF assms(1) this] obtain d where d: "tie_breaker schema = Some d"
      "\<forall>n. is_tie_breaker schema n \<longleftrightarrow> n = sd_Name d" by blast
    have "\<exists>t \<in> set (final_sorts schema request). st_Name t = sd_Name d"
      by (auto simp: final_sorts_def added_terms_def cur d(1) Let_def tie_term_def)
    moreover have "t = u" if "t \<in> set (final_sorts schema request)"
      "u \<in> set (final_sorts schema request)" "st_Name t = st_Name u" for t u
      using final_sorts_ok [OF assms(1) ok] that by (auto simp: distinct_map dest: inj_onD)
    ultimately show ?thesis using d(2) by metis
  qed
  with final_sorts_ok [OF assms(1) ok] len show ?thesis unfolding sorts mode by blast
qed

theorem Plan_order_witness:
  "map st_Name (pl_sorts samplePlan) = [''created'', ''id''] \<and>
   (\<exists>!t. t \<in> set (pl_sorts samplePlan) \<and> is_tie_breaker sampleSchema (st_Name t))"
proof -
  obtain w trace where
    "Compile (Some sampleSchema) sampleRequest sampleOptions 0 = (Inr samplePlan, w, trace)"
    using Compile_sample by blast
  note order = Plan_order [OF sampleSchema_wf sampleSchema_cost this]
  have "pg_Mode (pl_page samplePlan) = PageCursor" by code_simp
  with order have "\<exists>!t. t \<in> set (pl_sorts samplePlan) \<and> is_tie_breaker sampleSchema (st_Name t)"
    by blast
  moreover have "map st_Name (pl_sorts samplePlan) = [''created'', ''id'']" by code_simp
  ultimately show ?thesis by blast
qed

text \<open>
  C18: no plan carries a raw cursor token. A plan carries a cursor state exactly when the
  request gave a token, and the state was then decoded under the schema's revision and the plan's
  own sorts, points in the direction of the token's place, and has one position of the declared
  type, or null, for every sort term.
\<close>

theorem Plan_cursor:
  assumes "wf_schema schema" and "b_MaxCost (sc_bounds schema) \<le> maxInt"
    and "Compile (Some schema) request options w = (Inr plan, w', trace)"
  shows "pg_After (pl_page plan) = [] \<and> pg_Before (pl_page plan) = [] \<and>
    (case pl_cursor plan of
       None \<Rightarrow> pg_After (rq_Page request) = [] \<and> pg_Before (rq_Page request) = []
     | Some state \<Rightarrow>
         state_ok schema
           (if pg_Before (rq_Page request) \<noteq> [] then CursorBackward else CursorForward)
           (pl_sorts plan) state \<and>
         (\<exists>token. token \<in> {pg_After (rq_Page request), pg_Before (rq_Page request)} \<and>
            token \<noteq> [] \<and> Decoded token (sc_revision schema) (pl_sorts plan) True \<in> set trace))"
proof -
  from assms(3) have acc: "accepts schema request options w"
    and plan: "plan = spec_plan schema (co_MandatoryConstraints options) request
      (fst (decoded_env schema request options w))"
    and trace: "trace = en_trace (snd (decoded_env schema request options w))"
    by (simp_all add: Compile_Inr [OF assms(1,2)])
  let ?page = "normalizePage schema (rq_Page request)"
  let ?e = "snd (asked_env schema request options w)"
  have norm: "pg_After ?page = pg_After (rq_Page request)" "pg_Before ?page = pg_Before (rq_Page request)"
    by (simp_all add: normalizePage_def Let_def)
  have pok: "page_ok schema ?page"
    and cur: "cursor_accepted schema options ?page (final_sorts schema request) ?e"
    using acc by (simp_all add: accepts_def request_ok_def)
  show ?thesis
  proof (cases "cursor_token ?page")
    case None
    then have "pl_cursor plan = None" "pl_page plan = ?page"
      by (simp_all add: plan spec_plan_def Let_def decoded_env_def cursor_step_def)
    moreover have "pg_After ?page = [] \<and> pg_Before ?page = []"
      using None pok by (auto simp: cursor_token_def page_ok_def Let_def split: if_splits)
    ultimately show ?thesis by (simp add: norm)
  next
    case (Some td)
    obtain token direction where td: "td = (token, direction)" by fastforce
    have token: "token \<in> {pg_After (rq_Page request), pg_Before (rq_Page request)}" "token \<noteq> []"
      "direction = (if pg_Before (rq_Page request) \<noteq> [] then CursorBackward else CursorForward)"
      using Some by (auto simp: td cursor_token_def norm split: if_splits)
    obtain state where state: "fst (decode_token options token (sc_revision schema)
        (final_sorts schema request) ?e) = Some state"
      and ok: "state_ok schema direction (final_sorts schema request) state"
      using cur by (auto simp: cursor_accepted_def Some td split: option.splits)
    have "fst (decoded_env schema request options w) = Some state"
      by (simp add: decoded_env_def cursor_step_def Some td state)
    then have p: "pl_cursor plan = Some state" "pl_page plan = ?page\<lparr>pg_After := [], pg_Before := []\<rparr>"
      "pl_sorts plan = final_sorts schema request"
      by (simp_all add: plan spec_plan_def Let_def)
    have "Decoded token (sc_revision schema) (final_sorts schema request) True \<in> set trace"
      using state unfolding trace
      by (auto simp: decoded_env_def cursor_step_def Some td decode_token_def Let_def case_prod_beta
          split: option.splits sum.splits)
    with p token ok show ?thesis by auto
  qed
qed

theorem Plan_cursor_witness: "pg_After (pl_page samplePlan) = [] \<and> pl_cursor samplePlan = Some sampleState"
proof -
  obtain w trace where
    "Compile (Some sampleSchema) sampleRequest sampleOptions 0 = (Inr samplePlan, w, trace)"
    using Compile_sample by blast
  from Plan_cursor [OF sampleSchema_wf sampleSchema_cost this]
  have "pg_After (pl_page samplePlan) = []" by blast
  then show ?thesis by (simp add: samplePlan_def spec_plan_def Let_def)
qed

section \<open>Cost\<close>

lemma compiled_page:
  assumes "wf_schema schema" and "b_MaxCost (sc_bounds schema) \<le> maxInt"
    and "Compile (Some schema) request options w = (Inr plan, w', trace)"
  shows "(pg_Mode (pl_page plan) = PageNone \<and> pg_Size (pl_page plan) = 0 \<and>
       pg_Offset (pl_page plan) = 0) \<or>
    (pg_Mode (pl_page plan) = PageCursor \<and> pd_Cursor (sc_pagination schema) \<and>
       0 < pg_Size (pl_page plan) \<and> pg_Size (pl_page plan) \<le> b_MaxPageSize (sc_bounds schema) \<and>
       pg_Offset (pl_page plan) = 0) \<or>
    (pg_Mode (pl_page plan) = PageOffset \<and> pd_Offset (sc_pagination schema) \<and>
       0 < pg_Size (pl_page plan) \<and> pg_Size (pl_page plan) \<le> b_MaxPageSize (sc_bounds schema) \<and>
       0 \<le> pg_Offset (pl_page plan) \<and> pg_Offset (pl_page plan) \<le> pd_MaxOffset (sc_pagination schema))"
proof -
  from assms obtain state where ok: "request_ok schema request"
    and plan: "plan = spec_plan schema (co_MandatoryConstraints options) request state"
    by (rule compiled)
  let ?page = "normalizePage schema (rq_Page request)"
  have page: "pg_Mode (pl_page plan) = pg_Mode ?page" "pg_Size (pl_page plan) = pg_Size ?page"
    "pg_Offset (pl_page plan) = pg_Offset ?page"
    by (simp_all add: plan spec_plan_def Let_def split: option.split)
  have pok: "page_ok schema ?page" using ok by (simp add: request_ok_def)
  show ?thesis
    unfolding page using pok normalizePage_size [OF assms(1) pok]
    by (auto simp: page_ok_def Let_def)
qed

lemma compiled_cost:
  assumes "wf_schema schema" and "b_MaxCost (sc_bounds schema) \<le> maxInt"
    and "Compile (Some schema) request options w = (Inr plan, w', trace)"
  shows "pl_cost plan = 1 + sum_list (map (field_cost schema) (pl_executionFields plan)) +
      sum_list (map (edge_cost schema) (fresh_of {} (include_edges (pl_includes plan)))) +
      (case pl_filter plan of None \<Rightarrow> 0 | Some f \<Rightarrow> leaf_costs schema (predicates f)) +
      sum_list (map (\<lambda>t. sort_cost schema (st_Name t)) (pl_sorts plan)) \<and>
    pl_cost plan \<le> b_MaxCost (sc_bounds schema) \<and> \<not> pl_costExceeded plan"
proof -
  from assms obtain state where "accepts schema request options w"
    and plan: "plan = spec_plan schema (co_MandatoryConstraints options) request state"
    by (rule compiled)
  then have "plan_cost schema request \<le> b_MaxCost (sc_bounds schema)" by (simp add: accepts_def)
  then show ?thesis
    by (simp add: plan spec_plan_def plan_cost_def Let_def)
qed

text \<open>
  C19: the cost of a plan is one plus the declared costs of its execution fields, of every
  relationship edge once, of its predicates and of its sort terms, without wrap-around, and it is
  within the cost bound; the overflow flag is clear. Its page is in a mode the schema enables, with a
  positive size within the page bound when it is active, and an offset within the declared ceiling.
\<close>

theorem Plan_bounds:
  assumes "wf_schema schema" and "b_MaxCost (sc_bounds schema) \<le> maxInt"
    and "Compile (Some schema) request options w = (Inr plan, w', trace)"
  shows "pl_cost plan = 1 + sum_list (map (field_cost schema) (pl_executionFields plan)) +
      sum_list (map (edge_cost schema) (fresh_of {} (include_edges (pl_includes plan)))) +
      (case pl_filter plan of None \<Rightarrow> 0 | Some f \<Rightarrow> leaf_costs schema (predicates f)) +
      sum_list (map (\<lambda>t. sort_cost schema (st_Name t)) (pl_sorts plan)) \<and>
    pl_cost plan \<le> b_MaxCost (sc_bounds schema) \<and> \<not> pl_costExceeded plan \<and>
    ((pg_Mode (pl_page plan) = PageNone \<and> pg_Size (pl_page plan) = 0 \<and>
       pg_Offset (pl_page plan) = 0) \<or>
    (pg_Mode (pl_page plan) = PageCursor \<and> pd_Cursor (sc_pagination schema) \<and>
       0 < pg_Size (pl_page plan) \<and> pg_Size (pl_page plan) \<le> b_MaxPageSize (sc_bounds schema) \<and>
       pg_Offset (pl_page plan) = 0) \<or>
    (pg_Mode (pl_page plan) = PageOffset \<and> pd_Offset (sc_pagination schema) \<and>
       0 < pg_Size (pl_page plan) \<and> pg_Size (pl_page plan) \<le> b_MaxPageSize (sc_bounds schema) \<and>
       0 \<le> pg_Offset (pl_page plan) \<and> pg_Offset (pl_page plan) \<le> pd_MaxOffset (sc_pagination schema)))"
  using compiled_cost [OF assms] compiled_page [OF assms] by (intro conjI) simp_all

theorem Plan_bounds_witness:
  "pl_cost samplePlan = 21 \<and> pl_cost samplePlan \<le> 40 \<and>
   0 < pg_Size (pl_page samplePlan) \<and> pg_Size (pl_page samplePlan) \<le> 50"
proof -
  obtain w trace where
    "Compile (Some sampleSchema) sampleRequest sampleOptions 0 = (Inr samplePlan, w, trace)"
    using Compile_sample by blast
  note bounds = Plan_bounds [OF sampleSchema_wf sampleSchema_cost this]
  have "b_MaxCost (sc_bounds sampleSchema) = 40" "pl_cost samplePlan = 21"
    "pg_Mode (pl_page samplePlan) = PageCursor" "b_MaxPageSize (sc_bounds sampleSchema) = 50"
    by code_simp+
  with bounds show ?thesis by auto
qed

end
