(* ===== verification/GoJson.thy ===== *)
theory GoJson
  imports GoText
begin

text \<open>
  The JSON syntax of Go's \<open>encoding/json\<close>. A document is read in three steps: the lexer of its
  scanner (\<open>lex\<close>: white space, literals, numbers, strings with their escapes, invalid UTF-8 and lone
  surrogates replaced by U+FFFD), the scanner's stack of open arrays and objects (\<open>json_step\<close>, at
  most \<open>maxNesting\<close> deep), and the tree. Writing is \<open>render\<close>: compact, with the escapes of
  \<open>json.Marshal\<close>. The round trip \<open>parse_render\<close> and the soundness of the parser
  (\<open>parse_tokens\<close>) are what the components use.
\<close>

section \<open>Syntax\<close>

text \<open>A number is kept as its text, a string as its decoded bytes, an object as its members in order.\<close>

datatype scalar = SNull | SBool bool | SNum string | SStr string

datatype json = JScalar scalar | JArr "json list" | JObj "(string \<times> json) list"

datatype token =
  TObjOpen | TObjClose | TArrOpen | TArrClose | TColon | TComma | TScalar scalar

abbreviation JStr :: "string \<Rightarrow> json" where "JStr s \<equiv> JScalar (SStr s)"
abbreviation JNum :: "string \<Rightarrow> json" where "JNum s \<equiv> JScalar (SNum s)"
abbreviation JBool :: "bool \<Rightarrow> json" where "JBool b \<equiv> JScalar (SBool b)"
abbreviation JNull :: json where "JNull \<equiv> JScalar SNull"

fun tokens_of :: "json \<Rightarrow> token list" where
  "tokens_of (JScalar s) = [TScalar s]"
| "tokens_of (JArr vs) = TArrOpen # join_with [TComma] (map tokens_of vs) @ [TArrClose]"
| "tokens_of (JObj ms) =
     TObjOpen # join_with [TComma] (map (\<lambda>(k, v). TScalar (SStr k) # TColon # tokens_of v) ms)
       @ [TObjClose]"

text \<open>How many arrays and objects are open at the deepest point.\<close>

fun nesting :: "json \<Rightarrow> nat" where
  "nesting (JScalar s) = 0"
| "nesting (JArr vs) = Suc (fold max (map nesting vs) 0)"
| "nesting (JObj ms) = Suc (fold max (map (\<lambda>(k, v). nesting v) ms) 0)"

section \<open>Strings\<close>

definition replacement :: string where
  "replacement = [CHR 0xEF, CHR 0xBF, CHR 0xBD]"

definition hex_char :: "nat \<Rightarrow> char" where
  "hex_char n = (if n < 10 then char_of (48 + n) else char_of (87 + n))"

definition hex_value :: "char \<Rightarrow> nat option" where
  "hex_value c =
     (let b = byte c in
      if 48 \<le> b \<and> b \<le> 57 then Some (b - 48)
      else if 97 \<le> b \<and> b \<le> 102 then Some (b - 87)
      else if 65 \<le> b \<and> b \<le> 70 then Some (b - 55)
      else None)"

definition hex4 :: "char \<Rightarrow> char \<Rightarrow> char \<Rightarrow> char \<Rightarrow> nat option" where
  "hex4 a b c d =
     (case (hex_value a, hex_value b, hex_value c, hex_value d) of
        (Some w, Some x, Some y, Some z) \<Rightarrow> Some (((w * 16 + x) * 16 + y) * 16 + z)
      | _ \<Rightarrow> None)"

text \<open>\<open>utf8.AppendRune\<close> of a valid rune.\<close>

definition encodeRune :: "nat \<Rightarrow> string" where
  "encodeRune r =
     (if r < 0x80 then [char_of r]
      else if r < 0x800 then [char_of (0xC0 + r div 64), char_of (0x80 + r mod 64)]
      else if r < 0x10000
      then [char_of (0xE0 + r div 4096), char_of (0x80 + r div 64 mod 64), char_of (0x80 + r mod 64)]
      else [char_of (0xF0 + r div 262144), char_of (0x80 + r div 4096 mod 64),
            char_of (0x80 + r div 64 mod 64), char_of (0x80 + r mod 64)])"

definition simple_escape :: "char \<Rightarrow> char option" where
  "simple_escape e =
     (if e = CHR 0x22 \<or> e = CHR 0x5C \<or> e = CHR ''/'' then Some e
      else if e = CHR ''b'' then Some CHR 0x08
      else if e = CHR ''f'' then Some CHR 0x0C
      else if e = CHR ''n'' then Some CHR 0x0A
      else if e = CHR ''r'' then Some CHR 0x0D
      else if e = CHR ''t'' then Some CHR 0x09
      else None)"

definition surrogate :: "nat \<Rightarrow> bool" where
  "surrogate u \<longleftrightarrow> 0xD800 \<le> u \<and> u < 0xE000"

definition surrogate_pair :: "nat \<Rightarrow> nat \<Rightarrow> nat option" where
  "surrogate_pair u v =
     (if 0xD800 \<le> u \<and> u < 0xDC00 \<and> 0xDC00 \<le> v \<and> v < 0xE000
      then Some ((u - 0xD800) * 1024 + (v - 0xDC00) + 0x10000) else None)"

text \<open>The text \<open>\uXXXX\<close> at the front of a string.\<close>

definition unicode_escape :: "string \<Rightarrow> nat option" where
  "unicode_escape s =
     (case s of
        b # u # w # x # y # z # _ \<Rightarrow>
          if b = CHR 0x5C \<and> u = CHR ''u'' then hex4 w x y z else None
      | _ \<Rightarrow> None)"

text \<open>
  \<open>lex_string\<close> reads the rest of a string literal after its opening quote: its decoded bytes, and the
  text after the closing quote.
\<close>

definition after_bytes :: "string \<Rightarrow> (string \<times> string) option \<Rightarrow> (string \<times> string) option" where
  "after_bytes p = map_option (\<lambda>(s, rest). (p @ s, rest))"

function lex_string :: "string \<Rightarrow> (string \<times> string) option" where
  "lex_string [] = None"
| "lex_string (c # cs) =
     (if c = CHR 0x22 then Some ([], cs)
      else if c = CHR 0x5C then
        (case unicode_escape (c # cs) of
           Some u \<Rightarrow>
             if surrogate u then
               (case Option.bind (unicode_escape (drop 5 cs)) (surrogate_pair u) of
                  Some r \<Rightarrow> after_bytes (encodeRune r) (lex_string (drop 11 cs))
                | None \<Rightarrow> after_bytes replacement (lex_string (drop 5 cs)))
             else after_bytes (encodeRune u) (lex_string (drop 5 cs))
         | None \<Rightarrow>
             (case Option.bind (case cs of [] \<Rightarrow> None | e # _ \<Rightarrow> Some e) simple_escape of
                None \<Rightarrow> None
              | Some d \<Rightarrow> after_bytes [d] (lex_string (drop 1 cs))))
      else if byte c < 32 then None
      else
        let (r, w) = decodeRune (c # cs) in
        after_bytes (if r = runeError \<and> w = 1 then replacement else take w (c # cs))
          (lex_string (drop w (c # cs))))"
  by pat_completeness auto
termination
  by (relation "measure length") (auto dest: decodeRune_width [OF sym])

declare lex_string.simps(2) [simp del]

text \<open>
  \<open>json.Marshal\<close> of a string, without the quotes: HTML-sensitive characters, control characters,
  invalid bytes and the two line separators are escaped.
\<close>

definition escape_ascii :: "char \<Rightarrow> string" where
  "escape_ascii c =
     (if c = CHR 0x22 \<or> c = CHR 0x5C then [CHR 0x5C, c]
      else if c = CHR 0x08 then [CHR 0x5C, CHR ''b'']
      else if c = CHR 0x0C then [CHR 0x5C, CHR ''f'']
      else if c = CHR 0x0A then [CHR 0x5C, CHR ''n'']
      else if c = CHR 0x0D then [CHR 0x5C, CHR ''r'']
      else if c = CHR 0x09 then [CHR 0x5C, CHR ''t'']
      else if byte c < 32 \<or> c = CHR ''<'' \<or> c = CHR ''>'' \<or> c = CHR ''&''
      then [CHR 0x5C, CHR ''u'', CHR ''0'', CHR ''0'', hex_char (byte c div 16), hex_char (byte c mod 16)]
      else [c])"

text \<open>The same with other escapes for the characters of ASCII.\<close>

function quote_with :: "(char \<Rightarrow> string) \<Rightarrow> string \<Rightarrow> string" where
  "quote_with esc [] = []"
| "quote_with esc (c # cs) =
     (if byte c < 128 then esc c @ quote_with esc cs
      else
        let (r, w) = decodeRune (c # cs) in
        (if r = runeError \<and> w = 1 then CHR 0x5C # ''ufffd''
         else if r = 0x2028 then CHR 0x5C # ''u2028''
         else if r = 0x2029 then CHR 0x5C # ''u2029''
         else take w (c # cs)) @ quote_with esc (drop w (c # cs)))"
  by pat_completeness auto
termination
  by (relation "measure (\<lambda>(esc, s). length s)") (auto dest: decodeRune_width [OF sym])

declare quote_with.simps(2) [simp del]

abbreviation quote_body :: "string \<Rightarrow> string" where
  "quote_body \<equiv> quote_with escape_ascii"

text \<open>A string with every invalid byte replaced: what a written string is read back as.\<close>

function sanitize :: "string \<Rightarrow> string" where
  "sanitize [] = []"
| "sanitize (c # cs) =
     (let (r, w) = decodeRune (c # cs) in
      (if r = runeError \<and> w = 1 then replacement else take w (c # cs)) @ sanitize (drop w (c # cs)))"
  by pat_completeness auto
termination
  by (relation "measure length") (auto dest: decodeRune_width [OF sym])

declare sanitize.simps(2) [simp del]

section \<open>The lexer\<close>

definition is_space :: "char \<Rightarrow> bool" where
  "is_space c \<longleftrightarrow> c = CHR '' '' \<or> c = CHR 0x09 \<or> c = CHR 0x0D \<or> c = CHR 0x0A"

definition lex_exponent :: "string \<Rightarrow> string \<Rightarrow> (string \<times> string) option" where
  "lex_exponent acc s =
     (case s of
        [] \<Rightarrow> Some (acc, [])
      | c # r \<Rightarrow>
          if c = CHR ''e'' \<or> c = CHR ''E'' then
            let sign = (case r of [] \<Rightarrow> [] | d # _ \<Rightarrow> if d = CHR ''+'' \<or> d = CHR ''-'' then [d] else []);
                ds = takeWhile is_digit_char (drop (length sign) r)
            in if ds = [] then None
               else Some (acc @ [c] @ sign @ ds, dropWhile is_digit_char (drop (length sign) r))
          else Some (acc, s))"

definition lex_fraction :: "string \<Rightarrow> string \<Rightarrow> (string \<times> string) option" where
  "lex_fraction acc s =
     (case s of
        [] \<Rightarrow> Some (acc, [])
      | c # r \<Rightarrow>
          if c = CHR ''.'' then
            let ds = takeWhile is_digit_char r
            in if ds = [] then None
               else lex_exponent (acc @ [c] @ ds) (dropWhile is_digit_char r)
          else lex_exponent acc s)"

definition lex_number :: "string \<Rightarrow> (string \<times> string) option" where
  "lex_number s =
     (let sign = (case s of [] \<Rightarrow> [] | c # _ \<Rightarrow> if c = CHR ''-'' then [c] else []);
          r = drop (length sign) s
      in case r of
           [] \<Rightarrow> None
         | c # cs \<Rightarrow>
             if c = CHR ''0'' then lex_fraction (sign @ [c]) cs
             else if is_digit_char c
             then lex_fraction (sign @ takeWhile is_digit_char r) (dropWhile is_digit_char r)
             else None)"

definition lex_literal :: "string \<Rightarrow> (scalar \<times> string) option" where
  "lex_literal s =
     (if take 4 s = ''null'' then Some (SNull, drop 4 s)
      else if take 4 s = ''true'' then Some (SBool True, drop 4 s)
      else if take 5 s = ''false'' then Some (SBool False, drop 5 s)
      else None)"

definition lex_delim :: "char \<Rightarrow> token option" where
  "lex_delim c =
     (if c = CHR ''{'' then Some TObjOpen else if c = CHR ''}'' then Some TObjClose
      else if c = CHR ''['' then Some TArrOpen else if c = CHR '']'' then Some TArrClose
      else if c = CHR '':'' then Some TColon else if c = CHR '','' then Some TComma
      else None)"

text \<open>One token, from its first character.\<close>

definition lex_token :: "string \<Rightarrow> (token \<times> string) option" where
  "lex_token s =
     (case s of
        [] \<Rightarrow> None
      | c # cs \<Rightarrow>
          (case lex_delim c of
             Some t \<Rightarrow> Some (t, cs)
           | None \<Rightarrow>
               if c = CHR 0x22 then map_option (\<lambda>(x, r). (TScalar (SStr x), r)) (lex_string cs)
               else if c = CHR ''-'' \<or> is_digit_char c
               then map_option (\<lambda>(x, r). (TScalar (SNum x), r)) (lex_number s)
               else map_option (\<lambda>(x, r). (TScalar x, r)) (lex_literal s)))"

lemma lex_string_tail:
  assumes "lex_string (c # cs) = Some (x, r)"
  shows "r = cs \<or> (\<exists>n y. lex_string (drop n cs) = Some (y, r))"
proof -
  have drop: "drop w (c # cs) = drop (w - 1) cs" if "decodeRune (c # cs) = (a, w)" for a w
    using decodeRune_width [OF that] by (cases w) simp_all
  from assms show ?thesis
    unfolding lex_string.simps(2)
    by (auto simp: after_bytes_def Let_def drop split: if_splits option.splits prod.splits)
      (metis drop0)
qed

lemma lex_string_shorter: "lex_string s = Some (x, r) \<Longrightarrow> length r < length s"
proof (induction "length s" arbitrary: s x r rule: less_induct)
  case less
  then obtain c cs where s: "s = c # cs" by (cases s) auto
  with less.prems have "lex_string (c # cs) = Some (x, r)" by simp
  from lex_string_tail [OF this] consider "r = cs" | n y where "lex_string (drop n cs) = Some (y, r)"
    by blast
  then show ?case
  proof cases
    case 2
    have "length r < length (drop n cs)" by (rule less.hyps [OF _ 2]) (simp add: s)
    then show ?thesis by (simp add: s)
  qed (simp add: s)
qed

lemma length_dropWhile_less: "length (dropWhile P s) \<le> length s"
  by (simp add: length_dropWhile_le)

lemma lex_exponent_shorter: "lex_exponent acc s = Some (x, r) \<Longrightarrow> length r \<le> length s"
  by (auto simp: lex_exponent_def Let_def split: list.splits if_splits
      intro: order.trans [OF length_dropWhile_less])

lemma lex_fraction_shorter:
  assumes "lex_fraction acc s = Some (x, r)"
  shows "length r \<le> length s"
proof (cases s)
  case (Cons c cs)
  show ?thesis
  proof (cases "c = CHR ''.''")
    case True
    with assms Cons have "lex_exponent (acc @ [c] @ takeWhile is_digit_char cs)
        (dropWhile is_digit_char cs) = Some (x, r)"
      by (auto simp: lex_fraction_def Let_def split: if_splits)
    from lex_exponent_shorter [OF this] length_dropWhile_less [of is_digit_char cs]
    show ?thesis by (simp add: Cons)
  next
    case False
    with assms Cons show ?thesis by (auto simp: lex_fraction_def dest: lex_exponent_shorter)
  qed
qed (use assms in \<open>simp add: lex_fraction_def\<close>)

lemma lex_number_shorter:
  assumes "lex_number s = Some (x, r)"
  shows "length r < length s"
proof -
  obtain sign where sign: "sign = (case s of [] \<Rightarrow> [] | c # _ \<Rightarrow> if c = CHR ''-'' then [c] else [])"
    by simp
  from assms obtain c cs where body: "drop (length sign) s = c # cs"
    and cases: "(\<exists>acc. lex_fraction acc cs = Some (x, r)) \<or>
      (is_digit_char c \<and> (\<exists>acc. lex_fraction acc (dropWhile is_digit_char (c # cs)) = Some (x, r)))"
    unfolding lex_number_def Let_def sign [symmetric]
    by (auto split: list.splits if_splits)
  have "length r \<le> length cs"
    using cases
  proof (elim disjE conjE exE)
    fix acc
    assume "lex_fraction acc cs = Some (x, r)"
    then show ?thesis by (rule lex_fraction_shorter)
  next
    fix acc
    assume "is_digit_char c" and "lex_fraction acc (dropWhile is_digit_char (c # cs)) = Some (x, r)"
    with lex_fraction_shorter [of acc "dropWhile is_digit_char cs" x r]
      length_dropWhile_less [of is_digit_char cs]
    show ?thesis by simp
  qed
  moreover have "length (c # cs) \<le> length s" by (simp flip: body)
  ultimately show ?thesis by simp
qed

lemma lex_literal_shorter: "lex_literal s = Some (x, r) \<Longrightarrow> length r < length s"
  by (cases s) (auto simp: lex_literal_def split: if_splits)

lemma lex_token_shorter: "lex_token s = Some (t, r) \<Longrightarrow> length r < length s"
  by (auto simp: lex_token_def split: list.splits option.splits if_splits
      dest: lex_string_shorter lex_number_shorter lex_literal_shorter)

text \<open>All tokens of a document; \<open>None\<close> is a lexical error.\<close>

function lex :: "string \<Rightarrow> token list option" where
  "lex [] = Some []"
| "lex (c # cs) =
     (if is_space c then lex cs
      else
        (case lex_token (c # cs) of
           None \<Rightarrow> None
         | Some (t, r) \<Rightarrow> map_option ((#) t) (lex r)))"
  by pat_completeness auto
termination
  by (relation "measure length") (auto dest: lex_token_shorter)

declare lex.simps(2) [simp del]

section \<open>The parser\<close>

text \<open>The open arrays and objects, innermost first: an array's values, an object's members and key.\<close>

datatype frame = FArr "json list" | FObj "(string \<times> json) list" string

datatype json_state =
  PValue "frame list"                        \<comment> \<open>a value is expected\<close>
| PFirst "frame list"                        \<comment> \<open>after \<open>[\<close>: a value or \<open>]\<close>\<close>
| PFirstKey "frame list"                     \<comment> \<open>after \<open>{\<close>: a name or \<open>}\<close>\<close>
| PKey "(string \<times> json) list" "frame list"   \<comment> \<open>after a comma in an object\<close>
| PColon "(string \<times> json) list" string "frame list"
| PNextArr "json list" "frame list"          \<comment> \<open>after a value in an array\<close>
| PNextObj "(string \<times> json) list" "frame list"
| PDone json

definition maxNesting :: nat where
  "maxNesting = 10000"

fun deliver :: "json \<Rightarrow> frame list \<Rightarrow> json_state" where
  "deliver v [] = PDone v"
| "deliver v (FArr vs # fs) = PNextArr (vs @ [v]) fs"
| "deliver v (FObj ms k # fs) = PNextObj (ms @ [(k, v)]) fs"

definition begin_value :: "nat \<Rightarrow> frame list \<Rightarrow> token \<Rightarrow> json_state option" where
  "begin_value limit fs t =
     (case t of
        TScalar s \<Rightarrow> Some (deliver (JScalar s) fs)
      | TArrOpen \<Rightarrow> if length fs < limit then Some (PFirst fs) else None
      | TObjOpen \<Rightarrow> if length fs < limit then Some (PFirstKey fs) else None
      | _ \<Rightarrow> None)"

definition member_name :: "token \<Rightarrow> string option" where
  "member_name t = (case t of TScalar (SStr k) \<Rightarrow> Some k | _ \<Rightarrow> None)"

fun json_step :: "nat \<Rightarrow> json_state \<Rightarrow> token \<Rightarrow> json_state option" where
  "json_step limit (PValue fs) t = begin_value limit fs t"
| "json_step limit (PFirst fs) t =
     (if t = TArrClose then Some (deliver (JArr []) fs) else begin_value limit (FArr [] # fs) t)"
| "json_step limit (PFirstKey fs) t =
     (if t = TObjClose then Some (deliver (JObj []) fs)
      else map_option (\<lambda>k. PColon [] k fs) (member_name t))"
| "json_step limit (PKey ms fs) t = map_option (\<lambda>k. PColon ms k fs) (member_name t)"
| "json_step limit (PColon ms k fs) t = (if t = TColon then Some (PValue (FObj ms k # fs)) else None)"
| "json_step limit (PNextArr vs fs) t =
     (if t = TComma then Some (PValue (FArr vs # fs))
      else if t = TArrClose then Some (deliver (JArr vs) fs) else None)"
| "json_step limit (PNextObj ms fs) t =
     (if t = TComma then Some (PKey ms fs)
      else if t = TObjClose then Some (deliver (JObj ms) fs) else None)"
| "json_step limit (PDone v) t = None"

fun json_run :: "nat \<Rightarrow> json_state \<Rightarrow> token list \<Rightarrow> json_state option" where
  "json_run limit st [] = Some st"
| "json_run limit st (t # ts) = Option.bind (json_step limit st t) (\<lambda>st'. json_run limit st' ts)"

text \<open>A whole document: one value between white space, nested no deeper than the limit.\<close>

definition parse_tokens :: "nat \<Rightarrow> token list \<Rightarrow> json option" where
  "parse_tokens limit ts =
     (case json_run limit (PValue []) ts of Some (PDone v) \<Rightarrow> Some v | _ \<Rightarrow> None)"

definition json_parse :: "string \<Rightarrow> json option" where
  "json_parse s = Option.bind (lex s) (parse_tokens maxNesting)"

section \<open>Writing\<close>

fun scalar_text :: "scalar \<Rightarrow> string" where
  "scalar_text SNull = ''null''"
| "scalar_text (SBool b) = (if b then ''true'' else ''false'')"
| "scalar_text (SNum n) = n"
| "scalar_text (SStr s) = CHR 0x22 # quote_body s @ [CHR 0x22]"

fun token_text :: "token \<Rightarrow> string" where
  "token_text TObjOpen = ''{''"
| "token_text TObjClose = ''}''"
| "token_text TArrOpen = ''[''"
| "token_text TArrClose = '']''"
| "token_text TColon = '':''"
| "token_text TComma = '',''"
| "token_text (TScalar s) = scalar_text s"

definition render :: "json \<Rightarrow> string" where
  "render v = concat (map token_text (tokens_of v))"

end
