(* ===== verification/GoJsonText.thy ===== *)
theory GoJsonText
  imports GoJson GoBase64
begin

text \<open>
  The lexer reads back what \<open>render\<close> writes: strings up to the replacement of invalid bytes, numbers
  and delimiters exactly. \<open>lex_tokens\<close> is the round trip for a whole token list.
\<close>

section \<open>Runes\<close>

lemma decodeRune_take:
  assumes "decodeRune (c # cs) = (r, w)" and "\<not> (r = runeError \<and> w = 1)"
  shows "decodeRune (take w (c # cs) @ ys) = (r, w)"
  using assms unfolding decodeRune.simps(2) Let_def
  by (auto simp: decodeRune.simps(2) in_bytes_def split: if_splits list.splits)

text \<open>A valid encoding is the encoding of its rune.\<close>

lemma two_digits: fixes a b :: nat assumes "b < 64" shows "(a * 64 + b) div 64 = a" "(a * 64 + b) mod 64 = b"
  using assms by simp_all

lemma encode_two:
  assumes "b0 < 0x20" "2 \<le> b0" "b1 < 0x40"
  shows "encodeRune (b0 * 64 + b1) = [char_of (0xC0 + b0), char_of (0x80 + b1)]"
  using assms by (simp add: encodeRune_def two_digits)

lemma encode_three:
  assumes "b0 < 0x10" "b1 < 0x40" "b2 < 0x40" "0x800 \<le> b0 * 4096 + b1 * 64 + b2"
  shows "encodeRune (b0 * 4096 + b1 * 64 + b2) =
    [char_of (0xE0 + b0), char_of (0x80 + b1), char_of (0x80 + b2)]"
proof -
  let ?r = "b0 * 4096 + b1 * 64 + b2"
  have r: "?r = (b0 * 64 + b1) * 64 + b2" by simp
  have "?r div 64 = b0 * 64 + b1" "?r mod 64 = b2"
    unfolding r by (rule two_digits [OF assms(3)])+
  moreover have "?r div 4096 = b0" "?r < 0x10000" using assms by simp_all
  ultimately show ?thesis using assms by (simp add: encodeRune_def)
qed

lemma encode_four:
  assumes "b0 < 8" "b1 < 0x40" "b2 < 0x40" "b3 < 0x40"
    "0x10000 \<le> b0 * 262144 + b1 * 4096 + b2 * 64 + b3"
  shows "encodeRune (b0 * 262144 + b1 * 4096 + b2 * 64 + b3) =
    [char_of (0xF0 + b0), char_of (0x80 + b1), char_of (0x80 + b2), char_of (0x80 + b3)]"
proof -
  let ?r = "b0 * 262144 + b1 * 4096 + b2 * 64 + b3"
  have r: "?r = ((b0 * 64 + b1) * 64 + b2) * 64 + b3" by simp
  have "?r div 64 = (b0 * 64 + b1) * 64 + b2" "?r mod 64 = b3"
    unfolding r by (rule two_digits [OF assms(4)])+
  moreover have "?r div 262144 = b0" "?r div 4096 = b0 * 64 + b1"
    using assms by simp_all
  moreover have "((b0 * 64 + b1) * 64 + b2) mod 64 = b2" by (rule two_digits [OF assms(3)])
  ultimately show ?thesis using assms by (simp add: encodeRune_def del: distrib_right_numeral)
qed

lemma char_of_offset: "k \<le> byte c \<Longrightarrow> char_of (k + (byte c - k)) = c"
  by simp

lemma encode_decodeRune:
  assumes "decodeRune (c # cs) = (r, w)" and "\<not> (r = runeError \<and> w = 1)"
  shows "encodeRune r = take w (c # cs)"
proof -
  consider "byte c < 128"
    | c1 x where "cs = c1 # x" "r = (byte c - 0xC0) * 64 + (byte c1 - 0x80)" "w = 2"
        "0xC2 \<le> byte c" "byte c \<le> 0xDF" "in_bytes 0x80 0xBF c1"
    | c1 c2 x where "cs = c1 # c2 # x" "w = 3"
        "r = (byte c - 0xE0) * 4096 + (byte c1 - 0x80) * 64 + (byte c2 - 0x80)"
        "0xE0 \<le> byte c" "byte c \<le> 0xEF" "byte c = 0xE0 \<Longrightarrow> 0xA0 \<le> byte c1"
        "in_bytes 0x80 0xBF c1" "in_bytes 0x80 0xBF c2"
    | c1 c2 c3 x where "cs = c1 # c2 # c3 # x" "w = 4"
        "r = (byte c - 0xF0) * 262144 + (byte c1 - 0x80) * 4096 + (byte c2 - 0x80) * 64
          + (byte c3 - 0x80)"
        "0xF0 \<le> byte c" "byte c \<le> 0xF4" "byte c = 0xF0 \<Longrightarrow> 0x90 \<le> byte c1"
        "in_bytes 0x80 0xBF c1" "in_bytes 0x80 0xBF c2" "in_bytes 0x80 0xBF c3"
    using assms unfolding decodeRune.simps(2) Let_def
    by (force simp: in_bytes_def split: if_splits list.splits)
  then show ?thesis
  proof cases
    case 1
    with assms show ?thesis by (auto simp: decodeRune_ascii encodeRune_def)
  next
    case 2
    then show ?thesis
      by (subst 2(2)) (subst encode_two, auto simp: in_bytes_def char_of_offset)
  next
    case 3
    then have "0x800 \<le> (byte c - 0xE0) * 4096 + (byte c1 - 0x80) * 64 + (byte c2 - 0x80)"
      by (cases "byte c = 0xE0") (auto simp: in_bytes_def)
    with 3 show ?thesis
      by (subst 3(3)) (subst encode_three, auto simp: in_bytes_def char_of_offset)
  next
    case 4
    then have "0x10000 \<le> (byte c - 0xF0) * 262144 + (byte c1 - 0x80) * 4096 + (byte c2 - 0x80) * 64
        + (byte c3 - 0x80)"
      by (cases "byte c = 0xF0") (auto simp: in_bytes_def)
    with 4 show ?thesis
      by (subst 4(3)) (subst encode_four, auto simp: in_bytes_def char_of_offset)
  qed
qed

lemma decode_replacement: "decodeRune (replacement @ ys) = (runeError, 3)"
  by (simp add: replacement_def decodeRune.simps(2) in_bytes_def runeError_def byte_def)

lemma encode_replacement: "encodeRune 65533 = replacement"
  using char_of_byte [of "CHR 0xEF"] char_of_byte [of "CHR 0xBF"] char_of_byte [of "CHR 0xBD"]
  by (simp add: encodeRune_def replacement_def byte_def)

section \<open>Valid text\<close>

lemma sanitize_valid: "valid_utf8 s \<Longrightarrow> sanitize s = s"
proof (induction s rule: sanitize.induct)
  case (2 c cs)
  obtain r w where rw: "decodeRune (c # cs) = (r, w)" by fastforce
  with 2(2) have ok: "\<not> (r = runeError \<and> w = 1)" and "valid_utf8 (drop w (c # cs))"
    by (simp_all add: valid_utf8.simps(2) Let_def)
  with 2(1) [OF rw [symmetric] refl] show ?case
    by (simp add: sanitize.simps(2) rw if_not_P [OF ok] del: One_nat_def)
qed simp

lemma valid_utf8_rune:
  assumes "decodeRune (c # cs) = (r, w)" and "\<not> (r = runeError \<and> w = 1)"
  shows "valid_utf8 (take w (c # cs) @ ys) = valid_utf8 ys"
proof -
  from decodeRune_width [OF assms(1)] obtain k where w: "w = Suc k" by (cases w) auto
  have "w \<le> length (c # cs)"
  proof (cases "byte c < 128")
    case True
    with assms(1) show ?thesis by (simp add: decodeRune_ascii)
  next
    case False
    from decodeRune_high [OF this assms(1)] show ?thesis by blast
  qed
  then show ?thesis
    using decodeRune_take [OF assms, of ys] assms(2) by (simp add: w valid_utf8.simps(2))
qed

lemma valid_utf8_replacement: "valid_utf8 (replacement @ ys) = valid_utf8 ys"
  using decode_replacement [of ys] by (simp add: replacement_def valid_utf8.simps(2))

lemma valid_utf8_sanitize: "valid_utf8 (sanitize s)"
proof (induction s rule: sanitize.induct)
  case (2 c cs)
  obtain r w where rw: "decodeRune (c # cs) = (r, w)" by fastforce
  from 2 [OF rw [symmetric] refl] show ?case
    using valid_utf8_rune [OF rw]
    by (auto simp: sanitize.simps(2) rw valid_utf8_replacement simp del: One_nat_def)
qed simp

lemma sanitize_iff: "sanitize s = s \<longleftrightarrow> valid_utf8 s"
  using sanitize_valid valid_utf8_sanitize by metis

section \<open>Strings\<close>

lemma hex_value_char: "n < 16 \<Longrightarrow> hex_value (hex_char n) = Some n"
  by (auto simp: hex_value_def hex_char_def byte_char_of Let_def)

lemma unicode_escape_text:
  "unicode_escape (CHR 0x5C # CHR ''u'' # w # x # y # z # s) = hex4 w x y z"
  by (simp add: unicode_escape_def)

lemma lex_string_unicode:
  assumes "hex4 w x y z = Some u" and "\<not> surrogate u"
  shows "lex_string (CHR 0x5C # CHR ''u'' # w # x # y # z # s) =
    after_bytes (encodeRune u) (lex_string s)"
  using assms by (simp add: lex_string.simps(2) unicode_escape_text)

lemma lex_string_simple:
  assumes "simple_escape e = Some d" 
  shows "lex_string (CHR 0x5C # e # s) = after_bytes [d] (lex_string s)"
proof -
  have "e \<noteq> CHR ''u''" using assms by (auto simp: simple_escape_def)
  then have "unicode_escape (CHR 0x5C # e # s) = None"
    by (auto simp: unicode_escape_def split: list.splits)
  with assms show ?thesis by (simp add: lex_string.simps(2))
qed

lemma lex_string_plain:
  "c \<noteq> CHR 0x22 \<Longrightarrow> c \<noteq> CHR 0x5C \<Longrightarrow> \<not> byte c < 32 \<Longrightarrow> byte c < 128 \<Longrightarrow>
   lex_string (c # s) = after_bytes [c] (lex_string s)"
  by (simp add: lex_string.simps(2) decodeRune_ascii runeError_def)

lemma lex_string_escaped:
  assumes "byte c < 128"
  shows "lex_string (escape_ascii c @ s) = after_bytes [c] (lex_string s)"
proof -
  have unicode: "lex_string (CHR 0x5C # CHR ''u'' # CHR ''0'' # CHR ''0'' #
      hex_char (byte c div 16) # hex_char (byte c mod 16) # s) = after_bytes [c] (lex_string s)"
  proof -
    have zero: "hex_value CHR ''0'' = Some 0" by (simp add: hex_value_def byte_def)
    have "hex4 CHR ''0'' CHR ''0'' (hex_char (byte c div 16)) (hex_char (byte c mod 16)) =
        Some (byte c)"
      using assms by (simp add: hex4_def hex_value_char zero)
    then show ?thesis
      using assms by (simp add: lex_string_unicode surrogate_def encodeRune_def)
  qed
  have "simple_escape CHR 0x22 = Some CHR 0x22" "simple_escape CHR 0x5C = Some CHR 0x5C"
    "simple_escape CHR ''b'' = Some CHR 0x08" "simple_escape CHR ''f'' = Some CHR 0x0C"
    "simple_escape CHR ''n'' = Some CHR 0x0A" "simple_escape CHR ''r'' = Some CHR 0x0D"
    "simple_escape CHR ''t'' = Some CHR 0x09"
    by (simp_all add: simple_escape_def)
  then show ?thesis
    using assms unicode by (auto simp: escape_ascii_def lex_string_simple lex_string_plain)
qed

lemma lex_string_rune:
  assumes "decodeRune (c # cs) = (r, w)" and "\<not> (r = runeError \<and> w = 1)" and "\<not> byte c < 128"
  shows "lex_string (take w (c # cs) @ s) = after_bytes (take w (c # cs)) (lex_string s)"
proof -
  from decodeRune_width [OF assms(1)] obtain k where w: "w = Suc k" by (cases w) auto
  have "w \<le> length (c # cs)" using decodeRune_high [OF assms(3,1)] by blast
  moreover have "c \<noteq> CHR 0x22" "c \<noteq> CHR 0x5C" "\<not> byte c < 32"
    using assms(3) by (auto simp: byte_def)
  ultimately show ?thesis
    using decodeRune_take [OF assms(1,2), of s] assms(2) by (auto simp: w lex_string.simps(2))
qed

lemma after_bytes_after: "after_bytes p (after_bytes q x) = after_bytes (p @ q) x"
  by (cases x) (auto simp: after_bytes_def)

lemma lex_string_quote_with:
  assumes esc: "\<And>c s. byte c < 128 \<Longrightarrow> lex_string (esc c @ s) = after_bytes [c] (lex_string s)"
  shows "lex_string (quote_with esc s @ CHR 0x22 # rest) = Some (sanitize s, rest)"
proof (induction s rule: sanitize.induct)
  case 1
  show ?case by (simp add: lex_string.simps(2))
next
  case (2 c cs)
  obtain r w where rw: "decodeRune (c # cs) = (r, w)" by fastforce
  note IH = 2 [OF rw [symmetric] refl]
  show ?case
  proof (cases "byte c < 128")
    case True
    with rw have "w = 1" by (simp add: decodeRune_ascii)
    with True IH show ?thesis
      by (simp add: quote_with.simps(2) esc sanitize.simps(2)
          decodeRune_ascii runeError_def after_bytes_def)
  next
    case False
    consider (bad) "r = runeError" "w = 1" | (ls) "r = 0x2028" | (ps) "r = 0x2029"
      | (plain) "\<not> (r = runeError \<and> w = 1)" "r \<noteq> 0x2028" "r \<noteq> 0x2029" by blast
    then show ?thesis
    proof cases
      case bad
      have "hex4 CHR ''f'' CHR ''f'' CHR ''f'' CHR ''d'' = Some 65533"
        by (simp add: hex4_def hex_value_def byte_def)
      then show ?thesis
        using IH bad False rw
        by (simp add: quote_with.simps(2) [of esc c] sanitize.simps(2) lex_string_unicode surrogate_def
            encode_replacement after_bytes_def)
    next
      case ls
      have "hex4 CHR ''2'' CHR ''0'' CHR ''2'' CHR ''8'' = Some 0x2028"
        by (simp add: hex4_def hex_value_def byte_def)
      moreover have "encodeRune 0x2028 = take w (c # cs)"
        using encode_decodeRune [OF rw] ls by (simp add: runeError_def)
      ultimately show ?thesis
        using IH ls False rw
        by (simp add: quote_with.simps(2) [of esc c] sanitize.simps(2) lex_string_unicode surrogate_def
            runeError_def after_bytes_def del: take_Cons' drop_Cons')
    next
      case ps
      have "hex4 CHR ''2'' CHR ''0'' CHR ''2'' CHR ''9'' = Some 0x2029"
        by (simp add: hex4_def hex_value_def byte_def)
      moreover have "encodeRune 0x2029 = take w (c # cs)"
        using encode_decodeRune [OF rw] ps by (simp add: runeError_def)
      ultimately show ?thesis
        using IH ps False rw
        by (simp add: quote_with.simps(2) [of esc c] sanitize.simps(2) lex_string_unicode surrogate_def
            runeError_def after_bytes_def del: take_Cons' drop_Cons')
    next
      case plain
      then show ?thesis
        using IH False rw
        by (auto simp: quote_with.simps(2) [of esc c] sanitize.simps(2) lex_string_rune [OF rw]
            after_bytes_def simp del: take_Cons' drop_Cons')
    qed
  qed
qed

theorem lex_string_quote:
  "lex_string (quote_body s @ CHR 0x22 # rest) = Some (sanitize s, rest)"
  by (rule lex_string_quote_with) (rule lex_string_escaped)

section \<open>Numbers\<close>

text \<open>A number ends where no more of it can follow.\<close>

definition number_end :: "string \<Rightarrow> bool" where
  "number_end s \<longleftrightarrow>
     (case s of [] \<Rightarrow> True
      | c # _ \<Rightarrow> \<not> is_digit_char c \<and> c \<noteq> CHR ''.'' \<and> c \<noteq> CHR ''e'' \<and> c \<noteq> CHR ''E'')"

definition number_text :: "string \<Rightarrow> bool" where
  "number_text s \<longleftrightarrow> lex_number s = Some (s, [])"

lemma digits_before_end:
  "number_end rest \<Longrightarrow> takeWhile is_digit_char (s @ rest) = takeWhile is_digit_char s \<and>
     dropWhile is_digit_char (s @ rest) = dropWhile is_digit_char s @ rest"
  by (induction s) (auto simp: number_end_def split: list.splits)

lemma lex_exponent_append:
  "number_end rest \<Longrightarrow> lex_exponent acc s = Some (x, r) \<Longrightarrow>
   lex_exponent acc (s @ rest) = Some (x, r @ rest)"
proof (cases s)
  case Nil
  moreover assume "number_end rest" "lex_exponent acc s = Some (x, r)"
  ultimately show ?thesis
    by (auto simp: lex_exponent_def number_end_def split: list.splits)
next
  case (Cons c cs)
  assume *: "number_end rest" "lex_exponent acc s = Some (x, r)"
  show ?thesis
  proof (cases "c = CHR ''e'' \<or> c = CHR ''E''")
    case True
    with * Cons show ?thesis
      by (cases cs) (auto simp: lex_exponent_def Let_def digits_before_end split: if_splits)
  next
    case False
    with * Cons show ?thesis by (auto simp: lex_exponent_def)
  qed
qed

lemma lex_fraction_append:
  "number_end rest \<Longrightarrow> lex_fraction acc s = Some (x, r) \<Longrightarrow>
   lex_fraction acc (s @ rest) = Some (x, r @ rest)"
proof (cases s)
  case Nil
  moreover assume "number_end rest" "lex_fraction acc s = Some (x, r)"
  ultimately show ?thesis
    using lex_exponent_append [of rest acc "[]" acc "[]"]
    by (auto simp: lex_fraction_def lex_exponent_def number_end_def split: list.splits)
next
  case (Cons c cs)
  assume *: "number_end rest" "lex_fraction acc s = Some (x, r)"
  show ?thesis
  proof (cases "c = CHR ''.''")
    case True
    with * Cons show ?thesis
      by (auto simp: lex_fraction_def Let_def digits_before_end lex_exponent_append split: if_splits)
  next
    case False
    with * Cons lex_exponent_append [of rest acc s x r] show ?thesis
      by (simp add: lex_fraction_def)
  qed
qed

lemma lex_number_append:
  assumes "number_end rest" and "lex_number s = Some (x, r)"
  shows "lex_number (s @ rest) = Some (x, r @ rest)"
proof -
  from assms(2) obtain d ds where s: "s = d # ds" by (cases s) (auto simp: lex_number_def)
  have main: ?thesis if sign: "sign = (if d = CHR ''-'' then [d] else [])"
    and body: "drop (length sign) s = c # cs" for sign c cs
  proof -
    have appended: "drop (length sign) (s @ rest) = c # cs @ rest"
      using body sign s by (auto split: if_splits)
    show ?thesis
      using assms(2) digits_before_end [OF assms(1), of cs]
        lex_fraction_append [OF assms(1)]
      unfolding lex_number_def s list.case append_Cons Let_def sign [symmetric]
        appended [unfolded s append_Cons] body [unfolded s]
      by (auto split: if_splits)
  qed
  obtain sign where sign: "sign = (if d = CHR ''-'' then [d] else [])" by simp
  show ?thesis
  proof (cases "drop (length sign) s")
    case Nil
    with assms(2) sign s show ?thesis by (auto simp: lex_number_def Let_def split: if_splits)
  qed (rule main [OF sign])
qed

lemma lex_number_text:
  "number_text s \<Longrightarrow> number_end rest \<Longrightarrow> lex_number (s @ rest) = Some (s, rest)"
  using lex_number_append [of rest s s "[]"] by (simp add: number_text_def)

text \<open>The decimal texts of integers are numbers.\<close>

lemma dec_nat_head: "dec_nat n = c # cs \<Longrightarrow> c = CHR ''0'' \<Longrightarrow> n = 0 \<and> cs = []"
proof (induction n arbitrary: cs rule: dec_nat.induct)
  case (1 n)
  show ?case
  proof (cases "n < 10")
    case True
    with 1(2,3) have "digit_char n = CHR ''0''" "cs = []"
      by (simp_all add: dec_nat.simps [of n])
    moreover have "byte CHR ''0'' = 48" by (simp add: byte_def)
    ultimately show ?thesis using digit_value_char [OF True] True \<open>cs = []\<close>
      by (simp add: digit_value_def)
  next
    case False
    obtain d ds where d: "dec_nat (n div 10) = d # ds" by (meson dec_nat_nonempty neq_Nil_conv)
    with 1(2) False have "d = c" by (simp add: dec_nat.simps [of n])
    with 1(1) [OF False] 1(3) d have "n div 10 = 0" by simp
    with False show ?thesis by simp
  qed
qed

lemma lex_number_digits:
  assumes "s = c # cs" and "\<forall>x \<in> set s. is_digit_char x" and "c = CHR ''0'' \<Longrightarrow> cs = []"
  shows "lex_number s = Some (s, [])" and "lex_number (CHR ''-'' # s) = Some (CHR ''-'' # s, [])"
proof -
  have "c \<noteq> CHR ''-''" using assms by (auto simp: is_digit_char_def in_bytes_def byte_def)
  moreover have digits: "takeWhile is_digit_char cs = cs" "dropWhile is_digit_char cs = []"
    using assms(1,2) by auto
  ultimately show "lex_number s = Some (s, [])"
    "lex_number (CHR ''-'' # s) = Some (CHR ''-'' # s, [])"
    using assms by (auto simp: lex_number_def lex_fraction_def lex_exponent_def Let_def digits)
qed

lemma number_text_formatInt: "number_text (formatInt x)"
proof -
  have "number_text (dec_nat n) \<and> number_text (CHR ''-'' # dec_nat n)" for n
  proof -
    obtain c cs where dec: "dec_nat n = c # cs" by (meson dec_nat_nonempty neq_Nil_conv)
    have "\<forall>x \<in> set (dec_nat n). is_digit_char x" using dec_nat_digits by blast
    moreover have "c = CHR ''0'' \<Longrightarrow> cs = []" using dec_nat_head [OF dec] by blast
    ultimately show ?thesis
      using lex_number_digits [OF dec] by (simp add: number_text_def)
  qed
  then show ?thesis by (simp add: formatInt_def)
qed

section \<open>Tokens\<close>

fun clean_scalar :: "scalar \<Rightarrow> scalar" where
  "clean_scalar (SStr s) = SStr (sanitize s)"
| "clean_scalar s = s"

fun clean_token :: "token \<Rightarrow> token" where
  "clean_token (TScalar s) = TScalar (clean_scalar s)"
| "clean_token t = t"

definition is_scalar :: "token \<Rightarrow> bool" where
  "is_scalar t \<longleftrightarrow> (case t of TScalar s \<Rightarrow> True | _ \<Rightarrow> False)"

definition token_ok :: "token \<Rightarrow> bool" where
  "token_ok t \<longleftrightarrow> (case t of TScalar (SNum n) \<Rightarrow> number_text n | _ \<Rightarrow> True)"

lemma lex_token_delim:
  "lex_delim c = Some t \<Longrightarrow> lex_token (c # rest) = Some (t, rest)"
  by (simp add: lex_token_def)

lemma delim_not_digit: "lex_delim c = Some t \<Longrightarrow> \<not> is_digit_char c \<and> c \<noteq> CHR ''-''"
  by (auto simp: lex_delim_def is_digit_char_def in_bytes_def byte_def split: if_splits)

lemma quote_not_digit: "\<not> is_digit_char CHR 0x22"
  by (simp add: is_digit_char_def in_bytes_def byte_def)

lemma digit_not_delim: "is_digit_char c \<or> c = CHR ''-'' \<Longrightarrow> lex_delim c = None \<and> c \<noteq> CHR 0x22"
  using delim_not_digit [of c] quote_not_digit by (cases "lex_delim c") auto

lemma number_text_head:
  assumes "number_text n"
  obtains c cs where "n = c # cs" and "is_digit_char c \<or> c = CHR ''-''"
proof (cases n)
  case (Cons c cs)
  have "is_digit_char CHR ''0''" by (simp add: is_digit_char_def in_bytes_def byte_def)
  with assms Cons that show ?thesis
    by (auto simp: number_text_def lex_number_def Let_def split: if_splits list.splits)
qed (use assms in \<open>simp add: number_text_def lex_number_def\<close>)

lemma lex_token_text:
  assumes "token_ok t" and "is_scalar t \<Longrightarrow> number_end rest"
  shows "lex_token (token_text t @ rest) = Some (clean_token t, rest)"
proof (cases t)
  case (TScalar s)
  show ?thesis
  proof (cases s)
    case (SNum n)
    with TScalar assms(1) have ok: "number_text n" by (simp add: token_ok_def)
    obtain c cs where n: "n = c # cs" and c: "is_digit_char c \<or> c = CHR ''-''"
      using ok by (rule number_text_head)
    have "lex_number (n @ rest) = Some (n, rest)"
      using lex_number_text [OF ok assms(2)] TScalar by (simp add: is_scalar_def)
    then show ?thesis
      using digit_not_delim [OF c] c by (auto simp: TScalar SNum n lex_token_def)
  next
    case (SStr x)
    then show ?thesis
      by (simp add: TScalar lex_token_def lex_delim_def lex_string_quote)
  next
    case SNull
    then show ?thesis
      by (simp add: TScalar lex_token_def lex_delim_def lex_literal_def is_digit_char_def
          in_bytes_def byte_def)
  next
    case (SBool b)
    then show ?thesis
      by (cases b) (simp_all add: TScalar lex_token_def lex_delim_def lex_literal_def
          is_digit_char_def in_bytes_def byte_def)
  qed
qed (simp_all add: lex_token_def lex_delim_def)

lemma token_text_head:
  assumes "token_ok t"
  obtains c cs where "token_text t = c # cs" and "\<not> is_space c"
proof (cases t)
  case (TScalar s)
  show ?thesis
  proof (cases s)
    case (SNum n)
    with TScalar assms have "number_text n" by (simp add: token_ok_def)
    then obtain c cs where "n = c # cs" and "is_digit_char c \<or> c = CHR ''-''"
      by (rule number_text_head)
    moreover from this have "\<not> is_space c"
      by (auto simp: is_space_def is_digit_char_def in_bytes_def byte_def)
    ultimately show ?thesis using that TScalar SNum by simp
  next
    case (SBool b)
    then show ?thesis using that TScalar by (cases b) (simp_all add: is_space_def)
  qed (use that TScalar in \<open>simp_all add: is_space_def\<close>)
qed (use that in \<open>simp_all add: is_space_def\<close>)

lemma lex_text:
  assumes "token_ok t" and "is_scalar t \<Longrightarrow> number_end rest"
  shows "lex (token_text t @ rest) = map_option ((#) (clean_token t)) (lex rest)"
proof -
  obtain c cs where head: "token_text t = c # cs" and "\<not> is_space c"
    using assms(1) by (rule token_text_head)
  with lex_token_text [OF assms] show ?thesis by (simp add: lex.simps(2))
qed

fun spaced :: "token list \<Rightarrow> bool" where
  "spaced [] \<longleftrightarrow> True"
| "spaced [t] \<longleftrightarrow> True"
| "spaced (t # u # ts) \<longleftrightarrow> \<not> (is_scalar t \<and> is_scalar u) \<and> spaced (u # ts)"

lemma number_end_token: "\<not> is_scalar t \<Longrightarrow> number_end (token_text t @ rest)"
  by (cases t) (auto simp: number_end_def is_scalar_def is_digit_char_def in_bytes_def byte_def)

lemma lex_tokens:
  assumes "spaced ts" and "\<forall>t \<in> set ts. token_ok t"
  shows "lex (concat (map token_text ts)) = Some (map clean_token ts)"
  using assms
proof (induction ts rule: spaced.induct)
  case (3 t u ts)
  have "is_scalar t \<Longrightarrow> number_end (concat (map token_text (u # ts)))"
    using 3(2) number_end_token by simp
  from lex_text [OF _ this] 3 show ?case by simp
next
  case (2 t)
  then show ?case using lex_text [of t "[]"] by (simp add: number_end_def)
qed simp

lemma spaced_Cons: "\<not> is_scalar t \<Longrightarrow> spaced (t # ts) = spaced ts"
  by (cases ts) auto

definition after_value :: "token list \<Rightarrow> bool" where
  "after_value ts \<longleftrightarrow> (case ts of [] \<Rightarrow> True | t # _ \<Rightarrow> \<not> is_scalar t)"

lemma spaced_join:
  assumes "\<And>x. x \<in> set xs \<Longrightarrow> (\<And>ts. after_value ts \<Longrightarrow> spaced ts \<Longrightarrow> spaced (x @ ts))"
    and "spaced (t # ts)" and "\<not> is_scalar t"
  shows "spaced (join_with [TComma] xs @ t # ts)"
  using assms(1)
proof (induction "[TComma]" xs rule: join_with.induct)
  case (3 p q ps)
  have "spaced (TComma # join_with [TComma] (q # ps) @ t # ts)"
    using 3 by (simp add: spaced_Cons is_scalar_def)
  then show ?case using 3(2) by (simp add: after_value_def is_scalar_def)
qed (use assms(2,3) in \<open>auto simp: after_value_def\<close>)

lemma spaced_tokens_of: "after_value ts \<Longrightarrow> spaced ts \<Longrightarrow> spaced (tokens_of v @ ts)"
proof (induction v arbitrary: ts rule: tokens_of.induct)
  case (1 s)
  then show ?case by (cases ts) (auto simp: after_value_def)
next
  case (2 vs)
  have "spaced (join_with [TComma] (map tokens_of vs) @ TArrClose # ts)"
    by (rule spaced_join) (use 2 in \<open>auto simp: spaced_Cons is_scalar_def\<close>)
  then show ?case by (simp add: spaced_Cons is_scalar_def)
next
  case (3 ms)
  have "spaced (join_with [TComma] (map (\<lambda>(k, v). TScalar (SStr k) # TColon # tokens_of v) ms)
      @ TObjClose # ts)"
    by (rule spaced_join) (use 3 in \<open>auto simp: spaced_Cons is_scalar_def\<close>)
  then show ?case by (simp add: spaced_Cons is_scalar_def)
qed

end
