(* ===== verification/GoJsonTree.thy ===== *)
theory GoJsonTree
  imports GoJsonText
begin

text \<open>
  The parser: \<open>parse_tokens_iff\<close> says that it accepts exactly the token lists of the trees within the
  nesting bound, and \<open>json_parse_render\<close> that a written document is read back as the tree it was
  written from, its strings with invalid bytes replaced.
\<close>

section \<open>What has been read\<close>

text \<open>The tokens a parser state has consumed: the open frames from the outside in, then the state.\<close>

abbreviation array_tokens :: "json list \<Rightarrow> token list" where
  "array_tokens vs \<equiv> join_with [TComma] (map tokens_of vs)"

definition member_tokens :: "string \<times> json \<Rightarrow> token list" where
  "member_tokens m = TScalar (SStr (fst m)) # TColon # tokens_of (snd m)"

abbreviation object_tokens :: "(string \<times> json) list \<Rightarrow> token list" where
  "object_tokens ms \<equiv> join_with [TComma] (map member_tokens ms)"

lemma tokens_of_obj [simp]: "tokens_of (JObj ms) = TObjOpen # object_tokens ms @ [TObjClose]"
proof -
  have "(\<lambda>(k, v). TScalar (SStr k) # TColon # tokens_of v) = member_tokens"
    by (auto simp: member_tokens_def)
  then show ?thesis by simp
qed

declare tokens_of.simps(3) [simp del]

fun frame_tokens :: "frame \<Rightarrow> token list" where
  "frame_tokens (FArr vs) = TArrOpen # concat (map (\<lambda>v. tokens_of v @ [TComma]) vs)"
| "frame_tokens (FObj ms k) =
     TObjOpen # concat (map (\<lambda>m. member_tokens m @ [TComma]) ms) @ [TScalar (SStr k), TColon]"

definition frames_tokens :: "frame list \<Rightarrow> token list" where
  "frames_tokens fs = concat (map frame_tokens (rev fs))"

fun consumed :: "json_state \<Rightarrow> token list" where
  "consumed (PValue fs) = frames_tokens fs"
| "consumed (PFirst fs) = frames_tokens fs @ [TArrOpen]"
| "consumed (PFirstKey fs) = frames_tokens fs @ [TObjOpen]"
| "consumed (PKey ms fs) = frames_tokens fs @ TObjOpen # object_tokens ms @ [TComma]"
| "consumed (PColon ms k fs) =
     frames_tokens fs @ TObjOpen # concat (map (\<lambda>m. member_tokens m @ [TComma]) ms)
       @ [TScalar (SStr k)]"
| "consumed (PNextArr vs fs) = frames_tokens fs @ TArrOpen # array_tokens vs"
| "consumed (PNextObj ms fs) = frames_tokens fs @ TObjOpen # object_tokens ms"
| "consumed (PDone v) = tokens_of v"

text \<open>A list in the states \<open>PKey\<close>, \<open>PNextArr\<close> and \<open>PNextObj\<close> is not empty.\<close>

fun state_ok :: "json_state \<Rightarrow> bool" where
  "state_ok (PKey ms fs) \<longleftrightarrow> ms \<noteq> []"
| "state_ok (PNextArr vs fs) \<longleftrightarrow> vs \<noteq> []"
| "state_ok (PNextObj ms fs) \<longleftrightarrow> ms \<noteq> []"
| "state_ok _ \<longleftrightarrow> True"

lemma concat_join:
  "xs \<noteq> [] \<Longrightarrow> concat (map (\<lambda>x. f x @ [sep]) xs) = join_with [sep] (map f xs) @ [sep]"
proof (induction xs)
  case (Cons x xs)
  then show ?case by (cases xs) auto
qed simp

lemma join_snoc: "join_with [sep] (map f (xs @ [x])) = concat (map (\<lambda>x. f x @ [sep]) xs) @ f x"
proof (cases "xs = []")
  case False
  then show ?thesis by (simp add: join_with_snoc concat_join)
qed simp

lemma consumed_deliver:
  "consumed (deliver v fs) = frames_tokens fs @ tokens_of v \<and> state_ok (deliver v fs)"
proof (cases "(v, fs)" rule: deliver.cases)
  case (2 v' vs fs')
  then show ?thesis
    using join_snoc [of TComma tokens_of vs v'] by (simp add: frames_tokens_def)
next
  case (3 v' ms k fs')
  then show ?thesis
    using join_snoc [of TComma member_tokens ms "(k, v')"]
    by (simp add: frames_tokens_def member_tokens_def)
qed (simp add: frames_tokens_def)

lemma consumed_begin:
  "begin_value limit fs t = Some st \<Longrightarrow> consumed st = frames_tokens fs @ [t] \<and> state_ok st"
  using consumed_deliver
  by (auto simp: begin_value_def split: token.splits if_splits)

lemma member_name_Some: "member_name t = Some k \<longleftrightarrow> t = TScalar (SStr k)"
  by (auto simp: member_name_def split: token.splits scalar.splits)

lemma consumed_step:
  assumes "json_step limit st t = Some st'" and "state_ok st"
  shows "consumed st' = consumed st @ [t] \<and> state_ok st'"
proof (cases "(limit, st, t)" rule: json_step.cases)
  case (2 l fs)
  with assms consumed_begin [of limit "FArr [] # fs" t st'] consumed_deliver [of "JArr []" fs]
  show ?thesis by (auto simp: frames_tokens_def split: if_splits)
next
  case (3 l fs)
  with assms consumed_deliver [of "JObj []" fs] show ?thesis
    by (auto simp: member_name_Some split: if_splits)
next
  case (6 l vs fs)
  with assms consumed_deliver [of "JArr vs" fs] show ?thesis
    by (auto simp: frames_tokens_def concat_join split: if_splits)
next
  case (7 l ms fs)
  with assms consumed_deliver [of "JObj ms" fs] show ?thesis
    by (auto split: if_splits)
qed (use assms consumed_begin in \<open>auto simp: member_name_Some frames_tokens_def concat_join
      split: if_splits\<close>)

lemma consumed_run:
  "json_run limit st ts = Some st' \<Longrightarrow> state_ok st \<Longrightarrow> consumed st' = consumed st @ ts \<and> state_ok st'"
proof (induction limit st ts rule: json_run.induct)
  case (2 limit st t ts)
  then show ?case
    using consumed_step by (fastforce split: bind_splits)
qed simp

theorem parse_tokens_sound: "parse_tokens limit ts = Some v \<Longrightarrow> ts = tokens_of v"
  using consumed_run [of limit "PValue []" ts "PDone v"]
  by (auto simp: parse_tokens_def frames_tokens_def split: option.splits json_state.splits)

section \<open>Completeness\<close>

lemma json_run_append:
  "json_run limit st (ts @ us) = Option.bind (json_run limit st ts) (\<lambda>st'. json_run limit st' us)"
  by (induction limit st ts rule: json_run.induct) (auto split: bind_splits)

text \<open>
  Reading the tokens of a value where a value is expected delivers it to the innermost frame, when
  the frames and the value's own nesting stay within the bound.
\<close>

lemma fold_max: "fold max xs a \<le> n \<longleftrightarrow> a \<le> n \<and> (\<forall>x \<in> set xs. x \<le> (n :: nat))"
  by (induction xs arbitrary: a) auto

lemma nesting_arr: "nesting (JArr vs) \<le> n \<longleftrightarrow> 0 < n \<and> (\<forall>v \<in> set vs. Suc (nesting v) \<le> n)"
  by (cases n) (auto simp: fold_max)

lemma nesting_obj: "nesting (JObj ms) \<le> n \<longleftrightarrow> 0 < n \<and> (\<forall>(k, v) \<in> set ms. Suc (nesting v) \<le> n)"
  by (cases n) (auto simp: fold_max)

definition reads_value :: "nat \<Rightarrow> json \<Rightarrow> bool" where
  "reads_value limit v \<longleftrightarrow>
     (\<forall>fs ts. length fs + nesting v \<le> limit \<longrightarrow>
        json_run limit (PValue fs) (tokens_of v @ ts) = json_run limit (deliver v fs) ts)"

lemma reads_valueD:
  "reads_value limit v \<Longrightarrow> length fs + nesting v \<le> limit \<Longrightarrow>
   json_run limit (PValue fs) (tokens_of v @ ts) = json_run limit (deliver v fs) ts"
  by (simp add: reads_value_def)

lemma first_value:
  assumes "tokens_of v @ ts = t # us" and "t \<noteq> TArrClose"
  shows "json_run limit (PFirst fs) (tokens_of v @ ts) = json_run limit (PValue (FArr [] # fs)) (tokens_of v @ ts)"
  using assms by simp

lemma tokens_of_head: obtains t us where "tokens_of v = t # us" and "t \<noteq> TArrClose"
  by (cases v) auto

lemma read_elements:
  assumes "\<forall>v \<in> set (w # vs). reads_value limit v \<and> Suc (length fs + nesting v) \<le> limit"
  shows "json_run limit (PValue (FArr us # fs)) (array_tokens (w # vs) @ TArrClose # ts) =
    json_run limit (deliver (JArr (us @ w # vs)) fs) ts"
  using assms
proof (induction vs arbitrary: w us)
  case Nil
  then show ?case by (simp add: reads_valueD)
next
  case (Cons v vs)
  have "json_run limit (PValue (FArr us # fs)) (array_tokens (w # v # vs) @ TArrClose # ts) =
      json_run limit (PValue (FArr (us @ [w]) # fs)) (array_tokens (v # vs) @ TArrClose # ts)"
    using Cons.prems by (simp add: reads_valueD)
  also have "\<dots> = json_run limit (deliver (JArr ((us @ [w]) @ v # vs)) fs) ts"
    using Cons.prems by (intro Cons.IH) simp
  finally show ?case by simp
qed

lemma read_members:
  assumes "\<forall>(k, v) \<in> set (m # ms). reads_value limit v \<and> Suc (length fs + nesting v) \<le> limit"
    and "st = PKey us fs \<or> st = PFirstKey fs \<and> us = []"
  shows "json_run limit st (object_tokens (m # ms) @ TObjClose # ts) =
    json_run limit (deliver (JObj (us @ m # ms)) fs) ts"
  using assms
proof (induction ms arbitrary: m us st)
  case Nil
  then show ?case by (cases m) (auto simp: reads_valueD member_name_def member_tokens_def)
next
  case (Cons m' ms)
  have "json_run limit st (object_tokens (m # m' # ms) @ TObjClose # ts) =
      json_run limit (PKey (us @ [m]) fs) (object_tokens (m' # ms) @ TObjClose # ts)"
    using Cons.prems by (cases m) (auto simp: reads_valueD member_name_def member_tokens_def)
  also have "\<dots> = json_run limit (deliver (JObj ((us @ [m]) @ m' # ms)) fs) ts"
    using Cons.prems(1) by (intro Cons.IH) auto
  finally show ?case by simp
qed

lemma reads_value: "reads_value limit v"
proof (induction v rule: tokens_of.induct)
  case (1 s)
  show ?case by (simp add: reads_value_def begin_value_def)
next
  case (2 vs)
  show ?case
    unfolding reads_value_def
  proof (intro allI impI)
    fix fs :: "frame list" and ts :: "token list"
    assume "length fs + nesting (JArr vs) \<le> limit"
    then have "nesting (JArr vs) \<le> limit - length fs" by simp
    then have open': "length fs < limit"
      and inner: "\<forall>v \<in> set vs. Suc (length fs + nesting v) \<le> limit"
      unfolding nesting_arr by auto
    show "json_run limit (PValue fs) (tokens_of (JArr vs) @ ts) = json_run limit (deliver (JArr vs) fs) ts"
    proof (cases vs)
      case Nil
      then show ?thesis using open' by (simp add: begin_value_def)
    next
      case (Cons w ws)
      obtain t us where head: "tokens_of w = t # us" "t \<noteq> TArrClose" by (rule tokens_of_head)
      have "json_run limit (PFirst fs) (array_tokens vs @ TArrClose # ts) =
          json_run limit (PValue (FArr [] # fs)) (array_tokens vs @ TArrClose # ts)"
        using head by (cases ws) (simp_all add: Cons)
      also have "\<dots> = json_run limit (deliver (JArr vs) fs) ts"
        using read_elements [of w ws limit fs "[]" ts] inner 2 by (simp add: Cons)
      finally show ?thesis using open' by (simp add: begin_value_def)
    qed
  qed
next
  case (3 ms)
  show ?case
    unfolding reads_value_def
  proof (intro allI impI)
    fix fs :: "frame list" and ts :: "token list"
    have reads: "\<forall>(k, v) \<in> set ms. reads_value limit v" using 3 by auto
    assume "length fs + nesting (JObj ms) \<le> limit"
    then have "nesting (JObj ms) \<le> limit - length fs" by simp
    then have open': "length fs < limit"
      and inner: "\<forall>(k, v) \<in> set ms. Suc (length fs + nesting v) \<le> limit"
      unfolding nesting_obj by auto
    show "json_run limit (PValue fs) (tokens_of (JObj ms) @ ts) = json_run limit (deliver (JObj ms) fs) ts"
    proof (cases ms)
      case Nil
      then show ?thesis using open' by (simp add: begin_value_def)
    next
      case (Cons m ms')
      have "json_run limit (PFirstKey fs) (object_tokens ms @ TObjClose # ts) =
          json_run limit (deliver (JObj ms) fs) ts"
        using read_members [of m ms' limit fs "PFirstKey fs" "[]" ts] inner reads by (auto simp: Cons)
      then show ?thesis using open' by (simp add: begin_value_def)
    qed
  qed
qed

lemma parse_tokens_of: "nesting v \<le> limit \<Longrightarrow> parse_tokens limit (tokens_of v) = Some v"
  using reads_valueD [OF reads_value, of "[]" v limit "[]"] by (simp add: parse_tokens_def)

section \<open>Round trip\<close>

fun clean_json :: "json \<Rightarrow> json" where
  "clean_json (JScalar s) = JScalar (clean_scalar s)"
| "clean_json (JArr vs) = JArr (map clean_json vs)"
| "clean_json (JObj ms) = JObj (map (\<lambda>(k, v). (sanitize k, clean_json v)) ms)"

fun numbers_ok :: "json \<Rightarrow> bool" where
  "numbers_ok (JScalar s) \<longleftrightarrow> token_ok (TScalar s)"
| "numbers_ok (JArr vs) \<longleftrightarrow> (\<forall>v \<in> set vs. numbers_ok v)"
| "numbers_ok (JObj ms) \<longleftrightarrow> (\<forall>(k, v) \<in> set ms. numbers_ok v)"

lemma map_join: "map f (join_with sep xs) = join_with (map f sep) (map (map f) xs)"
  by (induction sep xs rule: join_with.induct) auto

lemma clean_tokens_of: "map clean_token (tokens_of v) = tokens_of (clean_json v)"
proof (induction v rule: tokens_of.induct)
  case (2 vs)
  then show ?case by (simp add: map_join comp_def cong: map_cong)
next
  case (3 ms)
  have "map (map clean_token \<circ> member_tokens) ms =
      map (member_tokens \<circ> (\<lambda>(k, v). (sanitize k, clean_json v))) ms"
    by (rule map_cong) (use 3 in \<open>auto simp: member_tokens_def\<close>)
  then show ?case by (simp only: clean_json.simps tokens_of_obj map_join list.map map_map
        map_append clean_token.simps)
qed simp

lemma token_ok_join:
  assumes "\<forall>x \<in> set xs. \<forall>t \<in> set x. token_ok t"
  shows "\<forall>t \<in> set (join_with [TComma] xs). token_ok t"
  using assms set_join_with [of "[TComma]" xs] by (auto simp: token_ok_def)

lemma token_ok_tokens_of: "numbers_ok v \<Longrightarrow> \<forall>t \<in> set (tokens_of v). token_ok t"
proof (induction v rule: tokens_of.induct)
  case (2 vs)
  then have "\<forall>t \<in> set (array_tokens vs). token_ok t" by (intro token_ok_join) auto
  then show ?case by (auto simp: token_ok_def)
next
  case (3 ms)
  have "\<forall>t \<in> set (member_tokens m). token_ok t" if "m \<in> set ms" for m
    using 3 that by (cases m) (fastforce simp: token_ok_def member_tokens_def)
  then have "\<forall>t \<in> set (object_tokens ms). token_ok t" by (intro token_ok_join) auto
  then show ?case by (auto simp: token_ok_def)
qed simp

lemma nesting_clean: "nesting (clean_json v) = nesting v"
proof (induction v rule: clean_json.induct)
  case (2 vs)
  then show ?case by (simp add: comp_def cong: map_cong)
next
  case (3 ms)
  have "map (\<lambda>(k, v). nesting v) (map (\<lambda>(k, v). (sanitize k, clean_json v)) ms) =
      map (\<lambda>(k, v). nesting v) ms"
    unfolding map_map by (rule map_cong) (use 3 in auto)
  then show ?case by (simp only: clean_json.simps nesting.simps)
qed simp

lemma lex_render: "numbers_ok v \<Longrightarrow> lex (render v) = Some (tokens_of (clean_json v))"
  using lex_tokens [of "tokens_of v"] spaced_tokens_of [of "[]" v] token_ok_tokens_of [of v]
  by (simp add: render_def clean_tokens_of after_value_def)

theorem json_parse_render:
  "numbers_ok v \<Longrightarrow> nesting v \<le> maxNesting \<Longrightarrow> json_parse (render v) = Some (clean_json v)"
  by (simp add: json_parse_def lex_render parse_tokens_of nesting_clean)

text \<open>So the text of a document determines it, up to the replaced bytes.\<close>

lemma tokens_of_inj: "tokens_of v = tokens_of w \<longleftrightarrow> v = w"
proof
  obtain limit where "nesting v \<le> limit" and "nesting w \<le> limit"
    by (meson nat_le_linear order.trans order.refl)
  moreover assume "tokens_of v = tokens_of w"
  ultimately have "Some v = Some w"
    using parse_tokens_of [of v limit] parse_tokens_of [of w limit] by (simp only:)
  then show "v = w" by simp
qed simp

lemma render_inj:
  assumes "numbers_ok v" "numbers_ok w" and "render v = render w"
  shows "clean_json v = clean_json w"
  using lex_render [OF assms(1)] lex_render [OF assms(2)] assms(3) by (simp add: tokens_of_inj)

end
