(* ===== verification/ApiJson.thy ===== *)
theory ApiJson
  imports GoJsonTree ApiPlan
begin

text \<open>
  The JSON form of the query types: what \<open>json.Marshal\<close> writes for their struct tags, and what
  \<open>encoding/json\<close> decodes into them. The decoding of a Go struct follows the package's documentation:
  members in order, matched to a field by exact name first and by case folding otherwise; \<open>null\<close>
  leaves a string, an integer or a struct unchanged and clears a pointer or a slice; a slice is reset
  and its elements are decoded from their zero value; a member that matches no field is an error
  exactly for decoders with \<open>DisallowUnknownFields\<close>; any other mismatch is an error.
\<close>

section \<open>Writing\<close>

text \<open>A nil slice is written \<open>null\<close>; the slices the sources build by appending are nil when empty.\<close>

definition nil_list :: "('a \<Rightarrow> json) \<Rightarrow> 'a list \<Rightarrow> json" where
  "nil_list f xs = (if xs = [] then JNull else JArr (map f xs))"

definition omit_empty :: "string \<Rightarrow> string \<Rightarrow> (string \<times> json) list" where
  "omit_empty name s = (if s = [] then [] else [(name, JStr s)])"

definition omit_zero :: "string \<Rightarrow> int \<Rightarrow> (string \<times> json) list" where
  "omit_zero name x = (if x = 0 then [] else [(name, JNum (formatInt x))])"

definition value_json :: "Value \<Rightarrow> json" where
  "value_json v = JObj [(''type'', JStr (v_type v)), (''value'', JStr (v_text v))]"

definition Value_MarshalJSON :: "Value \<Rightarrow> string" where
  "Value_MarshalJSON v = render (value_json v)"

definition sort_json :: "SortTerm \<Rightarrow> json" where
  "sort_json t =
     JObj ([(''name'', JStr (st_Name t)), (''direction'', JStr (st_Direction t))] @
           omit_empty ''nulls'' (st_Nulls t))"

definition predicate_json :: "Predicate \<Rightarrow> json" where
  "predicate_json p =
     JObj [(''name'', JStr (pr_Name p)), (''operator'', JStr (pr_Operator p)),
           (''values'', nil_list value_json (pr_Values p))]"

fun filter_json :: "FilterExpr \<Rightarrow> json" where
  "filter_json (FilterExpr predicate logic children) =
     JObj ((case predicate of None \<Rightarrow> [] | Some p \<Rightarrow> [(''predicate'', predicate_json p)]) @
           omit_empty ''logic'' logic @
           (if children = [] then [] else [(''children'', JArr (map filter_json children))]))"

definition constraint_json :: "Constraint \<Rightarrow> json" where
  "constraint_json c =
     JObj [(''name'', JStr (cn_Name c)), (''value'', value_json (cn_Value c)),
           (''protected'', JBool (cn_Protected c))]"

definition cursor_json :: "CursorState \<Rightarrow> json" where
  "cursor_json c =
     JObj ([(''direction'', JStr (cs_Direction c)),
            (''positions'', nil_list value_json (cs_Positions c))] @
           omit_empty ''policy'' (cs_Policy c))"

section \<open>Reading\<close>

text \<open>Case folding of a name to compare it with ASCII names; U+017F folds to \<open>S\<close>, U+212A to \<open>K\<close>.\<close>

function fold_name :: "string \<Rightarrow> string" where
  "fold_name [] = []"
| "fold_name (c # cs) =
     (if in_bytes 97 122 c then char_of (byte c - 32) # fold_name cs
      else if byte c < 128 then c # fold_name cs
      else
        let (r, w) = decodeRune (c # cs) in
        (if r = 0x17F then ''S'' else if r = 0x212A then ''K'' else take w (c # cs))
          @ fold_name (drop w (c # cs)))"
  by pat_completeness auto
termination
  by (relation "measure length") (auto dest: decodeRune_width [OF sym])

declare fold_name.simps(2) [simp del]

definition match_field :: "string list \<Rightarrow> string \<Rightarrow> string option" where
  "match_field names k =
     (if k \<in> set names then Some k else find (\<lambda>n. fold_name n = fold_name k) names)"

type_synonym 'a decoder = "json \<Rightarrow> 'a \<Rightarrow> 'a option"

definition dec_string :: "string decoder" where
  "dec_string j old = (case j of JScalar SNull \<Rightarrow> Some old | JScalar (SStr s) \<Rightarrow> Some s | _ \<Rightarrow> None)"

definition dec_int :: "int decoder" where
  "dec_int j old =
     (case j of JScalar SNull \<Rightarrow> Some old | JScalar (SNum n) \<Rightarrow> parseInt 64 n | _ \<Rightarrow> None)"

definition dec_list :: "'a decoder \<Rightarrow> 'a \<Rightarrow> 'a list decoder" where
  "dec_list dec zero j old =
     (case j of
        JScalar SNull \<Rightarrow> Some []
      | JArr vs \<Rightarrow> those (map (\<lambda>v. dec v zero) vs)
      | _ \<Rightarrow> None)"

definition dec_pointer :: "'a decoder \<Rightarrow> 'a \<Rightarrow> 'a option decoder" where
  "dec_pointer dec zero j old =
     (case j of
        JScalar SNull \<Rightarrow> Some None
      | _ \<Rightarrow> map_option Some (dec j (case old of None \<Rightarrow> zero | Some x \<Rightarrow> x)))"

text \<open>
  \<open>field name v s\<close> decodes the member value \<open>v\<close> into the field \<open>name\<close> of the struct \<open>s\<close>; \<open>strict\<close> is
  \<open>DisallowUnknownFields\<close>.
\<close>

fun dec_members ::
  "bool \<Rightarrow> string list \<Rightarrow> (string \<Rightarrow> json \<Rightarrow> 's \<Rightarrow> 's option) \<Rightarrow> (string \<times> json) list \<Rightarrow> 's \<Rightarrow> 's option"
where
  "dec_members strict names field [] s = Some s"
| "dec_members strict names field ((k, v) # ms) s =
     (case match_field names k of
        None \<Rightarrow> if strict then None else dec_members strict names field ms s
      | Some n \<Rightarrow> Option.bind (field n v s) (dec_members strict names field ms))"

definition dec_struct ::
  "bool \<Rightarrow> string list \<Rightarrow> (string \<Rightarrow> json \<Rightarrow> 's \<Rightarrow> 's option) \<Rightarrow> 's decoder" where
  "dec_struct strict names field j old =
     (case j of
        JScalar SNull \<Rightarrow> Some old
      | JObj ms \<Rightarrow> dec_members strict names field ms old
      | _ \<Rightarrow> None)"

text \<open>\<open>Value.UnmarshalJSON\<close> decodes its own struct, without the strictness of the outer decoder.\<close>

definition value_field :: "string \<Rightarrow> json \<Rightarrow> Value \<Rightarrow> Value option" where
  "value_field n j v =
     (if n = ''type'' then map_option (\<lambda>x. v\<lparr>v_type := x\<rparr>) (dec_string j (v_type v))
      else map_option (\<lambda>x. v\<lparr>v_text := x\<rparr>) (dec_string j (v_text v)))"

definition dec_value :: "'f float_std \<Rightarrow> 't time_std \<Rightarrow> Value decoder" where
  "dec_value fl tm j old =
     Option.bind (dec_struct False [''type'', ''value''] value_field j zeroValue)
       (\<lambda>encoded.
          if \<not> validValueType (v_type encoded) \<or>
             \<not> canonicalValue fl tm (v_type encoded) (v_text encoded)
          then None else Some encoded)"

definition Value_UnmarshalJSON :: "'f float_std \<Rightarrow> 't time_std \<Rightarrow> string \<Rightarrow> Value option" where
  "Value_UnmarshalJSON fl tm data =
     Option.bind (json_parse data) (\<lambda>j. dec_value fl tm j zeroValue)"

definition sort_field :: "string \<Rightarrow> json \<Rightarrow> SortTerm \<Rightarrow> SortTerm option" where
  "sort_field n j t =
     (if n = ''name'' then map_option (\<lambda>x. t\<lparr>st_Name := x\<rparr>) (dec_string j (st_Name t))
      else if n = ''direction''
      then map_option (\<lambda>x. t\<lparr>st_Direction := x\<rparr>) (dec_string j (st_Direction t))
      else map_option (\<lambda>x. t\<lparr>st_Nulls := x\<rparr>) (dec_string j (st_Nulls t)))"

definition zeroSort :: SortTerm where
  "zeroSort = \<lparr>st_Name = [], st_Direction = [], st_Nulls = []\<rparr>"

definition dec_sort :: "bool \<Rightarrow> SortTerm decoder" where
  "dec_sort strict = dec_struct strict [''name'', ''direction'', ''nulls''] sort_field"

definition predicate_field ::
  "'f float_std \<Rightarrow> 't time_std \<Rightarrow> string \<Rightarrow> json \<Rightarrow> Predicate \<Rightarrow> Predicate option" where
  "predicate_field fl tm n j p =
     (if n = ''name'' then map_option (\<lambda>x. p\<lparr>pr_Name := x\<rparr>) (dec_string j (pr_Name p))
      else if n = ''operator''
      then map_option (\<lambda>x. p\<lparr>pr_Operator := x\<rparr>) (dec_string j (pr_Operator p))
      else map_option (\<lambda>x. p\<lparr>pr_Values := x\<rparr>)
             (dec_list (dec_value fl tm) zeroValue j (pr_Values p)))"

definition zeroPredicate :: Predicate where
  "zeroPredicate = \<lparr>pr_Name = [], pr_Operator = [], pr_Values = []\<rparr>"

definition dec_predicate :: "'f float_std \<Rightarrow> 't time_std \<Rightarrow> bool \<Rightarrow> Predicate decoder" where
  "dec_predicate fl tm strict =
     dec_struct strict [''name'', ''operator'', ''values''] (predicate_field fl tm)"

text \<open>The filter expression is the one recursive type.\<close>

definition zeroFilter :: FilterExpr where
  "zeroFilter = FilterExpr None [] []"

fun dec_filter :: "'f float_std \<Rightarrow> 't time_std \<Rightarrow> bool \<Rightarrow> FilterExpr decoder"
  and dec_filter_members ::
    "'f float_std \<Rightarrow> 't time_std \<Rightarrow> bool \<Rightarrow> (string \<times> json) list \<Rightarrow> FilterExpr \<Rightarrow> FilterExpr option"
  and dec_filters :: "'f float_std \<Rightarrow> 't time_std \<Rightarrow> bool \<Rightarrow> json list \<Rightarrow> FilterExpr list option"
where
  "dec_filter fl tm strict (JScalar s) old = (if s = SNull then Some old else None)"
| "dec_filter fl tm strict (JArr vs) old = None"
| "dec_filter fl tm strict (JObj ms) old = dec_filter_members fl tm strict ms old"
| "dec_filter_members fl tm strict [] old = Some old"
| "dec_filter_members fl tm strict ((k, v) # ms) old =
     (case match_field [''predicate'', ''logic'', ''children''] k of
        None \<Rightarrow> if strict then None else dec_filter_members fl tm strict ms old
      | Some n \<Rightarrow>
          Option.bind
            (if n = ''predicate'' then
               map_option (\<lambda>p. FilterExpr p (fe_Logic old) (fe_Children old))
                 (dec_pointer (dec_predicate fl tm strict) zeroPredicate v (fe_Predicate old))
             else if n = ''logic'' then
               map_option (\<lambda>x. FilterExpr (fe_Predicate old) x (fe_Children old))
                 (dec_string v (fe_Logic old))
             else
               map_option (\<lambda>xs. FilterExpr (fe_Predicate old) (fe_Logic old) xs)
                 (case v of
                    JScalar s \<Rightarrow> if s = SNull then Some [] else None
                  | JArr vs \<Rightarrow> dec_filters fl tm strict vs
                  | JObj ms \<Rightarrow> None))
            (dec_filter_members fl tm strict ms))"
| "dec_filters fl tm strict [] = Some []"
| "dec_filters fl tm strict (v # vs) =
     Option.bind (dec_filter fl tm strict v zeroFilter)
       (\<lambda>f. map_option ((#) f) (dec_filters fl tm strict vs))"

definition page_field :: "string \<Rightarrow> json \<Rightarrow> PageRequest \<Rightarrow> PageRequest option" where
  "page_field n j p =
     (if n = ''mode'' then map_option (\<lambda>x. p\<lparr>pg_Mode := x\<rparr>) (dec_string j (pg_Mode p))
      else if n = ''size'' then map_option (\<lambda>x. p\<lparr>pg_Size := x\<rparr>) (dec_int j (pg_Size p))
      else if n = ''after'' then map_option (\<lambda>x. p\<lparr>pg_After := x\<rparr>) (dec_string j (pg_After p))
      else if n = ''before'' then map_option (\<lambda>x. p\<lparr>pg_Before := x\<rparr>) (dec_string j (pg_Before p))
      else map_option (\<lambda>x. p\<lparr>pg_Offset := x\<rparr>) (dec_int j (pg_Offset p)))"

definition dec_page :: "bool \<Rightarrow> PageRequest decoder" where
  "dec_page strict =
     dec_struct strict [''mode'', ''size'', ''after'', ''before'', ''offset''] page_field"

end
