(* ===== verification/PlanCanonical.thy ===== *)
theory PlanCanonical
  imports ApiJsonCorrect
begin

text \<open>
  \<open>Plan.Canonical\<close> and \<open>canonicalizePage\<close> of \<open>plan.go\<close>: the JSON document of a plan, in which a decoded
  cursor is represented by the hexadecimal SHA-256 digest of its state. The hash is the argument
  \<open>sha\<close>. \<open>plan_json_determines\<close> is the injectivity that makes the document usable as a cache key.
\<close>

record canonicalPage =
  cpg_Mode :: PageMode
  cpg_Size :: int
  cpg_Offset :: int
  cpg_CursorDigest :: string

text \<open>\<open>hex.EncodeToString\<close>.\<close>

definition hexEncode :: "string \<Rightarrow> string" where
  "hexEncode s = concat (map (\<lambda>c. [hex_char (byte c div 16), hex_char (byte c mod 16)]) s)"

definition canonicalizePage ::
  "(string \<Rightarrow> string) \<Rightarrow> PageRequest \<Rightarrow> CursorState option \<Rightarrow> canonicalPage" where
  "canonicalizePage sha page cursor =
     (let result = \<lparr>cpg_Mode = pg_Mode page, cpg_Size = pg_Size page, cpg_Offset = pg_Offset page,
                    cpg_CursorDigest = []\<rparr>
      in case cursor of
           None \<Rightarrow> result
         | Some c \<Rightarrow> result\<lparr>cpg_CursorDigest := hexEncode (sha (render (cursor_json c)))\<rparr>)"

definition canonical_page_json :: "canonicalPage \<Rightarrow> json" where
  "canonical_page_json p =
     JObj ((''mode'', JStr (cpg_Mode p)) # omit_zero ''size'' (cpg_Size p) @
           omit_zero ''offset'' (cpg_Offset p) @ omit_empty ''cursor_digest'' (cpg_CursorDigest p))"

definition plan_json :: "(string \<Rightarrow> string) \<Rightarrow> Plan \<Rightarrow> json" where
  "plan_json sha p =
     JObj ([(''resource'', JStr (pl_resource p)), (''revision'', JStr (pl_revision p)),
            (''response_fields'', nil_list JStr (pl_responseFields p)),
            (''execution_fields'', nil_list JStr (pl_executionFields p)),
            (''includes'', nil_list JStr (pl_includes p))] @
           (case pl_filter p of None \<Rightarrow> [] | Some f \<Rightarrow> [(''filter'', filter_json f)]) @
           [(''mandatory_constraints'', nil_list constraint_json (pl_constraints p)),
            (''sorts'', JArr (map sort_json (pl_sorts p))),
            (''page'', canonical_page_json (canonicalizePage sha (pl_page p) (pl_cursor p))),
            (''cost'', JNum (formatInt (pl_cost p)))])"

definition Plan_Canonical :: "(string \<Rightarrow> string) \<Rightarrow> Plan \<Rightarrow> Violations + string" where
  "Plan_Canonical sha p =
     (let encoded = render (plan_json sha p)
      in if int (length encoded) > pl_maxCanonical p
         then Inl [\<lparr>vi_Code = CodeLimitExceeded, vi_Path = ''plan'',
                    vi_Message = ''canonical plan exceeds its size limit''\<rparr>]
         else Inr encoded)"

section \<open>Injectivity\<close>

lemma nil_list_inj: "inj f \<Longrightarrow> nil_list f xs = nil_list f ys \<longleftrightarrow> xs = ys"
  by (auto simp: nil_list_def inj_map_eq_map)

lemma formatInt_inj: "formatInt x = formatInt y \<longleftrightarrow> x = y"
proof
  assume eq: "formatInt x = formatInt y"
  have "dec_nat n \<noteq> CHR ''-'' # s" for n s using dec_nat_no_sign [of n "CHR ''-''" s] by auto
  then have no: "dec_nat n \<noteq> CHR ''-'' # s" "CHR ''-'' # s \<noteq> dec_nat n" for n s
    by (auto dest: sym)
  show "x = y"
    using eq no by (auto simp: formatInt_def dec_nat_inj split: if_splits)
qed simp

lemma value_json_inj: "value_json v = value_json w \<longleftrightarrow> v = w"
  by (auto simp: value_json_def)

lemma inj_value_json: "inj value_json"
  by (rule injI) (simp add: value_json_inj)

definition member :: "(string \<times> json) list \<Rightarrow> string \<Rightarrow> json option" where
  "member ms k = map_of ms k"

lemma member_simps [simp]:
  "member [] k = None" "member ((k', v) # ms) k = (if k = k' then Some v else member ms k)"
  "member (ms @ ns) k = (case member ms k of None \<Rightarrow> member ns k | Some v \<Rightarrow> Some v)"
  "member (omit_empty k' s) k = (if k = k' \<and> s \<noteq> [] then Some (JStr s) else None)"
  "member (omit_zero k' x) k = (if k = k' \<and> x \<noteq> 0 then Some (JNum (formatInt x)) else None)"
  by (auto simp: member_def map_add_def omit_empty_def omit_zero_def split: option.splits)

lemma obj_lookup: "JObj ms = JObj ns \<Longrightarrow> member ms k = member ns k"
  by simp

lemma sort_json_inj: "sort_json t = sort_json u \<longleftrightarrow> t = u"
proof
  assume "sort_json t = sort_json u"
  then show "t = u" by (metis dec_sort_json option.inject)
qed simp

lemma predicate_json_inj: "predicate_json p = predicate_json q \<longleftrightarrow> p = q"
  by (auto simp: predicate_json_def nil_list_inj [OF inj_value_json])

lemma constraint_json_inj: "constraint_json c = constraint_json d \<longleftrightarrow> c = d"
  by (auto simp: constraint_json_def value_json_inj)

lemma cursor_json_inj: "cursor_json c = cursor_json d \<longleftrightarrow> c = d"
proof
  assume eq: "cursor_json c = cursor_json d"
  from obj_lookup [OF eq [unfolded cursor_json_def], of "''policy''"]
  have "cs_Policy c = cs_Policy d" by (auto split: if_splits)
  with eq show "c = d" by (auto simp: cursor_json_def nil_list_inj [OF inj_value_json])
qed simp

lemma filter_json_inj: "filter_json f = filter_json g \<longleftrightarrow> f = g"
proof
  show "filter_json f = filter_json g \<Longrightarrow> f = g"
  proof (induction f arbitrary: g)
    case (FilterExpr predicate logic children)
    obtain predicate' logic' children' where g: "g = FilterExpr predicate' logic' children'"
      by (cases g)
    note eq = FilterExpr.prems [unfolded g filter_json.simps]
    from obj_lookup [OF eq, of "''predicate''"] have "predicate = predicate'"
      by (auto simp: predicate_json_inj split: option.splits if_splits)
    moreover from obj_lookup [OF eq, of "''logic''"] have "logic = logic'"
      by (auto split: option.splits if_splits)
    moreover have "map filter_json children = map filter_json children'"
      using obj_lookup [OF eq, of "''children''"] by (auto split: option.splits if_splits)
    then have "children = children'"
      using FilterExpr.IH by (intro list.inj_map_strong [of _ _ filter_json filter_json]) auto
    ultimately show ?case by (simp add: g)
  qed
qed simp

lemma hex_char_inj: "m < 16 \<Longrightarrow> n < 16 \<Longrightarrow> hex_char m = hex_char n \<longleftrightarrow> m = n"
  using hex_value_char by (metis option.inject)

lemma byte_hex: "byte c div 16 < 16 \<and> byte c mod 16 < 16"
  using byte_less [of c] by simp

lemma hexEncode_inj: "hexEncode s = hexEncode t \<longleftrightarrow> s = t"
proof
  show "hexEncode s = hexEncode t \<Longrightarrow> s = t"
  proof (induction s arbitrary: t)
    case Nil
    then show ?case by (cases t) (auto simp: hexEncode_def)
  next
    case (Cons c s)
    from Cons.prems obtain d t' where t: "t = d # t'"
      by (cases t) (auto simp: hexEncode_def)
    from Cons.prems have "byte c div 16 = byte d div 16" "byte c mod 16 = byte d mod 16"
      and "hexEncode s = hexEncode t'"
      using byte_hex [of c] byte_hex [of d] by (simp_all add: t hexEncode_def hex_char_inj)
    moreover from this have "byte c = byte d" by (metis div_mult_mod_eq)
    ultimately show ?case using Cons.IH by (simp add: t)
  qed
qed simp

section \<open>What the document determines\<close>

definition utf8_plan :: "Plan \<Rightarrow> bool" where
  "utf8_plan p \<longleftrightarrow>
     (\<forall>s \<in> {pl_resource p, pl_revision p, pg_Mode (pl_page p)} \<union> set (pl_responseFields p) \<union>
            set (pl_executionFields p) \<union> set (pl_includes p). valid_utf8 s) \<and>
     (\<forall>f. pl_filter p = Some f \<longrightarrow> utf8_filter f) \<and>
     (\<forall>c \<in> set (pl_constraints p). utf8_constraint c) \<and>
     (\<forall>t \<in> set (pl_sorts p). utf8_sort t) \<and>
     (\<forall>c. pl_cursor p = Some c \<longrightarrow> utf8_cursor c)"

text \<open>The parts of a plan that its document shows; raw tokens and the size bound are not among them.\<close>

definition canonical_parts where
  "canonical_parts p =
     ((pl_resource p, pl_revision p, pl_responseFields p, pl_executionFields p, pl_includes p),
      (pl_filter p, pl_constraints p, pl_sorts p),
      (pg_Mode (pl_page p), pg_Size (pl_page p), pg_Offset (pl_page p), pl_cursor p), pl_cost p)"

lemma clean_plan_keys [simp]:
  "sanitize ''resource'' = ''resource''" "sanitize ''revision'' = ''revision''"
  "sanitize ''response_fields'' = ''response_fields''"
  "sanitize ''execution_fields'' = ''execution_fields''" "sanitize ''includes'' = ''includes''"
  "sanitize ''filter'' = ''filter''" "sanitize ''mandatory_constraints'' = ''mandatory_constraints''"
  "sanitize ''sorts'' = ''sorts''" "sanitize ''page'' = ''page''" "sanitize ''cost'' = ''cost''"
  "sanitize ''mode'' = ''mode''" "sanitize ''size'' = ''size''" "sanitize ''offset'' = ''offset''"
  "sanitize ''cursor_digest'' = ''cursor_digest''"
  by (simp_all add: ascii_clean byte_def)

lemma hex_ascii: "valid_utf8 (hexEncode s)"
proof -
  have "byte (hex_char n) < 128" if "n < 16" for n
    using that by (simp add: hex_char_def byte_char_of)
  then show ?thesis
    using byte_hex by (intro valid_utf8_ascii) (auto simp: hexEncode_def)
qed

lemma clean_omit_zero:
  "sanitize k = k \<Longrightarrow> map (\<lambda>(k, v). (sanitize k, clean_json v)) (omit_zero k x) = omit_zero k x"
  by (simp add: omit_zero_def)

lemma canonicalizePage_sel [simp]:
  "cpg_Mode (canonicalizePage sha page c) = pg_Mode page"
  "cpg_Size (canonicalizePage sha page c) = pg_Size page"
  "cpg_Offset (canonicalizePage sha page c) = pg_Offset page"
  "cpg_CursorDigest (canonicalizePage sha page c) =
     (case c of None \<Rightarrow> [] | Some x \<Rightarrow> hexEncode (sha (render (cursor_json x))))"
  by (cases c; simp add: canonicalizePage_def Let_def)+

lemma clean_plan:
  assumes "utf8_plan p"
  shows "clean_json (plan_json sha p) = plan_json sha p"
proof -
  have "clean_json (canonical_page_json (canonicalizePage sha (pl_page p) (pl_cursor p))) =
      canonical_page_json (canonicalizePage sha (pl_page p) (pl_cursor p))"
    using assms
    by (simp add: canonical_page_json_def utf8_plan_def sanitize_valid clean_omit_empty
        clean_omit_zero hex_ascii valid_utf8_ascii split: option.split)
  moreover have "map (clean_json \<circ> sort_json) (pl_sorts p) = map sort_json (pl_sorts p)"
    using assms by (simp add: utf8_plan_def clean_sort)
  ultimately show ?thesis
    using assms
    by (auto simp: plan_json_def utf8_plan_def sanitize_valid clean_nil_list clean_constraint
        clean_filter split: option.splits)
qed

lemma numbers_plan: "numbers_ok (plan_json sha p)"
proof -
  have "numbers_ok (canonical_page_json q)" for q
    by (auto simp: canonical_page_json_def token_ok_def)
  then show ?thesis
    by (auto simp: plan_json_def token_ok_def numbers_nil_list number_text_formatInt
        split: option.splits)
qed

lemma page_json_inj:
  assumes "canonical_page_json p = canonical_page_json q"
  shows "p = q"
proof -
  note eq = assms [unfolded canonical_page_json_def]
  have "cpg_Mode p = cpg_Mode q" using eq by simp
  moreover from obj_lookup [OF eq, of "''size''"] have "cpg_Size p = cpg_Size q"
    by (auto simp: formatInt_inj split: if_splits)
  moreover from obj_lookup [OF eq, of "''offset''"] have "cpg_Offset p = cpg_Offset q"
    by (auto simp: formatInt_inj split: if_splits)
  moreover from obj_lookup [OF eq, of "''cursor_digest''"]
  have "cpg_CursorDigest p = cpg_CursorDigest q" by (auto split: if_splits)
  ultimately show ?thesis by simp
qed

text \<open>No two of the cursors in play have states with the same digest; a digest is not empty.\<close>

definition collision_free :: "(string \<Rightarrow> string) \<Rightarrow> CursorState set \<Rightarrow> bool" where
  "collision_free sha cs \<longleftrightarrow>
     inj_on sha ((\<lambda>c. render (cursor_json c)) ` cs) \<and> (\<forall>c \<in> cs. sha (render (cursor_json c)) \<noteq> [])"

lemma cursor_text_inj:
  assumes "utf8_cursor x" "utf8_cursor y" "render (cursor_json x) = render (cursor_json y)"
  shows "x = y"
proof -
  have "clean_json (cursor_json x) = clean_json (cursor_json y)"
    by (rule render_inj) (simp_all add: assms(3))
  with assms(1,2) show ?thesis by (simp add: clean_cursor cursor_json_inj)
qed

lemma digest_determines:
  assumes "canonicalizePage sha p c = canonicalizePage sha q d"
    and "collision_free sha (set_option c \<union> set_option d)"
    and "\<forall>x \<in> set_option c \<union> set_option d. utf8_cursor x"
  shows "pg_Mode p = pg_Mode q \<and> pg_Size p = pg_Size q \<and> pg_Offset p = pg_Offset q \<and> c = d"
proof (intro conjI)
  show "pg_Mode p = pg_Mode q" using arg_cong [OF assms(1), of cpg_Mode] by simp
  show "pg_Size p = pg_Size q" using arg_cong [OF assms(1), of cpg_Size] by simp
  show "pg_Offset p = pg_Offset q" using arg_cong [OF assms(1), of cpg_Offset] by simp
  have digest: "(case c of None \<Rightarrow> [] | Some x \<Rightarrow> hexEncode (sha (render (cursor_json x)))) =
      (case d of None \<Rightarrow> [] | Some x \<Rightarrow> hexEncode (sha (render (cursor_json x))))"
    using arg_cong [OF assms(1), of cpg_CursorDigest] by simp
  have empty: "hexEncode t = [] \<longleftrightarrow> t = []" "[] = hexEncode t \<longleftrightarrow> t = []" for t
    by (cases t; simp add: hexEncode_def)+
  show "c = d"
  proof (cases c)
    case None
    with digest assms(2) show ?thesis by (cases d) (auto simp: collision_free_def empty)
  next
    case (Some x)
    with digest assms(2) obtain y where d: "d = Some y"
      by (cases d) (auto simp: collision_free_def empty)
    with Some digest have sha: "sha (render (cursor_json x)) = sha (render (cursor_json y))"
      by (simp add: hexEncode_inj)
    have "inj_on sha ((\<lambda>c. render (cursor_json c)) ` {x, y})"
      using assms(2) Some d by (simp add: collision_free_def insert_commute)
    from inj_onD [OF this sha] have same: "render (cursor_json x) = render (cursor_json y)"
      by simp
    have "utf8_cursor x" "utf8_cursor y" using assms(3) Some d by simp_all
    from cursor_text_inj [OF this same] show ?thesis by (simp add: Some d)
  qed
qed

lemma plan_json_determines:
  assumes "plan_json sha p = plan_json sha q" and "utf8_plan p" and "utf8_plan q"
    and "collision_free sha (set_option (pl_cursor p) \<union> set_option (pl_cursor q))"
  shows "canonical_parts p = canonical_parts q"
proof -
  note eq = assms(1) [unfolded plan_json_def]
  from eq have "pl_resource p = pl_resource q" "pl_revision p = pl_revision q"
    "nil_list JStr (pl_responseFields p) = nil_list JStr (pl_responseFields q)"
    "nil_list JStr (pl_executionFields p) = nil_list JStr (pl_executionFields q)"
    "nil_list JStr (pl_includes p) = nil_list JStr (pl_includes q)"
    by simp_all
  moreover from obj_lookup [OF eq, of "''filter''"] have "pl_filter p = pl_filter q"
    by (auto simp: filter_json_inj split: option.splits)
  moreover from obj_lookup [OF eq, of "''mandatory_constraints''"]
  have "nil_list constraint_json (pl_constraints p) = nil_list constraint_json (pl_constraints q)"
    by (auto split: option.splits)
  moreover from obj_lookup [OF eq, of "''sorts''"]
  have "map sort_json (pl_sorts p) = map sort_json (pl_sorts q)" by (auto split: option.splits)
  moreover from obj_lookup [OF eq, of "''page''"]
  have "canonicalizePage sha (pl_page p) (pl_cursor p) = canonicalizePage sha (pl_page q) (pl_cursor q)"
    by (auto dest: page_json_inj split: option.splits)
  then have "pg_Mode (pl_page p) = pg_Mode (pl_page q) \<and> pg_Size (pl_page p) = pg_Size (pl_page q) \<and>
      pg_Offset (pl_page p) = pg_Offset (pl_page q) \<and> pl_cursor p = pl_cursor q"
    using assms(2-4) by (intro digest_determines) (auto simp: utf8_plan_def)
  moreover from obj_lookup [OF eq, of "''cost''"] have "pl_cost p = pl_cost q"
    by (auto simp: formatInt_inj split: option.splits)
  moreover have "inj JStr" "inj constraint_json" "inj sort_json"
    by (auto intro!: injI simp: constraint_json_inj sort_json_inj)
  ultimately show ?thesis
    by (simp add: canonical_parts_def nil_list_inj inj_map_eq_map)
qed

end
