(* ===== verification/JsonProperties.thy ===== *)
theory JsonProperties
  imports PlanCanonical Sample
begin

text \<open>
  What the JSON forms promise: values survive a round trip, decoded values are typed, and the
  canonical document of a plan is a key of its contents, as long as its texts are valid UTF-8.
\<close>

section \<open>Values\<close>


text \<open>Conversions with these round trips: integers and natural numbers by their decimal texts.\<close>

definition sampleFloat :: "int float_std" where
  "sampleFloat =
     \<lparr>fl_parse = parseInt 64, fl_format = formatInt, fl_isNaN = (\<lambda>x. False),
      fl_isInf = (\<lambda>x. \<not> in_int64 x)\<rparr>"

definition sampleTime :: "nat time_std" where
  "sampleTime = \<lparr>tm_parse = digits_value 0, tm_format = dec_nat\<rparr>"


text \<open>
  C32: \<open>UnmarshalJSON\<close> reads back every typed value that \<open>MarshalJSON\<close> wrote, when its
  text is valid UTF-8; an integer, an unsigned integer, a boolean, a byte string or null always is.
\<close>

theorem Value_roundtrip:
  assumes "typed_value fl tm v" and "v_type v \<in> {TypeString, TypeFloat, TypeTime} \<Longrightarrow> valid_utf8 (v_text v)"
  shows "Value_UnmarshalJSON fl tm (Value_MarshalJSON v) = Some v"
proof -
  from assms(1) have known: "validValueType (v_type v)"
    and canon: "canonicalValue fl tm (v_type v) (v_text v)"
    by (simp_all add: typed_value_def)
  have "valid_utf8 (v_text v)"
    using assms(2) canonical_text_clean [OF canon] by blast
  moreover have "valid_utf8 (v_type v)" using valid_type_clean [OF known] by (simp add: sanitize_iff)
  ultimately have "clean_json (value_json v) = value_json v"
    by (intro clean_value) (simp add: utf8_value_def)
  moreover have "nesting (value_json v) \<le> maxNesting"
    by (simp add: value_json_def maxNesting_def)
  ultimately have "json_parse (Value_MarshalJSON v) = Some (value_json v)"
    using json_parse_render [of "value_json v"] by (simp add: Value_MarshalJSON_def)
  then show ?thesis
    using dec_value_json [OF known canon] by (simp add: Value_UnmarshalJSON_def)
qed

theorem Value_roundtrip_witness:
  "Value_UnmarshalJSON sampleFloat sampleTime (Value_MarshalJSON (StringValue ''a<b'')) =
     Some (StringValue ''a<b'')"
proof (rule Value_roundtrip)
  show "typed_value sampleFloat sampleTime (StringValue ''a<b'')"
    by (simp add: typed_value_def StringValue_def validValueType_def validType_def canonicalValue_def)
  show "valid_utf8 (v_text (StringValue ''a<b''))"
    by (simp add: StringValue_def valid_utf8_ascii byte_def)
qed

section \<open>The canonical document\<close>

text \<open>
  C25: two plans with valid UTF-8 texts have the same canonical document exactly when
  they agree in every part it shows: resource, revision, fields, includes, filter, constraints,
  sorts, page, cursor state and cost; provided the hash does not collide on their cursor states.
\<close>

theorem Canonical_key:
  assumes "utf8_plan p" and "utf8_plan q"
    and "collision_free sha (set_option (pl_cursor p) \<union> set_option (pl_cursor q))"
    and "Plan_Canonical sha p = Inr a" and "Plan_Canonical sha q = Inr b"
  shows "a = b \<longleftrightarrow> canonical_parts p = canonical_parts q"
proof
  assume "a = b"
  with assms(4,5) have "render (plan_json sha p) = render (plan_json sha q)"
    by (simp add: Plan_Canonical_def Let_def split: if_splits)
  then have "clean_json (plan_json sha p) = clean_json (plan_json sha q)"
    by (intro render_inj numbers_plan)
  then have "plan_json sha p = plan_json sha q" by (simp add: clean_plan assms(1,2))
  then show "canonical_parts p = canonical_parts q"
    using assms(1-3) by (rule plan_json_determines)
next
  assume same: "canonical_parts p = canonical_parts q"
  then have page: "canonicalizePage sha (pl_page p) (pl_cursor p) =
      canonicalizePage sha (pl_page q) (pl_cursor q)"
    by (simp add: canonical_parts_def canonicalizePage_def)
  have "plan_json sha p = plan_json sha q"
    unfolding plan_json_def page using same by (simp add: canonical_parts_def)
  with assms(4,5) show "a = b"
    by (simp add: Plan_Canonical_def Let_def split: if_splits)
qed

text \<open>A text of plain characters is written as it is; no text grows more than sixfold.\<close>

definition plain :: "char \<Rightarrow> bool" where
  "plain c \<longleftrightarrow> byte c < 128 \<and> escape_ascii c = [c]"

lemma quote_plain: "\<forall>c \<in> set s. plain c \<Longrightarrow> quote_body s = s"
  by (induction s) (simp_all add: quote_with.simps(2) plain_def)

definition otherPlan :: Plan where
  "otherPlan = samplePlan\<lparr>pl_includes := []\<rparr>"

lemma sample_parts:
  "pl_resource samplePlan = ''articles''" "pl_revision samplePlan = ''v1''"
  "pl_responseFields samplePlan = [''title'', ''id'']"
  "pl_executionFields samplePlan = [''owner_id'', ''title'', ''id'']"
  "pl_includes samplePlan = [''author.company'', ''author'']"
  "pl_filter samplePlan = Some sampleFilter"
  "pl_constraints samplePlan = co_MandatoryConstraints sampleOptions"
  "pl_sorts samplePlan =
     [\<lparr>st_Name = ''created'', st_Direction = Descending, st_Nulls = NullsLast\<rparr>,
      \<lparr>st_Name = ''id'', st_Direction = Ascending, st_Nulls = []\<rparr>]"
  "pl_cursor samplePlan = Some sampleState" "pg_Mode (pl_page samplePlan) = PageCursor"
  "pg_Size (pl_page samplePlan) = 10" "pg_Offset (pl_page samplePlan) = 0"
  "pl_maxCanonical samplePlan = 65536" "pl_cost samplePlan = 21"
  by code_simp+

lemma sample_utf8: "utf8_plan samplePlan" "utf8_plan otherPlan"
  by (simp_all add: otherPlan_def sample_parts utf8_plan_def valid_utf8_ascii byte_def
      utf8_constraint_def utf8_value_def sampleOptions_def sampleFilter_def sampleState_def
      utf8_cursor_def utf8_sort_def utf8_predicate_def StringValue_def IntValue_def formatInt_def)

lemma sample_digits:
  "digit_char 0 = CHR ''0''" "digit_char (Suc 0) = CHR ''1''" "digit_char 2 = CHR ''2''"
  "digit_char 9 = CHR ''9''" "hexEncode ''x'' = ''78''"
  by code_simp+

lemma sample_length:
  "length (render (plan_json (\<lambda>s. ''x'') samplePlan)) < 2000"
  "length (render (plan_json (\<lambda>s. ''x'') otherPlan)) < 2000"
  by (simp_all add: otherPlan_def render_def plan_json_def sample_parts nil_list_def omit_empty_def
      omit_zero_def canonical_page_json_def canonicalizePage_def Let_def member_tokens_def
      predicate_json_def value_json_def constraint_json_def sort_json_def sampleOptions_def
      sampleFilter_def sampleState_def StringValue_def IntValue_def formatInt_def dec_nat.simps
      quote_plain plain_def escape_ascii_def byte_def sample_digits)

theorem Canonical_key_witness:
  "\<exists>a b. Plan_Canonical (\<lambda>s. ''x'') samplePlan = Inr a \<and>
     Plan_Canonical (\<lambda>s. ''x'') otherPlan = Inr b \<and> a \<noteq> b"
proof -
  have "pl_maxCanonical samplePlan = 65536" "pl_maxCanonical otherPlan = 65536"
    by (simp_all add: otherPlan_def sample_parts)
  then have "Plan_Canonical (\<lambda>s. ''x'') samplePlan = Inr (render (plan_json (\<lambda>s. ''x'') samplePlan)) \<and>
      Plan_Canonical (\<lambda>s. ''x'') otherPlan = Inr (render (plan_json (\<lambda>s. ''x'') otherPlan))"
    using sample_length by (simp add: Plan_Canonical_def Let_def)
  moreover have "collision_free (\<lambda>s. ''x'')
      (set_option (pl_cursor samplePlan) \<union> set_option (pl_cursor otherPlan))"
    by (simp add: collision_free_def otherPlan_def sample_parts)
  moreover have "canonical_parts samplePlan \<noteq> canonical_parts otherPlan"
    by (simp add: canonical_parts_def otherPlan_def sample_parts)
  ultimately show ?thesis
    using sample_utf8 Canonical_key [of samplePlan otherPlan "\<lambda>s. ''x''"] by blast
qed

text \<open>
  C26: the condition on the texts is needed. The compiler accepts two requests
  whose filters compare with two different strings that are not valid UTF-8, and the plans have the
  same canonical document, whatever the hash: \<open>json.Marshal\<close> writes both strings as U+FFFD.
\<close>

definition byteRequest :: "char \<Rightarrow> Request" where
  "byteRequest c =
     zeroRequest\<lparr>rq_Filter := Some (FilterExpr
       (Some \<lparr>pr_Name = ''status'', pr_Operator = OpEqual, pr_Values = [StringValue [c]]\<rparr>) [] [])\<rparr>"

definition bytePlan :: "char \<Rightarrow> Plan" where
  "bytePlan c = spec_plan sampleSchema (co_MandatoryConstraints sampleOptions) (byteRequest c) None"

theorem Canonical_collision:
  "fst (Compile (Some sampleSchema) (byteRequest CHR 0xFE) sampleOptions 0) = Inr (bytePlan CHR 0xFE) \<and>
   fst (Compile (Some sampleSchema) (byteRequest CHR 0xFF) sampleOptions 0) = Inr (bytePlan CHR 0xFF) \<and>
   pl_filter (bytePlan CHR 0xFE) \<noteq> pl_filter (bytePlan CHR 0xFF) \<and>
   Plan_Canonical sha (bytePlan CHR 0xFE) = Plan_Canonical sha (bytePlan CHR 0xFF)"
proof -
  have "accepts sampleSchema (byteRequest CHR 0xFE) sampleOptions 0"
    "fst (decoded_env sampleSchema (byteRequest CHR 0xFE) sampleOptions 0) = None"
    "accepts sampleSchema (byteRequest CHR 0xFF) sampleOptions 0"
    "fst (decoded_env sampleSchema (byteRequest CHR 0xFF) sampleOptions 0) = None"
    by code_simp+
  then have runs:
    "Compile (Some sampleSchema) (byteRequest CHR 0xFE) sampleOptions 0 = (Inr (bytePlan CHR 0xFE),
       en_world (snd (decoded_env sampleSchema (byteRequest CHR 0xFE) sampleOptions 0)),
       en_trace (snd (decoded_env sampleSchema (byteRequest CHR 0xFE) sampleOptions 0)))"
    "Compile (Some sampleSchema) (byteRequest CHR 0xFF) sampleOptions 0 = (Inr (bytePlan CHR 0xFF),
       en_world (snd (decoded_env sampleSchema (byteRequest CHR 0xFF) sampleOptions 0)),
       en_trace (snd (decoded_env sampleSchema (byteRequest CHR 0xFF) sampleOptions 0)))"
    by (simp_all add: Compile_Inr [OF sampleSchema_wf sampleSchema_cost] bytePlan_def)
  let ?f = "\<lambda>c. FilterExpr
    (Some \<lparr>pr_Name = ''status'', pr_Operator = OpEqual, pr_Values = [StringValue [c]]\<rparr>) [] []"
  have filters: "pl_filter (bytePlan c) = Some (?f c)" for c
    by (simp add: bytePlan_def spec_plan_def Let_def byteRequest_def zeroRequest_def)
  have other: "bytePlan CHR 0xFF = (bytePlan CHR 0xFE)\<lparr>pl_filter := Some (?f CHR 0xFF)\<rparr>"
    by code_simp
  have same: "quote_body [CHR 0xFE] = quote_body [CHR 0xFF]"
    by (simp add: quote_with.simps(2) decodeRune.simps(2) byte_def)
  have "render (plan_json sha (bytePlan CHR 0xFE)) = render (plan_json sha (bytePlan CHR 0xFF))"
    unfolding other
    by (simp add: render_def plan_json_def filters predicate_json_def nil_list_def value_json_def
        StringValue_def same omit_empty_def
        member_tokens_def)
  moreover have "pl_maxCanonical (bytePlan CHR 0xFE) = pl_maxCanonical (bytePlan CHR 0xFF)"
    unfolding other by simp
  moreover have "?f CHR 0xFE \<noteq> ?f CHR 0xFF" by (simp add: StringValue_def)
  ultimately show ?thesis
    using runs filters by (simp add: Plan_Canonical_def)
qed

end
