(* ===== verification/CursorCodec.thy ===== *)
theory CursorCodec
  imports ApiJsonCorrect ApiCompile
begin

text \<open>
  \<open>cursor/cursor.go\<close>: the keyring and the cursor codec. Instants are nanoseconds in an \<open>int\<close>, the
  zero \<open>time.Time\<close> included; \<open>Time.Sub\<close> saturates at 64 bits. The clock, the entropy source, the
  context and the replay store belong to the caller or to the platform and may keep state, so they
  are functions on a world \<open>'w\<close>. AES-GCM and SHA-256 are the record \<open>crypto\<close>, the calendar text of
  an instant the record \<open>instant_std\<close>. A codec holds the current snapshot of the keyring it borrows:
  each operation reads the ring once, under its lock, so a call sees one snapshot, and a rotation
  between two calls is an update of \<open>cd_keys\<close>.
\<close>

section \<open>Errors and payloads\<close>

datatype cursor_error =
  ErrInvalid | ErrExpired | ErrVersion | ErrSchema | ErrSort | ErrReplay
| ErrContext string     \<comment> \<open>the error of a cancelled context, passed through\<close>

record Payload =
  pa_SchemaRevision :: string
  pa_Direction :: CursorDirection
  pa_Sorts :: "SortTerm list"
  pa_Positions :: "Value list"
  pa_ExpiresAt :: int
  pa_Policy :: string

record Key =
  ky_ID :: string
  ky_Secret :: string

record crypto =
  cr_seal :: "string \<Rightarrow> string \<Rightarrow> string \<Rightarrow> string \<Rightarrow> string"         \<comment> \<open>key, nonce, plain text, associated data\<close>
  cr_open :: "string \<Rightarrow> string \<Rightarrow> string \<Rightarrow> string \<Rightarrow> string option"  \<comment> \<open>key, nonce, sealed text, associated data\<close>
  cr_sha256 :: "string \<Rightarrow> string"

record instant_std =
  in_format :: "int \<Rightarrow> string option"   \<comment> \<open>\<open>Time.MarshalJSON\<close>: no text outside the years 0 to 9999\<close>
  in_parse :: "string \<Rightarrow> int option"    \<comment> \<open>\<open>Time.UnmarshalJSON\<close> of a string\<close>

text \<open>\<open>validKeyID\<close> ranges over the runes of the identifier.\<close>

definition key_rune :: "nat \<Rightarrow> bool" where
  "key_rune r \<longleftrightarrow> (97 \<le> r \<and> r \<le> 122) \<or> (65 \<le> r \<and> r \<le> 90) \<or> (48 \<le> r \<and> r \<le> 57) \<or> r = 95 \<or> r = 45"

definition validKeyID :: "string \<Rightarrow> bool" where
  "validKeyID value \<longleftrightarrow>
     value \<noteq> [] \<and> length value \<le> 64 \<and> (\<forall>(i, r) \<in> set (go_runes 0 value). key_rune r)"

section \<open>The keyring\<close>

record Keyring =
  kr_active :: string
  kr_keys :: "string \<rightharpoonup> string"

text \<open>The keys of a rotation, the active one first; the loop returns at the first bad one.\<close>

fun collectKeys :: "Key list \<Rightarrow> (string \<rightharpoonup> string) \<Rightarrow> (string \<rightharpoonup> string) option" where
  "collectKeys [] keys = Some keys"
| "collectKeys (key # rest) keys =
     (if \<not> validKeyID (ky_ID key) \<or> length (ky_Secret key) \<noteq> 32 then None
      else if keys (ky_ID key) \<noteq> None then None
      else collectKeys rest (keys(ky_ID key \<mapsto> ky_Secret key)))"

definition Rotate :: "Key \<Rightarrow> Key list \<Rightarrow> Keyring \<Rightarrow> cursor_error option \<times> Keyring" where
  "Rotate active retained k =
     (case collectKeys (active # retained) Map.empty of
        None \<Rightarrow> (Some ErrInvalid, k)
      | Some keys \<Rightarrow> (None, k\<lparr>kr_active := ky_ID active, kr_keys := keys\<rparr>))"

definition NewKeyring :: "Key \<Rightarrow> Key list \<Rightarrow> cursor_error + Keyring" where
  "NewKeyring active retained =
     (let (err, k) = Rotate active retained \<lparr>kr_active = [], kr_keys = Map.empty\<rparr>
      in case err of Some e \<Rightarrow> Inl e | None \<Rightarrow> Inr k)"

text \<open>The two reads of a ring; \<open>None\<close> is a missing key.\<close>

definition activeKey :: "Keyring \<Rightarrow> (string \<times> string) option" where
  "activeKey k = map_option (\<lambda>secret. (kr_active k, secret)) (kr_keys k (kr_active k))"

definition keyring_key :: "Keyring \<Rightarrow> string \<Rightarrow> string option" where
  "keyring_key k i = kr_keys k i"

section \<open>The codec\<close>

type_synonym 'w clock = "'w \<Rightarrow> int \<times> 'w"
type_synonym 'w entropy = "nat \<Rightarrow> 'w \<Rightarrow> string option \<times> 'w"   \<comment> \<open>\<open>io.ReadFull\<close> of so many bytes\<close>
type_synonym 'w context' = "'w \<Rightarrow> string option \<times> 'w"         \<comment> \<open>\<open>ctx.Err\<close>\<close>
type_synonym 'w ReplayStore = "string \<Rightarrow> int \<Rightarrow> 'w \<Rightarrow> bool \<times> 'w"

record 'w Config =
  cg_Version :: string
  cg_Keys :: "Keyring option"
  cg_MaxEncodedBytes :: int
  cg_MaxPositions :: int
  cg_MaxStringBytes :: int
  cg_MaxTTL :: int
  cg_Clock :: "'w clock option"
  cg_ReplayStore :: "'w ReplayStore option"

record 'w Codec =
  cd_version :: string
  cd_keys :: Keyring
  cd_maxEncodedBytes :: int
  cd_maxPositions :: int
  cd_maxStringBytes :: int
  cd_maxTTL :: int
  cd_clock :: "'w clock"
  cd_replayStore :: "'w ReplayStore option"
  cd_entropy :: "'w entropy"

text \<open>\<open>timeNow\<close> and \<open>randReader\<close> are \<open>time.Now\<close> and \<open>rand.Reader\<close>.\<close>

definition NewCodec :: "'w clock \<Rightarrow> 'w entropy \<Rightarrow> 'w Config \<Rightarrow> cursor_error + 'w Codec" where
  "NewCodec timeNow randReader config =
     (if \<not> validKeyID (cg_Version config) \<or> cg_Keys config = None \<or> cg_MaxEncodedBytes config \<le> 0 \<or>
         cg_MaxPositions config \<le> 0 \<or> cg_MaxTTL config \<le> 0
      then Inl ErrInvalid
      else
        (case cg_Keys config of
           None \<Rightarrow> Inl ErrInvalid
         | Some keys \<Rightarrow>
             if activeKey keys = None then Inl ErrInvalid
             else
               Inr \<lparr>cd_version = cg_Version config, cd_keys = keys,
                    cd_maxEncodedBytes = cg_MaxEncodedBytes config,
                    cd_maxPositions = cg_MaxPositions config,
                    cd_maxStringBytes =
                      (if cg_MaxStringBytes config \<le> 0 then 256 else cg_MaxStringBytes config),
                    cd_maxTTL = cg_MaxTTL config,
                    cd_clock = (case cg_Clock config of None \<Rightarrow> timeNow | Some clock \<Rightarrow> clock),
                    cd_replayStore = cg_ReplayStore config, cd_entropy = randReader\<rparr>))"

definition SetClock :: "'w clock option \<Rightarrow> 'w Codec \<Rightarrow> 'w Codec" where
  "SetClock clock c = (case clock of None \<Rightarrow> c | Some f \<Rightarrow> c\<lparr>cd_clock := f\<rparr>)"

definition sat64 :: "int \<Rightarrow> int" where
  "sat64 x = (if x > maxInt then maxInt else if x < minInt then minInt else x)"

text \<open>The checks on one sort term and its position.\<close>

definition validPosition :: "'w Codec \<Rightarrow> SortTerm \<Rightarrow> Value \<Rightarrow> bool" where
  "validPosition c term' position \<longleftrightarrow>
     \<not> (length (st_Name term') = 0 \<or> int (length (st_Name term')) > cd_maxStringBytes c \<or>
        (st_Direction term' \<noteq> Ascending \<and> st_Direction term' \<noteq> Descending) \<or>
        (st_Nulls term' \<noteq> [] \<and> st_Nulls term' \<noteq> NullsFirst \<and> st_Nulls term' \<noteq> NullsLast) \<or>
        int (length (v_text position)) > cd_maxStringBytes c \<or> v_type position = [])"

definition validPayload :: "'w Codec \<Rightarrow> Payload \<Rightarrow> int \<Rightarrow> bool" where
  "validPayload c payload now \<longleftrightarrow>
     \<not> (length (pa_SchemaRevision payload) = 0 \<or>
        int (length (pa_SchemaRevision payload)) > cd_maxStringBytes c \<or>
        int (length (pa_Policy payload)) > cd_maxStringBytes c \<or>
        length (pa_Positions payload) = 0 \<or>
        int (length (pa_Positions payload)) > cd_maxPositions c \<or>
        length (pa_Positions payload) \<noteq> length (pa_Sorts payload) \<or>
        \<not> pa_ExpiresAt payload > now \<or> sat64 (pa_ExpiresAt payload - now) > cd_maxTTL c \<or>
        (pa_Direction payload \<noteq> CursorForward \<and> pa_Direction payload \<noteq> CursorBackward)) \<and>
     (\<forall>(term', position) \<in> set (zip (pa_Sorts payload) (pa_Positions payload)).
        validPosition c term' position)"

section \<open>The wire form\<close>

record wirePayload =
  wi_Version :: string
  wi_SchemaRevision :: string
  wi_Direction :: CursorDirection
  wi_Sorts :: "SortTerm list"
  wi_Positions :: "Value list"
  wi_ExpiresAt :: int
  wi_Policy :: string

text \<open>\<open>json.Marshal\<close> of a wire payload; an instant without a text is its only error.\<close>

definition wire_json :: "wirePayload \<Rightarrow> string \<Rightarrow> json" where
  "wire_json wire expires =
     JObj ([(''version'', JStr (wi_Version wire)),
            (''schema_revision'', JStr (wi_SchemaRevision wire)),
            (''direction'', JStr (wi_Direction wire)),
            (''sorts'', nil_list sort_json (wi_Sorts wire)),
            (''positions'', nil_list value_json (wi_Positions wire)),
            (''expires_at'', JStr expires)] @
           omit_empty ''policy'' (wi_Policy wire))"

definition wire_marshal :: "instant_std \<Rightarrow> wirePayload \<Rightarrow> string option" where
  "wire_marshal ins wire =
     map_option (\<lambda>expires. render (wire_json wire expires)) (in_format ins (wi_ExpiresAt wire))"

text \<open>The zero instant of Go, the first of January of the year 1, counted from 1970.\<close>

definition zeroInstant :: int where
  "zeroInstant = - 62135596800 * 10 ^ 9"

definition zeroWire :: wirePayload where
  "zeroWire =
     \<lparr>wi_Version = [], wi_SchemaRevision = [], wi_Direction = [], wi_Sorts = [], wi_Positions = [],
      wi_ExpiresAt = zeroInstant, wi_Policy = []\<rparr>"

definition dec_instant :: "instant_std \<Rightarrow> int decoder" where
  "dec_instant ins j old =
     (case j of JScalar SNull \<Rightarrow> Some old | JScalar (SStr s) \<Rightarrow> in_parse ins s | _ \<Rightarrow> None)"

definition wire_fields :: "string list" where
  "wire_fields =
     [''version'', ''schema_revision'', ''direction'', ''sorts'', ''positions'', ''expires_at'',
      ''policy'']"

definition wire_field ::
  "'f float_std \<Rightarrow> 't time_std \<Rightarrow> instant_std \<Rightarrow> string \<Rightarrow> json \<Rightarrow> wirePayload \<Rightarrow> wirePayload option"
where
  "wire_field fl tm ins n j s =
     (if n = ''version'' then map_option (\<lambda>x. s\<lparr>wi_Version := x\<rparr>) (dec_string j (wi_Version s))
      else if n = ''schema_revision''
      then map_option (\<lambda>x. s\<lparr>wi_SchemaRevision := x\<rparr>) (dec_string j (wi_SchemaRevision s))
      else if n = ''direction''
      then map_option (\<lambda>x. s\<lparr>wi_Direction := x\<rparr>) (dec_string j (wi_Direction s))
      else if n = ''sorts''
      then map_option (\<lambda>x. s\<lparr>wi_Sorts := x\<rparr>) (dec_list (dec_sort True) zeroSort j (wi_Sorts s))
      else if n = ''positions''
      then map_option (\<lambda>x. s\<lparr>wi_Positions := x\<rparr>)
             (dec_list (dec_value fl tm) zeroValue j (wi_Positions s))
      else if n = ''expires_at''
      then map_option (\<lambda>x. s\<lparr>wi_ExpiresAt := x\<rparr>) (dec_instant ins j (wi_ExpiresAt s))
      else map_option (\<lambda>x. s\<lparr>wi_Policy := x\<rparr>) (dec_string j (wi_Policy s)))"

text \<open>
  \<open>Decode\<close> with unknown fields disallowed, then \<open>ensureJSONEnd\<close>: one value and nothing after it but
  white space, which is what a document is for \<open>json_parse\<close>.
\<close>

definition wire_decode ::
  "'f float_std \<Rightarrow> 't time_std \<Rightarrow> instant_std \<Rightarrow> string \<Rightarrow> wirePayload option" where
  "wire_decode fl tm ins plain =
     Option.bind (json_parse plain)
       (\<lambda>j. dec_struct True wire_fields (wire_field fl tm ins) j zeroWire)"

definition wire_of :: "'w Codec \<Rightarrow> Payload \<Rightarrow> wirePayload" where
  "wire_of c payload =
     \<lparr>wi_Version = cd_version c, wi_SchemaRevision = pa_SchemaRevision payload,
      wi_Direction = pa_Direction payload, wi_Sorts = pa_Sorts payload,
      wi_Positions = pa_Positions payload, wi_ExpiresAt = pa_ExpiresAt payload,
      wi_Policy = pa_Policy payload\<rparr>"

definition payload_of :: "wirePayload \<Rightarrow> Payload" where
  "payload_of wire =
     \<lparr>pa_SchemaRevision = wi_SchemaRevision wire, pa_Direction = wi_Direction wire,
      pa_Sorts = wi_Sorts wire, pa_Positions = wi_Positions wire,
      pa_ExpiresAt = wi_ExpiresAt wire, pa_Policy = wi_Policy wire\<rparr>"

section \<open>Encode\<close>

definition nonceSize :: nat where "nonceSize = 12"
definition overhead :: nat where "overhead = 16"

text \<open>\<open>newAEAD\<close> fails on a key that is not of an AES size.\<close>

definition newAEAD :: "string \<Rightarrow> bool" where
  "newAEAD secret \<longleftrightarrow> length secret \<in> {16, 24, 32}"

definition Encode ::
  "crypto \<Rightarrow> instant_std \<Rightarrow> 'w Codec \<Rightarrow> Payload \<Rightarrow> 'w \<Rightarrow> (cursor_error + string) \<times> 'w" where
  "Encode cr ins c payload w =
     (let (now, w) = cd_clock c w in
      if \<not> validPayload c payload now then (Inl ErrInvalid, w)
      else
        (case activeKey (cd_keys c) of
           None \<Rightarrow> (Inl ErrInvalid, w)
         | Some (keyID, secret) \<Rightarrow>
             (case wire_marshal ins (wire_of c payload) of
                None \<Rightarrow> (Inl ErrInvalid, w)
              | Some plain \<Rightarrow>
                  if int (length plain) > cd_maxEncodedBytes c then (Inl ErrInvalid, w)
                  else if \<not> newAEAD secret then (Inl ErrInvalid, w)
                  else
                    let (random, w) = cd_entropy c nonceSize w in
                    (case random of
                       None \<Rightarrow> (Inl ErrInvalid, w)
                     | Some nonce \<Rightarrow>
                         let aad = cd_version c @ ''.'' @ keyID;
                             sealed = nonce @ cr_seal cr secret nonce plain aad;
                             token = aad @ ''.'' @ base64_encode sealed
                         in if int (length token) > cd_maxEncodedBytes c
                            then (Inl ErrInvalid, w) else (Inr token, w)))))"

section \<open>Decode\<close>

text \<open>The part of \<open>DecodeContext\<close> that looks at the token alone, up to the opened plain text.\<close>

definition authenticate :: "crypto \<Rightarrow> 'w Codec \<Rightarrow> string \<Rightarrow> cursor_error + string" where
  "authenticate cr c token =
     (if token = [] then Inl ErrInvalid
      else if int (length token) > cd_maxEncodedBytes c then Inl ErrInvalid
      else
        (case split_on CHR ''.'' token of
           [version, keyID, encoded] \<Rightarrow>
             if version \<noteq> cd_version c then Inl ErrVersion
             else
               (case keyring_key (cd_keys c) keyID of
                  None \<Rightarrow> Inl ErrInvalid
                | Some secret \<Rightarrow>
                    (case base64_decode encoded of
                       None \<Rightarrow> Inl ErrInvalid
                     | Some sealed \<Rightarrow>
                         if \<not> newAEAD secret then Inl ErrInvalid
                         else if length sealed < nonceSize + overhead then Inl ErrInvalid
                         else
                           (case cr_open cr secret (take nonceSize sealed) (drop nonceSize sealed)
                                   (version @ ''.'' @ keyID) of
                              None \<Rightarrow> Inl ErrInvalid
                            | Some plain \<Rightarrow> Inr plain)))
         | _ \<Rightarrow> Inl ErrInvalid))"

text \<open>\<open>equalSorts\<close> compares the terms one by one.\<close>

definition equalSorts :: "SortTerm list \<Rightarrow> SortTerm list \<Rightarrow> bool" where
  "equalSorts left right \<longleftrightarrow>
     length left = length right \<and> (\<forall>(l, r) \<in> set (zip left right). l = r)"

text \<open>The checks on an opened payload, at a reading of the clock.\<close>

definition checkWire :: "'w Codec \<Rightarrow> string \<Rightarrow> SortTerm list \<Rightarrow> int \<Rightarrow> wirePayload \<Rightarrow> cursor_error option"
where
  "checkWire c expectedSchema expectedSorts now wire =
     (if wi_Version wire \<noteq> cd_version c \<or> \<not> validPayload c (payload_of wire) now
      then (if \<not> wi_ExpiresAt wire > now then Some ErrExpired else Some ErrInvalid)
      else if wi_SchemaRevision wire \<noteq> expectedSchema then Some ErrSchema
      else if \<not> equalSorts (wi_Sorts wire) expectedSorts then Some ErrSort
      else None)"

text \<open>The replay policy: the context is asked again before the store, and once more on a refusal.\<close>

definition consume ::
  "crypto \<Rightarrow> 'w Codec \<Rightarrow> 'w context' \<Rightarrow> string \<Rightarrow> int \<Rightarrow> 'w \<Rightarrow> cursor_error option \<times> 'w" where
  "consume cr c ctx token expires w =
     (case cd_replayStore c of
        None \<Rightarrow> (None, w)
      | Some store \<Rightarrow>
          let (cancelled, w) = ctx w in
          (case cancelled of
             Some err \<Rightarrow> (Some (ErrContext err), w)
           | None \<Rightarrow>
               let (accepted, w) = store (cr_sha256 cr token) expires w in
               if accepted then (None, w)
               else
                 let (cancelled, w) = ctx w in
                 (case cancelled of
                    Some err \<Rightarrow> (Some (ErrContext err), w)
                  | None \<Rightarrow> (Some ErrReplay, w))))"

definition DecodeContext ::
  "'f float_std \<Rightarrow> 't time_std \<Rightarrow> instant_std \<Rightarrow> crypto \<Rightarrow> 'w Codec \<Rightarrow> 'w context' option \<Rightarrow> string \<Rightarrow>
   string \<Rightarrow> SortTerm list \<Rightarrow> 'w \<Rightarrow> (cursor_error + Payload) \<times> 'w" where
  "DecodeContext fl tm ins cr c context token expectedSchema expectedSorts w =
     (case context of
        None \<Rightarrow> (Inl ErrInvalid, w)
      | Some ctx \<Rightarrow>
          let (cancelled, w) = ctx w in
          (case cancelled of
             Some err \<Rightarrow> (Inl (ErrContext err), w)
           | None \<Rightarrow>
               (case authenticate cr c token of
                  Inl err \<Rightarrow> (Inl err, w)
                | Inr plain \<Rightarrow>
                    (case wire_decode fl tm ins plain of
                       None \<Rightarrow> (Inl ErrInvalid, w)
                     | Some wire \<Rightarrow>
                         let (now, w) = cd_clock c w in
                         (case checkWire c expectedSchema expectedSorts now wire of
                            Some err \<Rightarrow> (Inl err, w)
                          | None \<Rightarrow>
                              let (refused, w) = consume cr c ctx token (wi_ExpiresAt wire) w in
                              (case refused of
                                 Some err \<Rightarrow> (Inl err, w)
                               | None \<Rightarrow> (Inr (payload_of wire), w)))))))"

text \<open>\<open>context.Background\<close> is never cancelled.\<close>

definition background :: "'w context'" where
  "background w = (None, w)"

definition Decode ::
  "'f float_std \<Rightarrow> 't time_std \<Rightarrow> instant_std \<Rightarrow> crypto \<Rightarrow> 'w Codec \<Rightarrow> string \<Rightarrow>
   string \<Rightarrow> SortTerm list \<Rightarrow> 'w \<Rightarrow> (cursor_error + Payload) \<times> 'w" where
  "Decode fl tm ins cr c token expectedSchema expectedSorts w =
     (if cd_replayStore c \<noteq> None then (Inl ErrInvalid, w)
      else DecodeContext fl tm ins cr c (Some background) token expectedSchema expectedSorts w)"

text \<open>\<open>DecodeCursor\<close> is the codec as a \<open>CursorDecoder\<close> of the compiler; the compiler drops the error.\<close>

definition error_text :: "cursor_error \<Rightarrow> string" where
  "error_text e =
     (case e of
        ErrInvalid \<Rightarrow> ''cursor is invalid'' | ErrExpired \<Rightarrow> ''cursor has expired''
      | ErrVersion \<Rightarrow> ''cursor version is not supported''
      | ErrSchema \<Rightarrow> ''cursor schema does not match''
      | ErrSort \<Rightarrow> ''cursor sort does not match''
      | ErrReplay \<Rightarrow> ''cursor replay is not allowed'' | ErrContext err \<Rightarrow> err)"

definition DecodeCursor ::
  "'f float_std \<Rightarrow> 't time_std \<Rightarrow> instant_std \<Rightarrow> crypto \<Rightarrow> 'w Codec \<Rightarrow> 'w context' option \<Rightarrow>
   'w CursorDecoder" where
  "DecodeCursor fl tm ins cr c context = (\<lambda>token expectedSchema expectedSorts w.
     let (result, w) = DecodeContext fl tm ins cr c context token expectedSchema expectedSorts w
     in case result of
          Inl err \<Rightarrow> (Inl (error_text err), w)
        | Inr payload \<Rightarrow>
            (Inr \<lparr>cs_Direction = pa_Direction payload, cs_Positions = pa_Positions payload,
                  cs_Policy = pa_Policy payload\<rparr>, w))"

end
