(* ===== verification/CursorCorrect.thy ===== *)
theory CursorCorrect
  imports CursorCodec
begin

text \<open>
  Correctness of the cursor codec: the keyring invariant, the tokens of a codec and what opening one
  establishes, the wire round trip, and the replay policy.
\<close>

section \<open>Identifiers and keyrings\<close>

definition key_char :: "char \<Rightarrow> bool" where
  "key_char c \<longleftrightarrow> key_rune (byte c)"

lemma key_rune_ascii: "key_rune r \<Longrightarrow> r < 128"
  by (auto simp: key_rune_def)

lemma validKeyID_iff:
  "validKeyID value \<longleftrightarrow> value \<noteq> [] \<and> length value \<le> 64 \<and> (\<forall>c \<in> set value. key_char c)"
proof -
  have "(\<forall>(i, r) \<in> set (go_runes 0 value). key_rune r) \<longleftrightarrow>
      (\<forall>i < length value. key_rune (byte (value ! i)))"
    using go_runes_all_ascii [of "\<lambda>i. key_rune" 0 "value", OF key_rune_ascii] by simp
  then show ?thesis by (auto simp: validKeyID_def key_char_def all_set_conv_all_nth)
qed

lemma key_char_no_dot: "\<not> key_char CHR ''.''"
  by (simp add: key_char_def key_rune_def byte_def)

lemma validKeyID_no_dot: "validKeyID value \<Longrightarrow> CHR ''.'' \<notin> set value"
  using key_char_no_dot by (auto simp: validKeyID_iff)

lemma validKeyID_utf8: "validKeyID value \<Longrightarrow> valid_utf8 value"
  by (auto simp: validKeyID_iff key_char_def key_rune_def intro!: valid_utf8_ascii)

definition key_ok :: "Key \<Rightarrow> bool" where
  "key_ok key \<longleftrightarrow> validKeyID (ky_ID key) \<and> length (ky_Secret key) = 32"

definition keys_map :: "Key list \<Rightarrow> string \<rightharpoonup> string" where
  "keys_map ks = map_of (map (\<lambda>key. (ky_ID key, ky_Secret key)) ks)"

lemma collectKeys_iff:
  "collectKeys ks m = Some m' \<longleftrightarrow>
     (\<forall>key \<in> set ks. key_ok key \<and> ky_ID key \<notin> dom m) \<and> distinct (map ky_ID ks) \<and>
     m' = m ++ keys_map ks"
proof (induction ks m rule: collectKeys.induct)
  case (2 key rest keys)
  show ?case
  proof (cases "key_ok key \<and> keys (ky_ID key) = None")
    case True
    let ?m = "keys(ky_ID key \<mapsto> ky_Secret key)"
    have IH: "collectKeys rest ?m = Some m' \<longleftrightarrow>
        (\<forall>k \<in> set rest. key_ok k \<and> ky_ID k \<notin> dom ?m) \<and> distinct (map ky_ID rest) \<and>
        m' = ?m ++ keys_map rest"
      by (rule 2) (use True in \<open>simp_all add: key_ok_def\<close>)
    have fresh: "(\<forall>k \<in> set rest. key_ok k \<and> ky_ID k \<notin> dom ?m) \<longleftrightarrow>
        (\<forall>k \<in> set rest. key_ok k \<and> ky_ID k \<notin> dom keys) \<and> ky_ID key \<notin> ky_ID ` set rest"
      by (auto simp: image_iff)
    have merge: "?m ++ keys_map rest = keys ++ keys_map (key # rest)"
      if "ky_ID key \<notin> ky_ID ` set rest"
    proof -
      have "ky_ID key \<notin> dom (keys_map rest)"
        using that by (auto simp: keys_map_def dom_map_of_conv_image_fst)
      then show ?thesis by (simp add: keys_map_def map_add_upd_left)
    qed
    have run: "collectKeys (key # rest) keys = collectKeys rest ?m"
      using True by (simp add: key_ok_def)
    show ?thesis
    proof (cases "ky_ID key \<in> ky_ID ` set rest")
      case fresh_id: False
      then show ?thesis
        unfolding run IH fresh merge [OF fresh_id] using True by auto
    next
      case used: True
      then show ?thesis unfolding run IH fresh by simp
    qed
  next
    case False
    then show ?thesis by (auto simp: key_ok_def)
  qed
qed (simp add: keys_map_def eq_commute)

definition wf_keyring :: "Keyring \<Rightarrow> bool" where
  "wf_keyring k \<longleftrightarrow>
     kr_active k \<in> dom (kr_keys k) \<and>
     (\<forall>i secret. kr_keys k i = Some secret \<longrightarrow> validKeyID i \<and> length secret = 32)"

definition rotation_ok :: "Key \<Rightarrow> Key list \<Rightarrow> bool" where
  "rotation_ok active retained \<longleftrightarrow>
     (\<forall>key \<in> set (active # retained). key_ok key) \<and> distinct (map ky_ID (active # retained))"

lemma Rotate_result:
  "Rotate active retained k =
     (if rotation_ok active retained
      then (None, k\<lparr>kr_active := ky_ID active, kr_keys := keys_map (active # retained)\<rparr>)
      else (Some ErrInvalid, k))"
proof (cases "collectKeys (active # retained) Map.empty")
  case None
  have "\<not> rotation_ok active retained"
  proof
    assume "rotation_ok active retained"
    then have "collectKeys (active # retained) Map.empty = Some (keys_map (active # retained))"
      unfolding collectKeys_iff rotation_ok_def by simp
    with None show False by simp
  qed
  with None show ?thesis by (simp add: Rotate_def del: collectKeys.simps)
next
  case (Some m)
  then have "rotation_ok active retained \<and> m = keys_map (active # retained)"
    unfolding collectKeys_iff rotation_ok_def by simp
  with Some show ?thesis by (simp add: Rotate_def del: collectKeys.simps)
qed

lemma keys_map_Some:
  "keys_map ks i = Some secret \<Longrightarrow> \<exists>key \<in> set ks. ky_ID key = i \<and> ky_Secret key = secret"
  unfolding keys_map_def by (drule map_of_SomeD) auto

lemma rotated_wf:
  "rotation_ok active retained \<Longrightarrow> wf_keyring (k\<lparr>kr_active := ky_ID active,
     kr_keys := keys_map (active # retained)\<rparr>)"
  unfolding wf_keyring_def
proof (intro conjI allI impI)
  fix i secret
  assume ok: "rotation_ok active retained"
  assume "kr_keys (k\<lparr>kr_active := ky_ID active, kr_keys := keys_map (active # retained)\<rparr>) i = Some secret"
  then obtain key where "key \<in> set (active # retained)" "ky_ID key = i" "ky_Secret key = secret"
    using keys_map_Some [of "active # retained" i secret] by auto
  with ok show "validKeyID i" "length secret = 32"
    by (auto simp: rotation_ok_def key_ok_def)
qed (simp add: keys_map_def)

lemma Rotate_wf: "wf_keyring k \<Longrightarrow> wf_keyring (snd (Rotate active retained k))"
  by (simp add: Rotate_result rotated_wf)

lemma NewKeyring_wf: "NewKeyring active retained = Inr k \<Longrightarrow> wf_keyring k \<and> rotation_ok active retained"
  using rotated_wf [of active retained "\<lparr>kr_active = [], kr_keys = Map.empty\<rparr>"]
  by (auto simp: NewKeyring_def Rotate_result split: if_splits)

definition wf_codec :: "'w Codec \<Rightarrow> bool" where
  "wf_codec c \<longleftrightarrow>
     validKeyID (cd_version c) \<and> wf_keyring (cd_keys c) \<and> 0 < cd_maxEncodedBytes c \<and>
     0 < cd_maxPositions c \<and> 0 < cd_maxStringBytes c \<and> 0 < cd_maxTTL c"

lemma NewCodec_wf:
  assumes "NewCodec timeNow randReader config = Inr c"
    and "\<forall>k. cg_Keys config = Some k \<longrightarrow> wf_keyring k"
  shows "wf_codec c"
  using assms by (auto simp: NewCodec_def wf_codec_def split: if_splits option.splits)

lemma wf_active:
  assumes "wf_codec c"
  obtains secret where "activeKey (cd_keys c) = Some (kr_active (cd_keys c), secret)"
    and "kr_keys (cd_keys c) (kr_active (cd_keys c)) = Some secret"
    and "length secret = 32" and "validKeyID (kr_active (cd_keys c))"
  using assms that by (auto simp: wf_codec_def wf_keyring_def activeKey_def)

section \<open>Tokens\<close>

text \<open>The documented behaviour of an authenticated cipher.\<close>

definition aead_opens :: "crypto \<Rightarrow> bool" where
  "aead_opens cr \<longleftrightarrow>
     (\<forall>k n p a. cr_open cr k n (cr_seal cr k n p a) a = Some p \<and>
        length (cr_seal cr k n p a) = length p + overhead)"

definition aead_authentic :: "crypto \<Rightarrow> bool" where
  "aead_authentic cr \<longleftrightarrow>
     (\<forall>k n s p a. cr_open cr k n s a = Some p \<longrightarrow> s = cr_seal cr k n p a)"

text \<open>
  \<open>issued cr c token plain\<close>: the token carries \<open>plain\<close>, sealed under a key of the ring, its identifier
  and the protocol version authenticated with it.
\<close>

definition issued :: "crypto \<Rightarrow> 'w Codec \<Rightarrow> string \<Rightarrow> string \<Rightarrow> bool" where
  "issued cr c token plain \<longleftrightarrow>
     (\<exists>keyID secret encoded nonce.
        kr_keys (cd_keys c) keyID = Some secret \<and>
        token = cd_version c @ ''.'' @ keyID @ ''.'' @ encoded \<and>
        length nonce = nonceSize \<and>
        base64_decode encoded =
          Some (nonce @ cr_seal cr secret nonce plain (cd_version c @ ''.'' @ keyID)))"

lemma split_three:
  assumes "CHR ''.'' \<notin> set a" "CHR ''.'' \<notin> set b" "CHR ''.'' \<notin> set d"
  shows "split_on CHR ''.'' (a @ ''.'' @ b @ ''.'' @ d) = [a, b, d]"
  using assms split_join [of "[a, b, d]" "CHR ''.''"] by auto

lemma join_three: "split_on CHR ''.'' token = [a, b, d] \<Longrightarrow> token = a @ ''.'' @ b @ ''.'' @ d"
  using join_split [of "CHR ''.''" token] by simp

lemma authenticate_Inr:
  "authenticate cr c token = Inr plain \<longleftrightarrow>
     token \<noteq> [] \<and> int (length token) \<le> cd_maxEncodedBytes c \<and>
     (\<exists>keyID encoded secret sealed.
        split_on CHR ''.'' token = [cd_version c, keyID, encoded] \<and>
        kr_keys (cd_keys c) keyID = Some secret \<and> base64_decode encoded = Some sealed \<and>
        newAEAD secret \<and> nonceSize + overhead \<le> length sealed \<and>
        cr_open cr secret (take nonceSize sealed) (drop nonceSize sealed)
          (cd_version c @ ''.'' @ keyID) = Some plain)"
  by (auto simp: authenticate_def keyring_key_def split: list.splits option.splits if_splits)

lemma authenticate_issued:
  assumes "aead_authentic cr" and "authenticate cr c token = Inr plain"
  shows "issued cr c token plain"
proof -
  from assms(2) obtain keyID encoded secret sealed where
    parts: "split_on CHR ''.'' token = [cd_version c, keyID, encoded]"
    and key: "kr_keys (cd_keys c) keyID = Some secret"
    and sealed: "base64_decode encoded = Some sealed" "nonceSize + overhead \<le> length sealed"
    and opened: "cr_open cr secret (take nonceSize sealed) (drop nonceSize sealed)
      (cd_version c @ ''.'' @ keyID) = Some plain"
    unfolding authenticate_Inr by blast
  from assms(1) opened have "drop nonceSize sealed =
      cr_seal cr secret (take nonceSize sealed) plain (cd_version c @ ''.'' @ keyID)"
    unfolding aead_authentic_def by blast
  then have "base64_decode encoded = Some (take nonceSize sealed @
      cr_seal cr secret (take nonceSize sealed) plain (cd_version c @ ''.'' @ keyID))"
    using sealed(1) by (metis append_take_drop_id)
  moreover have "length (take nonceSize sealed) = nonceSize" using sealed(2) by simp
  ultimately show ?thesis
    unfolding issued_def using key join_three [OF parts] by blast
qed

lemma Encode_Inr:
  assumes "Encode cr ins c payload w = (Inr token, w')"
  shows "\<exists>now w1 keyID secret plain nonce.
    cd_clock c w = (now, w1) \<and> validPayload c payload now \<and>
    activeKey (cd_keys c) = Some (keyID, secret) \<and>
    wire_marshal ins (wire_of c payload) = Some plain \<and> newAEAD secret \<and>
    cd_entropy c nonceSize w1 = (Some nonce, w') \<and>
    token = cd_version c @ ''.'' @ keyID @ ''.'' @
      base64_encode (nonce @ cr_seal cr secret nonce plain (cd_version c @ ''.'' @ keyID)) \<and>
    int (length token) \<le> cd_maxEncodedBytes c"
proof -
  obtain now w1 where clock: "cd_clock c w = (now, w1)" by fastforce
  obtain random w2 where entropy: "cd_entropy c nonceSize w1 = (random, w2)" by fastforce
  show ?thesis
    using assms
    by (auto simp: Encode_def Let_def clock entropy split: if_splits option.splits)
qed

text \<open>A codec opens what it, or a codec with a ring that shares the key, has sealed.\<close>

lemma authenticate_encoded:
  assumes "aead_opens cr" and "validKeyID (cd_version c)" and "validKeyID keyID"
    and "kr_keys (cd_keys c) keyID = Some secret" and "newAEAD secret"
    and "length nonce = nonceSize"
    and token: "token = cd_version c @ ''.'' @ keyID @ ''.'' @
      base64_encode (nonce @ cr_seal cr secret nonce plain (cd_version c @ ''.'' @ keyID))"
    and "int (length token) \<le> cd_maxEncodedBytes c"
  shows "authenticate cr c token = Inr plain"
proof -
  let ?sealed = "nonce @ cr_seal cr secret nonce plain (cd_version c @ ''.'' @ keyID)"
  have "split_on CHR ''.'' token = [cd_version c, keyID, base64_encode ?sealed]"
    unfolding token
    by (intro split_three validKeyID_no_dot assms(2,3) base64_encode_no_dot)
  moreover have "token \<noteq> []" by (simp add: token)
  moreover have "nonceSize + overhead \<le> length ?sealed" "take nonceSize ?sealed = nonce"
    "drop nonceSize ?sealed = cr_seal cr secret nonce plain (cd_version c @ ''.'' @ keyID)"
    using assms(1,6) by (simp_all add: aead_opens_def)
  moreover have "cr_open cr secret nonce
      (cr_seal cr secret nonce plain (cd_version c @ ''.'' @ keyID)) (cd_version c @ ''.'' @ keyID) =
      Some plain"
    using assms(1) by (simp add: aead_opens_def)
  ultimately show ?thesis
    unfolding authenticate_Inr using assms(4,5,8) base64_decode_encode [of ?sealed] by simp
qed

section \<open>The wire form\<close>

definition utf8_payload :: "Payload \<Rightarrow> bool" where
  "utf8_payload p \<longleftrightarrow>
     valid_utf8 (pa_SchemaRevision p) \<and> valid_utf8 (pa_Policy p) \<and>
     (\<forall>t \<in> set (pa_Sorts p). valid_utf8 (st_Name t)) \<and>
     (\<forall>v \<in> set (pa_Positions p). valid_utf8 (v_text v))"

definition utf8_wire :: "wirePayload \<Rightarrow> bool" where
  "utf8_wire s \<longleftrightarrow>
     valid_utf8 (wi_Version s) \<and> valid_utf8 (wi_SchemaRevision s) \<and> valid_utf8 (wi_Direction s) \<and>
     (\<forall>t \<in> set (wi_Sorts s). utf8_sort t) \<and> (\<forall>v \<in> set (wi_Positions s). utf8_value v) \<and>
     valid_utf8 (wi_Policy s)"

text \<open>What the standard library documents of the text of an instant.\<close>

definition instant_texts :: "instant_std \<Rightarrow> bool" where
  "instant_texts ins \<longleftrightarrow>
     (\<forall>t s. in_format ins t = Some s \<longrightarrow> in_parse ins s = Some t \<and> valid_utf8 s)"

lemma clean_wire_keys [simp]:
  "sanitize ''version'' = ''version''" "sanitize ''schema_revision'' = ''schema_revision''"
  "sanitize ''sorts'' = ''sorts''" "sanitize ''expires_at'' = ''expires_at''"
  by (simp_all add: ascii_clean byte_def)

lemma clean_wire:
  "utf8_wire s \<Longrightarrow> valid_utf8 expires \<Longrightarrow> clean_json (wire_json s expires) = wire_json s expires"
  by (simp add: wire_json_def utf8_wire_def sanitize_valid clean_nil_list clean_sort clean_value
      clean_omit_empty)

lemma numbers_wire: "numbers_ok (wire_json s expires)"
  by (auto simp: wire_json_def token_ok_def numbers_nil_list)

lemma nesting_nil_list: "(\<forall>x \<in> set xs. nesting (f x) \<le> n) \<Longrightarrow> nesting (nil_list f xs) \<le> Suc n"
  unfolding nil_list_def using nesting_arr [of "map f xs" "Suc n"] by (cases xs) (auto simp del: nesting.simps(2))

lemma nesting_wire: "nesting (wire_json s expires) \<le> maxNesting"
proof -
  have sort: "nesting (sort_json t) \<le> 1" for t
    unfolding sort_json_def nesting_obj by (auto simp: omit_empty_def)
  have val: "nesting (value_json v) \<le> 1" for v
    unfolding value_json_def nesting_obj by auto
  have "nesting (nil_list sort_json (wi_Sorts s)) \<le> 2" "nesting (nil_list value_json (wi_Positions s)) \<le> 2"
    using nesting_nil_list [of "wi_Sorts s" sort_json 1] nesting_nil_list [of "wi_Positions s" value_json 1]
      sort val by (simp_all add: numeral_2_eq_2)
  then have "nesting (wire_json s expires) \<le> 4"
    unfolding wire_json_def nesting_obj by (auto simp: omit_empty_def)
  then show ?thesis by (simp add: maxNesting_def)
qed

lemma dec_sorts_json: "dec_list (dec_sort strict) zeroSort (nil_list sort_json ts) old = Some ts"
  by (rule dec_list_json) (simp add: dec_sort_json)

theorem wire_roundtrip:
  assumes "instant_texts ins" and "utf8_wire s" and "\<forall>v \<in> set (wi_Positions s). typed_value fl tm v"
    and "wire_marshal ins s = Some plain"
  shows "wire_decode fl tm ins plain = Some s"
proof -
  from assms(4) obtain expires where time: "in_format ins (wi_ExpiresAt s) = Some expires"
    and plain: "plain = render (wire_json s expires)"
    by (auto simp: wire_marshal_def)
  from assms(1) time have read: "in_parse ins expires = Some (wi_ExpiresAt s)" and "valid_utf8 expires"
    by (auto simp: instant_texts_def)
  then have "json_parse plain = Some (wire_json s expires)"
    using json_parse_render [OF numbers_wire nesting_wire] clean_wire [OF assms(2)] plain by simp
  then show ?thesis
    using dec_values_json [OF assms(3)] read
    by (simp add: wire_decode_def wire_json_def dec_struct_def wire_fields_def match_exact
        wire_field_def dec_sorts_json dec_instant_def zeroWire_def omit_empty_def)
qed

lemma payload_wire: "payload_of (wire_of c p) = p"
  by (simp add: payload_of_def wire_of_def)

text \<open>What a valid payload has in ASCII anyway.\<close>

lemma validPayload_utf8:
  assumes "validPayload c p now" and "utf8_payload p" and "validKeyID (cd_version c)"
    and "\<forall>v \<in> set (pa_Positions p). typed_value fl tm v"
  shows "utf8_wire (wire_of c p)"
proof -
  have ascii: "valid_utf8 []" "valid_utf8 Ascending" "valid_utf8 Descending" "valid_utf8 NullsFirst"
    "valid_utf8 NullsLast" "valid_utf8 CursorForward" "valid_utf8 CursorBackward"
    by (simp_all add: valid_utf8_ascii byte_def)
  have "utf8_sort t" if "t \<in> set (pa_Sorts p)" for t
  proof -
    from that obtain i where i: "i < length (pa_Sorts p)" "pa_Sorts p ! i = t"
      by (auto simp: in_set_conv_nth)
    from assms(1) have "length (pa_Positions p) = length (pa_Sorts p)"
      by (simp add: validPayload_def)
    with i have "(t, pa_Positions p ! i) \<in> set (zip (pa_Sorts p) (pa_Positions p))"
      by (force simp: set_zip)
    with assms(1) have "validPosition c t (pa_Positions p ! i)"
      unfolding validPayload_def by blast
    then have "st_Direction t = Ascending \<or> st_Direction t = Descending"
      "st_Nulls t = [] \<or> st_Nulls t = NullsFirst \<or> st_Nulls t = NullsLast"
      unfolding validPosition_def by blast+
    with ascii have "valid_utf8 (st_Direction t)" "valid_utf8 (st_Nulls t)"
      by (metis)+
    then show ?thesis using assms(2) that by (simp add: utf8_sort_def utf8_payload_def)
  qed
  moreover have "utf8_value v" if "v \<in> set (pa_Positions p)" for v
    using that assms(2,4) valid_type_clean
    by (auto simp: utf8_value_def utf8_payload_def typed_value_def sanitize_iff)
  moreover have "valid_utf8 (pa_Direction p)"
    using assms(1) ascii by (auto simp: validPayload_def)
  ultimately show ?thesis
    using assms(2) validKeyID_utf8 [OF assms(3)]
    by (auto simp: utf8_wire_def wire_of_def utf8_payload_def)
qed

lemma equalSorts_iff: "equalSorts left right \<longleftrightarrow> left = right"
  using list_all2_iff [of "(=)" left right] by (simp add: equalSorts_def list.rel_eq)

end
