(* ===== verification/CursorPolicy.thy ===== *)
theory CursorPolicy
  imports CursorCorrect CompileTrace
begin

text \<open>
  What an answer of \<open>DecodeContext\<close> means, and the codec as the cursor decoder of the compiler. The
  interface between the two is the locale \<open>sealed_decoder\<close>: a decoder that only answers with states
  that are sealed for the schema revision and the sorts it was asked about.
\<close>

section \<open>Decoding\<close>

lemma DecodeContext_unfold:
  "DecodeContext fl tm ins cr c (Some ctx) token expectedSchema expectedSorts w =
     (let (cancelled, w) = ctx w in
      case cancelled of
        Some err \<Rightarrow> (Inl (ErrContext err), w)
      | None \<Rightarrow>
          (case Option.bind (case authenticate cr c token of Inl e \<Rightarrow> None | Inr p \<Rightarrow> Some p)
                  (wire_decode fl tm ins) of
             None \<Rightarrow> (Inl (case authenticate cr c token of Inl e \<Rightarrow> e | Inr p \<Rightarrow> ErrInvalid), w)
           | Some wire \<Rightarrow>
               let (now, w) = cd_clock c w in
               (case checkWire c expectedSchema expectedSorts now wire of
                  Some err \<Rightarrow> (Inl err, w)
                | None \<Rightarrow>
                    let (refused, w) = consume cr c ctx token (wi_ExpiresAt wire) w in
                    (case refused of
                       Some err \<Rightarrow> (Inl err, w)
                     | None \<Rightarrow> (Inr (payload_of wire), w)))))"
  by (auto simp: DecodeContext_def Let_def split: option.split sum.split prod.split)

text \<open>The run of an accepted token.\<close>

lemma DecodeContext_Inr:
  assumes "DecodeContext fl tm ins cr c context token expectedSchema expectedSorts w = (Inr p, w')"
  shows "\<exists>ctx w1 plain wire now w2. context = Some ctx \<and> ctx w = (None, w1) \<and>
    authenticate cr c token = Inr plain \<and> wire_decode fl tm ins plain = Some wire \<and>
    cd_clock c w1 = (now, w2) \<and> checkWire c expectedSchema expectedSorts now wire = None \<and>
    consume cr c ctx token (wi_ExpiresAt wire) w2 = (None, w') \<and> p = payload_of wire"
proof -
  from assms obtain ctx where ctx: "context = Some ctx"
    by (auto simp: DecodeContext_def split: option.splits)
  obtain e w1 where w1: "ctx w = (e, w1)" by fastforce
  obtain now w2 where w2: "cd_clock c w1 = (now, w2)" by fastforce
  from assms show ?thesis
    by (auto simp: DecodeContext_def ctx w1 w2 split: option.splits sum.splits prod.splits)
qed

lemma checkWire_None:
  "checkWire c expectedSchema expectedSorts now wire = None \<longleftrightarrow>
     wi_Version wire = cd_version c \<and> validPayload c (payload_of wire) now \<and>
     wi_SchemaRevision wire = expectedSchema \<and> wi_Sorts wire = expectedSorts"
  by (simp add: checkWire_def equalSorts_iff)

text \<open>Every position that the wire decoder returns is a typed value.\<close>

lemma those_set: "those xs = Some ys \<Longrightarrow> y \<in> set ys \<Longrightarrow> Some y \<in> set xs"
  by (induction xs arbitrary: ys) (auto split: option.splits)

lemma dec_list_set:
  assumes "dec_list dec zero j old = Some xs" and "x \<in> set xs"
  obtains v where "dec v zero = Some x"
  using assms those_set
  by (fastforce simp: dec_list_def split: json.splits scalar.splits)

lemma dec_members_invariant:
  assumes "dec_members strict names field ms s = Some s'" and "P s"
    and "\<And>n j s s'. field n j s = Some s' \<Longrightarrow> P s \<Longrightarrow> P s'"
  shows "P s'"
  using assms
proof (induction strict names field ms s rule: dec_members.induct)
  case (2 strict names field k v ms s)
  show ?case
  proof (cases "match_field names k")
    case None
    with 2 show ?thesis by (simp split: if_splits)
  next
    case (Some n)
    with 2(3) obtain s1 where s1: "field n v s = Some s1"
      and rest: "dec_members strict names field ms s1 = Some s'"
      by (auto split: bind_splits)
    show ?thesis by (rule 2(2) [OF Some s1 rest 2(5) [OF s1 2(4)] 2(5)])
  qed
qed simp

lemma dec_struct_cases:
  "dec_struct strict names field j old = Some s \<Longrightarrow>
   s = old \<or> (\<exists>ms. dec_members strict names field ms old = Some s)"
  by (auto simp: dec_struct_def split: json.splits scalar.splits)

lemma if_SomeE:
  "(if b then x else y) = Some z \<Longrightarrow> (b \<Longrightarrow> x = Some z \<Longrightarrow> R) \<Longrightarrow> (\<not> b \<Longrightarrow> y = Some z \<Longrightarrow> R) \<Longrightarrow> R"
  by (cases b) auto

lemma map_SomeE: "map_option f x = Some z \<Longrightarrow> (\<And>y. x = Some y \<Longrightarrow> z = f y \<Longrightarrow> R) \<Longrightarrow> R"
  by (cases x) auto

lemma wire_field_positions:
  assumes "wire_field fl tm ins n j s = Some s'" and "n \<noteq> ''positions''"
  shows "wi_Positions s' = wi_Positions s"
  using assms unfolding wire_field_def by (elim if_SomeE; elim map_SomeE; simp)

lemma wire_positions_typed:
  assumes "wire_decode fl tm ins plain = Some wire" and "v \<in> set (wi_Positions wire)"
  shows "typed_value fl tm v"
proof -
  let ?P = "\<lambda>s. \<forall>v \<in> set (wi_Positions s). typed_value fl tm v"
  have step: "?P s'" if run: "wire_field fl tm ins n j s = Some s'" and s: "?P s" for n j s s'
  proof (cases "n = ''positions''")
    case True
    with run obtain xs where list: "dec_list (dec_value fl tm) zeroValue j (wi_Positions s) = Some xs"
      and s': "s' = s\<lparr>wi_Positions := xs\<rparr>"
      by (auto simp: wire_field_def)
    have "typed_value fl tm v" if "v \<in> set xs" for v
    proof -
      from list that obtain j' where "dec_value fl tm j' zeroValue = Some v" by (rule dec_list_set)
      then show ?thesis using dec_value_typed by (simp add: typed_value_def)
    qed
    then show ?thesis by (simp add: s')
  next
    case False
    with run have "wi_Positions s' = wi_Positions s" by (rule wire_field_positions)
    with s show ?thesis by simp
  qed
  have zero: "?P zeroWire" by (simp add: zeroWire_def)
  from assms(1) obtain j where
    "dec_struct True wire_fields (wire_field fl tm ins) j zeroWire = Some wire"
    by (auto simp: wire_decode_def split: bind_splits)
  from dec_struct_cases [OF this] consider "wire = zeroWire"
    | ms where "dec_members True wire_fields (wire_field fl tm ins) ms zeroWire = Some wire"
    by blast
  then have "?P wire"
  proof cases
    case 1
    with zero show ?thesis by simp
  next
    case 2
    then show ?thesis by (rule dec_members_invariant [where P = ?P, OF _ zero step])
  qed
  with assms(2) show ?thesis by blast
qed

text \<open>
  \<open>bound_to\<close>: the state comes from an opened token of the codec, of its version, for this revision and
  these sorts, unexpired and within the lifetime bound at a reading of the codec's clock.
\<close>

definition bound_to where
  "bound_to fl tm ins cr c token expectedSchema expectedSorts p \<longleftrightarrow>
     (\<exists>plain wire w now w'. issued cr c token plain \<and> wire_decode fl tm ins plain = Some wire \<and>
        wi_Version wire = cd_version c \<and> p = payload_of wire \<and> cd_clock c w = (now, w') \<and>
        validPayload c p now \<and> pa_SchemaRevision p = expectedSchema \<and> pa_Sorts p = expectedSorts \<and>
        (\<forall>v \<in> set (pa_Positions p). typed_value fl tm v))"

lemma DecodeContext_bound:
  assumes "aead_authentic cr"
    and "DecodeContext fl tm ins cr c context token expectedSchema expectedSorts w = (Inr p, w')"
  shows "bound_to fl tm ins cr c token expectedSchema expectedSorts p"
proof -
  from DecodeContext_Inr [OF assms(2)] obtain ctx w1 plain wire now w2 where
    run: "authenticate cr c token = Inr plain" "wire_decode fl tm ins plain = Some wire"
      "cd_clock c w1 = (now, w2)" "p = payload_of wire"
    and ok: "checkWire c expectedSchema expectedSorts now wire = None"
    by blast
  have "issued cr c token plain" using authenticate_issued [OF assms(1) run(1)] .
  moreover have "validPayload c p now" using ok by (simp add: checkWire_None run(4))
  moreover have "\<forall>v \<in> set (pa_Positions p). typed_value fl tm v"
    using wire_positions_typed [OF run(2)] by (simp add: run(4) payload_of_def)
  moreover have "pa_SchemaRevision p = expectedSchema" "pa_Sorts p = expectedSorts"
    "wi_Version wire = cd_version c"
    using ok by (simp_all add: checkWire_None run(4) payload_of_def)
  ultimately show ?thesis unfolding bound_to_def using run(2-4) by blast
qed

text \<open>What a codec issued it decodes again, under the conditions of the round trip.\<close>

lemma decode_encoded:
  assumes "wf_codec c" and "aead_opens cr" and "instant_texts ins"
    and entropy: "\<And>n w r w'. cd_entropy c n w = (Some r, w') \<Longrightarrow> length r = n"
    and "utf8_payload p" and "\<forall>v \<in> set (pa_Positions p). typed_value fl tm v"
    and "Encode cr ins c p w = (Inr token, w1)"
    and "cd_replayStore c = None" and c': "c' = c\<lparr>cd_keys := ring, cd_clock := clock\<rparr>"
    and "kr_keys ring (kr_active (cd_keys c)) = kr_keys (cd_keys c) (kr_active (cd_keys c))"
    and "clock w2 = (now, w3)" and "now < pa_ExpiresAt p" and "pa_ExpiresAt p - now \<le> cd_maxTTL c"
  shows "Decode fl tm ins cr c' token (pa_SchemaRevision p) (pa_Sorts p) w2 = (Inr p, w3)"
proof -
  from Encode_Inr [OF assms(7)] obtain now0 keyID secret plain nonce v1 where
    valid: "validPayload c p now0" and active: "activeKey (cd_keys c) = Some (keyID, secret)"
    and plain: "wire_marshal ins (wire_of c p) = Some plain" and key: "newAEAD secret"
    and nonce: "cd_entropy c nonceSize v1 = (Some nonce, w1)"
    and token: "token = cd_version c @ ''.'' @ keyID @ ''.'' @
      base64_encode (nonce @ cr_seal cr secret nonce plain (cd_version c @ ''.'' @ keyID))"
    and short: "int (length token) \<le> cd_maxEncodedBytes c"
    by blast
  have version: "validKeyID (cd_version c)" using assms(1) by (simp add: wf_codec_def)
  have keyID: "keyID = kr_active (cd_keys c)" "kr_keys (cd_keys c) keyID = Some secret"
    using active by (auto simp: activeKey_def)
  have "validKeyID keyID" using assms(1) keyID by (auto simp: wf_codec_def wf_keyring_def)
  then have opened: "authenticate cr c' token = Inr plain"
    using authenticate_encoded [of cr c' keyID secret nonce token plain] assms(2,10) version keyID
      key entropy [OF nonce] short token
    by (simp add: c')
  have wire: "wire_decode fl tm ins plain = Some (wire_of c p)"
    by (rule wire_roundtrip [OF assms(3) validPayload_utf8 [OF valid assms(5) version assms(6)] _ plain])
      (use assms(6) in \<open>simp add: wire_of_def\<close>)
  have "sat64 (pa_ExpiresAt p - now) \<le> cd_maxTTL c"
    using assms(12,13) by (simp add: sat64_def maxInt_def minInt_def)
  with valid assms(12) have "validPayload c' p now"
    by (auto simp: validPayload_def validPosition_def c')
  then have "checkWire c' (pa_SchemaRevision p) (pa_Sorts p) now (wire_of c p) = None"
    by (simp add: checkWire_None payload_wire) (simp add: wire_of_def c')
  moreover have "cd_clock c' w2 = (now, w3)" "cd_replayStore c' = None"
    using assms(8,11) by (simp_all add: c')
  ultimately show ?thesis
    by (simp add: Decode_def DecodeContext_def background_def opened wire consume_def payload_wire)
qed

section \<open>Errors\<close>

lemma checkWire_cases:
  "checkWire c expectedSchema expectedSorts now wire \<in>
     {None, Some ErrExpired, Some ErrInvalid, Some ErrSchema, Some ErrSort}"
  by (simp add: checkWire_def)

lemma consume_cases:
  "fst (consume cr c ctx token expires w) \<in> {None, Some ErrReplay} \<union> range (Some \<circ> ErrContext)"
  by (auto simp: consume_def Let_def split: option.splits prod.splits)

lemma authenticate_errors:
  "authenticate cr c token = Inl e \<Longrightarrow> e = ErrInvalid \<or>
     (e = ErrVersion \<and> (\<exists>v k s. split_on CHR ''.'' token = [v, k, s] \<and> v \<noteq> cd_version c))"
  by (auto simp: authenticate_def split: if_splits list.splits option.splits)

text \<open>Only the replay policy looks at the store.\<close>

lemma authenticate_store: "authenticate cr (c\<lparr>cd_replayStore := store\<rparr>) token = authenticate cr c token"
  by (auto simp: authenticate_def split: list.split option.split)

lemma checkWire_store:
  "checkWire (c\<lparr>cd_replayStore := store\<rparr>) expectedSchema expectedSorts now wire =
     checkWire c expectedSchema expectedSorts now wire"
  by (simp add: checkWire_def validPayload_def validPosition_def)

section \<open>The codec as a decoder of the compiler\<close>

locale sealed_decoder =
  fixes decode :: "'w CursorDecoder"
    and sealed :: "string \<Rightarrow> string \<Rightarrow> SortTerm list \<Rightarrow> CursorState \<Rightarrow> bool"
  assumes decode_sealed:
    "decode token revision sorts w = (Inr state, w') \<Longrightarrow> sealed token revision sorts state"
begin

text \<open>The cursor state of a compiled plan is sealed for the plan's own revision and sorts.\<close>

lemma plan_cursor_sealed:
  assumes "wf_schema schema" and "b_MaxCost (sc_bounds schema) \<le> maxInt"
    and "co_CursorDecoder options = Some decode"
    and "Compile (Some schema) request options w = (Inr plan, w', trace)"
    and "pl_cursor plan = Some state"
  shows "\<exists>token \<in> {pg_After (rq_Page request), pg_Before (rq_Page request)}.
    sealed token (sc_revision schema) (pl_sorts plan) state"
proof -
  let ?page = "normalizePage schema (rq_Page request)"
  let ?e = "snd (asked_env schema request options w)"
  from assms(4) have plan: "plan = spec_plan schema (co_MandatoryConstraints options) request
      (fst (decoded_env schema request options w))"
    by (simp add: Compile_Inr [OF assms(1,2)])
  then have sorts: "pl_sorts plan = final_sorts schema request"
    and decoded: "fst (decoded_env schema request options w) = Some state"
    using assms(5) by (simp_all add: spec_plan_def Let_def)
  from decoded obtain token direction where
    token: "cursor_token ?page = Some (token, direction)"
    and state: "fst (decode_token options token (sc_revision schema) (final_sorts schema request) ?e)
      = Some state"
    by (auto simp: decoded_env_def cursor_step_def split: option.splits)
  obtain answer v where answer: "decode token (sc_revision schema) (final_sorts schema request)
      (en_world ?e) = (answer, v)" by fastforce
  with state have "answer = Inr state"
    by (auto simp: decode_token_def assms(3) Let_def split: sum.splits)
  with answer have "sealed token (sc_revision schema) (pl_sorts plan) state"
    using decode_sealed sorts by simp
  moreover have "token \<in> {pg_After (rq_Page request), pg_Before (rq_Page request)}"
    using token by (auto simp: cursor_token_def normalizePage_def Let_def split: if_splits)
  ultimately show ?thesis by blast
qed

end

definition state_bound where
  "state_bound fl tm ins cr c token revision sorts state \<longleftrightarrow>
     aead_authentic cr \<longrightarrow>
     (\<exists>p. bound_to fl tm ins cr c token revision sorts p \<and>
        state = \<lparr>cs_Direction = pa_Direction p, cs_Positions = pa_Positions p,
                 cs_Policy = pa_Policy p\<rparr>)"

interpretation codec: sealed_decoder "DecodeCursor fl tm ins cr c cx"
  "state_bound fl tm ins cr c"
  for fl :: "'f float_std" and tm :: "'t time_std" and ins :: instant_std and cr :: crypto
    and c :: "'w Codec" and cx
proof unfold_locales
  fix token revision sorts w state w'
  assume "DecodeCursor fl tm ins cr c cx token revision sorts w = (Inr state, w')"
  then obtain p where
    run: "DecodeContext fl tm ins cr c cx token revision sorts w = (Inr p, w')"
    and state: "state = \<lparr>cs_Direction = pa_Direction p, cs_Positions = pa_Positions p,
      cs_Policy = pa_Policy p\<rparr>"
    by (auto simp: DecodeCursor_def split: prod.splits sum.splits)
  show "state_bound fl tm ins cr c token revision sorts state"
    unfolding state_bound_def using DecodeContext_bound [OF _ run] state by blast
qed

end
