(* ===== verification/CursorProperties.thy ===== *)
theory CursorProperties
  imports CursorPolicy Sample
begin

text \<open>
  The properties of the cursor codec, each applied to a small codec: a cipher that appends a tag, a
  calendar that writes instants as decimal numbers, and a world in which time stands still.
\<close>

section \<open>A sample codec\<close>

definition sampleTag :: string where
  "sampleTag = replicate 16 CHR ''t''"

definition sampleCrypto :: crypto where
  "sampleCrypto =
     \<lparr>cr_seal = (\<lambda>k n p a. p @ sampleTag),
      cr_open = (\<lambda>k n s a.
        if 16 \<le> length s \<and> drop (length s - 16) s = sampleTag then Some (take (length s - 16) s)
        else None),
      cr_sha256 = (\<lambda>s. s)\<rparr>"

definition sampleInstant :: instant_std where
  "sampleInstant =
     \<lparr>in_format = (\<lambda>t. if 0 \<le> t then Some (dec_nat (nat t)) else None),
      in_parse = (\<lambda>s. map_option int (digits_value 0 s))\<rparr>"

definition sampleTypes :: "unit float_std" where
  "sampleTypes =
     \<lparr>fl_parse = (\<lambda>s. None), fl_format = (\<lambda>x. []), fl_isNaN = (\<lambda>x. False), fl_isInf = (\<lambda>x. False)\<rparr>"

definition sampleTimes :: "unit time_std" where
  "sampleTimes = \<lparr>tm_parse = (\<lambda>s. None), tm_format = (\<lambda>x. [])\<rparr>"

definition sampleKey :: Key where
  "sampleKey = \<lparr>ky_ID = ''k1'', ky_Secret = replicate 32 CHR ''s''\<rparr>"

definition sampleRing :: Keyring where
  "sampleRing = \<lparr>kr_active = ''k1'', kr_keys = keys_map [sampleKey]\<rparr>"

definition sampleCodec :: "'w Codec" where
  "sampleCodec =
     \<lparr>cd_version = ''v1'', cd_keys = sampleRing, cd_maxEncodedBytes = 4096, cd_maxPositions = 4,
      cd_maxStringBytes = 64, cd_maxTTL = 3600, cd_clock = (\<lambda>w. (1000, w)),
      cd_replayStore = None, cd_entropy = (\<lambda>n w. (Some (replicate n CHR ''n''), w))\<rparr>"

definition samplePayload :: Payload where
  "samplePayload =
     \<lparr>pa_SchemaRevision = ''v1'', pa_Direction = CursorForward,
      pa_Sorts =
        [\<lparr>st_Name = ''created'', st_Direction = Descending, st_Nulls = NullsLast\<rparr>,
         \<lparr>st_Name = ''id'', st_Direction = Ascending, st_Nulls = []\<rparr>],
      pa_Positions = [NullValue, StringValue ''a7''], pa_ExpiresAt = 2000, pa_Policy = []\<rparr>"

lemma sampleCrypto_laws: "aead_opens sampleCrypto" "aead_authentic sampleCrypto"
  unfolding aead_opens_def aead_authentic_def
  by (auto simp: sampleCrypto_def sampleTag_def overhead_def split: if_splits)
    (metis append_take_drop_id)

lemma sampleInstant_texts: "instant_texts sampleInstant"
  by (auto simp: instant_texts_def sampleInstant_def digits_value_dec_nat split: if_splits)

lemma sampleKey_ok: "key_ok sampleKey"
  by (simp add: key_ok_def sampleKey_def validKeyID_iff key_char_def key_rune_def byte_def)

lemma sampleRing_wf: "wf_keyring sampleRing"
  using sampleKey_ok
  by (simp add: wf_keyring_def sampleRing_def keys_map_def key_ok_def sampleKey_def)

lemma sampleCodec_wf: "wf_codec sampleCodec"
  using sampleRing_wf
  by (simp add: wf_codec_def sampleCodec_def validKeyID_iff key_char_def key_rune_def byte_def)

lemma samplePayload_ok: "utf8_payload samplePayload"
  "\<forall>v \<in> set (pa_Positions samplePayload). typed_value fl tm v"
  by (simp_all add: utf8_payload_def samplePayload_def StringValue_def NullValue_def valid_utf8_ascii byte_def
      typed_value_def validValueType_def validType_def canonicalValue_def)

definition sampleWire :: wirePayload where
  "sampleWire =
     \<lparr>wi_Version = ''v1'', wi_SchemaRevision = ''v1'', wi_Direction = CursorForward,
      wi_Sorts =
        [\<lparr>st_Name = ''created'', st_Direction = Descending, st_Nulls = NullsLast\<rparr>,
         \<lparr>st_Name = ''id'', st_Direction = Ascending, st_Nulls = []\<rparr>],
      wi_Positions = [NullValue, StringValue ''a7''], wi_ExpiresAt = 2000, wi_Policy = []\<rparr>"

definition samplePlain :: string where
  "samplePlain = render (wire_json sampleWire ''2000'')"

lemma sample_wire:
  "wire_of sampleCodec samplePayload = sampleWire"
  "wire_marshal sampleInstant sampleWire = Some samplePlain"
proof -
  have "dec_nat 2000 = ''2000''" by code_simp
  then show "wire_marshal sampleInstant sampleWire = Some samplePlain"
    by (simp add: wire_marshal_def samplePlain_def sampleInstant_def sampleWire_def)
qed (simp add: wire_of_def samplePayload_def sampleWire_def sampleCodec_def)

lemma samplePlain_length: "length samplePlain < 500"
proof -
  have plain: "quote_body s = s" if "\<forall>c \<in> set s. byte c < 128 \<and> escape_ascii c = [c]" for s
    using that by (induction s) (simp_all add: quote_with.simps(2))
  show ?thesis
    by (simp add: samplePlain_def render_def wire_json_def sampleWire_def nil_list_def
        omit_empty_def sort_json_def value_json_def StringValue_def NullValue_def member_tokens_def plain
        escape_ascii_def byte_def)
qed

definition sampleToken :: string where
  "sampleToken = ''v1.k1.'' @ base64_encode (replicate 12 CHR ''n'' @ samplePlain @ sampleTag)"

lemma sampleToken_length: "length sampleToken < 1000"
  using samplePlain_length
  by (simp add: sampleToken_def length_base64_encode sampleTag_def)

lemma sample_Encode:
  "Encode sampleCrypto sampleInstant sampleCodec samplePayload w = (Inr sampleToken, w)"
proof -
  have "validPayload sampleCodec samplePayload 1000"
    by (simp add: validPayload_def sampleCodec_def samplePayload_def validPosition_def sat64_def
        maxInt_def minInt_def StringValue_def NullValue_def)
  moreover have "activeKey (cd_keys sampleCodec) = Some (''k1'', ky_Secret sampleKey)"
    by (simp add: sampleCodec_def activeKey_def sampleRing_def keys_map_def sampleKey_def)
  ultimately show ?thesis
    using samplePlain_length sampleToken_length
    by (simp add: Encode_def sample_wire [unfolded sampleCodec_def] sampleCodec_def newAEAD_def
        sampleKey_def nonceSize_def sampleCrypto_def sampleToken_def)
qed

section \<open>Keyrings and codecs\<close>

text \<open>
  C23: a rotation keeps the keyring invariant (an active key among valid, 256-bit
  keys). It succeeds exactly when every key is valid and no identifier repeats; then the ring holds
  exactly the given keys, the first one active; a failure leaves the ring as it was.
\<close>

theorem Keyring_rotation:
  assumes "wf_keyring k" and "Rotate active retained k = (err, k')"
  shows "wf_keyring k' \<and> (err = None \<longleftrightarrow> rotation_ok active retained) \<and>
    (if err = None then kr_active k' = ky_ID active \<and> kr_keys k' = keys_map (active # retained)
     else k' = k)"
  using assms rotated_wf [of active retained k] by (auto simp: Rotate_result split: if_splits)

theorem Keyring_rotation_witness:
  "wf_keyring (snd (Rotate sampleKey [] sampleRing)) \<and> snd (Rotate sampleKey [sampleKey] sampleRing) = sampleRing"
  using Keyring_rotation [OF sampleRing_wf surjective_pairing, of sampleKey "[]"]
    Keyring_rotation [OF sampleRing_wf surjective_pairing, of sampleKey "[sampleKey]"]
  by (simp add: rotation_ok_def split: if_splits)

text \<open>
  A keyring and a codec that the constructors return satisfy the codec invariant,
  and changing the clock or rotating the ring keeps it.
\<close>

theorem Codec_invariant:
  assumes "NewKeyring active retained = Inr k" and "cg_Keys config = Some k"
    and "NewCodec timeNow randReader config = Inr c"
  shows "wf_codec c \<and> wf_codec (SetClock clock c) \<and>
    wf_codec (c\<lparr>cd_keys := snd (Rotate active' retained' (cd_keys c))\<rparr>)"
proof -
  have "wf_keyring k" using NewKeyring_wf [OF assms(1)] by blast
  with assms(2,3) have c: "wf_codec c" by (intro NewCodec_wf) auto
  then have "wf_keyring (snd (Rotate active' retained' (cd_keys c)))"
    by (intro Rotate_wf) (simp add: wf_codec_def)
  with c show ?thesis by (simp add: wf_codec_def SetClock_def split: option.split)
qed

definition sampleConfig' :: "unit Config" where
  "sampleConfig' =
     \<lparr>cg_Version = ''v1'', cg_Keys = Some sampleRing, cg_MaxEncodedBytes = 4096,
      cg_MaxPositions = 4, cg_MaxStringBytes = 0, cg_MaxTTL = 3600, cg_Clock = None,
      cg_ReplayStore = None\<rparr>"

theorem Codec_invariant_witness:
  "\<exists>c. NewCodec (\<lambda>w. (0, w)) (\<lambda>n w. (None, w)) sampleConfig' = Inr c \<and> wf_codec c \<and>
     cd_maxStringBytes c = 256"
proof -
  have ring: "NewKeyring sampleKey [] = Inr sampleRing"
    using sampleKey_ok
    by (simp add: NewKeyring_def Rotate_result rotation_ok_def sampleRing_def sampleKey_def)
  have keys: "cg_Keys sampleConfig' = Some sampleRing" by (simp add: sampleConfig'_def)
  have "activeKey sampleRing \<noteq> None" "validKeyID ''v1''"
    by (simp_all add: activeKey_def sampleRing_def keys_map_def sampleKey_def validKeyID_iff
        key_char_def key_rune_def byte_def)
  then obtain c where c: "NewCodec (\<lambda>w. (0, w)) (\<lambda>n w. (None, w)) sampleConfig' = Inr c"
    and "cd_maxStringBytes c = 256"
    by (simp add: NewCodec_def sampleConfig'_def)
  moreover have "wf_codec c"
    using Codec_invariant [OF ring keys c] by blast
  ultimately show ?thesis by blast
qed

section \<open>Encoding and decoding\<close>



text \<open>
  C8: a payload that \<open>DecodeContext\<close> returns was sealed, under the codec's version
  and a key of its ring, into the presented token; it is the payload of an intact wire form, valid
  and unexpired at a reading of the clock, made for the expected revision and the expected sorts,
  and each of its positions is a typed value. This needs that the cipher opens only what was sealed.
\<close>

theorem Cursor_authentic:
  assumes "aead_authentic cr"
    and "DecodeContext fl tm ins cr c ctx token expectedSchema expectedSorts w = (Inr p, w')"
  shows "\<exists>plain wire v now v'. issued cr c token plain \<and> wire_decode fl tm ins plain = Some wire \<and>
    wi_Version wire = cd_version c \<and> p = payload_of wire \<and> cd_clock c v = (now, v') \<and>
    validPayload c p now \<and> pa_SchemaRevision p = expectedSchema \<and> pa_Sorts p = expectedSorts \<and>
    (\<forall>x \<in> set (pa_Positions p). typed_value fl tm x)"
  using DecodeContext_bound [OF assms] unfolding bound_to_def .

lemma sample_authenticate:
  "authenticate sampleCrypto sampleCodec sampleToken = Inr samplePlain"
proof (rule authenticate_encoded [where keyID = "''k1''" and secret = "ky_Secret sampleKey"
      and nonce = "replicate 12 CHR ''n''"])
  show "int (length sampleToken) \<le> cd_maxEncodedBytes sampleCodec"
    using sampleToken_length by (simp add: sampleCodec_def)
qed (use sampleKey_ok sampleCodec_wf sampleCrypto_laws in \<open>simp_all add: sampleCodec_def
    sampleRing_def keys_map_def sampleKey_def newAEAD_def nonceSize_def sampleToken_def
    sampleCrypto_def key_ok_def wf_codec_def\<close>)

lemma sample_wire_decode:
  "wire_decode sampleTypes sampleTimes sampleInstant samplePlain = Some sampleWire"
proof (rule wire_roundtrip [OF sampleInstant_texts _ _ sample_wire(2)])
  show "utf8_wire sampleWire"
    by (simp add: utf8_wire_def sampleWire_def utf8_sort_def utf8_value_def StringValue_def NullValue_def
        valid_utf8_ascii byte_def)
  show "\<forall>v \<in> set (wi_Positions sampleWire). typed_value sampleTypes sampleTimes v"
    using samplePayload_ok(2) by (simp add: sampleWire_def samplePayload_def)
qed

lemma sample_payload_of: "payload_of sampleWire = samplePayload"
  by (simp add: payload_of_def sampleWire_def samplePayload_def)

lemma sample_checkWire:
  "checkWire sampleCodec ''v1'' (pa_Sorts samplePayload) 1000 sampleWire = None"
proof -
  have "validPayload sampleCodec samplePayload 1000"
    by (simp add: validPayload_def sampleCodec_def samplePayload_def validPosition_def sat64_def
        maxInt_def minInt_def StringValue_def NullValue_def)
  then show ?thesis
    by (simp add: checkWire_None sample_payload_of)
      (simp add: sampleWire_def sampleCodec_def samplePayload_def)
qed

lemma sample_decoded_token:
  "DecodeContext sampleTypes sampleTimes sampleInstant sampleCrypto sampleCodec (Some background)
     sampleToken ''v1'' (pa_Sorts samplePayload) () = (Inr samplePayload, ())"
proof -
  have "cd_clock sampleCodec () = (1000, ())" "cd_replayStore (sampleCodec :: unit Codec) = None"
    by (simp_all add: sampleCodec_def)
  then show ?thesis
    by (simp add: DecodeContext_def background_def sample_authenticate sample_wire_decode
        sample_checkWire consume_def sample_payload_of)
qed

theorem Cursor_authentic_witness:
  "\<exists>plain. issued sampleCrypto (sampleCodec :: unit Codec) sampleToken plain"
  using Cursor_authentic [OF sampleCrypto_laws(2) sample_decoded_token] by blast

text \<open>
  C21: the error of a rejected token tells an outsider nothing about payloads: only a
  token that the codec's ring has sealed can be reported as expired, as made for another schema or
  another order, or as replayed, and an expired one really carries an expiry that is not after a
  reading of the clock. A version error means a token of three parts whose first is another version.
\<close>

theorem Cursor_errors:
  assumes "aead_authentic cr"
    and "DecodeContext fl tm ins cr c ctx token expectedSchema expectedSorts w = (Inl e, w')"
  shows "(e \<in> {ErrExpired, ErrSchema, ErrSort, ErrReplay} \<longrightarrow>
      (\<exists>plain wire. issued cr c token plain \<and> wire_decode fl tm ins plain = Some wire \<and>
        (e = ErrExpired \<longrightarrow> (\<exists>v now v'. cd_clock c v = (now, v') \<and> wi_ExpiresAt wire \<le> now)) \<and>
        (e = ErrSchema \<longrightarrow> wi_SchemaRevision wire \<noteq> expectedSchema) \<and>
        (e = ErrSort \<longrightarrow> wi_Sorts wire \<noteq> expectedSorts) \<and>
        (e = ErrReplay \<longrightarrow> cd_replayStore c \<noteq> None))) \<and>
    (e = ErrVersion \<longrightarrow>
      (\<exists>v k s. split_on CHR ''.'' token = [v, k, s] \<and> v \<noteq> cd_version c))"
proof (cases ctx)
  case None
  with assms(2) show ?thesis by (simp add: DecodeContext_def)
next
  case (Some cx)
  obtain cancelled w1 where w1: "cx w = (cancelled, w1)" by fastforce
  show ?thesis
  proof (cases "cancelled = None \<and> (\<exists>plain wire. authenticate cr c token = Inr plain \<and>
      wire_decode fl tm ins plain = Some wire)")
    case False
    then have "(\<exists>err. e = ErrContext err) \<or> e = ErrInvalid \<or> authenticate cr c token = Inl e"
      using assms(2)
      by (auto simp: DecodeContext_def Some w1 split: option.splits sum.splits)
    then show ?thesis using authenticate_errors [of cr c token e] by auto
  next
    case True
    then obtain plain wire where opened: "cancelled = None" "authenticate cr c token = Inr plain"
      "wire_decode fl tm ins plain = Some wire" by blast
    have "issued cr c token plain" using authenticate_issued [OF assms(1) opened(2)] .
    moreover obtain now w2 where w2: "cd_clock c w1 = (now, w2)" by fastforce
    moreover have "checkWire c expectedSchema expectedSorts now wire = Some e \<or>
        fst (consume cr c cx token (wi_ExpiresAt wire) w2) = Some e"
      using assms(2) by (auto simp: DecodeContext_def Some w1 opened w2 split: option.splits prod.splits)
    then have "e \<noteq> ErrVersion \<and> (e = ErrExpired \<longrightarrow> wi_ExpiresAt wire \<le> now) \<and>
        (e = ErrSchema \<longrightarrow> wi_SchemaRevision wire \<noteq> expectedSchema) \<and>
        (e = ErrSort \<longrightarrow> wi_Sorts wire \<noteq> expectedSorts) \<and>
        (e = ErrReplay \<longrightarrow> cd_replayStore c \<noteq> None)"
      by (auto simp: checkWire_def equalSorts_iff consume_def Let_def split: if_splits option.splits
          prod.splits)
    ultimately show ?thesis using opened(3) w2 by blast
  qed
qed

lemma sample_wrong_schema:
  "DecodeContext sampleTypes sampleTimes sampleInstant sampleCrypto sampleCodec (Some background)
     sampleToken ''v2'' (pa_Sorts samplePayload) () = (Inl ErrSchema, ())"
proof -
  have "checkWire (sampleCodec :: unit Codec) ''v2'' (pa_Sorts samplePayload) 1000 sampleWire =
      Some ErrSchema"
    using sample_checkWire [where 'a = unit] by (auto simp: checkWire_def sampleWire_def split: if_splits)
  moreover have "cd_clock sampleCodec () = (1000, ())" by (simp add: sampleCodec_def)
  ultimately show ?thesis
    by (simp add: DecodeContext_def background_def sample_authenticate sample_wire_decode)
qed

theorem Cursor_errors_witness:
  "\<exists>plain. issued sampleCrypto (sampleCodec :: unit Codec) sampleToken plain"
  using Cursor_errors [OF sampleCrypto_laws(2) sample_wrong_schema] by blast

section \<open>Replay\<close>

text \<open>
  The replay store is consulted only about tokens that pass every other check.
  A token rejected for any reason but the replay policy (or a context cancelled while applying it)
  is rejected in the same way, leaving the same world, whatever store is configured.
\<close>

theorem Cursor_store_last:
  assumes "DecodeContext fl tm ins cr c ctx token expectedSchema expectedSorts w = (Inl e, w')"
    and "e \<noteq> ErrReplay" and "\<forall>err. e \<noteq> ErrContext err"
  shows "DecodeContext fl tm ins cr (c\<lparr>cd_replayStore := store\<rparr>) ctx token expectedSchema
    expectedSorts w = (Inl e, w')"
proof -
  have no: "fst (consume cr c cx token expires v) \<noteq> Some e" for cx expires v
    using consume_cases [of cr c cx token expires v] assms(2,3) by auto
  show ?thesis
    using assms(1) no
    by (auto simp: DecodeContext_def authenticate_store checkWire_store
        split: option.splits sum.splits prod.splits) (metis fst_conv)+
qed

theorem Cursor_store_last_witness:
  "DecodeContext sampleTypes sampleTimes sampleInstant sampleCrypto
     (sampleCodec\<lparr>cd_replayStore := Some (\<lambda>f e w. (True, w))\<rparr>) (Some background)
     sampleToken ''v2'' (pa_Sorts samplePayload) () = (Inl ErrSchema, ())"
  by (rule Cursor_store_last [OF sample_wrong_schema]) simp_all

text \<open>A store that accepts each fingerprint once; the world is the set of those it has seen.\<close>

definition once :: "string \<Rightarrow> int \<Rightarrow> string set \<Rightarrow> bool \<times> string set" where
  "once fingerprint expires seen = (fingerprint \<notin> seen, insert fingerprint seen)"

text \<open>
  C22: with such a store an accepted token is rejected when it is presented again. But
  the fingerprint is of the token's text, and the base64 decoder skips line feeds: the same token
  with a line feed at its end is accepted once more, with the same payload, whenever it fits the
  size bound and its fingerprint is a new one.
\<close>

theorem Cursor_replay:
  assumes "cd_replayStore c = Some once" and clock: "\<forall>seen. cd_clock c seen = (now, seen)"
    and "DecodeContext fl tm ins cr c (Some background) token expectedSchema expectedSorts seen =
      (Inr p, seen')"
  shows "DecodeContext fl tm ins cr c (Some background) token expectedSchema expectedSorts seen' =
      (Inl ErrReplay, seen') \<and>
    (int (length token) < cd_maxEncodedBytes c \<and> cr_sha256 cr (token @ [CHR 0x0A]) \<notin> seen' \<longrightarrow>
     fst (DecodeContext fl tm ins cr c (Some background) (token @ [CHR 0x0A]) expectedSchema
       expectedSorts seen') = Inr p)"
proof -
  from DecodeContext_Inr [OF assms(3)] clock obtain plain wire where
    opened: "authenticate cr c token = Inr plain" "wire_decode fl tm ins plain = Some wire"
    and ok: "checkWire c expectedSchema expectedSorts now wire = None"
    and used: "consume cr c background token (wi_ExpiresAt wire) seen = (None, seen')"
    and p: "p = payload_of wire"
    by (auto simp: background_def)
  have seen': "seen' = insert (cr_sha256 cr token) seen"
    using used by (auto simp: consume_def assms(1) background_def once_def split: if_splits)
  have first: "consume cr c background token (wi_ExpiresAt wire) seen' = (Some ErrReplay, seen')"
    by (simp add: consume_def assms(1) background_def once_def seen' insert_absorb)
  have again: "fst (consume cr c background (token @ [CHR 0x0A]) (wi_ExpiresAt wire) seen') = None"
    if "cr_sha256 cr (token @ [CHR 0x0A]) \<notin> seen'"
    using that by (simp add: consume_def assms(1) background_def once_def)
  have variant: "authenticate cr c (token @ [CHR 0x0A]) = Inr plain"
    if "int (length token) < cd_maxEncodedBytes c"
  proof -
    from opened(1) obtain keyID encoded secret sealed where
      parts: "split_on CHR ''.'' token = [cd_version c, keyID, encoded]"
      and rest: "kr_keys (cd_keys c) keyID = Some secret" "base64_decode encoded = Some sealed"
        "newAEAD secret" "nonceSize + overhead \<le> length sealed"
        "cr_open cr secret (take nonceSize sealed) (drop nonceSize sealed)
          (cd_version c @ ''.'' @ keyID) = Some plain"
      unfolding authenticate_Inr by blast
    have nodots: "CHR ''.'' \<notin> set (cd_version c)" "CHR ''.'' \<notin> set keyID" "CHR ''.'' \<notin> set encoded"
      using split_on_parts [of _ "CHR ''.''" token] by (simp_all add: parts)
    have "split_on CHR ''.'' (cd_version c @ ''.'' @ keyID @ ''.'' @ (encoded @ [CHR 0x0A])) =
        [cd_version c, keyID, encoded @ [CHR 0x0A]]"
      using nodots by (intro split_three) simp_all
    then have "split_on CHR ''.'' (token @ [CHR 0x0A]) = [cd_version c, keyID, encoded @ [CHR 0x0A]]"
      using join_three [OF parts] by simp
    moreover have "base64_decode (encoded @ [CHR 0x0A]) = base64_decode encoded"
      by (simp add: base64_decode_def byte_def)
    ultimately show ?thesis
      unfolding authenticate_Inr using rest that by auto
  qed
  show ?thesis
  proof (intro conjI impI)
    show "DecodeContext fl tm ins cr c (Some background) token expectedSchema expectedSorts seen' =
        (Inl ErrReplay, seen')"
      using clock first by (simp add: DecodeContext_def background_def [of seen'] opened ok)
  next
    assume "int (length token) < cd_maxEncodedBytes c \<and> cr_sha256 cr (token @ [CHR 0x0A]) \<notin> seen'"
    with variant again obtain v where "authenticate cr c (token @ [CHR 0x0A]) = Inr plain"
      "consume cr c background (token @ [CHR 0x0A]) (wi_ExpiresAt wire) seen' = (None, v)"
      by (metis prod.collapse)
    then show "fst (DecodeContext fl tm ins cr c (Some background) (token @ [CHR 0x0A])
        expectedSchema expectedSorts seen') = Inr p"
      using clock by (simp add: DecodeContext_def background_def [of seen'] opened(2) ok p)
  qed
qed

definition onceCodec :: "string set Codec" where
  "onceCodec = sampleCodec\<lparr>cd_replayStore := Some once\<rparr>"

theorem Cursor_replay_witness:
  "\<exists>seen'. DecodeContext sampleTypes sampleTimes sampleInstant sampleCrypto onceCodec
      (Some background) sampleToken ''v1'' (pa_Sorts samplePayload) {} = (Inr samplePayload, seen') \<and>
    DecodeContext sampleTypes sampleTimes sampleInstant sampleCrypto onceCodec
      (Some background) sampleToken ''v1'' (pa_Sorts samplePayload) seen' = (Inl ErrReplay, seen') \<and>
    fst (DecodeContext sampleTypes sampleTimes sampleInstant sampleCrypto onceCodec
      (Some background) (sampleToken @ [CHR 0x0A]) ''v1'' (pa_Sorts samplePayload) seen') =
      Inr samplePayload"
proof -
  have same: "authenticate sampleCrypto onceCodec sampleToken = Inr samplePlain"
    "checkWire onceCodec ''v1'' (pa_Sorts samplePayload) 1000 sampleWire = None"
    by (simp_all add: onceCodec_def authenticate_store checkWire_store sample_authenticate
        sample_checkWire)
  have store: "cd_replayStore onceCodec = Some once" "\<forall>seen. cd_clock onceCodec seen = (1000, seen)"
    by (simp_all add: onceCodec_def sampleCodec_def)
  have run: "DecodeContext sampleTypes sampleTimes sampleInstant sampleCrypto onceCodec
      (Some background) sampleToken ''v1'' (pa_Sorts samplePayload) {} =
      (Inr samplePayload, {sampleToken})"
    by (simp add: DecodeContext_def background_def same sample_wire_decode store consume_def
        once_def sample_payload_of) (simp add: sampleCrypto_def)
  have "int (length sampleToken) < cd_maxEncodedBytes onceCodec"
    using sampleToken_length by (simp add: onceCodec_def sampleCodec_def)
  moreover have "cr_sha256 sampleCrypto (sampleToken @ [CHR 0x0A]) \<notin> {sampleToken}"
    by (simp add: sampleCrypto_def)
  ultimately show ?thesis using Cursor_replay [OF store run] run by blast
qed

section \<open>Composition with the compiler\<close>

text \<open>
  C20: when the compiler decodes cursors with a codec, the cursor state of a
  plan was sealed by a key of the codec's ring into one of the request's two tokens, for the schema
  revision of the plan and for exactly its sort terms, and had not expired at a reading of the clock.
\<close>

theorem Compile_cursor_sealed:
  assumes "aead_authentic cr" and "wf_schema schema" and "b_MaxCost (sc_bounds schema) \<le> maxInt"
    and "co_CursorDecoder options = Some (DecodeCursor fl tm ins cr c ctx)"
    and "Compile (Some schema) request options w = (Inr plan, w', trace)"
    and "pl_cursor plan = Some state"
  shows "\<exists>token \<in> {pg_After (rq_Page request), pg_Before (rq_Page request)}. \<exists>plain wire v now v'.
    issued cr c token plain \<and> wire_decode fl tm ins plain = Some wire \<and>
    wi_SchemaRevision wire = sc_revision schema \<and> wi_Sorts wire = pl_sorts plan \<and>
    cd_clock c v = (now, v') \<and> now < wi_ExpiresAt wire \<and>
    state = \<lparr>cs_Direction = wi_Direction wire, cs_Positions = wi_Positions wire,
             cs_Policy = wi_Policy wire\<rparr>"
proof -
  from codec.plan_cursor_sealed [OF assms(2-6)] assms(1) obtain token p where
    token: "token \<in> {pg_After (rq_Page request), pg_Before (rq_Page request)}"
    and bound: "bound_to fl tm ins cr c token (sc_revision schema) (pl_sorts plan) p"
    and state: "state = \<lparr>cs_Direction = pa_Direction p, cs_Positions = pa_Positions p,
      cs_Policy = pa_Policy p\<rparr>"
    unfolding state_bound_def by blast
  from bound obtain plain wire v now v' where
    opened: "issued cr c token plain" "wire_decode fl tm ins plain = Some wire"
      "cd_clock c v = (now, v')"
    and p: "p = payload_of wire" "validPayload c p now" "pa_SchemaRevision p = sc_revision schema"
      "pa_Sorts p = pl_sorts plan"
    unfolding bound_to_def by blast
  have "now < wi_ExpiresAt wire" "wi_SchemaRevision wire = sc_revision schema"
    "wi_Sorts wire = pl_sorts plan"
    "state = \<lparr>cs_Direction = wi_Direction wire, cs_Positions = wi_Positions wire,
      cs_Policy = wi_Policy wire\<rparr>"
    using p by (simp_all add: state payload_of_def validPayload_def)
  with opened token show ?thesis by blast
qed

text \<open>The sample request with another token, decoded by the sample codec.\<close>

definition tokenRequest :: "string \<Rightarrow> Request" where
  "tokenRequest token =
     sampleRequest\<lparr>rq_Page := (rq_Page sampleRequest)\<lparr>pg_After := token\<rparr>\<rparr>"

definition codecOptions :: "nat CompileOptions" where
  "codecOptions = sampleOptions\<lparr>co_CursorDecoder :=
     Some (DecodeCursor sampleTypes sampleTimes sampleInstant sampleCrypto sampleCodec
       (Some background))\<rparr>"

lemma token_parts:
  "final_sorts sampleSchema (tokenRequest token) = pa_Sorts samplePayload"
  "fst (asked_env sampleSchema (tokenRequest token) codecOptions w)"
  "plan_cost sampleSchema (tokenRequest token) \<le> b_MaxCost (sc_bounds sampleSchema)"
  "constraints_ok sampleSchema (co_MandatoryConstraints codecOptions)"
  "int (length (pa_Sorts samplePayload)) \<le> b_MaxSorts (sc_bounds sampleSchema)"
  by code_simp+

lemma token_request_ok:
  assumes "length token \<le> 4096"
  shows "request_ok sampleSchema (tokenRequest token)"
proof -
  have "request_ok sampleSchema (tokenRequest ''t'')" by code_simp
  moreover have "page_ok sampleSchema (normalizePage sampleSchema (rq_Page (tokenRequest token)))"
  proof -
    have "b_MaxCursorBytes (sc_bounds sampleSchema) = 4096" "pd_Cursor (sc_pagination sampleSchema)"
      "pd_DefaultPageSize (sc_pagination sampleSchema) = 10" "b_MaxPageSize (sc_bounds sampleSchema) = 50"
      by code_simp+
    then show ?thesis
      using assms by (simp add: page_ok_def normalizePage_def tokenRequest_def sampleRequest_def)
  qed
  ultimately show ?thesis
    using token_parts(1,5) by (simp add: request_ok_def tokenRequest_def)
qed

lemma token_cursor:
  "cursor_token (normalizePage sampleSchema (rq_Page (tokenRequest sampleToken))) =
     Some (sampleToken, CursorForward)"
proof -
  have "sampleToken \<noteq> []" by (simp add: sampleToken_def)
  then show ?thesis
    by (simp add: cursor_token_def normalizePage_def tokenRequest_def sampleRequest_def)
qed

definition sampleCursor :: CursorState where
  "sampleCursor =
     \<lparr>cs_Direction = CursorForward, cs_Positions = [NullValue, StringValue ''a7''], cs_Policy = []\<rparr>"

lemma token_decoded:
  "decode_token codecOptions sampleToken (sc_revision sampleSchema) (pa_Sorts samplePayload) e =
     (Some sampleCursor, e\<lparr>en_trace := en_trace e @
        [Decoded sampleToken (sc_revision sampleSchema) (pa_Sorts samplePayload) True]\<rparr>)"
proof -
  have "cd_clock sampleCodec w = (1000, w)" "cd_replayStore (sampleCodec :: nat Codec) = None" for w :: nat
    by (simp_all add: sampleCodec_def)
  then have "DecodeContext sampleTypes sampleTimes sampleInstant sampleCrypto sampleCodec
      (Some background) sampleToken ''v1'' (pa_Sorts samplePayload) w = (Inr samplePayload, w)"
    for w :: nat
    by (simp add: DecodeContext_def background_def sample_authenticate sample_wire_decode
        sample_checkWire consume_def sample_payload_of)
  moreover have "sc_revision sampleSchema = ''v1''" by code_simp
  ultimately show ?thesis
    by (simp add: decode_token_def codecOptions_def DecodeCursor_def samplePayload_def
        sampleCursor_def)
qed

lemma codec_accepts: "accepts sampleSchema (tokenRequest sampleToken) codecOptions 0"
proof -
  have "state_ok sampleSchema CursorForward (pa_Sorts samplePayload) sampleCursor" by code_simp
  then have "cursor_accepted sampleSchema codecOptions
      (normalizePage sampleSchema (rq_Page (tokenRequest sampleToken))) (pa_Sorts samplePayload) e" for e
    by (simp add: cursor_accepted_def token_cursor token_decoded)
  then show ?thesis
    using token_parts token_request_ok [of sampleToken] sampleToken_length
    by (simp add: accepts_def)
qed

theorem Compile_cursor_sealed_witness:
  "\<exists>plan w trace. Compile (Some sampleSchema) (tokenRequest sampleToken) codecOptions 0 =
       (Inr plan, w, trace) \<and>
     pl_cursor plan = Some sampleCursor \<and>
     (\<exists>token plain. issued sampleCrypto (sampleCodec :: nat Codec) token plain)"
proof -
  let ?plan = "spec_plan sampleSchema (co_MandatoryConstraints codecOptions)
    (tokenRequest sampleToken) (Some sampleCursor)"
  have "fst (decoded_env sampleSchema (tokenRequest sampleToken) codecOptions 0) = Some sampleCursor"
    by (simp add: decoded_env_def cursor_step_def token_cursor token_parts token_decoded)
  then obtain w trace where run: "Compile (Some sampleSchema) (tokenRequest sampleToken)
      codecOptions 0 = (Inr ?plan, w, trace)"
    using codec_accepts by (simp add: Compile_Inr [OF sampleSchema_wf sampleSchema_cost])
  moreover have cursor: "pl_cursor ?plan = Some sampleCursor" by (simp add: spec_plan_def Let_def)
  moreover have decoder: "co_CursorDecoder codecOptions = Some (DecodeCursor sampleTypes sampleTimes
      sampleInstant sampleCrypto sampleCodec (Some background))"
    by (simp add: codecOptions_def)
  have "\<exists>token plain. issued sampleCrypto (sampleCodec :: nat Codec) token plain"
    using Compile_cursor_sealed [OF sampleCrypto_laws(2) sampleSchema_wf sampleSchema_cost decoder
        run cursor] by blast
  ultimately show ?thesis by blast
qed

end
