(* ===== verification/CursorPage.thy ===== *)
theory CursorPage
  imports CursorProperties
begin

text \<open>
  \<open>cursor/page.go\<close>: the response envelope. The encoder is the application's; it may fail and may keep
  state in a world \<open>'w\<close>. A page over an encoder that uses the codec carries tokens that lead on from
  its own first and last item.
\<close>

record PageMeta =
  pm_HasPrevious :: bool
  pm_HasNext :: bool
  pm_PreviousCursor :: string
  pm_NextCursor :: string

record 'a Page =
  pp_Items :: "'a list"
  pp_Meta :: PageMeta

type_synonym ('a, 'e, 'w) PageEncoder = "'a \<Rightarrow> CursorDirection \<Rightarrow> 'w \<Rightarrow> ('e + string) \<times> 'w"

definition BuildPage ::
  "'a list \<Rightarrow> bool \<Rightarrow> bool \<Rightarrow> ('a, 'e, 'w) PageEncoder \<Rightarrow> 'w \<Rightarrow> ('e + 'a Page) \<times> 'w" where
  "BuildPage items hasPrevious hasNext encode w =
     (let meta = \<lparr>pm_HasPrevious = hasPrevious, pm_HasNext = hasNext, pm_PreviousCursor = [],
                  pm_NextCursor = []\<rparr>
      in if items = [] then (Inr \<lparr>pp_Items = items, pp_Meta = meta\<rparr>, w)
         else
           let (previous, w) = (if hasPrevious then encode (items ! 0) CursorBackward w else (Inr [], w)) in
           (case previous of
              Inl err \<Rightarrow> (Inl err, w)
            | Inr cursor \<Rightarrow>
                let meta = meta\<lparr>pm_PreviousCursor := cursor\<rparr>;
                    (next', w) =
                      (if hasNext then encode (items ! (length items - 1)) CursorForward w
                       else (Inr [], w))
                in (case next' of
                      Inl err \<Rightarrow> (Inl err, w)
                    | Inr cursor \<Rightarrow>
                        (Inr \<lparr>pp_Items = items, pp_Meta = meta\<lparr>pm_NextCursor := cursor\<rparr>\<rparr>, w))))"

lemma BuildPage_Inr:
  assumes "BuildPage items hasPrevious hasNext encode w = (Inr page, w')"
  shows "pp_Items page = items \<and> pm_HasPrevious (pp_Meta page) = hasPrevious \<and>
    pm_HasNext (pp_Meta page) = hasNext \<and>
    (items = [] \<longrightarrow> pm_PreviousCursor (pp_Meta page) = [] \<and> pm_NextCursor (pp_Meta page) = [] \<and> w' = w) \<and>
    (items \<noteq> [] \<longrightarrow> (\<exists>w1.
       (if hasPrevious then encode (hd items) CursorBackward w = (Inr (pm_PreviousCursor (pp_Meta page)), w1)
        else pm_PreviousCursor (pp_Meta page) = [] \<and> w1 = w) \<and>
       (if hasNext then encode (last items) CursorForward w1 = (Inr (pm_NextCursor (pp_Meta page)), w')
        else pm_NextCursor (pp_Meta page) = [] \<and> w' = w1)))"
  using assms
  by (cases "items = []"; cases hasPrevious; cases hasNext)
    (auto simp: BuildPage_def Let_def hd_conv_nth last_conv_nth split: sum.splits prod.splits)



end
