(* ===== verification/PostgresAdapter.thy ===== *)
theory PostgresAdapter
  imports ApiPlan "HOL-Library.AList"
begin

text \<open>
  \<open>adapters/postgres/postgres.go\<close>: the translation of a compiled plan into fragments of a PostgreSQL
  statement and the values to bind to it. A Go map of the mapping is the list of its entries, in
  some order of iteration; its keys are distinct.

  The slice accesses of the source that have no guard (\<open>Values[0]\<close>, \<open>Values[1]\<close>, \<open>children[0]\<close>)
  panic out of range: \<open>Pg_Panic\<close> is that outcome, beside the error \<open>ErrInvalid\<close>.
\<close>

datatype pg_error = Pg_ErrInvalid | Pg_Panic

type_synonym string_map = "(string \<times> string) list"

record Mapping =
  mp_Fields :: string_map
  mp_Filters :: string_map
  mp_Sorts :: string_map
  mp_Constraints :: string_map

record Compiler =
  cm_mapping :: Mapping

record QueryParts =
  qp_Projection :: string
  qp_Where :: string
  qp_OrderBy :: string
  qp_Arguments :: "Value list"

definition zeroParts :: QueryParts where
  "zeroParts = \<lparr>qp_Projection = [], qp_Where = [], qp_OrderBy = [], qp_Arguments = []\<rparr>"

section \<open>Identifiers\<close>

text \<open>
  \<open>unicode.IsLetter\<close> and \<open>unicode.IsDigit\<close>: the letters and digits of ASCII are written out, those of
  the other scripts are tables of the standard library, passed in as an argument. The replacement
  rune of an invalid encoding is a symbol, neither letter nor digit.
\<close>

record unicode_tables =
  un_letter :: "nat \<Rightarrow> bool"
  un_digit :: "nat \<Rightarrow> bool"

definition isLetter :: "unicode_tables \<Rightarrow> nat \<Rightarrow> bool" where
  "isLetter un r \<longleftrightarrow>
     (if r < 128 then (65 \<le> r \<and> r \<le> 90) \<or> (97 \<le> r \<and> r \<le> 122) else r \<noteq> runeError \<and> un_letter un r)"

definition isDigit :: "unicode_tables \<Rightarrow> nat \<Rightarrow> bool" where
  "isDigit un r \<longleftrightarrow> (if r < 128 then 48 \<le> r \<and> r \<le> 57 else r \<noteq> runeError \<and> un_digit un r)"

definition validPart :: "unicode_tables \<Rightarrow> string \<Rightarrow> bool" where
  "validPart un part \<longleftrightarrow>
     part \<noteq> [] \<and>
     list_all (\<lambda>(index, char). \<not> (char \<noteq> 95 \<and> \<not> isLetter un char \<and>
       (index = 0 \<or> \<not> isDigit un char))) (go_runes 0 part)"

definition validIdentifier :: "unicode_tables \<Rightarrow> string \<Rightarrow> bool" where
  "validIdentifier un identifier =
     (let parts = split_on (CHR ''.'') identifier in
      if length parts = 0 \<or> length parts > 3 then False else list_all (validPart un) parts)"

definition quote_part :: "string \<Rightarrow> string" where
  "quote_part part = CHR 0x22 # part @ [CHR 0x22]"

definition quoteIdentifier :: "string \<Rightarrow> string" where
  "quoteIdentifier identifier =
     join_with ''.'' (map quote_part (split_on (CHR ''.'') identifier))"

section \<open>Construction\<close>

definition cloneMap :: "string_map \<Rightarrow> string_map" where
  "cloneMap source = fold (\<lambda>(key, value) result. AList.update key value result) source []"

definition NewCompiler :: "unicode_tables \<Rightarrow> Mapping \<Rightarrow> pg_error + Compiler" where
  "NewCompiler un mapping =
     (let cloned = \<lparr>mp_Fields = cloneMap (mp_Fields mapping),
                    mp_Filters = cloneMap (mp_Filters mapping),
                    mp_Sorts = cloneMap (mp_Sorts mapping),
                    mp_Constraints = cloneMap (mp_Constraints mapping)\<rparr> in
      if list_all
           (list_all (\<lambda>(name, identifier). \<not> (name = [] \<or> \<not> validIdentifier un identifier)))
           [mp_Fields cloned, mp_Filters cloned, mp_Sorts cloned, mp_Constraints cloned]
      then Inr \<lparr>cm_mapping = cloned\<rparr> else Inl Pg_ErrInvalid)"

section \<open>Filters\<close>

definition comparisonOperator :: "Operator \<Rightarrow> string option" where
  "comparisonOperator = map_of
     [(OpEqual, ''=''), (OpNotEqual, ''<>''), (OpLess, ''<''), (OpLessOrEqual, ''<=''),
      (OpGreater, ''>''), (OpGreaterOrEqual, ''>='')]"

definition addArgument :: "Value list \<Rightarrow> Value \<Rightarrow> nat \<times> Value list" where
  "addArgument arguments value = (length (arguments @ [value]), arguments @ [value])"

text \<open>\<open>strings.ReplaceAll\<close> of a one-byte text.\<close>

definition replaceAll :: "string \<Rightarrow> char \<Rightarrow> string \<Rightarrow> string" where
  "replaceAll s old new = concat (map (\<lambda>c. if c = old then new else [c]) s)"

definition escapeLike :: "string \<Rightarrow> string" where
  "escapeLike value =
     (let value = replaceAll value (CHR 0x5C) [CHR 0x5C, CHR 0x5C];
          value = replaceAll value (CHR ''%'') [CHR 0x5C, CHR ''%'']
      in replaceAll value (CHR ''_'') [CHR 0x5C, CHR ''_''])"

definition likePattern :: "Operator \<Rightarrow> string \<Rightarrow> string" where
  "likePattern operator value =
     (let pattern = escapeLike value;
          pattern = (if operator \<noteq> OpStartsWith then ''%'' @ pattern else pattern)
      in if operator \<noteq> OpEndsWith then pattern @ ''%'' else pattern)"

definition placeholder :: "nat \<Rightarrow> string" where
  "placeholder position = CHR ''$'' # dec_nat position"

fun membership_loop :: "Value list \<Rightarrow> Value list \<Rightarrow> string list \<times> Value list" where
  "membership_loop [] arguments = ([], arguments)"
| "membership_loop (value # vs) arguments =
     (let (position, arguments) = addArgument arguments value;
          (rest, arguments) = membership_loop vs arguments
      in (placeholder position # rest, arguments))"

text \<open>The leaf of \<open>compileFilter\<close>: one \<open>case\<close> of its switch after the other.\<close>

definition predicateSQL ::
  "Mapping \<Rightarrow> Predicate \<Rightarrow> Value list \<Rightarrow> (pg_error + string) \<times> Value list" where
  "predicateSQL mapping predicate arguments =
     (case map_of (mp_Filters mapping) (pr_Name predicate) of
        None \<Rightarrow> (Inl Pg_ErrInvalid, arguments)
      | Some identifier \<Rightarrow>
          let column = quoteIdentifier identifier;
              operator = pr_Operator predicate in
          if operator = OpIsNull then (Inr (column @ '' IS NULL''), arguments)
          else if operator = OpBetween then
            (case pr_Values predicate of
               v # u # _ \<Rightarrow>
                 let (first, arguments) = addArgument arguments v;
                     (second, arguments) = addArgument arguments u
                 in (Inr (column @ '' BETWEEN '' @ placeholder first @ '' AND '' @
                      placeholder second), arguments)
             | _ \<Rightarrow> (Inl Pg_Panic, arguments))
          else if operator = OpIn \<or> operator = OpNotIn then
            let (placeholders, arguments) = membership_loop (pr_Values predicate) arguments;
                keyword = (if operator = OpNotIn then '' NOT IN '' else '' IN '')
            in (Inr (column @ keyword @ ''('' @ join_with '', '' placeholders @ '')''), arguments)
          else if operator = OpContains \<or> operator = OpStartsWith \<or> operator = OpEndsWith then
            (case pr_Values predicate of
               v # _ \<Rightarrow>
                 let (position, arguments) =
                       addArgument arguments (StringValue (likePattern operator (v_text v)))
                 in (Inr (column @ '' LIKE '' @ placeholder position @ '' ESCAPE '' @
                      [CHR 0x27, CHR 0x5C, CHR 0x27]), arguments)
             | [] \<Rightarrow> (Inl Pg_Panic, arguments))
          else
            (case comparisonOperator operator of
               Some sign \<Rightarrow>
                 (case pr_Values predicate of
                    v # _ \<Rightarrow>
                      let (position, arguments) = addArgument arguments v
                      in (Inr (column @ '' '' @ sign @ '' '' @ placeholder position), arguments)
                  | [] \<Rightarrow> (Inl Pg_Panic, arguments))
             | None \<Rightarrow> (Inl Pg_ErrInvalid, arguments)))"

definition composeSQL :: "Logic \<Rightarrow> string list \<Rightarrow> pg_error + string" where
  "composeSQL logic children =
     (if logic = LogicOr then Inr (join_with '' OR '' children)
      else if logic = LogicNot then
        (case children of [] \<Rightarrow> Inl Pg_Panic | child # _ \<Rightarrow> Inr (''NOT '' @ child))
      else if logic = LogicAnd then Inr (join_with '' AND '' children)
      else Inl Pg_ErrInvalid)"

text \<open>
  \<open>compileFilter\<close>, with the caller's argument slice passed along. The children of a group are
  compiled, each in parentheses, before its logic is looked at.
\<close>

fun filterSQL :: "Mapping \<Rightarrow> FilterExpr \<Rightarrow> Value list \<Rightarrow> (pg_error + string) \<times> Value list"
  and childrenSQL ::
    "Mapping \<Rightarrow> FilterExpr list \<Rightarrow> Value list \<Rightarrow> (pg_error + string list) \<times> Value list" where
  "filterSQL mapping (FilterExpr predicate logic children) arguments =
     (case predicate of
        Some p \<Rightarrow> predicateSQL mapping p arguments
      | None \<Rightarrow>
          (case childrenSQL mapping children arguments of
             (Inl e, arguments) \<Rightarrow> (Inl e, arguments)
           | (Inr texts, arguments) \<Rightarrow> (composeSQL logic texts, arguments)))"
| "childrenSQL mapping [] arguments = (Inr [], arguments)"
| "childrenSQL mapping (f # fs) arguments =
     (case filterSQL mapping f arguments of
        (Inl e, arguments) \<Rightarrow> (Inl e, arguments)
      | (Inr child, arguments) \<Rightarrow>
          (case childrenSQL mapping fs arguments of
             (Inl e, arguments) \<Rightarrow> (Inl e, arguments)
           | (Inr texts, arguments) \<Rightarrow> (Inr ((''('' @ child @ '')'') # texts), arguments)))"

section \<open>Plans\<close>

text \<open>The three loops of \<open>Compile\<close>; each returns at its first missing mapping.\<close>

fun projection_loop :: "string_map \<Rightarrow> string list \<Rightarrow> pg_error + string list" where
  "projection_loop m [] = Inr []"
| "projection_loop m (name # names) =
     (case map_of m name of
        None \<Rightarrow> Inl Pg_ErrInvalid
      | Some identifier \<Rightarrow>
          (case projection_loop m names of
             Inl e \<Rightarrow> Inl e
           | Inr rest \<Rightarrow> Inr (quoteIdentifier identifier # rest)))"

fun constraint_loop ::
  "string_map \<Rightarrow> Constraint list \<Rightarrow> Value list \<Rightarrow> (pg_error + string list) \<times> Value list" where
  "constraint_loop m [] arguments = (Inr [], arguments)"
| "constraint_loop m (c # cs) arguments =
     (case map_of m (cn_Name c) of
        None \<Rightarrow> (Inl Pg_ErrInvalid, arguments)
      | Some identifier \<Rightarrow>
          let arguments = arguments @ [cn_Value c];
              text' = quoteIdentifier identifier @ '' = '' @ placeholder (length arguments) in
          (case constraint_loop m cs arguments of
             (Inl e, arguments) \<Rightarrow> (Inl e, arguments)
           | (Inr rest, arguments) \<Rightarrow> (Inr (text' # rest), arguments)))"

definition order_term :: "string \<Rightarrow> SortTerm \<Rightarrow> string" where
  "order_term identifier t =
     quoteIdentifier identifier @ '' '' @ to_upper_ascii (st_Direction t) @
     (if st_Nulls t \<noteq> [] then '' NULLS '' @ to_upper_ascii (st_Nulls t) else [])"

fun order_loop :: "string_map \<Rightarrow> SortTerm list \<Rightarrow> pg_error + string list" where
  "order_loop m [] = Inr []"
| "order_loop m (t # ts) =
     (case map_of m (st_Name t) of
        None \<Rightarrow> Inl Pg_ErrInvalid
      | Some identifier \<Rightarrow>
          (case order_loop m ts of
             Inl e \<Rightarrow> Inl e
           | Inr rest \<Rightarrow> Inr (order_term identifier t # rest)))"

definition Compiler_Compile :: "Compiler option \<Rightarrow> Plan option \<Rightarrow> pg_error + QueryParts" where
  "Compiler_Compile c plan =
     (case (c, plan) of
        (Some compiler, Some plan) \<Rightarrow>
          let mapping = cm_mapping compiler in
          (case projection_loop (mp_Fields mapping) (Plan_ExecutionFields plan) of
             Inl e \<Rightarrow> Inl e
           | Inr projection \<Rightarrow>
          (case constraint_loop (mp_Constraints mapping) (Plan_MandatoryConstraints plan) [] of
             (Inl e, _) \<Rightarrow> Inl e
           | (Inr constraints, arguments) \<Rightarrow>
             let conditions = (if length constraints > 0
                 then [''('' @ join_with '' AND '' constraints @ '')''] else []) in
          (case (case Plan_Filter plan of
                   None \<Rightarrow> (Inr conditions, arguments)
                 | Some f \<Rightarrow>
                     (case filterSQL mapping f arguments of
                        (Inl e, arguments) \<Rightarrow> (Inl e, arguments)
                      | (Inr sql, arguments) \<Rightarrow>
                          (Inr (conditions @ [''('' @ sql @ '')'']), arguments))) of
             (Inl e, _) \<Rightarrow> Inl e
           | (Inr conditions, arguments) \<Rightarrow>
          (case order_loop (mp_Sorts mapping) (Plan_Sorts plan) of
             Inl e \<Rightarrow> Inl e
           | Inr order \<Rightarrow>
               Inr (zeroParts\<lparr>qp_Projection := join_with '', '' projection,
                 qp_Where := join_with '' AND '' conditions,
                 qp_OrderBy := join_with '', '' order,
                 qp_Arguments := arguments\<rparr>)))))
      | _ \<Rightarrow> Inl Pg_ErrInvalid)"

end
