(* ===== verification/PostgresCorrect.thy ===== *)
theory PostgresCorrect
  imports PostgresAdapter CompileCorrect
begin

text \<open>
  What the PostgreSQL fragments of a plan are: a specification that gives the text of a filter as a
  function of its shape and of the number of the first free placeholder, and its arguments as a list
  of their own; and the proof that the compiler, which threads one growing slice through its
  recursion, computes both.
\<close>

section \<open>The specification\<close>

definition pattern_operator :: "Operator \<Rightarrow> bool" where
  "pattern_operator operator \<longleftrightarrow>
     operator = OpContains \<or> operator = OpStartsWith \<or> operator = OpEndsWith"

text \<open>The values that a predicate binds, in order.\<close>

definition pred_args :: "Predicate \<Rightarrow> Value list" where
  "pred_args p =
     (if pr_Operator p = OpIsNull then []
      else if pr_Operator p = OpBetween then take 2 (pr_Values p)
      else if membership (pr_Operator p) then pr_Values p
      else if pattern_operator (pr_Operator p) then
        [StringValue (likePattern (pr_Operator p) (v_text (hd (pr_Values p))))]
      else [hd (pr_Values p)])"

text \<open>The text of a predicate: it does not depend on the values, except on how many there are.\<close>

definition pred_text :: "Mapping \<Rightarrow> nat \<Rightarrow> Predicate \<Rightarrow> string" where
  "pred_text m n p =
     quoteIdentifier (the (map_of (mp_Filters m) (pr_Name p))) @
     (if pr_Operator p = OpIsNull then '' IS NULL''
      else if pr_Operator p = OpBetween then
        '' BETWEEN '' @ placeholder (n + 1) @ '' AND '' @ placeholder (n + 2)
      else if membership (pr_Operator p) then
        (if pr_Operator p = OpNotIn then '' NOT IN '' else '' IN '') @ ''('' @
        join_with '', '' (map placeholder [Suc n..<Suc n + length (pr_Values p)]) @ '')''
      else if pattern_operator (pr_Operator p) then
        '' LIKE '' @ placeholder (n + 1) @ '' ESCAPE '' @ [CHR 0x27, CHR 0x5C, CHR 0x27]
      else '' '' @ the (comparisonOperator (pr_Operator p)) @ '' '' @ placeholder (n + 1))"

text \<open>What the compiler needs: a mapping, a known operator, and the values that it indexes.\<close>

definition pred_enough :: "Predicate \<Rightarrow> bool" where
  "pred_enough p \<longleftrightarrow>
     (if pr_Operator p = OpIsNull \<or> membership (pr_Operator p) then True
      else if pr_Operator p = OpBetween then 2 \<le> length (pr_Values p)
      else (pattern_operator (pr_Operator p) \<or> comparisonOperator (pr_Operator p) \<noteq> None) \<and>
        pr_Values p \<noteq> [])"

definition pred_mapped :: "Mapping \<Rightarrow> Predicate \<Rightarrow> bool" where
  "pred_mapped m p \<longleftrightarrow> map_of (mp_Filters m) (pr_Name p) \<noteq> None"

definition compose_text :: "Logic \<Rightarrow> string list \<Rightarrow> string" where
  "compose_text logic texts =
     (if logic = LogicNot then ''NOT '' @ hd texts
      else join_with (if logic = LogicOr then '' OR '' else '' AND '') texts)"

definition parens :: "string \<Rightarrow> string" where
  "parens s = ''('' @ s @ '')''"

definition filter_args_list :: "FilterExpr list \<Rightarrow> Value list" where
  "filter_args_list fs = concat (map pred_args (predicates_list fs))"

definition filter_args :: "FilterExpr \<Rightarrow> Value list" where
  "filter_args f = concat (map pred_args (predicates f))"

fun filter_text :: "Mapping \<Rightarrow> nat \<Rightarrow> FilterExpr \<Rightarrow> string"
  and filter_texts :: "Mapping \<Rightarrow> nat \<Rightarrow> FilterExpr list \<Rightarrow> string list" where
  "filter_text m n (FilterExpr predicate logic children) =
     (case predicate of
        Some p \<Rightarrow> pred_text m n p
      | None \<Rightarrow> compose_text logic (map parens (filter_texts m n children)))"
| "filter_texts m n [] = []"
| "filter_texts m n (f # fs) = filter_text m n f # filter_texts m (n + length (filter_args f)) fs"

fun shaped :: "FilterExpr \<Rightarrow> bool" and shaped_list :: "FilterExpr list \<Rightarrow> bool" where
  "shaped (FilterExpr predicate logic children) \<longleftrightarrow>
     (case predicate of
        Some p \<Rightarrow> pred_enough p
      | None \<Rightarrow> logic \<in> {LogicAnd, LogicOr, LogicNot} \<and> (logic = LogicNot \<longrightarrow> length children = 1) \<and>
          shaped_list children)"
| "shaped_list [] \<longleftrightarrow> True"
| "shaped_list (f # fs) \<longleftrightarrow> shaped f \<and> shaped_list fs"

definition filter_mapped :: "Mapping \<Rightarrow> FilterExpr \<Rightarrow> bool" where
  "filter_mapped m f \<longleftrightarrow> (\<forall>p \<in> set (predicates f). pred_mapped m p)"

definition field_text :: "Mapping \<Rightarrow> string \<Rightarrow> string" where
  "field_text m name = quoteIdentifier (the (map_of (mp_Fields m) name))"

definition constraint_text :: "Mapping \<Rightarrow> nat \<Rightarrow> Constraint \<Rightarrow> string" where
  "constraint_text m i c =
     quoteIdentifier (the (map_of (mp_Constraints m) (cn_Name c))) @ '' = '' @ placeholder i"

definition constraint_texts :: "Mapping \<Rightarrow> nat \<Rightarrow> Constraint list \<Rightarrow> string list" where
  "constraint_texts m n cs = map2 (constraint_text m) [Suc n..<Suc n + length cs] cs"

definition sort_text :: "Mapping \<Rightarrow> SortTerm \<Rightarrow> string" where
  "sort_text m t = order_term (the (map_of (mp_Sorts m) (st_Name t))) t"

text \<open>A plan is mapped when nothing it names is missing from the mapping.\<close>

definition plan_mapped :: "Mapping \<Rightarrow> Plan \<Rightarrow> bool" where
  "plan_mapped m plan \<longleftrightarrow>
     (\<forall>n \<in> set (pl_executionFields plan). map_of (mp_Fields m) n \<noteq> None) \<and>
     (\<forall>c \<in> set (pl_constraints plan). map_of (mp_Constraints m) (cn_Name c) \<noteq> None) \<and>
     (case pl_filter plan of None \<Rightarrow> True | Some f \<Rightarrow> filter_mapped m f) \<and>
     (\<forall>t \<in> set (pl_sorts plan). map_of (mp_Sorts m) (st_Name t) \<noteq> None)"

text \<open>Every mandatory constraint, and the filter of the client, joined by \<open>AND\<close>.\<close>

definition conditions :: "Mapping \<Rightarrow> Plan \<Rightarrow> string list" where
  "conditions m plan =
     (if pl_constraints plan = [] then []
      else [parens (join_with '' AND '' (constraint_texts m 0 (pl_constraints plan)))]) @
     (case pl_filter plan of
        None \<Rightarrow> []
      | Some f \<Rightarrow> [parens (filter_text m (length (pl_constraints plan)) f)])"

definition plan_args :: "Plan \<Rightarrow> Value list" where
  "plan_args plan = map cn_Value (pl_constraints plan) @
     (case pl_filter plan of None \<Rightarrow> [] | Some f \<Rightarrow> filter_args f)"

definition spec_parts :: "Mapping \<Rightarrow> Plan \<Rightarrow> QueryParts" where
  "spec_parts m plan =
     \<lparr>qp_Projection = join_with '', '' (map (field_text m) (pl_executionFields plan)),
      qp_Where = join_with '' AND '' (conditions m plan),
      qp_OrderBy = join_with '', '' (map (sort_text m) (pl_sorts plan)),
      qp_Arguments = plan_args plan\<rparr>"

section \<open>Predicates and filters\<close>

lemma membership_loop_result:
  "membership_loop vs args =
     (map placeholder [Suc (length args)..<Suc (length args) + length vs], args @ vs)"
proof (induction vs arbitrary: args)
  case (Cons v vs)
  have "[Suc (length args)..<Suc (length args) + length (v # vs)] =
      Suc (length args) # [Suc (Suc (length args))..<Suc (Suc (length args)) + length vs]"
    by (simp add: upt_conv_Cons del: upt_Suc)
  with Cons [of "args @ [v]"] show ?case
    by (simp add: addArgument_def Let_def del: upt_Suc)
qed simp

lemma predicateSQL_ok:
  assumes "pred_mapped m p" "pred_enough p"
  shows "predicateSQL m p args = (Inr (pred_text m (length args) p), args @ pred_args p)"
proof -
  obtain i where i: "map_of (mp_Filters m) (pr_Name p) = Some i"
    using assms(1) by (auto simp: pred_mapped_def)
  consider (null) "pr_Operator p = OpIsNull" | (between) "pr_Operator p = OpBetween"
    | (member) "membership (pr_Operator p)" | (pat) "pattern_operator (pr_Operator p)"
    | (cmp) "\<not> pr_Operator p = OpIsNull" "\<not> pr_Operator p = OpBetween" "\<not> membership (pr_Operator p)"
        "\<not> pattern_operator (pr_Operator p)"
    by blast
  then show ?thesis
  proof cases
    case between
    then obtain v u vs where "pr_Values p = v # u # vs"
      using assms(2)
      by (cases "pr_Values p"; cases "tl (pr_Values p)")
        (auto simp: pred_enough_def membership_def)
    then show ?thesis
      using i between
      by (simp add: predicateSQL_def pred_text_def pred_args_def addArgument_def membership_def Let_def)
  next
    case member
    then show ?thesis
      using i by (auto simp: predicateSQL_def pred_text_def pred_args_def membership_def Let_def
          membership_loop_result simp del: upt_Suc)
  next
    case pat
    then obtain v vs where "pr_Values p = v # vs"
      using assms(2)
      by (cases "pr_Values p") (auto simp: pred_enough_def membership_def pattern_operator_def)
    with pat i show ?thesis
      by (auto simp: predicateSQL_def pred_text_def pred_args_def addArgument_def membership_def
          pattern_operator_def Let_def)
  next
    case cmp
    obtain v vs sign where v: "pr_Values p = v # vs" "comparisonOperator (pr_Operator p) = Some sign"
      using assms(2) cmp by (cases "pr_Values p") (auto simp: pred_enough_def)
    have "pr_Operator p \<noteq> OpIn" "pr_Operator p \<noteq> OpNotIn" "pr_Operator p \<noteq> OpContains"
      "pr_Operator p \<noteq> OpStartsWith" "pr_Operator p \<noteq> OpEndsWith"
      using cmp by (auto simp: membership_def pattern_operator_def)
    with cmp v i show ?thesis
      by (simp add: predicateSQL_def pred_text_def pred_args_def addArgument_def Let_def)
  qed (use i in \<open>simp add: predicateSQL_def pred_text_def pred_args_def Let_def\<close>)
qed

lemma predicateSQL_unmapped: "\<not> pred_mapped m p \<Longrightarrow> predicateSQL m p args = (Inl Pg_ErrInvalid, args)"
  by (simp add: predicateSQL_def pred_mapped_def)

lemma composeSQL_ok:
  "logic \<in> {LogicAnd, LogicOr, LogicNot} \<Longrightarrow> (logic = LogicNot \<longrightarrow> texts \<noteq> []) \<Longrightarrow>
   composeSQL logic texts = Inr (compose_text logic texts)"
  by (cases texts) (auto simp: composeSQL_def compose_text_def)

lemma filter_args_simps [simp]:
  "filter_args (FilterExpr predicate logic children) =
     (case predicate of Some p \<Rightarrow> pred_args p | None \<Rightarrow> filter_args_list children)"
  "filter_args_list [] = []"
  "filter_args_list (f # fs) = filter_args f @ filter_args_list fs"
  by (simp_all add: filter_args_def filter_args_list_def split: option.split)

lemma length_filter_texts [simp]: "length (filter_texts m n fs) = length fs"
  by (induction fs arbitrary: n) auto

lemma filter_texts_Nil [simp]: "filter_texts m n fs = [] \<longleftrightarrow> fs = []"
  by (cases fs) auto

lemma filterSQL_ok:
  "shaped f \<Longrightarrow> \<forall>p \<in> set (predicates f). pred_mapped m p \<Longrightarrow>
   filterSQL m f args = (Inr (filter_text m (length args) f), args @ filter_args f)"
  "shaped_list fs \<Longrightarrow> \<forall>p \<in> set (predicates_list fs). pred_mapped m p \<Longrightarrow>
   childrenSQL m fs args =
     (Inr (map parens (filter_texts m (length args) fs)), args @ filter_args_list fs)"
proof (induction m f args and m fs args rule: filterSQL_childrenSQL.induct)
  case (1 m predicate logic children args)
  show ?case
  proof (cases predicate)
    case (Some p)
    with 1 show ?thesis by (simp add: predicateSQL_ok)
  next
    case None
    with "1.prems" have "childrenSQL m children args =
        (Inr (map parens (filter_texts m (length args) children)), args @ filter_args_list children)"
      by (intro "1.IH") auto
    moreover have "composeSQL logic (map parens (filter_texts m (length args) children)) =
        Inr (compose_text logic (map parens (filter_texts m (length args) children)))"
      using "1.prems" None by (intro composeSQL_ok) auto
    ultimately show ?thesis using None by simp
  qed
next
  case (3 m f fs args)
  then have "filterSQL m f args = (Inr (filter_text m (length args) f), args @ filter_args f)"
    by (intro "3.IH"(1)) auto
  moreover from this 3 have "childrenSQL m fs (args @ filter_args f) =
      (Inr (map parens (filter_texts m (length args + length (filter_args f)) fs)),
       (args @ filter_args f) @ filter_args_list fs)"
    by (metis (no_types, lifting) Un_iff length_append predicates_list.simps(2) set_append
        shaped_list.simps(2) surjective_pairing)
  ultimately show ?case by (simp add: parens_def)
qed simp

lemma filterSQL_unmapped:
  "shaped f \<Longrightarrow> \<not> (\<forall>p \<in> set (predicates f). pred_mapped m p) \<Longrightarrow>
   fst (filterSQL m f args) = Inl Pg_ErrInvalid"
  "shaped_list fs \<Longrightarrow> \<not> (\<forall>p \<in> set (predicates_list fs). pred_mapped m p) \<Longrightarrow>
   fst (childrenSQL m fs args) = Inl Pg_ErrInvalid"
proof (induction m f args and m fs args rule: filterSQL_childrenSQL.induct)
  case (1 m predicate logic children args)
  show ?case
  proof (cases predicate)
    case (Some p)
    with 1 show ?thesis by (simp add: predicateSQL_unmapped)
  next
    case None
    with "1.prems" have "fst (childrenSQL m children args) = Inl Pg_ErrInvalid"
      by (intro "1.IH") auto
    with None show ?thesis by (cases "childrenSQL m children args") simp
  qed
next
  case (3 m f fs args)
  show ?case
  proof (cases "\<forall>p \<in> set (predicates f). pred_mapped m p")
    case True
    with 3 have f: "filterSQL m f args = (Inr (filter_text m (length args) f), args @ filter_args f)"
      by (intro filterSQL_ok) auto
    with 3 True have "fst (childrenSQL m fs (args @ filter_args f)) = Inl Pg_ErrInvalid"
      by (intro "3.IH"(2) [OF f [symmetric] refl]) auto
    with f show ?thesis by (cases "childrenSQL m fs (args @ filter_args f)") simp
  next
    case False
    with 3 have "fst (filterSQL m f args) = Inl Pg_ErrInvalid" by (intro "3.IH"(1)) auto
    then show ?thesis by (cases "filterSQL m f args") simp
  qed
qed simp

section \<open>Plans\<close>

lemma projection_loop_result:
  "projection_loop m names =
     (if \<forall>n \<in> set names. map_of m n \<noteq> None
      then Inr (map (\<lambda>n. quoteIdentifier (the (map_of m n))) names) else Inl Pg_ErrInvalid)"
  by (induction names) (auto split: option.splits)

lemma order_loop_result:
  "order_loop m ts =
     (if \<forall>t \<in> set ts. map_of m (st_Name t) \<noteq> None
      then Inr (map (\<lambda>t. order_term (the (map_of m (st_Name t))) t) ts) else Inl Pg_ErrInvalid)"
  by (induction ts) (auto split: option.splits)

lemma constraint_texts_Cons [simp]:
  "constraint_texts m n [] = []"
  "constraint_texts m n (c # cs) = constraint_text m (Suc n) c # constraint_texts m (Suc n) cs"
  by (simp_all add: constraint_texts_def upt_conv_Cons del: upt_Suc)

lemma constraint_loop_result:
  "\<forall>c \<in> set cs. map_of (mp_Constraints m) (cn_Name c) \<noteq> None \<Longrightarrow>
   constraint_loop (mp_Constraints m) cs args =
     (Inr (constraint_texts m (length args) cs), args @ map cn_Value cs)"
  by (induction cs arbitrary: args)
    (auto simp: constraint_text_def Let_def)

lemma constraint_loop_unmapped:
  "\<not> (\<forall>c \<in> set cs. map_of (mp_Constraints m) (cn_Name c) \<noteq> None) \<Longrightarrow>
   fst (constraint_loop (mp_Constraints m) cs args) = Inl Pg_ErrInvalid"
proof (induction cs arbitrary: args)
  case (Cons c cs)
  show ?case
  proof (cases "map_of (mp_Constraints m) (cn_Name c)")
    case (Some i)
    with Cons.prems have "fst (constraint_loop (mp_Constraints m) cs (args @ [cn_Value c])) =
        Inl Pg_ErrInvalid"
      by (intro Cons.IH) auto
    with Some show ?thesis
      by (cases "constraint_loop (mp_Constraints m) cs (args @ [cn_Value c])") (simp add: Let_def)
  qed simp
qed simp

lemma Compiler_Compile_spec:
  assumes "\<forall>f. pl_filter plan = Some f \<longrightarrow> shaped f"
  shows "Compiler_Compile (Some c) (Some plan) =
    (if plan_mapped (cm_mapping c) plan then Inr (spec_parts (cm_mapping c) plan)
     else Inl Pg_ErrInvalid)"
proof -
  define m where "m = cm_mapping c"
  have join: "length xs > 0 \<longleftrightarrow> xs \<noteq> []" for xs :: "'x list" by simp
  show ?thesis
  proof (cases "(\<forall>n \<in> set (pl_executionFields plan). map_of (mp_Fields m) n \<noteq> None) \<and>
      (\<forall>c \<in> set (pl_constraints plan). map_of (mp_Constraints m) (cn_Name c) \<noteq> None)")
    case False
    then have "\<not> plan_mapped m plan" unfolding plan_mapped_def by blast
    moreover have "Compiler_Compile (Some c) (Some plan) = Inl Pg_ErrInvalid"
    proof (cases "\<forall>n \<in> set (pl_executionFields plan). map_of (mp_Fields m) n \<noteq> None")
      case True
      with False have "fst (constraint_loop (mp_Constraints m) (pl_constraints plan) []) =
          Inl Pg_ErrInvalid"
        by (intro constraint_loop_unmapped) blast
      then show ?thesis
        by (cases "constraint_loop (mp_Constraints m) (pl_constraints plan) []")
          (simp add: Compiler_Compile_def m_def [symmetric] projection_loop_result True
            Plan_ExecutionFields_def Plan_MandatoryConstraints_def)
    next
      case False
      then show ?thesis
        by (simp only: Compiler_Compile_def m_def [symmetric] projection_loop_result
            Plan_ExecutionFields_def Let_def prod.case option.case sum.case if_False)
    qed
    ultimately show ?thesis by (simp add: m_def)
  next
    case True
    then have start: "constraint_loop (mp_Constraints m) (pl_constraints plan) [] =
        (Inr (constraint_texts m 0 (pl_constraints plan)), map cn_Value (pl_constraints plan))"
      using constraint_loop_result [of "pl_constraints plan" m "[]"] by simp
    have nonempty: "constraint_texts m 0 cs = [] \<longleftrightarrow> cs = []" for cs by (cases cs) auto
    note unfold = Compiler_Compile_def m_def [symmetric] plan_mapped_def Let_def
      projection_loop_result order_loop_result start Plan_ExecutionFields_def
      Plan_MandatoryConstraints_def Plan_Filter_def Plan_Sorts_def spec_parts_def zeroParts_def
      conditions_def plan_args_def parens_def field_text_def [abs_def] sort_text_def [abs_def]
    show ?thesis
    proof (cases "pl_filter plan")
      case None
      with True show ?thesis by (simp add: unfold nonempty)
    next
      case (Some f)
      with assms have f: "shaped f" by simp
      let ?args = "map cn_Value (pl_constraints plan)"
      show ?thesis
      proof (cases "filter_mapped m f")
        case mapped: True
        then have "filterSQL m f ?args =
            (Inr (filter_text m (length (pl_constraints plan)) f), ?args @ filter_args f)"
          using filterSQL_ok(1) [OF f, of m ?args] by (simp add: filter_mapped_def)
        with True Some mapped show ?thesis by (simp add: unfold nonempty)
      next
        case unmapped: False
        then have "fst (filterSQL m f ?args) = Inl Pg_ErrInvalid"
          using filterSQL_unmapped(1) [OF f] by (simp add: filter_mapped_def)
        with True Some unmapped show ?thesis
          by (cases "filterSQL m f ?args") (simp add: unfold nonempty)
      qed
    qed
  qed
qed

section \<open>Filters of compiled plans\<close>

lemma accepted_predicate_enough:
  assumes wf: "wf_schema schema" and ok: "predicate_ok schema p"
  shows "pred_enough p"
proof -
  obtain i where i: "sc_filterIndex schema (pr_Name p) = Some i"
    and op: "pr_Operator p \<in> set (fl_Operators (sc_filters schema ! i))"
    and vals: "values_ok schema (sc_filters schema ! i) p"
    using ok by (auto simp: predicate_ok_def filter_def_def split: option.splits)
  have "filter_ok (b_MaxCost (sc_bounds schema)) (sc_filters schema ! i)"
    using wf_schema_filter [OF wf i] by blast
  with op have "operatorSupportsType (pr_Operator p) (fl_Type (sc_filters schema ! i))
      (fl_Nullable (sc_filters schema ! i))"
    by (simp add: filter_ok_def)
  then have known: "pr_Operator p = OpIsNull \<or> pr_Operator p = OpBetween \<or>
      membership (pr_Operator p) \<or> pattern_operator (pr_Operator p) \<or>
      comparisonOperator (pr_Operator p) \<noteq> None"
    by (auto simp: operatorSupportsType_def membership_def pattern_operator_def
        comparisonOperator_def split: if_splits)
  have "\<not> membership (pr_Operator p) \<Longrightarrow> int (length (pr_Values p)) = wanted_values (pr_Operator p)"
    using vals by (simp add: values_ok_def Let_def)
  with known show ?thesis
    by (auto simp: pred_enough_def wanted_values_def membership_def split: if_splits)
qed

lemma accepted_shaped:
  "wf_schema schema \<Longrightarrow> shape_ok schema depth f \<Longrightarrow>
   \<forall>p \<in> set (predicates f). predicate_ok schema p \<Longrightarrow> shaped f"
  "wf_schema schema \<Longrightarrow> shape_ok_list schema depth fs \<Longrightarrow>
   \<forall>p \<in> set (predicates_list fs). predicate_ok schema p \<Longrightarrow> shaped_list fs"
proof (induction schema depth f and schema depth fs rule: shape_ok_shape_ok_list.induct)
  case (1 schema depth predicate logic children)
  have "sc_allowedLogic schema \<subseteq> known_logic" using "1.prems"(1) by (simp add: wf_schema_def)
  with 1 show ?case by (cases predicate) (auto simp: accepted_predicate_enough)
qed auto

end
