(* ===== verification/SqlCondition.thy ===== *)
theory SqlCondition
  imports PostgresCorrect "HOL-Library.Sublist"
begin

text \<open>
  The conditions of PostgreSQL that the adapter writes, read back: a lexer, a parser with the
  precedence of the language (\<open>NOT\<close> before \<open>AND\<close> before \<open>OR\<close>, the \<open>AND\<close> of \<open>BETWEEN\<close> apart), and the
  three-valued meaning of what it reads. The reader knows just the part of the language that is
  needed, and refuses every other text: quotes in quoted names, comments, functions, literals other
  than the escape character of \<open>LIKE\<close>. Strings follow \<open>standard_conforming_strings\<close>.
\<close>

section \<open>Patterns\<close>

text \<open>
  \<open>LIKE\<close> with the escape character \<open>\\<close>, as PostgreSQL documents it: \<open>%\<close> is any text, \<open>_\<close> any single
  character, and an escaped character is itself.
\<close>

function like :: "string \<Rightarrow> string \<Rightarrow> bool" where
  "like [] t \<longleftrightarrow> t = []"
| "like (c # p) t \<longleftrightarrow>
     (if c = CHR ''%'' then like p t \<or> (case t of [] \<Rightarrow> False | _ # u \<Rightarrow> like (c # p) u)
      else
        (case t of
           [] \<Rightarrow> False
         | x # u \<Rightarrow>
             if c = CHR 0x5C then (case p of [] \<Rightarrow> False | d # q \<Rightarrow> x = d \<and> like q u)
             else (c = CHR ''_'' \<or> x = c) \<and> like p u))"
  by pat_completeness auto
termination
  by (relation "measure (\<lambda>(p, t). length p + length t)") auto

declare like.simps(2) [simp del]

definition escape_char :: "char \<Rightarrow> string" where
  "escape_char c =
     (if c = CHR 0x5C \<or> c = CHR ''%'' \<or> c = CHR ''_'' then [CHR 0x5C, c] else [c])"

lemma replaceAll_simps [simp]:
  "replaceAll [] old new = []"
  "replaceAll (c # s) old new = (if c = old then new else [c]) @ replaceAll s old new"
  by (simp_all add: replaceAll_def)

lemma replaceAll_append: "replaceAll (s @ t) old new = replaceAll s old new @ replaceAll t old new"
  by (simp add: replaceAll_def)

lemma escapeLike_chars: "escapeLike v = concat (map escape_char v)"
proof (induction v)
  case (Cons c v)
  then show ?case by (simp add: escapeLike_def Let_def escape_char_def)
qed (simp add: escapeLike_def)

lemma like_literal: "like (escapeLike v @ p) t \<longleftrightarrow> (\<exists>u. t = v @ u \<and> like p u)"
proof (induction v arbitrary: t)
  case (Cons c v)
  have "like (escape_char c @ q) t \<longleftrightarrow> t \<noteq> [] \<and> hd t = c \<and> like q (tl t)" for q
    by (cases t) (simp_all add: escape_char_def like.simps(2))
  then show ?case
    using Cons [of "tl t"] by (cases t) (auto simp: escapeLike_chars)
qed (simp add: escapeLike_chars)

lemma like_any: "like (CHR ''%'' # p) t \<longleftrightarrow> (\<exists>u v. t = u @ v \<and> like p v)"
proof (induction t)
  case Nil
  then show ?case by (simp add: like.simps(2))
next
  case (Cons x t)
  have "like (CHR ''%'' # p) (x # t) \<longleftrightarrow> like p (x # t) \<or> like (CHR ''%'' # p) t"
    by (subst like.simps(2)) simp
  also have "\<dots> \<longleftrightarrow> like p (x # t) \<or> (\<exists>u v. t = u @ v \<and> like p v)" by (simp only: Cons)
  also have "\<dots> \<longleftrightarrow> (\<exists>u v. x # t = u @ v \<and> like p v)" by (simp add: Cons_eq_append_conv) blast
  finally show ?case .
qed

lemma like_any_end: "like ''%'' t"
  unfolding like_any by auto

text \<open>What a pattern operator promises of a text.\<close>

definition pattern_holds :: "Operator \<Rightarrow> string \<Rightarrow> string \<Rightarrow> bool" where
  "pattern_holds operator literal t \<longleftrightarrow>
     (if operator = OpStartsWith then prefix literal t
      else if operator = OpEndsWith then suffix literal t
      else sublist literal t)"

lemma like_pattern:
  assumes "pattern_operator operator"
  shows "like (likePattern operator literal) t \<longleftrightarrow> pattern_holds operator literal t"
proof -
  have "like (escapeLike s) t \<longleftrightarrow> t = s" for s t
    using like_literal [of s "[]" t] by simp
  moreover have "like (escapeLike s @ ''%'') t \<longleftrightarrow> prefix s t" for s t
    by (auto simp: like_literal like_any_end prefix_def)
  moreover have "operator = OpContains \<or> operator = OpStartsWith \<or> operator = OpEndsWith"
    using assms by (simp add: pattern_operator_def)
  ultimately show ?thesis
    by (elim disjE) (simp_all add: likePattern_def pattern_holds_def like_any
        suffix_def sublist_def, auto simp: prefix_def)
qed

section \<open>Tokens\<close>

text \<open>The segments of a dotted identifier.\<close>

definition identifier_parts :: "string \<Rightarrow> string list" where
  "identifier_parts identifier = split_on (CHR ''.'') identifier"

datatype sql_token =
  SqlName string | SqlParam nat | SqlWord string | SqlSign string | SqlText string
| SqlDot | SqlComma | SqlOpen | SqlClose

definition sql_letter :: "char \<Rightarrow> bool" where
  "sql_letter c \<longleftrightarrow> in_bytes 65 90 c \<or> in_bytes 97 122 c"

definition word_char :: "char \<Rightarrow> bool" where
  "word_char c \<longleftrightarrow> sql_letter c \<or> is_digit_char c \<or> c = CHR ''_'' \<or> c = CHR ''$''"

definition sign_char :: "char \<Rightarrow> bool" where
  "sign_char c \<longleftrightarrow> c \<in> set ''<>=''"

text \<open>The text up to a quote and what follows it; a doubled quote is refused.\<close>

definition quoted :: "char \<Rightarrow> string \<Rightarrow> (string \<times> string) option" where
  "quoted q s =
     (case dropWhile (\<lambda>c. c \<noteq> q) s of
        [] \<Rightarrow> None
      | _ # rest \<Rightarrow>
          if rest \<noteq> [] \<and> hd rest = q then None else Some (takeWhile (\<lambda>c. c \<noteq> q) s, rest))"

lemma quoted_shorter: "quoted q s = Some (name, rest) \<Longrightarrow> length rest < length s"
  by (auto simp: quoted_def dest: dropWhile_shorter split: list.splits if_splits)

function sql_lex :: "string \<Rightarrow> sql_token list option" where
  "sql_lex [] = Some []"
| "sql_lex (c # s) =
     (if c = CHR '' '' then sql_lex s
      else if c = CHR ''.'' then map_option ((#) SqlDot) (sql_lex s)
      else if c = CHR '','' then map_option ((#) SqlComma) (sql_lex s)
      else if c = CHR ''('' then map_option ((#) SqlOpen) (sql_lex s)
      else if c = CHR '')'' then map_option ((#) SqlClose) (sql_lex s)
      else if c = CHR 0x22 then
        (case quoted c s of
           None \<Rightarrow> None
         | Some (name, rest) \<Rightarrow> map_option ((#) (SqlName name)) (sql_lex rest))
      else if c = CHR 0x27 then
        (case quoted c s of
           None \<Rightarrow> None
         | Some (literal, rest) \<Rightarrow> map_option ((#) (SqlText literal)) (sql_lex rest))
      else if c = CHR ''$'' then
        (if takeWhile is_digit_char s = [] then None
         else
           case digits_value 0 (takeWhile is_digit_char s) of
             None \<Rightarrow> None
           | Some n \<Rightarrow> map_option ((#) (SqlParam n)) (sql_lex (dropWhile is_digit_char s)))
      else if sql_letter c then
        map_option ((#) (SqlWord (c # takeWhile word_char s))) (sql_lex (dropWhile word_char s))
      else if sign_char c then
        map_option ((#) (SqlSign (c # takeWhile sign_char s))) (sql_lex (dropWhile sign_char s))
      else None)"
  by pat_completeness auto
termination
  by (relation "measure length") (auto dest: quoted_shorter simp: less_Suc_eq_le length_dropWhile_le)

declare sql_lex.simps(2) [simp del]

section \<open>Atoms\<close>

datatype sql_test =
  SqlCompare string "string list" nat
| SqlIsNull "string list"
| SqlBetween "string list" nat nat
| SqlIn bool "string list" "nat list"
| SqlLike "string list" nat

fun sql_column :: "sql_token list \<Rightarrow> (string list \<times> sql_token list) option" where
  "sql_column [] = None"
| "sql_column (t # ts) =
     (case t of
        SqlName p \<Rightarrow>
          (case ts of
             SqlDot # rest \<Rightarrow> map_option (map_prod ((#) p) id) (sql_column rest)
           | _ \<Rightarrow> Some ([p], ts))
      | _ \<Rightarrow> None)"

fun sql_params :: "sql_token list \<Rightarrow> (nat list \<times> sql_token list) option" where
  "sql_params [] = None"
| "sql_params (t # ts) =
     (case t of
        SqlParam n \<Rightarrow>
          (case ts of
             SqlComma # rest \<Rightarrow> map_option (map_prod ((#) n) id) (sql_params rest)
           | SqlClose # rest \<Rightarrow> Some ([n], rest)
           | _ \<Rightarrow> None)
      | _ \<Rightarrow> None)"

text \<open>What may follow a column and a keyword, and a column and anything.\<close>

definition sql_word ::
  "string \<Rightarrow> string list \<Rightarrow> sql_token list \<Rightarrow> (sql_test \<times> sql_token list) option" where
  "sql_word w col ts =
     (if w = ''IS'' then
        (case ts of SqlWord v # rest \<Rightarrow> if v = ''NULL'' then Some (SqlIsNull col, rest) else None
         | _ \<Rightarrow> None)
      else if w = ''BETWEEN'' then
        (case ts of
           SqlParam a # SqlWord v # SqlParam b # rest \<Rightarrow>
             if v = ''AND'' then Some (SqlBetween col a b, rest) else None
         | _ \<Rightarrow> None)
      else if w = ''IN'' then
        (case ts of
           SqlOpen # rest \<Rightarrow> map_option (map_prod (SqlIn True col) id) (sql_params rest)
         | _ \<Rightarrow> None)
      else if w = ''NOT'' then
        (case ts of
           SqlWord v # SqlOpen # rest \<Rightarrow>
             if v = ''IN'' then map_option (map_prod (SqlIn False col) id) (sql_params rest) else None
         | _ \<Rightarrow> None)
      else if w = ''LIKE'' then
        (case ts of
           SqlParam n # SqlWord v # SqlText escape # rest \<Rightarrow>
             if v = ''ESCAPE'' \<and> escape = [CHR 0x5C] then Some (SqlLike col n, rest) else None
         | _ \<Rightarrow> None)
      else None)"

definition sql_rest :: "string list \<Rightarrow> sql_token list \<Rightarrow> (sql_test \<times> sql_token list) option" where
  "sql_rest col ts =
     (case ts of
        SqlSign sign # SqlParam n # rest \<Rightarrow> Some (SqlCompare sign col n, rest)
      | SqlWord w # rest \<Rightarrow> sql_word w col rest
      | _ \<Rightarrow> None)"

definition sql_atom :: "sql_token list \<Rightarrow> (sql_test \<times> sql_token list) option" where
  "sql_atom ts = Option.bind (sql_column ts) (\<lambda>(col, rest). sql_rest col rest)"

lemma sql_column_shorter: "sql_column ts = Some (col, rest) \<Longrightarrow> length rest < length ts"
proof (induction ts arbitrary: col rule: sql_column.induct)
  case (2 t ts)
  from "2.prems" show ?case
    by (auto split: sql_token.splits list.splits dest!: "2.IH")
qed simp

lemma sql_params_shorter: "sql_params ts = Some (ns, rest) \<Longrightarrow> length rest < length ts"
proof (induction ts arbitrary: ns rule: sql_params.induct)
  case (2 t ts)
  obtain n where n: "t = SqlParam n" using "2.prems" by (cases t) simp_all
  obtain u us where ts: "ts = u # us" using "2.prems" n by (cases ts) simp_all
  show ?case
  proof (cases "u = SqlComma")
    case True
    with "2.prems" obtain ms where "sql_params us = Some (ms, rest)" by (auto simp: n ts)
    from "2.IH" [OF n ts True this] show ?thesis by (simp add: ts)
  next
    case False
    with "2.prems" show ?thesis by (cases u) (simp_all add: n ts)
  qed
qed simp

lemma sql_word_shorter: "sql_word w col ts = Some (a, rest) \<Longrightarrow> length rest \<le> length ts"
proof -
  assume run: "sql_word w col ts = Some (a, rest)"
  then have "w \<in> {''IS'', ''BETWEEN'', ''IN'', ''NOT'', ''LIKE''}"
    unfolding sql_word_def by (simp split: if_split_asm)
  then consider "w = ''IS''" | "w = ''BETWEEN''" | "w = ''IN''" | "w = ''NOT''" | "w = ''LIKE''" by blast
  then show ?thesis
    by cases (use run in \<open>auto simp: sql_word_def dest!: sql_params_shorter
      split: list.split_asm sql_token.split_asm if_split_asm\<close>)
qed

lemma sql_rest_shorter: "sql_rest col ts = Some (a, rest) \<Longrightarrow> length rest \<le> length ts"
  by (auto simp: sql_rest_def dest!: sql_word_shorter split: list.split_asm sql_token.split_asm)

lemma sql_atom_shorter: "sql_atom ts = Some (a, rest) \<Longrightarrow> length rest < length ts"
  by (auto simp: sql_atom_def bind_eq_Some_conv dest!: sql_column_shorter sql_rest_shorter)

section \<open>Conditions\<close>

datatype sql_item = ItemAtom sql_test | ItemNot | ItemAnd | ItemOr | ItemOpen | ItemClose

function sql_items :: "sql_token list \<Rightarrow> sql_item list option" where
  "sql_items [] = Some []"
| "sql_items (t # ts) =
     (if t = SqlOpen then map_option ((#) ItemOpen) (sql_items ts)
      else if t = SqlClose then map_option ((#) ItemClose) (sql_items ts)
      else if t = SqlWord ''NOT'' then map_option ((#) ItemNot) (sql_items ts)
      else if t = SqlWord ''AND'' then map_option ((#) ItemAnd) (sql_items ts)
      else if t = SqlWord ''OR'' then map_option ((#) ItemOr) (sql_items ts)
      else
        case sql_atom (t # ts) of
          None \<Rightarrow> None
        | Some (a, rest) \<Rightarrow> map_option ((#) (ItemAtom a)) (sql_items rest))"
  by pat_completeness auto
termination
  by (relation "measure length") (auto dest: sql_atom_shorter)

declare sql_items.simps(2) [simp del]

datatype sql_cond =
  SqlAtom sql_test | SqlNot sql_cond | SqlAnd sql_cond sql_cond | SqlOr sql_cond sql_cond

text \<open>
  What is read of one level of parentheses: the disjuncts that are complete, the conjuncts of the
  present disjunct, the \<open>NOT\<close>s that wait for their operand, and whether an operand must come next.
\<close>

record sql_frame =
  fr_ors :: "sql_cond option"
  fr_ands :: "sql_cond option"
  fr_nots :: nat
  fr_want :: bool

definition emptyFrame :: sql_frame where
  "emptyFrame = \<lparr>fr_ors = None, fr_ands = None, fr_nots = 0, fr_want = True\<rparr>"

definition joined ::
  "(sql_cond \<Rightarrow> sql_cond \<Rightarrow> sql_cond) \<Rightarrow> sql_cond option \<Rightarrow> sql_cond \<Rightarrow> sql_cond" where
  "joined f old c = (case old of None \<Rightarrow> c | Some d \<Rightarrow> f d c)"

text \<open>The operand that an operator or an opening parenthesis waited for; the value of a level.\<close>

definition given :: "sql_cond \<Rightarrow> sql_frame \<Rightarrow> sql_frame" where
  "given c fr =
     fr\<lparr>fr_ands := Some (joined SqlAnd (fr_ands fr) ((SqlNot ^^ fr_nots fr) c)),
       fr_nots := 0, fr_want := False\<rparr>"

definition frame_value :: "sql_frame \<Rightarrow> sql_cond option" where
  "frame_value fr =
     (if fr_want fr then None else map_option (joined SqlOr (fr_ors fr)) (fr_ands fr))"

fun sql_run :: "sql_item list \<Rightarrow> sql_frame \<Rightarrow> sql_frame list \<Rightarrow> sql_cond option" where
  "sql_run [] fr outer = (if outer = [] then frame_value fr else None)"
| "sql_run (ItemAtom a # is) fr outer =
     (if fr_want fr then sql_run is (given (SqlAtom a) fr) outer else None)"
| "sql_run (ItemNot # is) fr outer =
     (if fr_want fr then sql_run is (fr\<lparr>fr_nots := Suc (fr_nots fr)\<rparr>) outer else None)"
| "sql_run (ItemAnd # is) fr outer =
     (if fr_want fr then None else sql_run is (fr\<lparr>fr_want := True\<rparr>) outer)"
| "sql_run (ItemOr # is) fr outer =
     (case frame_value fr of
        None \<Rightarrow> None
      | Some c \<Rightarrow> sql_run is (emptyFrame\<lparr>fr_ors := Some c\<rparr>) outer)"
| "sql_run (ItemOpen # is) fr outer =
     (if fr_want fr then sql_run is emptyFrame (fr # outer) else None)"
| "sql_run (ItemClose # is) fr outer =
     (case (frame_value fr, outer) of
        (Some c, up # upper) \<Rightarrow> sql_run is (given c up) upper
      | _ \<Rightarrow> None)"

definition sql_scan :: "string \<Rightarrow> sql_item list option" where
  "sql_scan s = Option.bind (sql_lex s) sql_items"

definition sql_parse :: "string \<Rightarrow> sql_cond option" where
  "sql_parse s = Option.bind (sql_scan s) (\<lambda>is. sql_run is emptyFrame [])"

section \<open>Meaning\<close>

text \<open>
  \<open>None\<close> is \<open>NULL\<close>. A row and the comparisons of its values are given: the value of a column, of a
  bound argument, the comparison by a sign, the test for \<open>NULL\<close>, and the text that \<open>LIKE\<close> sees.
\<close>

fun not3 :: "bool option \<Rightarrow> bool option" where
  "not3 x = map_option Not x"

fun and3 :: "bool option \<Rightarrow> bool option \<Rightarrow> bool option" where
  "and3 (Some False) y = Some False"
| "and3 (Some True) y = y"
| "and3 None y = (if y = Some False then Some False else None)"

fun or3 :: "bool option \<Rightarrow> bool option \<Rightarrow> bool option" where
  "or3 (Some True) y = Some True"
| "or3 (Some False) y = y"
| "or3 None y = (if y = Some True then Some True else None)"

definition all3 :: "bool option list \<Rightarrow> bool option" where
  "all3 xs = foldr and3 xs (Some True)"

definition any3 :: "bool option list \<Rightarrow> bool option" where
  "any3 xs = foldr or3 xs (Some False)"

record 'v sql_row =
  rw_column :: "string list \<Rightarrow> 'v"
  rw_bound :: "Value \<Rightarrow> 'v"
  rw_compare :: "string \<Rightarrow> 'v \<Rightarrow> 'v \<Rightarrow> bool option"
  rw_null :: "'v \<Rightarrow> bool"
  rw_text :: "'v \<Rightarrow> string option"

text \<open>The comparison of a column with a value.\<close>

definition compare3 :: "'v sql_row \<Rightarrow> string \<Rightarrow> string list \<Rightarrow> Value \<Rightarrow> bool option" where
  "compare3 row sign col v = rw_compare row sign (rw_column row col) (rw_bound row v)"

fun eval_atom :: "'v sql_row \<Rightarrow> Value list \<Rightarrow> sql_test \<Rightarrow> bool option" where
  "eval_atom row args (SqlCompare sign col n) = compare3 row sign col (args ! (n - 1))"
| "eval_atom row args (SqlIsNull col) = Some (rw_null row (rw_column row col))"
| "eval_atom row args (SqlBetween col a b) =
     and3 (compare3 row ''>='' col (args ! (a - 1))) (compare3 row ''<='' col (args ! (b - 1)))"
| "eval_atom row args (SqlIn positive col ns) =
     (let found = any3 (map (\<lambda>n. compare3 row ''='' col (args ! (n - 1))) ns)
      in if positive then found else not3 found)"
| "eval_atom row args (SqlLike col n) =
     map_option (like (v_text (args ! (n - 1)))) (rw_text row (rw_column row col))"

fun eval_cond :: "'v sql_row \<Rightarrow> Value list \<Rightarrow> sql_cond \<Rightarrow> bool option" where
  "eval_cond row args (SqlAtom a) = eval_atom row args a"
| "eval_cond row args (SqlNot c) = not3 (eval_cond row args c)"
| "eval_cond row args (SqlAnd c d) = and3 (eval_cond row args c) (eval_cond row args d)"
| "eval_cond row args (SqlOr c d) = or3 (eval_cond row args c) (eval_cond row args d)"

text \<open>The precedence of the operators, on a text without parentheses and with a \<open>BETWEEN\<close>.\<close>

lemma sql_precedence:
  "sql_parse (quoteIdentifier ''a'' @ '' IS NULL OR NOT '' @ quoteIdentifier ''t.b'' @ '' = $1 AND '' @
      quoteIdentifier ''c'' @ '' BETWEEN $2 AND $3 OR '' @ quoteIdentifier ''d'' @ '' IN ($4, $5)'') =
     Some (SqlOr
       (SqlOr (SqlAtom (SqlIsNull [''a'']))
         (SqlAnd (SqlNot (SqlAtom (SqlCompare ''='' [''t'', ''b''] 1)))
           (SqlAtom (SqlBetween [''c''] 2 3))))
       (SqlAtom (SqlIn True [''d''] [4, 5])))"
  by code_simp

end
