(* ===== verification/SqlMeaning.thy ===== *)
theory SqlMeaning
  imports SqlCondition
begin

text \<open>
  The adapter and the reader of conditions composed: what the text of a filter means, whatever the
  row and the values, is what the filter expression means. Scanning and parsing are compositional:
  each lemma says what the reader makes of one piece of text before any rest.
\<close>

section \<open>What a filter means\<close>

definition filter_column :: "Mapping \<Rightarrow> Predicate \<Rightarrow> string list" where
  "filter_column m p = identifier_parts (the (map_of (mp_Filters m) (pr_Name p)))"

definition predicate_holds :: "Mapping \<Rightarrow> 'v sql_row \<Rightarrow> Predicate \<Rightarrow> bool option" where
  "predicate_holds m row p =
     (let col = filter_column m p; vs = pr_Values p in
      if pr_Operator p = OpIsNull then Some (rw_null row (rw_column row col))
      else if pr_Operator p = OpBetween then
        and3 (compare3 row ''>='' col (vs ! 0)) (compare3 row ''<='' col (vs ! 1))
      else if pr_Operator p = OpIn then any3 (map (compare3 row ''='' col) vs)
      else if pr_Operator p = OpNotIn then not3 (any3 (map (compare3 row ''='' col) vs))
      else if pattern_operator (pr_Operator p) then
        map_option (pattern_holds (pr_Operator p) (v_text (vs ! 0)))
          (rw_text row (rw_column row col))
      else compare3 row (the (comparisonOperator (pr_Operator p))) col (vs ! 0))"

fun filter_holds :: "Mapping \<Rightarrow> 'v sql_row \<Rightarrow> FilterExpr \<Rightarrow> bool option"
  and filters_hold :: "Mapping \<Rightarrow> 'v sql_row \<Rightarrow> FilterExpr list \<Rightarrow> bool option list" where
  "filter_holds m row (FilterExpr predicate logic children) =
     (case predicate of
        Some p \<Rightarrow> predicate_holds m row p
      | None \<Rightarrow>
          (if logic = LogicNot then not3 (hd (filters_hold m row children))
           else if logic = LogicOr then any3 (filters_hold m row children)
           else all3 (filters_hold m row children)))"
| "filters_hold m row [] = []"
| "filters_hold m row (f # fs) = filter_holds m row f # filters_hold m row fs"

definition constraint_holds :: "Mapping \<Rightarrow> 'v sql_row \<Rightarrow> Constraint \<Rightarrow> bool option" where
  "constraint_holds m row c =
     compare3 row ''='' (identifier_parts (the (map_of (mp_Constraints m) (cn_Name c)))) (cn_Value c)"

definition plan_holds :: "Mapping \<Rightarrow> 'v sql_row \<Rightarrow> Plan \<Rightarrow> bool option" where
  "plan_holds m row plan =
     and3 (all3 (map (constraint_holds m row) (pl_constraints plan)))
       (case pl_filter plan of None \<Rightarrow> Some True | Some f \<Rightarrow> filter_holds m row f)"

section \<open>Three-valued logic\<close>

lemma and3_True [simp]: "and3 x (Some True) = x"
  by (cases "(x, Some True)" rule: and3.cases) auto

lemma and3_assoc: "and3 (and3 x y) z = and3 x (and3 y z)"
  by (cases "(x, y)" rule: and3.cases; cases "(y, z)" rule: and3.cases) auto

lemma or3_False [simp]: "or3 x (Some False) = x"
  by (cases "(x, Some False)" rule: or3.cases) auto

lemma or3_assoc: "or3 (or3 x y) z = or3 x (or3 y z)"
  by (cases "(x, y)" rule: or3.cases; cases "(y, z)" rule: or3.cases) auto

lemma and3_holds: "and3 x y = Some True \<longleftrightarrow> x = Some True \<and> y = Some True"
  by (cases "(x, y)" rule: and3.cases) auto

lemma all3_holds: "all3 xs = Some True \<longleftrightarrow> (\<forall>x \<in> set xs. x = Some True)"
  by (induction xs) (auto simp: all3_def and3_holds)

text \<open>A chain of one operator groups to the left.\<close>

definition chain :: "('a \<Rightarrow> 'a \<Rightarrow> 'a) \<Rightarrow> 'a list \<Rightarrow> 'a" where
  "chain f xs = foldl f (hd xs) (tl xs)"

lemma eval_chain_and:
  "cs \<noteq> [] \<Longrightarrow> eval_cond row args (chain SqlAnd cs) = all3 (map (eval_cond row args) cs)"
proof -
  have "eval_cond row args (foldl SqlAnd c cs) = and3 (eval_cond row args c)
      (all3 (map (eval_cond row args) cs))" for c cs
    by (induction cs arbitrary: c) (simp_all add: all3_def and3_assoc)
  then show "cs \<noteq> [] \<Longrightarrow> ?thesis" by (cases cs) (simp_all add: chain_def all3_def)
qed

lemma eval_chain_or:
  "cs \<noteq> [] \<Longrightarrow> eval_cond row args (chain SqlOr cs) = any3 (map (eval_cond row args) cs)"
proof -
  have "eval_cond row args (foldl SqlOr c cs) = or3 (eval_cond row args c)
      (any3 (map (eval_cond row args) cs))" for c cs
    by (induction cs arbitrary: c) (simp_all add: any3_def or3_assoc)
  then show "cs \<noteq> [] \<Longrightarrow> ?thesis" by (cases cs) (simp_all add: chain_def any3_def)
qed

section \<open>Lexing the pieces\<close>

definition delimited :: "string \<Rightarrow> bool" where
  "delimited s \<longleftrightarrow> (case s of [] \<Rightarrow> True | c # _ \<Rightarrow> c = CHR '' '' \<or> c = CHR '')'' \<or> c = CHR '','')"

lemma delimited_simps [simp]:
  "delimited []" "delimited (CHR '' '' # s)" "delimited (CHR '')'' # s)" "delimited (CHR '','' # s)"
  by (simp_all add: delimited_def)

lemma char_classes [simp]:
  "\<not> word_char (CHR '' '')" "\<not> word_char (CHR '')'')" "\<not> word_char (CHR '','')"
  "\<not> is_digit_char (CHR '' '')" "\<not> is_digit_char (CHR '')'')" "\<not> is_digit_char (CHR '','')"
  by (simp_all add: word_char_def sql_letter_def is_digit_char_def in_bytes_def byte_def)

lemma delimited_stop:
  assumes "delimited rest"
  shows "takeWhile word_char rest = []" "dropWhile word_char rest = rest"
    "takeWhile is_digit_char rest = []" "dropWhile is_digit_char rest = rest"
  using assms by (cases rest; auto simp: delimited_def)+

lemma lex_space [simp]: "sql_lex (CHR '' '' # s) = sql_lex s"
  by (subst sql_lex.simps(2)) simp

lemma lex_punct [simp]:
  "sql_lex (CHR ''('' # s) = map_option ((#) SqlOpen) (sql_lex s)"
  "sql_lex (CHR '')'' # s) = map_option ((#) SqlClose) (sql_lex s)"
  "sql_lex (CHR '','' # s) = map_option ((#) SqlComma) (sql_lex s)"
  "sql_lex (CHR ''.'' # s) = map_option ((#) SqlDot) (sql_lex s)"
  by (subst sql_lex.simps(2), simp)+

lemma lex_word:
  assumes "list_all sql_letter w" and "w \<noteq> []" and "delimited rest"
  shows "sql_lex (w @ rest) = map_option ((#) (SqlWord w)) (sql_lex rest)"
proof -
  obtain c u where w: "w = c # u" using assms(2) by (cases w) auto
  have "takeWhile word_char (u @ rest) = u" "dropWhile word_char (u @ rest) = rest"
    using assms(1) delimited_stop [OF assms(3)]
    by (simp_all add: w takeWhile_append dropWhile_append list_all_iff word_char_def)
  moreover have "sql_letter c" using assms(1) by (simp add: w)
  moreover from this have "c \<notin> {CHR '' '', CHR ''.'', CHR '','', CHR ''('', CHR '')'', CHR 0x22,
      CHR 0x27, CHR ''$''}"
    by (auto simp: sql_letter_def in_bytes_def byte_def)
  ultimately show ?thesis by (simp add: w sql_lex.simps(2))
qed

lemma lex_param:
  assumes "delimited rest"
  shows "sql_lex (placeholder n @ rest) = map_option ((#) (SqlParam n)) (sql_lex rest)"
proof -
  have "takeWhile is_digit_char (dec_nat n @ rest) = dec_nat n"
    "dropWhile is_digit_char (dec_nat n @ rest) = rest"
    using dec_nat_digits delimited_stop [OF assms] by (simp_all add: takeWhile_append dropWhile_append)
  then show ?thesis
    by (simp add: placeholder_def sql_lex.simps(2) digits_value_dec_nat)
qed

definition quote_free :: "string \<Rightarrow> bool" where
  "quote_free ident \<longleftrightarrow> (\<forall>p \<in> set (identifier_parts ident). CHR 0x22 \<notin> set p)"

definition column_tokens :: "string list \<Rightarrow> sql_token list" where
  "column_tokens ps = join_with [SqlDot] (map (\<lambda>p. [SqlName p]) ps)"

lemma lex_name:
  assumes "CHR 0x22 \<notin> set p" and "rest = [] \<or> hd rest \<noteq> CHR 0x22"
  shows "sql_lex (quote_part p @ rest) = map_option ((#) (SqlName p)) (sql_lex rest)"
proof -
  have "dropWhile (\<lambda>c. c \<noteq> CHR 0x22) (p @ CHR 0x22 # rest) = CHR 0x22 # rest"
    "takeWhile (\<lambda>c. c \<noteq> CHR 0x22) (p @ CHR 0x22 # rest) = p"
    using assms(1) by (induction p) auto
  with assms(2) have "quoted (CHR 0x22) (p @ CHR 0x22 # rest) = Some (p, rest)"
    by (auto simp: quoted_def)
  then show ?thesis by (simp add: quote_part_def sql_lex.simps(2))
qed

lemma lex_column:
  assumes "quote_free ident"
  shows "sql_lex (quoteIdentifier ident @ CHR '' '' # rest) =
    map_option ((@) (column_tokens (identifier_parts ident))) (sql_lex rest)"
proof -
  have "sql_lex (join_with ''.'' (map quote_part ps) @ CHR '' '' # rest) =
      map_option ((@) (column_tokens ps)) (sql_lex rest)"
    if "ps \<noteq> []" "\<forall>p \<in> set ps. CHR 0x22 \<notin> set p" for ps
    using that
  proof (induction ps rule: list_nonempty_induct)
    case (single p)
    then show ?case by (simp add: lex_name column_tokens_def option.map_comp comp_def)
  next
    case (cons p ps)
    obtain q qs where ps: "ps = q # qs" using cons.hyps by (cases ps) auto
    have "join_with ''.'' (map quote_part (p # ps)) @ CHR '' '' # rest =
        quote_part p @ CHR ''.'' # (join_with ''.'' (map quote_part ps) @ CHR '' '' # rest)"
      by (simp add: ps)
    moreover have "column_tokens (p # ps) = SqlName p # SqlDot # column_tokens ps"
      by (simp add: column_tokens_def ps)
    ultimately show ?case
      using cons by (simp add: lex_name option.map_comp comp_def)
  qed
  from this [of "identifier_parts ident"] assms show ?thesis
    by (simp add: quote_free_def quoteIdentifier_def identifier_parts_def)
qed

lemma column_read:
  assumes "ps \<noteq> []" and "ts \<noteq> [] \<longrightarrow> hd ts \<noteq> SqlDot"
  shows "sql_column (column_tokens ps @ ts) = Some (ps, ts)"
  using assms(1)
proof (induction ps rule: list_nonempty_induct)
  case (single p)
  then show ?case using assms(2) by (cases ts; cases "hd ts") (simp_all add: column_tokens_def)
next
  case (cons p ps)
  obtain q qs where ps: "ps = q # qs" using cons.hyps by (cases ps) auto
  have "column_tokens (p # ps) = SqlName p # SqlDot # column_tokens ps"
    by (simp add: column_tokens_def ps)
  with cons show ?case by simp
qed

section \<open>Predicates\<close>

definition filter_atom :: "Mapping \<Rightarrow> nat \<Rightarrow> Predicate \<Rightarrow> sql_test" where
  "filter_atom m n p =
     (let col = filter_column m p in
      if pr_Operator p = OpIsNull then SqlIsNull col
      else if pr_Operator p = OpBetween then SqlBetween col (n + 1) (n + 2)
      else if membership (pr_Operator p) then
        SqlIn (pr_Operator p \<noteq> OpNotIn) col [Suc n..<Suc n + length (pr_Values p)]
      else if pattern_operator (pr_Operator p) then SqlLike col (n + 1)
      else SqlCompare (the (comparisonOperator (pr_Operator p))) col (n + 1))"

definition operator_tokens :: "nat \<Rightarrow> Predicate \<Rightarrow> sql_token list" where
  "operator_tokens n p =
     (if pr_Operator p = OpIsNull then [SqlWord ''IS'', SqlWord ''NULL'']
      else if pr_Operator p = OpBetween then
        [SqlWord ''BETWEEN'', SqlParam (n + 1), SqlWord ''AND'', SqlParam (n + 2)]
      else if membership (pr_Operator p) then
        (if pr_Operator p = OpNotIn then [SqlWord ''NOT''] else []) @ [SqlWord ''IN'', SqlOpen] @
        join_with [SqlComma] (map (\<lambda>i. [SqlParam i]) [Suc n..<Suc n + length (pr_Values p)]) @
        [SqlClose]
      else if pattern_operator (pr_Operator p) then
        [SqlWord ''LIKE'', SqlParam (n + 1), SqlWord ''ESCAPE'', SqlText [CHR 0x5C]]
      else [SqlSign (the (comparisonOperator (pr_Operator p))), SqlParam (n + 1)])"

text \<open>A predicate as \<open>Compile\<close> lets it through: enough values, and some for a membership.\<close>

definition pred_complete :: "Predicate \<Rightarrow> bool" where
  "pred_complete p \<longleftrightarrow> pred_enough p \<and> (membership (pr_Operator p) \<longrightarrow> pr_Values p \<noteq> [])"

lemma params_join:
  "ns \<noteq> [] \<Longrightarrow> sql_params (join_with [SqlComma] (map (\<lambda>i. [SqlParam i]) ns) @ SqlClose # ts) = Some (ns, ts)"
proof (induction ns rule: list_nonempty_induct)
  case (cons n ns)
  then obtain k ks where "ns = k # ks" by (cases ns) auto
  with cons show ?case by simp
qed simp

lemma lex_params:
  "ns \<noteq> [] \<Longrightarrow> sql_lex (join_with '', '' (map placeholder ns) @ CHR '')'' # rest) =
     map_option ((@) (join_with [SqlComma] (map (\<lambda>i. [SqlParam i]) ns)))
       (map_option ((#) SqlClose) (sql_lex rest))"
proof (induction ns rule: list_nonempty_induct)
  case (single n)
  then show ?case by (simp add: lex_param option.map_comp comp_def)
next
  case (cons n ns)
  then obtain k ks where ns: "ns = k # ks" by (cases ns) auto
  have "join_with '', '' (map placeholder (n # ns)) @ CHR '')'' # rest =
      placeholder n @ CHR '','' # CHR '' '' # (join_with '', '' (map placeholder ns) @ CHR '')'' # rest)"
    by (simp add: ns)
  moreover have "join_with [SqlComma] (map (\<lambda>i. [SqlParam i]) (n # ns)) =
      SqlParam n # SqlComma # join_with [SqlComma] (map (\<lambda>i. [SqlParam i]) ns)"
    by (simp add: ns)
  ultimately show ?case by (simp only: cons.IH lex_param delimited_simps lex_punct lex_space)
    (simp add: option.map_comp comp_def)
qed

lemma lex_sign:
  assumes "comparisonOperator operator = Some sign"
  shows "sql_lex (sign @ CHR '' '' # rest) = map_option ((#) (SqlSign sign)) (sql_lex rest)"
proof -
  have "sign \<in> {''='', ''<>'', ''<'', ''<='', ''>'', ''>=''}"
    using assms by (auto simp: comparisonOperator_def split: if_splits)
  then show ?thesis
    by (elim insertE) (simp_all add: sql_lex.simps(2) sign_char_def sql_letter_def in_bytes_def byte_def)
qed

lemma lex_words:
  "delimited rest \<Longrightarrow> sql_lex (CHR ''I'' # CHR ''S'' # rest) = map_option ((#) (SqlWord ''IS'')) (sql_lex rest)"
  "delimited rest \<Longrightarrow> sql_lex (CHR ''I'' # CHR ''N'' # rest) = map_option ((#) (SqlWord ''IN'')) (sql_lex rest)"
  "delimited rest \<Longrightarrow> sql_lex (''NULL'' @ rest) = map_option ((#) (SqlWord ''NULL'')) (sql_lex rest)"
  "delimited rest \<Longrightarrow> sql_lex (''NOT'' @ rest) = map_option ((#) (SqlWord ''NOT'')) (sql_lex rest)"
  "delimited rest \<Longrightarrow> sql_lex (''AND'' @ rest) = map_option ((#) (SqlWord ''AND'')) (sql_lex rest)"
  "delimited rest \<Longrightarrow> sql_lex (''OR'' @ rest) = map_option ((#) (SqlWord ''OR'')) (sql_lex rest)"
  "delimited rest \<Longrightarrow> sql_lex (''LIKE'' @ rest) = map_option ((#) (SqlWord ''LIKE'')) (sql_lex rest)"
  "delimited rest \<Longrightarrow> sql_lex (''ESCAPE'' @ rest) = map_option ((#) (SqlWord ''ESCAPE'')) (sql_lex rest)"
  "delimited rest \<Longrightarrow> sql_lex (''BETWEEN'' @ rest) = map_option ((#) (SqlWord ''BETWEEN'')) (sql_lex rest)"
  using lex_word [of "''IS''" rest] lex_word [of "''IN''" rest] lex_word [of "''NULL''" rest]
    lex_word [of "''NOT''" rest] lex_word [of "''AND''" rest] lex_word [of "''OR''" rest]
    lex_word [of "''LIKE''" rest] lex_word [of "''ESCAPE''" rest] lex_word [of "''BETWEEN''" rest]
  by (simp_all add: sql_letter_def in_bytes_def byte_def)

lemma lex_escape:
  "delimited rest \<Longrightarrow> sql_lex (CHR 0x27 # CHR 0x5C # CHR 0x27 # rest) =
     map_option ((#) (SqlText [CHR 0x5C])) (sql_lex rest)"
  by (cases rest) (auto simp: sql_lex.simps(2) quoted_def delimited_def)

lemmas lex_pieces = lex_words [unfolded append.simps] lex_param lex_escape option.map_comp comp_def

lemma operator_cases:
  assumes "pred_complete p"
  obtains (null) "pr_Operator p = OpIsNull" | (between) "pr_Operator p = OpBetween"
    | (member) "membership (pr_Operator p)" "pr_Values p \<noteq> []"
    | (pat) "pattern_operator (pr_Operator p)"
    | (sign) s where "comparisonOperator (pr_Operator p) = Some s" "pr_Operator p \<noteq> OpIsNull"
        "pr_Operator p \<noteq> OpBetween" "\<not> membership (pr_Operator p)" "\<not> pattern_operator (pr_Operator p)"
  using assms by (auto simp: pred_complete_def pred_enough_def split: if_splits)

lemma operator_distinct:
  "pattern_operator operator \<Longrightarrow> operator \<noteq> OpIsNull \<and> operator \<noteq> OpBetween \<and> \<not> membership operator"
  "membership operator \<Longrightarrow> operator \<noteq> OpIsNull \<and> operator \<noteq> OpBetween"
  by (auto simp: pattern_operator_def membership_def)

lemma lex_pred:
  assumes "quote_free (the (map_of (mp_Filters m) (pr_Name p)))" and ok: "pred_complete p"
    and rest: "delimited rest"
  shows "sql_lex (pred_text m n p @ rest) =
    map_option (\<lambda>ts. column_tokens (filter_column m p) @ operator_tokens n p @ ts) (sql_lex rest)"
proof -
  note column = lex_column [OF assms(1)]
  from ok show ?thesis
  proof (cases rule: operator_cases)
    case null
    then show ?thesis
      by (simp add: pred_text_def operator_tokens_def filter_column_def column lex_pieces rest)
  next
    case between
    then show ?thesis
      by (simp add: pred_text_def operator_tokens_def filter_column_def column lex_pieces rest)
  next
    case member
    then have "[Suc n..<Suc n + length (pr_Values p)] \<noteq> []" by (simp add: Suc_le_eq)
    with member show ?thesis
      using operator_distinct(2) [OF member(1)]
      by (simp add: pred_text_def operator_tokens_def filter_column_def column lex_pieces lex_params
          del: upt_Suc)
  next
    case pat
    then show ?thesis
      using operator_distinct(1) [OF pat]
      by (simp add: pred_text_def operator_tokens_def filter_column_def column lex_pieces rest)
  next
    case (sign s)
    then show ?thesis
      by (simp add: pred_text_def operator_tokens_def filter_column_def column lex_sign lex_pieces rest)
  qed
qed

lemma atom_read:
  assumes "pred_complete p"
  shows "sql_atom (column_tokens (filter_column m p) @ operator_tokens n p @ ts) =
    Some (filter_atom m n p, ts)"
proof -
  have "filter_column m p \<noteq> []"
    using length_split_on [of "CHR ''.''"] by (auto simp: filter_column_def identifier_parts_def)
  then have column: "sql_column (column_tokens (filter_column m p) @ us) = Some (filter_column m p, us)"
    if "us \<noteq> []" "hd us \<noteq> SqlDot" for us
    using that by (intro column_read) auto
  have rest: "sql_rest (filter_column m p) (operator_tokens n p @ ts) = Some (filter_atom m n p, ts)"
    using assms
  proof (cases rule: operator_cases)
    case member
    then have "[Suc n..<Suc n + length (pr_Values p)] \<noteq> []" by (simp add: Suc_le_eq)
    with member operator_distinct(2) [OF member(1)] show ?thesis
      by (simp add: sql_rest_def sql_word_def operator_tokens_def filter_atom_def params_join
          del: upt_Suc)
  qed (auto dest: operator_distinct simp: sql_rest_def sql_word_def operator_tokens_def filter_atom_def)
  have "operator_tokens n p \<noteq> [] \<and> hd (operator_tokens n p) \<noteq> SqlDot"
    by (simp add: operator_tokens_def)
  then have "operator_tokens n p @ ts \<noteq> []" "hd (operator_tokens n p @ ts) \<noteq> SqlDot" by auto
  from column [OF this] rest show ?thesis by (simp add: sql_atom_def)
qed

lemma scan_pieces [simp]:
  "sql_scan (CHR '' '' # s) = sql_scan s"
  "sql_scan (CHR ''('' # s) = map_option ((#) ItemOpen) (sql_scan s)"
  "sql_scan (CHR '')'' # s) = map_option ((#) ItemClose) (sql_scan s)"
  by (cases "sql_lex s"; simp add: sql_scan_def sql_items.simps(2))+

lemma scan_words:
  "delimited s \<Longrightarrow> sql_scan (CHR ''A'' # CHR ''N'' # CHR ''D'' # s) = map_option ((#) ItemAnd) (sql_scan s)"
  "delimited s \<Longrightarrow> sql_scan (CHR ''O'' # CHR ''R'' # s) = map_option ((#) ItemOr) (sql_scan s)"
  "delimited s \<Longrightarrow> sql_scan (CHR ''N'' # CHR ''O'' # CHR ''T'' # s) = map_option ((#) ItemNot) (sql_scan s)"
  by (cases "sql_lex s"; simp add: sql_scan_def lex_pieces sql_items.simps(2))+

lemma items_atom:
  assumes "sql_atom ts = Some (a, rest)"
  shows "sql_items ts = map_option ((#) (ItemAtom a)) (sql_items rest)"
proof -
  obtain p us where "ts = SqlName p # us"
    using assms by (cases ts; cases "hd ts") (auto simp: sql_atom_def)
  with assms show ?thesis by (simp add: sql_items.simps(2))
qed

lemma scan_pred:
  assumes "quote_free (the (map_of (mp_Filters m) (pr_Name p)))" and "pred_complete p"
    and "delimited rest"
  shows "sql_scan (pred_text m n p @ rest) = map_option ((#) (ItemAtom (filter_atom m n p))) (sql_scan rest)"
  by (cases "sql_lex rest")
    (simp_all add: sql_scan_def lex_pred [OF assms] items_atom [OF atom_read [OF assms(2)]])

section \<open>Scanning conditions\<close>

definition scans :: "string \<Rightarrow> sql_item list \<Rightarrow> bool" where
  "scans text' is \<longleftrightarrow>
     (\<forall>rest. delimited rest \<longrightarrow> sql_scan (text' @ rest) = map_option ((@) is) (sql_scan rest))"

definition bracket :: "sql_item list \<Rightarrow> sql_item list" where
  "bracket is = ItemOpen # is @ [ItemClose]"

lemma scans_parens: "scans text' is \<Longrightarrow> scans (parens text') (bracket is)"
  unfolding scans_def parens_def bracket_def
  by (auto simp: option.map_comp comp_def intro!: option.map_cong0)

lemma scans_join:
  assumes word: "\<And>s. delimited s \<Longrightarrow> sql_scan (w @ s) = map_option ((#) item) (sql_scan s)"
    and "list_all2 scans ts iss" and "ts \<noteq> []"
  shows "scans (join_with ('' '' @ w @ '' '') ts) (join_with [item] iss)"
  using assms(3,2)
proof (induction ts arbitrary: iss rule: list_nonempty_induct)
  case (single t)
  then show ?case by (auto simp: list_all2_Cons1)
next
  case (cons t ts)
  obtain js jss where iss: "iss = js # jss" "scans t js" "list_all2 scans ts jss"
    using cons.prems by (auto simp: list_all2_Cons1)
  have "jss \<noteq> []" using iss(3) cons.hyps by auto
  have IH: "scans (join_with ('' '' @ w @ '' '') ts) (join_with [item] jss)" by (rule cons.IH [OF iss(3)])
  have text': "join_with ('' '' @ w @ '' '') (t # ts) @ rest =
      t @ '' '' @ w @ '' '' @ join_with ('' '' @ w @ '' '') ts @ rest" for rest
    using cons.hyps by (cases ts) simp_all
  have items: "join_with [item] (js # jss) = js @ item # join_with [item] jss"
    using \<open>jss \<noteq> []\<close> by (cases jss) simp_all
  show ?case
    unfolding scans_def text' iss(1) items using iss(2) IH
    by (auto simp: scans_def word option.map_comp comp_def intro!: option.map_cong0)
qed

lemma scans_atom:
  assumes "quote_free (the (map_of (mp_Filters m) (pr_Name p)))" and "pred_complete p"
  shows "scans (pred_text m n p) [ItemAtom (filter_atom m n p)]"
  using scan_pred [OF assms] by (auto simp: scans_def intro!: option.map_cong0)

definition constraint_atom :: "Mapping \<Rightarrow> nat \<Rightarrow> Constraint \<Rightarrow> sql_test" where
  "constraint_atom m i c =
     SqlCompare ''='' (identifier_parts (the (map_of (mp_Constraints m) (cn_Name c)))) i"

lemma scans_constraint:
  assumes "quote_free (the (map_of (mp_Constraints m) (cn_Name c)))"
  shows "scans (constraint_text m i c) [ItemAtom (constraint_atom m i c)]"
  unfolding scans_def
proof (intro allI impI)
  fix rest assume rest: "delimited rest"
  let ?col = "identifier_parts (the (map_of (mp_Constraints m) (cn_Name c)))"
  have "?col \<noteq> []"
    using length_split_on [of "CHR ''.''"] by (auto simp: identifier_parts_def)
  then have atom: "sql_atom (column_tokens ?col @ SqlSign ''='' # SqlParam i # ts) =
      Some (constraint_atom m i c, ts)" for ts
    by (simp add: sql_atom_def column_read sql_rest_def constraint_atom_def)
  have "sql_lex (''='' @ CHR '' '' # placeholder i @ rest) =
      map_option ((#) (SqlSign ''='')) (sql_lex (placeholder i @ rest))"
    by (rule lex_sign [of OpEqual]) (simp add: comparisonOperator_def)
  then show "sql_scan (constraint_text m i c @ rest) =
      map_option ((@) [ItemAtom (constraint_atom m i c)]) (sql_scan rest)"
    by (cases "sql_lex rest")
      (auto simp: sql_scan_def constraint_text_def lex_column [OF assms] lex_param rest
        items_atom [OF atom] option.map_comp comp_def intro!: option.map_cong0)
qed

text \<open>The items of a filter, and the condition they stand for.\<close>

definition compose_items :: "Logic \<Rightarrow> sql_item list list \<Rightarrow> sql_item list" where
  "compose_items logic iss =
     (if logic = LogicNot then ItemNot # hd iss
      else join_with [if logic = LogicOr then ItemOr else ItemAnd] iss)"

definition compose_cond :: "Logic \<Rightarrow> sql_cond list \<Rightarrow> sql_cond" where
  "compose_cond logic cs =
     (if logic = LogicNot then SqlNot (hd cs)
      else chain (if logic = LogicOr then SqlOr else SqlAnd) cs)"

fun filter_items :: "Mapping \<Rightarrow> nat \<Rightarrow> FilterExpr \<Rightarrow> sql_item list"
  and filters_items :: "Mapping \<Rightarrow> nat \<Rightarrow> FilterExpr list \<Rightarrow> sql_item list list" where
  "filter_items m n (FilterExpr predicate logic children) =
     (case predicate of
        Some p \<Rightarrow> [ItemAtom (filter_atom m n p)]
      | None \<Rightarrow> compose_items logic (map bracket (filters_items m n children)))"
| "filters_items m n [] = []"
| "filters_items m n (f # fs) =
     filter_items m n f # filters_items m (n + length (filter_args f)) fs"

fun filter_cond :: "Mapping \<Rightarrow> nat \<Rightarrow> FilterExpr \<Rightarrow> sql_cond"
  and filters_cond :: "Mapping \<Rightarrow> nat \<Rightarrow> FilterExpr list \<Rightarrow> sql_cond list" where
  "filter_cond m n (FilterExpr predicate logic children) =
     (case predicate of
        Some p \<Rightarrow> SqlAtom (filter_atom m n p)
      | None \<Rightarrow> compose_cond logic (filters_cond m n children))"
| "filters_cond m n [] = []"
| "filters_cond m n (f # fs) =
     filter_cond m n f # filters_cond m (n + length (filter_args f)) fs"

text \<open>A filter as \<open>Compile\<close> lets it through.\<close>

fun complete :: "FilterExpr \<Rightarrow> bool" and complete_list :: "FilterExpr list \<Rightarrow> bool" where
  "complete (FilterExpr predicate logic children) \<longleftrightarrow>
     (case predicate of
        Some p \<Rightarrow> pred_complete p
      | None \<Rightarrow>
          children \<noteq> [] \<and> logic \<in> {LogicAnd, LogicOr, LogicNot} \<and>
          (logic = LogicNot \<longrightarrow> length children = 1) \<and> complete_list children)"
| "complete_list [] \<longleftrightarrow> True"
| "complete_list (f # fs) \<longleftrightarrow> complete f \<and> complete_list fs"

definition quotes_free :: "Mapping \<Rightarrow> bool" where
  "quotes_free m \<longleftrightarrow>
     (\<forall>(name, ident) \<in> set (mp_Filters m @ mp_Constraints m). quote_free ident)"

lemma quotes_free_lookup:
  "quotes_free m \<Longrightarrow> map_of (mp_Filters m) name \<noteq> None \<Longrightarrow>
   quote_free (the (map_of (mp_Filters m) name))"
  "quotes_free m \<Longrightarrow> map_of (mp_Constraints m) name \<noteq> None \<Longrightarrow>
   quote_free (the (map_of (mp_Constraints m) name))"
  by (auto simp: quotes_free_def; frule map_of_SomeD; fastforce)+

lemma length_filters_items [simp]: "length (filters_items m n fs) = length fs"
  by (induction fs arbitrary: n) simp_all

lemma length_filters_cond [simp]: "length (filters_cond m n fs) = length fs"
  by (induction fs arbitrary: n) simp_all

lemma scans_compose:
  assumes "list_all2 scans ts iss" and "ts \<noteq> []"
  shows "scans (compose_text logic ts) (compose_items logic iss)"
proof (cases "logic = LogicNot")
  case True
  obtain t ts' js jss where one: "ts = t # ts'" "iss = js # jss" "scans t js"
    using assms by (cases ts; cases iss) auto
  have "sql_scan (''NOT '' @ t @ rest) = map_option ((@) (ItemNot # js)) (sql_scan rest)"
    if "delimited rest" for rest
    using one(3) that
    by (auto simp: scan_words scans_def option.map_comp comp_def intro!: option.map_cong0)
  with True one(1,2) show ?thesis by (simp add: compose_text_def compose_items_def scans_def)
next
  case False
  have "scans (join_with '' OR '' ts) (join_with [ItemOr] iss)"
    "scans (join_with '' AND '' ts) (join_with [ItemAnd] iss)"
    using scans_join [of "''OR''" ItemOr, OF _ assms] scans_join [of "''AND''" ItemAnd, OF _ assms]
    by (simp_all add: scan_words)
  with False show ?thesis by (simp add: compose_text_def compose_items_def)
qed

lemma scans_filter:
  "quotes_free m \<Longrightarrow> complete f \<Longrightarrow> \<forall>p \<in> set (predicates f). pred_mapped m p \<Longrightarrow>
   scans (filter_text m n f) (filter_items m n f)"
  "quotes_free m \<Longrightarrow> complete_list fs \<Longrightarrow> \<forall>p \<in> set (predicates_list fs). pred_mapped m p \<Longrightarrow>
   list_all2 scans (filter_texts m n fs) (filters_items m n fs)"
proof (induction m n f and m n fs rule: filter_text_filter_texts.induct)
  case (1 m n predicate logic children)
  show ?case
  proof (cases predicate)
    case (Some p)
    with 1 quotes_free_lookup(1) [of m "pr_Name p"] show ?thesis
      by (simp add: scans_atom pred_mapped_def)
  next
    case None
    then have "list_all2 scans (filter_texts m n children) (filters_items m n children)"
      using 1 by simp
    then have "list_all2 scans (map parens (filter_texts m n children))
        (map bracket (filters_items m n children))"
      by (simp add: list_all2_conv_all_nth scans_parens)
    then show ?thesis using scans_compose None "1.prems" by simp
  qed
qed auto

section \<open>Parsing conditions\<close>

text \<open>Items that are read as one operand, wherever one is wanted.\<close>

definition operand :: "sql_item list \<Rightarrow> sql_cond \<Rightarrow> bool" where
  "operand is c \<longleftrightarrow>
     (\<forall>fr outer rest. fr_want fr \<longrightarrow> sql_run (is @ rest) fr outer = sql_run rest (given c fr) outer)"

lemma operand_atom: "operand [ItemAtom a] (SqlAtom a)"
  by (simp add: operand_def)

text \<open>Items that are a whole level: what is between two parentheses, or the whole text.\<close>

definition level :: "sql_item list \<Rightarrow> sql_cond \<Rightarrow> bool" where
  "level is c \<longleftrightarrow>
     (\<forall>outer. \<exists>fr. frame_value fr = Some c \<and>
        (\<forall>rest. sql_run (is @ rest) emptyFrame outer = sql_run rest fr outer))"

lemma operand_bracket:
  assumes "level is c"
  shows "operand (bracket is) c"
  unfolding operand_def
proof (intro allI impI)
  fix up :: sql_frame and outer :: "sql_frame list" and rest
  assume want: "fr_want up"
  obtain fr where fr: "frame_value fr = Some c"
    "\<And>rest. sql_run (is @ rest) emptyFrame (up # outer) = sql_run rest fr (up # outer)"
    using assms unfolding level_def by blast
  show "sql_run (bracket is @ rest) up outer = sql_run rest (given c up) outer"
    by (simp add: bracket_def want fr)
qed

lemma level_operand:
  assumes "operand is c"
  shows "level is c"
proof -
  have "frame_value (given c emptyFrame) = Some c"
    by (simp add: frame_value_def given_def emptyFrame_def joined_def)
  moreover have "fr_want emptyFrame" by (simp add: emptyFrame_def)
  ultimately show ?thesis using assms unfolding level_def operand_def by blast
qed

lemma level_not: "operand is c \<Longrightarrow> level (ItemNot # is) (SqlNot c)"
  unfolding level_def operand_def
  by (intro allI exI [of _ "given (SqlNot c) emptyFrame"])
    (auto simp: emptyFrame_def frame_value_def given_def joined_def)

lemma run_and:
  assumes "list_all2 operand iss cs" and "iss \<noteq> []" and "fr_want fr" and "fr_nots fr = 0"
  shows "sql_run (join_with [ItemAnd] iss @ rest) fr outer =
    sql_run rest (fr\<lparr>fr_ands := Some (case fr_ands fr of None \<Rightarrow> chain SqlAnd cs
      | Some d \<Rightarrow> foldl SqlAnd d cs), fr_nots := 0, fr_want := False\<rparr>) outer"
  using assms(2,1,3,4)
proof (induction iss arbitrary: cs fr rule: list_nonempty_induct)
  case (single js)
  then obtain c where "cs = [c]" "operand js c" by (auto simp: list_all2_Cons1)
  with single show ?case
    by (cases "fr_ands fr") (simp_all add: operand_def given_def joined_def chain_def)
next
  case (cons js jss)
  obtain c ds where cs: "cs = c # ds" "operand js c" "list_all2 operand jss ds"
    using cons.prems(1) by (auto simp: list_all2_Cons1)
  let ?next = "(given c fr)\<lparr>fr_want := True\<rparr>"
  have "join_with [ItemAnd] (js # jss) @ rest = js @ ItemAnd # join_with [ItemAnd] jss @ rest"
    using cons.hyps by (cases jss) simp_all
  then have "sql_run (join_with [ItemAnd] (js # jss) @ rest) fr outer =
      sql_run (join_with [ItemAnd] jss @ rest) ?next outer"
    using cs(2) cons.prems(2) by (simp add: operand_def given_def)
  also have "\<dots> = sql_run rest (?next\<lparr>fr_ands := Some (case fr_ands ?next of None \<Rightarrow> chain SqlAnd ds
      | Some d \<Rightarrow> foldl SqlAnd d ds), fr_nots := 0, fr_want := False\<rparr>) outer"
    using cons.IH [OF cs(3), of ?next] by (simp add: given_def)
  finally show ?case
    using cons.prems(3) by (cases "fr_ands fr") (simp_all add: cs(1) given_def joined_def chain_def)
qed

lemma level_and:
  assumes "list_all2 operand iss cs" and "iss \<noteq> []"
  shows "level (join_with [ItemAnd] iss) (chain SqlAnd cs)"
  unfolding level_def
  using run_and [OF assms, of emptyFrame]
  by (intro allI exI [of _ "emptyFrame\<lparr>fr_ands := Some (chain SqlAnd cs), fr_want := False\<rparr>"])
    (simp add: emptyFrame_def frame_value_def joined_def)

lemma run_or:
  assumes "list_all2 operand iss cs" and "iss \<noteq> []"
  shows "\<exists>fr. frame_value fr = Some (case ors of None \<Rightarrow> chain SqlOr cs | Some d \<Rightarrow> foldl SqlOr d cs) \<and>
    (\<forall>rest. sql_run (join_with [ItemOr] iss @ rest) (emptyFrame\<lparr>fr_ors := ors\<rparr>) outer =
      sql_run rest fr outer)"
  using assms(2,1)
proof (induction iss arbitrary: cs ors rule: list_nonempty_induct)
  case (single js)
  then obtain c where "cs = [c]" "operand js c" by (auto simp: list_all2_Cons1)
  then show ?case
    by (intro exI [of _ "given c (emptyFrame\<lparr>fr_ors := ors\<rparr>)"])
      (cases ors; simp add: operand_def given_def joined_def frame_value_def emptyFrame_def chain_def)
next
  case (cons js jss)
  obtain c ds where cs: "cs = c # ds" "operand js c" "list_all2 operand jss ds"
    using cons.prems(1) by (auto simp: list_all2_Cons1)
  have "join_with [ItemOr] (js # jss) @ rest = js @ ItemOr # join_with [ItemOr] jss @ rest" for rest
    using cons.hyps by (cases jss) simp_all
  then have step: "sql_run (join_with [ItemOr] (js # jss) @ rest) (emptyFrame\<lparr>fr_ors := ors\<rparr>) outer =
      sql_run (join_with [ItemOr] jss @ rest) (emptyFrame\<lparr>fr_ors := Some (joined SqlOr ors c)\<rparr>) outer"
    for rest
    using cs(2) by (simp add: operand_def given_def emptyFrame_def frame_value_def joined_def)
  have "(case Some (joined SqlOr ors c) of None \<Rightarrow> chain SqlOr ds | Some d \<Rightarrow> foldl SqlOr d ds) =
      (case ors of None \<Rightarrow> chain SqlOr cs | Some d \<Rightarrow> foldl SqlOr d cs)"
    by (cases ors) (simp_all add: cs(1) joined_def chain_def)
  with cons.IH [OF cs(3), of "Some (joined SqlOr ors c)"] show ?case
    unfolding step by simp
qed

lemma level_or:
  assumes "list_all2 operand iss cs" and "iss \<noteq> []"
  shows "level (join_with [ItemOr] iss) (chain SqlOr cs)"
proof -
  have "emptyFrame\<lparr>fr_ors := None\<rparr> = emptyFrame" by (simp add: emptyFrame_def)
  then show ?thesis
    unfolding level_def using run_or [OF assms, of None] by simp
qed

lemma level_compose:
  assumes "list_all2 operand iss cs" and "iss \<noteq> []"
  shows "level (compose_items logic iss) (compose_cond logic cs)"
proof (cases "logic = LogicNot")
  case True
  obtain js jss c ds where "iss = js # jss" "cs = c # ds" "operand js c"
    using assms by (cases iss; cases cs) auto
  with True show ?thesis by (simp add: compose_items_def compose_cond_def level_not)
next
  case False
  then show ?thesis
    using level_and [OF assms] level_or [OF assms]
    by (simp add: compose_items_def compose_cond_def)
qed

lemma level_filter:
  "complete f \<Longrightarrow> level (filter_items m n f) (filter_cond m n f)"
  "complete_list fs \<Longrightarrow> list_all2 level (filters_items m n fs) (filters_cond m n fs)"
proof (induction m n f and m n fs rule: filter_items_filters_items.induct)
  case (1 m n predicate logic children)
  show ?case
  proof (cases predicate)
    case None
    then have "list_all2 level (filters_items m n children) (filters_cond m n children)"
      using 1 by simp
    then have "list_all2 operand (map bracket (filters_items m n children))
        (filters_cond m n children)"
      by (simp add: list_all2_conv_all_nth operand_bracket)
    moreover have "map bracket (filters_items m n children) \<noteq> []"
    proof -
      have "children \<noteq> []" using None "1.prems" by simp
      then have "length (map bracket (filters_items m n children)) \<noteq> 0" by simp
      then show ?thesis by (metis list.size(3))
    qed
    ultimately show ?thesis using None by (simp add: level_compose)
  qed (simp add: level_operand operand_atom)
qed auto

section \<open>Meaning of the text\<close>

text \<open>The arguments from position \<open>n\<close> on are the given values.\<close>

definition binds :: "Value list \<Rightarrow> nat \<Rightarrow> Value list \<Rightarrow> bool" where
  "binds args n vs \<longleftrightarrow> (\<forall>i < length vs. args ! (n + i) = vs ! i)"

lemma binds_append: "binds args n (us @ vs) \<Longrightarrow> binds args n us \<and> binds args (n + length us) vs"
proof -
  assume all: "binds args n (us @ vs)"
  have "args ! (n + i) = us ! i" if "i < length us" for i
    using all that by (auto simp: binds_def nth_append dest!: spec [of _ i])
  moreover have "args ! (n + length us + i) = vs ! i" if "i < length vs" for i
    using all that by (auto simp: binds_def nth_append add.assoc dest!: spec [of _ "length us + i"])
  ultimately show ?thesis by (simp add: binds_def)
qed

lemma eval_filter_atom:
  assumes "pred_complete p" and args: "binds args n (pred_args p)"
  shows "eval_atom row args (filter_atom m n p) = predicate_holds m row p"
  using assms(1)
proof (cases rule: operator_cases)
  case null
  then show ?thesis by (simp add: filter_atom_def predicate_holds_def Let_def)
next
  case between
  then have "2 \<le> length (pr_Values p)" using assms(1)
    by (simp add: pred_complete_def pred_enough_def membership_def)
  then have "args ! n = pr_Values p ! 0" "args ! Suc n = pr_Values p ! 1"
    using args between by (auto simp: binds_def pred_args_def dest: spec [of _ 0] spec [of _ 1])
  with between show ?thesis by (simp add: filter_atom_def predicate_holds_def Let_def)
next
  case member
  have "args ! (n + i) = pr_Values p ! i" if "i < length (pr_Values p)" for i
    using args that member(1) operator_distinct(2) [OF member(1)]
    by (simp add: binds_def pred_args_def)
  then have "map (\<lambda>i. compare3 row ''='' col (args ! (i - 1))) [Suc n..<Suc n + length (pr_Values p)] =
      map (compare3 row ''='' col) (pr_Values p)" for col
    by (intro nth_equalityI) (simp_all del: upt_Suc)
  with member(1) operator_distinct(2) [OF member(1)] show ?thesis
    by (auto simp: filter_atom_def predicate_holds_def Let_def membership_def simp del: upt_Suc)
next
  case pat
  note distinct = operator_distinct(1) [OF pat]
  obtain v vs where v: "pr_Values p = v # vs"
    using assms(1) pat distinct
    by (cases "pr_Values p") (auto simp: pred_complete_def pred_enough_def)
  have "args ! n = StringValue (likePattern (pr_Operator p) (v_text v))"
    using args pat distinct v by (simp add: binds_def pred_args_def)
  moreover have "pr_Operator p \<noteq> OpIn" "pr_Operator p \<noteq> OpNotIn" using distinct by (auto simp: membership_def)
  ultimately show ?thesis
    using pat distinct v like_pattern [OF pat]
    by (simp add: filter_atom_def predicate_holds_def Let_def StringValue_def cong: map_option_cong)
next
  case (sign s)
  obtain v vs where v: "pr_Values p = v # vs"
    using assms(1) sign by (cases "pr_Values p") (auto simp: pred_complete_def pred_enough_def)
  have "args ! n = v" using args sign v by (simp add: binds_def pred_args_def)
  moreover have "pr_Operator p \<noteq> OpIn" "pr_Operator p \<noteq> OpNotIn"
    using sign by (auto simp: membership_def)
  ultimately show ?thesis
    using sign v by (simp add: filter_atom_def predicate_holds_def Let_def)
qed

lemma eval_compose:
  assumes "cs \<noteq> []"
  shows "eval_cond row args (compose_cond logic cs) =
    (let vs = map (eval_cond row args) cs in
     if logic = LogicNot then not3 (hd vs) else if logic = LogicOr then any3 vs else all3 vs)"
  using assms by (simp add: compose_cond_def eval_chain_and eval_chain_or hd_map Let_def)

lemma eval_filter:
  "complete f \<Longrightarrow> binds args n (filter_args f) \<Longrightarrow>
   eval_cond row args (filter_cond m n f) = filter_holds m row f"
  "complete_list fs \<Longrightarrow> binds args n (filter_args_list fs) \<Longrightarrow>
   map (eval_cond row args) (filters_cond m n fs) = filters_hold m row fs"
proof (induction m n f and m n fs rule: filter_cond_filters_cond.induct)
  case (1 m n predicate logic children)
  show ?case
  proof (cases predicate)
    case (Some p)
    with 1 show ?thesis by (simp add: eval_filter_atom)
  next
    case None
    have "children \<noteq> []" using None "1.prems" by simp
    then have "filters_cond m n children \<noteq> []"
      by (metis length_0_conv length_filters_cond)
    note eval_compose [OF this, of row args logic]
    moreover have "map (eval_cond row args) (filters_cond m n children) = filters_hold m row children"
      using None 1 by simp
    ultimately show ?thesis using None "1.prems"(1) by (auto simp: Let_def)
  qed
next
  case (3 m n f fs)
  then show ?case using binds_append [of args n "filter_args f" "filter_args_list fs"] by simp
qed simp

section \<open>Plans\<close>

definition condition_items :: "Mapping \<Rightarrow> Plan \<Rightarrow> sql_item list list" where
  "condition_items m plan =
     (if pl_constraints plan = [] then []
      else [bracket (join_with [ItemAnd]
        (map2 (\<lambda>i c. [ItemAtom (constraint_atom m i c)])
          [1..<1 + length (pl_constraints plan)] (pl_constraints plan)))]) @
     (case pl_filter plan of
        None \<Rightarrow> []
      | Some f \<Rightarrow> [bracket (filter_items m (length (pl_constraints plan)) f)])"

definition condition_conds :: "Mapping \<Rightarrow> Plan \<Rightarrow> sql_cond list" where
  "condition_conds m plan =
     (if pl_constraints plan = [] then []
      else [chain SqlAnd
        (map2 (\<lambda>i c. SqlAtom (constraint_atom m i c))
          [1..<1 + length (pl_constraints plan)] (pl_constraints plan))]) @
     (case pl_filter plan of
        None \<Rightarrow> []
      | Some f \<Rightarrow> [filter_cond m (length (pl_constraints plan)) f])"

definition plan_complete :: "Mapping \<Rightarrow> Plan \<Rightarrow> bool" where
  "plan_complete m plan \<longleftrightarrow>
     quotes_free m \<and> plan_mapped m plan \<and>
     (case pl_filter plan of None \<Rightarrow> True | Some f \<Rightarrow> complete f)"

lemma scans_constraints:
  assumes "plan_complete m plan" and "pl_constraints plan \<noteq> []"
  shows "scans (parens (join_with '' AND '' (constraint_texts m 0 (pl_constraints plan))))
    (bracket (join_with [ItemAnd]
        (map2 (\<lambda>i c. [ItemAtom (constraint_atom m i c)])
          [1..<1 + length (pl_constraints plan)] (pl_constraints plan))))"
proof -
  let ?cs = "pl_constraints plan"
  have "scans (constraint_text m i c) [ItemAtom (constraint_atom m i c)]" if "c \<in> set ?cs" for i c
  proof (rule scans_constraint, rule quotes_free_lookup)
    show "quotes_free m" "map_of (mp_Constraints m) (cn_Name c) \<noteq> None"
      using assms(1) that by (auto simp: plan_complete_def plan_mapped_def)
  qed
  then have "list_all2 scans (constraint_texts m 0 ?cs)
      (map2 (\<lambda>i c. [ItemAtom (constraint_atom m i c)]) [1..<1 + length ?cs] ?cs)"
    by (simp add: list_all2_conv_all_nth constraint_texts_def del: upt_Suc)
  moreover have "constraint_texts m 0 ?cs \<noteq> []"
    using assms(2) by (simp add: constraint_texts_def zip_eq_Nil_iff del: upt_Suc)
  ultimately have "scans (join_with ('' '' @ ''AND'' @ '' '') (constraint_texts m 0 ?cs))
      (join_with [ItemAnd] (map2 (\<lambda>i c. [ItemAtom (constraint_atom m i c)]) [1..<1 + length ?cs] ?cs))"
    by (intro scans_join) (simp_all add: scan_words)
  then show ?thesis by (simp add: scans_parens)
qed

lemma operand_constraints:
  assumes "cs \<noteq> []"
  shows "operand (bracket (join_with [ItemAnd]
      (map2 (\<lambda>i c. [ItemAtom (constraint_atom m i c)]) [1..<1 + length cs] cs)))
    (chain SqlAnd (map2 (\<lambda>i c. SqlAtom (constraint_atom m i c)) [1..<1 + length cs] cs))"
  using assms
  by (intro operand_bracket level_and)
    (simp_all add: list_all2_conv_all_nth operand_atom zip_eq_Nil_iff del: upt_Suc)

lemma condition_parts:
  assumes "plan_complete m plan"
  shows "list_all2 scans (conditions m plan) (condition_items m plan)"
    "list_all2 operand (condition_items m plan) (condition_conds m plan)"
proof -
  have "scans (parens (filter_text m n f)) (bracket (filter_items m n f))"
    "operand (bracket (filter_items m n f)) (filter_cond m n f)"
    if "pl_filter plan = Some f" for n f
    using assms that
    by (auto simp: plan_complete_def plan_mapped_def filter_mapped_def
        intro!: scans_parens scans_filter operand_bracket level_filter)
  then show "list_all2 scans (conditions m plan) (condition_items m plan)"
    "list_all2 operand (condition_items m plan) (condition_conds m plan)"
    using scans_constraints [OF assms] operand_constraints [of "pl_constraints plan" m]
    by (auto simp: conditions_def condition_items_def condition_conds_def split: option.split
        intro!: list_all2_appendI)
qed

lemma eval_conditions:
  assumes "plan_complete m plan"
  shows "all3 (map (eval_cond row (plan_args plan)) (condition_conds m plan)) = plan_holds m row plan"
proof -
  let ?cs = "pl_constraints plan" and ?args = "plan_args plan"
  have "?args ! i = cn_Value (?cs ! i)" if "i < length ?cs" for i
    using that by (simp add: plan_args_def nth_append)
  then have "map (eval_cond row ?args) (map2 (\<lambda>i c. SqlAtom (constraint_atom m i c)) [1..<1 + length ?cs] ?cs) =
      map (constraint_holds m row) ?cs"
    by (intro nth_equalityI) (simp_all add: constraint_atom_def constraint_holds_def del: upt_Suc)
  then have "eval_cond row ?args (chain SqlAnd
      (map2 (\<lambda>i c. SqlAtom (constraint_atom m i c)) [1..<1 + length ?cs] ?cs)) =
      all3 (map (constraint_holds m row) ?cs)" if "?cs \<noteq> []"
    using that by (subst eval_chain_and) (simp_all add: zip_eq_Nil_iff del: upt_Suc)
  moreover have "eval_cond row ?args (filter_cond m (length ?cs) f) = filter_holds m row f"
    if f: "pl_filter plan = Some f" for f
  proof (rule eval_filter)
    show "complete f" using assms f by (simp add: plan_complete_def)
    show "binds ?args (length ?cs) (filter_args f)"
      by (simp add: binds_def plan_args_def f nth_append)
  qed
  ultimately show ?thesis
    by (cases "?cs = []"; cases "pl_filter plan")
      (simp_all add: condition_conds_def plan_holds_def all3_def del: upt_Suc)
qed

lemma where_meaning:
  assumes "plan_complete m plan" and "conditions m plan \<noteq> []"
  shows "\<exists>cond. sql_parse (qp_Where (spec_parts m plan)) = Some cond \<and>
    (\<forall>row :: 'v sql_row. eval_cond row (plan_args plan) cond = plan_holds m row plan)"
proof -
  note parts = condition_parts [OF assms(1)]
  have "scans (join_with ('' '' @ ''AND'' @ '' '') (conditions m plan))
      (join_with [ItemAnd] (condition_items m plan))"
    using assms(2) parts(1) by (intro scans_join) (simp_all add: scan_words)
  then have scan: "sql_scan (qp_Where (spec_parts m plan)) = Some (join_with [ItemAnd] (condition_items m plan))"
    by (auto simp: scans_def spec_parts_def sql_scan_def dest!: spec [of _ "[]"])
  have nonempty: "condition_items m plan \<noteq> []" "condition_conds m plan \<noteq> []"
    using parts assms(2) by (auto simp: list_all2_lengthD)
  obtain fr where "frame_value fr = Some (chain SqlAnd (condition_conds m plan))"
    "sql_run (join_with [ItemAnd] (condition_items m plan) @ []) emptyFrame [] = sql_run [] fr []"
    using level_and [OF parts(2) nonempty(1)] unfolding level_def by blast
  then have "sql_parse (qp_Where (spec_parts m plan)) = Some (chain SqlAnd (condition_conds m plan))"
    by (simp add: sql_parse_def scan)
  moreover have "eval_cond row (plan_args plan) (chain SqlAnd (condition_conds m plan)) =
      plan_holds m row plan" for row :: "'v sql_row"
    by (simp only: eval_chain_and [OF nonempty(2)] eval_conditions [OF assms(1)])
  ultimately show ?thesis by blast
qed

section \<open>Filters of compiled plans\<close>

lemma accepted_predicate_complete:
  assumes "wf_schema schema" and "predicate_ok schema p"
  shows "pred_complete p"
proof -
  have "membership (pr_Operator p) \<longrightarrow> pr_Values p \<noteq> []"
    using assms(2) by (auto simp: predicate_ok_def values_ok_def Let_def split: option.splits)
  with accepted_predicate_enough [OF assms] show ?thesis by (simp add: pred_complete_def)
qed

lemma accepted_complete:
  "wf_schema schema \<Longrightarrow> shape_ok schema depth f \<Longrightarrow>
   \<forall>p \<in> set (predicates f). predicate_ok schema p \<Longrightarrow> complete f"
  "wf_schema schema \<Longrightarrow> shape_ok_list schema depth fs \<Longrightarrow>
   \<forall>p \<in> set (predicates_list fs). predicate_ok schema p \<Longrightarrow> complete_list fs"
proof (induction schema depth f and schema depth fs rule: shape_ok_shape_ok_list.induct)
  case (1 schema depth predicate logic children)
  have "sc_allowedLogic schema \<subseteq> known_logic" using "1.prems"(1) by (simp add: wf_schema_def)
  with 1 show ?case by (cases predicate) (auto simp: accepted_predicate_complete)
qed auto

end
