(* ===== verification/PostgresProperties.thy ===== *)
theory PostgresProperties
  imports SqlMeaning PlanProperties
begin

text \<open>
  The properties of the PostgreSQL adapter: which mappings it accepts, what it returns for a compiled
  plan, that no value of a request reaches the text of the statement, that the placeholders name the
  arguments one by one, and that the patterns it binds are literal.
\<close>

section \<open>Mappings\<close>

text \<open>A segment of a valid identifier has neither the quote, the dot nor the dollar sign.\<close>

definition plain_char :: "char \<Rightarrow> bool" where
  "plain_char c \<longleftrightarrow> 128 \<le> byte c \<or> c = CHR ''_'' \<or> is_digit_char c \<or>
     in_bytes 65 90 c \<or> in_bytes 97 122 c"

lemma go_runes_ascii_mem:
  assumes "c \<in> set s" and "byte c < 128"
  shows "\<exists>i. (i, byte c) \<in> set (go_runes 0 s)"
proof -
  obtain i where "i < length s" "s ! i = c" using assms(1) by (auto simp: in_set_conv_nth)
  then have "i \<in> set (map (\<lambda>i. 0 + i) (filter (\<lambda>i. byte (s ! i) = byte c) [0..<length s]))" by simp
  then have "i \<in> set (map fst (filter (\<lambda>(i, r). r = byte c) (go_runes 0 s)))"
    by (simp only: go_runes_select_ascii [OF assms(2)])
  then show ?thesis by auto
qed

lemma validPart_plain:
  assumes "validPart un part" and "c \<in> set part"
  shows "plain_char c"
proof (cases "byte c < 128")
  case True
  with go_runes_ascii_mem [OF assms(2)] obtain i where "(i, byte c) \<in> set (go_runes 0 part)" by blast
  then have "byte c = 95 \<or> isLetter un (byte c) \<or> isDigit un (byte c)"
    using assms(1) by (auto simp: validPart_def list_all_iff)
  moreover have "byte (CHR ''_'') = 95" by (simp add: byte_def)
  then have "byte c = 95 \<Longrightarrow> c = CHR ''_''" by (metis byte_eq_iff)
  ultimately show ?thesis
    using True by (auto simp: plain_char_def isLetter_def isDigit_def is_digit_char_def in_bytes_def)
qed (simp add: plain_char_def)

lemma validIdentifier_iff:
  "validIdentifier un identifier \<longleftrightarrow>
     length (identifier_parts identifier) \<le> 3 \<and>
     (\<forall>part \<in> set (identifier_parts identifier). validPart un part)"
  by (auto simp: validIdentifier_def identifier_parts_def Let_def list_all_iff)

lemma validIdentifier_plain:
  assumes "validIdentifier un identifier" and "part \<in> set (identifier_parts identifier)"
  shows "part \<noteq> [] \<and> (\<forall>c \<in> set part. plain_char c)"
  using assms validPart_plain [of un part] by (auto simp: validIdentifier_iff validPart_def)

lemma update_new: "k \<notin> fst ` set al \<Longrightarrow> AList.update k v al = al @ [(k, v)]"
  by (induction al) auto

lemma cloneMap_id:
  assumes "distinct (map fst source)"
  shows "cloneMap source = source"
proof -
  have "fold (\<lambda>(k, v) r. AList.update k v r) rest done' = done' @ rest"
    if "distinct (map fst (done' @ rest))" for rest done' :: string_map
    using that
  proof (induction rest arbitrary: done')
    case (Cons e rest)
    obtain k v where e: "e = (k, v)" by fastforce
    have "k \<notin> fst ` set done'" using Cons.prems e by auto
    then show ?case using Cons.IH [of "done' @ [e]"] Cons.prems by (simp add: e update_new)
  qed simp
  from this [of "[]" source] assms show ?thesis by (simp add: cloneMap_def)
qed

definition all_entries :: "Mapping \<Rightarrow> string_map" where
  "all_entries m = mp_Fields m @ mp_Filters m @ mp_Sorts m @ mp_Constraints m"

definition go_maps :: "Mapping \<Rightarrow> bool" where
  "go_maps m \<longleftrightarrow> distinct (map fst (mp_Fields m)) \<and> distinct (map fst (mp_Filters m)) \<and>
     distinct (map fst (mp_Sorts m)) \<and> distinct (map fst (mp_Constraints m))"

lemma NewCompiler_result:
  assumes "go_maps mapping"
  shows "NewCompiler un mapping =
    (if \<forall>(name, identifier) \<in> set (all_entries mapping). name \<noteq> [] \<and> validIdentifier un identifier
     then Inr \<lparr>cm_mapping = mapping\<rparr> else Inl Pg_ErrInvalid)"
proof -
  have "\<lparr>mp_Fields = cloneMap (mp_Fields mapping), mp_Filters = cloneMap (mp_Filters mapping),
      mp_Sorts = cloneMap (mp_Sorts mapping),
      mp_Constraints = cloneMap (mp_Constraints mapping)\<rparr> = mapping"
    using assms by (simp add: go_maps_def cloneMap_id)
  then show ?thesis
    by (simp add: NewCompiler_def Let_def list_all_iff all_entries_def ball_Un)
qed

definition sampleMapping :: Mapping where
  "sampleMapping =
     \<lparr>mp_Fields = [(''id'', ''articles.id''), (''title'', ''articles.title''),
        (''owner_id'', ''articles.owner_id'')],
      mp_Filters = [(''status'', ''status''), (''views'', ''v2'')],
      mp_Sorts = [(''created'', ''created_at''), (''id'', ''public.articles.id'')],
      mp_Constraints = [(''tenant'', ''tenant_id'')]\<rparr>"

definition sampleUnicode :: unicode_tables where
  "sampleUnicode = \<lparr>un_letter = (\<lambda>_. False), un_digit = (\<lambda>_. False)\<rparr>"

definition sampleCompiler :: Compiler where
  "sampleCompiler = \<lparr>cm_mapping = sampleMapping\<rparr>"

lemma NewCompiler_sample: "NewCompiler sampleUnicode sampleMapping = Inr sampleCompiler"
  by code_simp

text \<open>
  C29: \<open>NewCompiler\<close> accepts a mapping exactly when no name is empty and every
  identifier is valid, keeps it unchanged, and then every identifier it will quote consists of one to
  three non-empty segments without a quote, a dot or a dollar sign: a quoted segment ends where its
  quote ends.
\<close>

theorem NewCompiler_identifiers:
  assumes "go_maps mapping"
  shows "NewCompiler un mapping =
      (if \<forall>(name, identifier) \<in> set (all_entries mapping). name \<noteq> [] \<and> validIdentifier un identifier
       then Inr \<lparr>cm_mapping = mapping\<rparr> else Inl Pg_ErrInvalid) \<and>
    (\<forall>compiler. NewCompiler un mapping = Inr compiler \<longrightarrow>
      (\<forall>(name, identifier) \<in> set (all_entries mapping). \<exists>parts.
         quoteIdentifier identifier = join_with ''.'' (map (\<lambda>p. CHR 0x22 # p @ [CHR 0x22]) parts) \<and>
         1 \<le> length parts \<and> length parts \<le> 3 \<and>
         (\<forall>p \<in> set parts. p \<noteq> [] \<and> CHR 0x22 \<notin> set p \<and> CHR ''.'' \<notin> set p \<and> CHR ''$'' \<notin> set p)))"
proof (intro conjI allI impI NewCompiler_result [OF assms])
  fix compiler
  assume ok: "NewCompiler un mapping = Inr compiler"
  have "\<exists>parts. quoteIdentifier identifier =
      join_with ''.'' (map (\<lambda>p. CHR 0x22 # p @ [CHR 0x22]) parts) \<and>
      1 \<le> length parts \<and> length parts \<le> 3 \<and>
      (\<forall>p \<in> set parts. p \<noteq> [] \<and> CHR 0x22 \<notin> set p \<and> CHR ''.'' \<notin> set p \<and> CHR ''$'' \<notin> set p)"
    if mem: "(name, identifier) \<in> set (all_entries mapping)" for name "identifier"
  proof (intro exI conjI ballI)
    have valid: "validIdentifier un identifier"
      using ok mem by (auto simp: NewCompiler_result [OF assms] split: if_splits)
    let ?parts = "identifier_parts identifier"
    show "quoteIdentifier identifier = join_with ''.'' (map (\<lambda>p. CHR 0x22 # p @ [CHR 0x22]) ?parts)"
      by (simp add: quoteIdentifier_def identifier_parts_def quote_part_def [abs_def])
    show "1 \<le> length ?parts"
      by (simp add: identifier_parts_def length_split_on)
    show "length ?parts \<le> 3" using valid by (simp add: validIdentifier_iff)
    fix p assume p: "p \<in> set ?parts"
    note plain = validIdentifier_plain [OF valid p]
    then show "p \<noteq> []" by blast
    show "CHR ''.'' \<notin> set p" using p split_on_parts by (simp add: identifier_parts_def)
    have "\<not> plain_char (CHR 0x22)" "\<not> plain_char (CHR ''$'')"
      by (simp_all add: plain_char_def is_digit_char_def in_bytes_def byte_def)
    with plain show "CHR 0x22 \<notin> set p" "CHR ''$'' \<notin> set p" by blast+
  qed
  then show "\<forall>(name, identifier) \<in> set (all_entries mapping). \<exists>parts.
      quoteIdentifier identifier = join_with ''.'' (map (\<lambda>p. CHR 0x22 # p @ [CHR 0x22]) parts) \<and>
      1 \<le> length parts \<and> length parts \<le> 3 \<and>
      (\<forall>p \<in> set parts. p \<noteq> [] \<and> CHR 0x22 \<notin> set p \<and> CHR ''.'' \<notin> set p \<and> CHR ''$'' \<notin> set p)"
    by (intro ballI) (simp only: split_paired_all prod.case)
qed

theorem NewCompiler_identifiers_witness:
  "NewCompiler sampleUnicode sampleMapping = Inr sampleCompiler \<and>
   NewCompiler sampleUnicode (sampleMapping\<lparr>mp_Sorts := [(''id'', ''id; --'')]\<rparr>) = Inl Pg_ErrInvalid"
proof -
  have "go_maps (sampleMapping\<lparr>mp_Sorts := [(''id'', ''id; --'')]\<rparr>)"
    "(''id'', ''id; --'') \<in> set (all_entries (sampleMapping\<lparr>mp_Sorts := [(''id'', ''id; --'')]\<rparr>))"
    "\<not> validIdentifier sampleUnicode ''id; --''"
    by code_simp+
  with NewCompiler_identifiers [of "sampleMapping\<lparr>mp_Sorts := [(''id'', ''id; --'')]\<rparr>" sampleUnicode]
  have "NewCompiler sampleUnicode (sampleMapping\<lparr>mp_Sorts := [(''id'', ''id; --'')]\<rparr>) = Inl Pg_ErrInvalid"
    by (auto split: if_splits)
  with NewCompiler_sample show ?thesis by blast
qed

section \<open>Refinement\<close>

lemma compiled_filter_shaped:
  assumes "wf_schema schema" and "b_MaxCost (sc_bounds schema) \<le> maxInt"
    and "ApiCompile.Compile (Some schema) request options w = (Inr plan, w', trace)"
    and "pl_filter plan = Some f"
  shows "shaped f"
proof -
  from assms(1,2,3) obtain state where ok: "request_ok schema request"
    and plan: "plan = spec_plan schema (co_MandatoryConstraints options) request state"
    by (rule compiled)
  with assms(4) have "filter_accepted schema (Some f)"
    by (simp add: spec_plan_def request_ok_def Let_def)
  then show ?thesis
    using accepted_shaped(1) [OF assms(1)] by (auto simp: filter_accepted_def)
qed

text \<open>
  C5: for every plan that \<open>Compile\<close> returned, the adapter neither panics nor answers
  in part: with every name of the plan mapped it returns the specified fragments, in which all
  mandatory constraints and the filter of the client are joined by \<open>AND\<close>, and otherwise it returns
  \<open>ErrInvalid\<close>.
\<close>

theorem Postgres_refines:
  assumes "wf_schema schema" and "b_MaxCost (sc_bounds schema) \<le> maxInt"
    and "ApiCompile.Compile (Some schema) request options w = (Inr plan, w', trace)"
  shows "Compiler_Compile (Some compiler) (Some plan) =
    (if plan_mapped (cm_mapping compiler) plan then Inr (spec_parts (cm_mapping compiler) plan)
     else Inl Pg_ErrInvalid)"
  using compiled_filter_shaped [OF assms] by (intro Compiler_Compile_spec) blast

definition sampleWhere :: string where
  "sampleWhere =
     ''('' @ quoteIdentifier ''tenant_id'' @ '' = $1) AND (('' @ quoteIdentifier ''status'' @
     '' = $2) AND (NOT ('' @ quoteIdentifier ''v2'' @ '' BETWEEN $3 AND $4)))''"

theorem Postgres_refines_witness:
  "\<exists>parts. Compiler_Compile (Some sampleCompiler) (Some samplePlan) = Inr parts \<and>
     qp_Where parts = sampleWhere \<and>
     qp_Arguments parts = [StringValue ''t1'', StringValue ''open'', IntValue 1, IntValue 9]"
proof -
  obtain w trace where
    "ApiCompile.Compile (Some sampleSchema) sampleRequest sampleOptions 0 = (Inr samplePlan, w, trace)"
    using Compile_sample by blast
  note run = Postgres_refines [OF sampleSchema_wf sampleSchema_cost this, of sampleCompiler]
  have "plan_mapped (cm_mapping sampleCompiler) samplePlan"
    "qp_Where (spec_parts (cm_mapping sampleCompiler) samplePlan) = sampleWhere"
    "qp_Arguments (spec_parts (cm_mapping sampleCompiler) samplePlan) =
       [StringValue ''t1'', StringValue ''open'', IntValue 1, IntValue 9]"
    by code_simp+
  with run show ?thesis by auto
qed

section \<open>Values stay out of the text\<close>

text \<open>A filter, and a plan, with every value forgotten; how many values there were is kept.\<close>

definition erase_predicate :: "Predicate \<Rightarrow> Predicate" where
  "erase_predicate p = p\<lparr>pr_Values := map (\<lambda>_. zeroValue) (pr_Values p)\<rparr>"

fun erase_filter :: "FilterExpr \<Rightarrow> FilterExpr" where
  "erase_filter (FilterExpr predicate logic children) =
     FilterExpr (map_option erase_predicate predicate) logic (map erase_filter children)"

definition erase_plan :: "Plan \<Rightarrow> Plan" where
  "erase_plan plan =
     plan\<lparr>pl_constraints := map (\<lambda>c. c\<lparr>cn_Value := zeroValue\<rparr>) (pl_constraints plan),
          pl_filter := map_option erase_filter (pl_filter plan)\<rparr>"

lemma erase_predicate_simps [simp]:
  "pr_Name (erase_predicate p) = pr_Name p"
  "pr_Operator (erase_predicate p) = pr_Operator p"
  "length (pr_Values (erase_predicate p)) = length (pr_Values p)"
  "pr_Values (erase_predicate p) = [] \<longleftrightarrow> pr_Values p = []"
  by (simp_all add: erase_predicate_def)

lemma erase_pred [simp]:
  "pred_text m n (erase_predicate p) = pred_text m n p"
  "length (pred_args (erase_predicate p)) = length (pred_args p)"
  "pred_enough (erase_predicate p) = pred_enough p"
  "pred_mapped m (erase_predicate p) = pred_mapped m p"
  by (simp_all add: pred_text_def pred_args_def pred_enough_def pred_mapped_def)

lemma predicates_list_map: "predicates_list fs = concat (map predicates fs)"
  by (induction fs) auto

lemma erase_predicates: "predicates (erase_filter f) = map erase_predicate (predicates f)"
proof (induction f)
  case (FilterExpr predicate logic children)
  then show ?case by (cases predicate) (auto simp: predicates_list_map map_concat intro!: arg_cong [of _ _ concat])
qed

lemma erase_filter_args: "length (filter_args (erase_filter f)) = length (filter_args f)"
  by (simp add: filter_args_def erase_predicates length_concat comp_def)

lemma erase_filter_text:
  "filter_text m n (erase_filter f) = filter_text m n f"
  "filter_texts m n (map erase_filter fs) = filter_texts m n fs"
  by (induction m n f and m n fs rule: filter_text_filter_texts.induct)
    (auto simp: erase_filter_args simp del: filter_args_simps split: option.split)

lemma erase_shaped:
  "shaped (erase_filter f) = shaped f" "shaped_list (map erase_filter fs) = shaped_list fs"
  by (induction f and fs rule: shaped_shaped_list.induct) (auto split: option.split)

lemma erase_constraint_texts:
  "constraint_texts m n (map (\<lambda>c. c\<lparr>cn_Value := zeroValue\<rparr>) cs) = constraint_texts m n cs"
  by (induction cs arbitrary: n) (auto simp: constraint_text_def)

lemma erase_plan_text:
  "plan_mapped m (erase_plan plan) = plan_mapped m plan"
  "\<exists>args. spec_parts m plan = (spec_parts m (erase_plan plan))\<lparr>qp_Arguments := args\<rparr> \<and>
     length args = length (plan_args (erase_plan plan))"
proof -
  show "plan_mapped m (erase_plan plan) = plan_mapped m plan"
    by (simp add: plan_mapped_def erase_plan_def filter_mapped_def erase_predicates ball_Un
        split: option.split)
  have "conditions m (erase_plan plan) = conditions m plan"
    by (simp add: conditions_def erase_plan_def erase_constraint_texts erase_filter_text
        split: option.split)
  moreover have "length (plan_args plan) = length (plan_args (erase_plan plan))"
    by (simp add: plan_args_def erase_plan_def erase_filter_args split: option.split)
  ultimately show "\<exists>args. spec_parts m plan = (spec_parts m (erase_plan plan))\<lparr>qp_Arguments := args\<rparr> \<and>
      length args = length (plan_args (erase_plan plan))"
    by (intro exI [of _ "plan_args plan"]) (simp add: spec_parts_def, simp add: erase_plan_def)
qed

text \<open>
  C7: two plans that differ in nothing but their values, one of them compiled
  from a request, get the same projection, condition and order text and the same number of arguments
  (or the same error): whatever bytes a client puts into a value, they do not reach the statement.
\<close>

theorem Postgres_no_injection:
  assumes "wf_schema schema" and "b_MaxCost (sc_bounds schema) \<le> maxInt"
    and "ApiCompile.Compile (Some schema) request options w = (Inr plan, w', trace)"
    and same: "erase_plan other = erase_plan plan"
  shows "case Compiler_Compile (Some compiler) (Some plan) of
      Inl e \<Rightarrow> Compiler_Compile (Some compiler) (Some other) = Inl e
    | Inr parts \<Rightarrow> \<exists>args. length args = length (qp_Arguments parts) \<and>
        Compiler_Compile (Some compiler) (Some other) = Inr (parts\<lparr>qp_Arguments := args\<rparr>)"
proof -
  let ?m = "cm_mapping compiler"
  have filters: "map_option erase_filter (pl_filter other) = map_option erase_filter (pl_filter plan)"
    using arg_cong [OF same, of pl_filter] by (simp add: erase_plan_def)
  have "shaped f" if "pl_filter other = Some f" for f
  proof -
    from filters that obtain g where g: "pl_filter plan = Some g" "erase_filter f = erase_filter g"
      by (cases "pl_filter plan") auto
    then show ?thesis
      using compiled_filter_shaped [OF assms(1-3) g(1)] erase_shaped(1) by metis
  qed
  then have run: "Compiler_Compile (Some compiler) (Some p) =
      (if plan_mapped ?m p then Inr (spec_parts ?m p) else Inl Pg_ErrInvalid)"
    if "p = plan \<or> p = other" for p
    using that compiled_filter_shaped [OF assms(1-3)] by (intro Compiler_Compile_spec) blast
  obtain a where a: "spec_parts ?m plan = (spec_parts ?m (erase_plan plan))\<lparr>qp_Arguments := a\<rparr>"
    "length a = length (plan_args (erase_plan plan))"
    using erase_plan_text(2) by blast
  obtain b where b: "spec_parts ?m other = (spec_parts ?m (erase_plan plan))\<lparr>qp_Arguments := b\<rparr>"
    "length b = length (plan_args (erase_plan plan))"
    using erase_plan_text(2) [of ?m other] unfolding same by blast
  have "spec_parts ?m other = (spec_parts ?m plan)\<lparr>qp_Arguments := b\<rparr>" "length b = length a"
    using a b by simp_all
  moreover have "plan_mapped ?m other = plan_mapped ?m plan"
    using erase_plan_text(1) same by metis
  ultimately show ?thesis
    by (simp add: run a(1)) (auto simp: a(1))
qed

definition hostileText :: string where
  "hostileText = [CHR 0x27] @ '') OR (1=1) --''"

definition hostilePlan :: Plan where
  "hostilePlan = samplePlan\<lparr>pl_filter := Some (FilterExpr None LogicAnd
     [FilterExpr
        (Some \<lparr>pr_Name = ''status'', pr_Operator = OpEqual, pr_Values = [StringValue hostileText]\<rparr>)
        [] [],
      FilterExpr None LogicNot
        [FilterExpr
           (Some \<lparr>pr_Name = ''views'', pr_Operator = OpBetween,
                  pr_Values = [IntValue 1, IntValue 9]\<rparr>) [] []]])\<rparr>"

theorem Postgres_no_injection_witness:
  "\<exists>parts args. Compiler_Compile (Some sampleCompiler) (Some samplePlan) = Inr parts \<and>
     Compiler_Compile (Some sampleCompiler) (Some hostilePlan) = Inr (parts\<lparr>qp_Arguments := args\<rparr>)"
proof -
  obtain w trace where run:
    "ApiCompile.Compile (Some sampleSchema) sampleRequest sampleOptions 0 = (Inr samplePlan, w, trace)"
    using Compile_sample by blast
  have "pl_filter samplePlan = Some sampleFilter" by code_simp
  then have "erase_plan hostilePlan = erase_plan samplePlan"
    by (simp add: erase_plan_def hostilePlan_def sampleFilter_def erase_predicate_def)
  note same = Postgres_no_injection [OF sampleSchema_wf sampleSchema_cost run this, of sampleCompiler]
  have "Compiler_Compile (Some sampleCompiler) (Some samplePlan) \<noteq> Inl e" for e
  proof -
    have "plan_mapped (cm_mapping sampleCompiler) samplePlan" by code_simp
    moreover have "shaped f" if "pl_filter samplePlan = Some f" for f
      using compiled_filter_shaped [OF sampleSchema_wf sampleSchema_cost run that] .
    ultimately show ?thesis by (simp add: Compiler_Compile_spec)
  qed
  with same show ?thesis by (auto split: sum.splits)
qed

section \<open>Patterns\<close>

text \<open>
  C28: a pattern operator binds one argument, a string pattern, and that pattern matches
  exactly the texts that contain (begin with, end with) the client's value literally: no character
  of the value acts as a wildcard or as an escape.
\<close>

theorem Postgres_like:
  assumes "pattern_operator (pr_Operator p)" and "pr_Values p = [v]"
    and "map_of (mp_Filters m) (pr_Name p) = Some identifier"
  shows "\<exists>sql pattern. predicateSQL m p arguments = (Inr sql, arguments @ [StringValue pattern]) \<and>
    (\<forall>t. like pattern t \<longleftrightarrow>
       (if pr_Operator p = OpStartsWith then prefix (v_text v) t
        else if pr_Operator p = OpEndsWith then suffix (v_text v) t
        else sublist (v_text v) t))"
proof -
  let ?pattern = "likePattern (pr_Operator p) (v_text v)"
  have "pred_enough p" "pred_mapped m p"
    using assms by (auto simp: pred_enough_def pred_mapped_def pattern_operator_def membership_def)
  then have "predicateSQL m p arguments =
      (Inr (pred_text m (length arguments) p), arguments @ [StringValue ?pattern])"
    using assms(1,2) by (simp add: predicateSQL_ok)
      (auto simp: pred_args_def pattern_operator_def membership_def)
  then show ?thesis
    using like_pattern [OF assms(1), of "v_text v"] unfolding pattern_holds_def by blast
qed

theorem Postgres_like_witness:
  "\<exists>sql pattern. predicateSQL sampleMapping
     \<lparr>pr_Name = ''status'', pr_Operator = OpContains, pr_Values = [StringValue ''50%'']\<rparr> [] =
       (Inr sql, [StringValue pattern]) \<and>
     like pattern ''a 50% cut'' \<and> \<not> like pattern ''a 500 cut''"
proof -
  let ?p = "\<lparr>pr_Name = ''status'', pr_Operator = OpContains, pr_Values = [StringValue ''50%'']\<rparr>"
  have "pattern_operator (pr_Operator ?p)" "pr_Values ?p = [StringValue ''50%'']"
    "map_of (mp_Filters sampleMapping) (pr_Name ?p) = Some ''status''"
    by (simp_all add: pattern_operator_def sampleMapping_def)
  from Postgres_like [OF this, of "[]"] obtain sql pattern where
    "predicateSQL sampleMapping ?p [] = (Inr sql, [] @ [StringValue pattern])"
    "\<forall>t. like pattern t \<longleftrightarrow> sublist ''50%'' t"
    by (auto simp: StringValue_def)
  moreover have "sublist ''50%'' ''a 50% cut''" "\<not> sublist ''50%'' ''a 500 cut''" by code_simp+
  ultimately show ?thesis by auto
qed

section \<open>Placeholders\<close>

text \<open>The numbers of the placeholders of a text, in order.\<close>

fun placeholders :: "string \<Rightarrow> nat list" where
  "placeholders [] = []"
| "placeholders (c # s) =
     (if c = CHR ''$'' then [the (digits_value 0 (takeWhile is_digit_char s))] else []) @
     placeholders s"

definition bare :: "string \<Rightarrow> bool" where
  "bare s \<longleftrightarrow> CHR ''$'' \<notin> set s"

definition stops :: "string \<Rightarrow> bool" where
  "stops t \<longleftrightarrow> (case t of [] \<Rightarrow> True | c # _ \<Rightarrow> \<not> is_digit_char c)"

lemma placeholders_append:
  assumes "stops t"
  shows "placeholders (s @ t) = placeholders s @ placeholders t"
proof (induction s)
  case (Cons c s)
  have "takeWhile is_digit_char (s @ t) = takeWhile is_digit_char s"
    using assms by (induction s) (auto simp: stops_def split: list.splits)
  with Cons show ?case by simp
qed simp

lemma placeholders_bare: "bare s \<Longrightarrow> placeholders (s @ t) = placeholders t"
  by (induction s) (auto simp: bare_def)

lemma placeholders_none: "bare s \<Longrightarrow> placeholders s = []"
  using placeholders_bare [of s "[]"] by simp

lemma placeholders_number: "placeholders (placeholder n) = [n]"
proof -
  have "takeWhile is_digit_char (dec_nat n) = dec_nat n"
    using dec_nat_digits by (simp add: takeWhile_eq_all_conv)
  moreover have "bare (dec_nat n)"
    using dec_nat_digits [of "CHR ''$''" n]
    by (auto simp: bare_def is_digit_char_def in_bytes_def byte_def)
  ultimately show ?thesis
    by (simp only: placeholder_def placeholders.simps digits_value_dec_nat placeholders_none) simp
qed

lemma placeholders_join:
  assumes "bare sep" and "sep \<noteq> []" and "stops sep"
  shows "placeholders (join_with sep ps) = concat (map placeholders ps)"
  using assms
proof (induction sep ps rule: join_with.induct)
  case (3 sep p q ps)
  have "stops (sep @ join_with sep (q # ps))"
    using "3.prems" by (cases sep) (simp_all add: stops_def)
  with 3 show ?case by (simp add: placeholders_append placeholders_bare)
qed simp_all

lemma char_facts [simp]:
  "\<not> is_digit_char (CHR '' '')" "\<not> is_digit_char (CHR '')'')" "\<not> is_digit_char (CHR '','')"
  by (simp_all add: is_digit_char_def in_bytes_def byte_def)

lemma placeholders_texts:
  "placeholders (join_with '' OR '' ps) = concat (map placeholders ps)"
  "placeholders (join_with '' AND '' ps) = concat (map placeholders ps)"
  "placeholders (join_with '', '' ps) = concat (map placeholders ps)"
  by (simp_all add: placeholders_join bare_def stops_def)

lemma placeholders_parens [simp]: "placeholders (parens s) = placeholders s"
  using placeholders_append [of "'')''" s] by (simp add: parens_def stops_def)

lemma placeholders_placeholder:
  "stops t \<Longrightarrow> placeholders (placeholder n @ t) = n # placeholders t"
  by (simp add: placeholders_append placeholders_number)

definition bare_mapping :: "Mapping \<Rightarrow> bool" where
  "bare_mapping m \<longleftrightarrow> (\<forall>(name, ident) \<in> set (all_entries m). bare (quoteIdentifier ident))"

lemma bare_lookup:
  assumes "bare_mapping m" and "map_of xs name = Some ident" and "set xs \<subseteq> set (all_entries m)"
  shows "bare (quoteIdentifier ident)"
  using assms by (auto simp: bare_mapping_def dest: map_of_SomeD)

lemma NewCompiler_bare:
  assumes "go_maps mapping" and "NewCompiler un mapping = Inr compiler"
  shows "bare_mapping (cm_mapping compiler)"
proof -
  have m: "cm_mapping compiler = mapping"
    and valid: "\<forall>(name, ident) \<in> set (all_entries mapping). validIdentifier un ident"
    using assms(2) by (auto simp: NewCompiler_result [OF assms(1)] split: if_splits)
  have "bare (quoteIdentifier ident)" if id: "validIdentifier un ident" for ident
  proof -
    have "CHR ''$'' \<notin> set (quote_part p)" if "p \<in> set (identifier_parts ident)" for p
    proof -
      have "\<not> plain_char (CHR ''$'')"
        by (simp add: plain_char_def is_digit_char_def in_bytes_def byte_def)
      then show ?thesis
        using validIdentifier_plain [OF id that] by (auto simp: quote_part_def)
    qed
    then show ?thesis
      using set_join_with [of "''.''" "map quote_part (identifier_parts ident)"]
      by (auto simp: bare_def quoteIdentifier_def identifier_parts_def)
  qed
  with valid show ?thesis by (auto simp: bare_mapping_def m)
qed

lemma placeholders_pred:
  assumes "bare_mapping m" and "pred_mapped m p" and "pred_enough p"
  shows "placeholders (pred_text m n p) = [Suc n..<Suc n + length (pred_args p)]"
proof -
  have column: "bare (quoteIdentifier (the (map_of (mp_Filters m) (pr_Name p))))"
    using assms(2) bare_lookup [OF assms(1)] by (force simp: pred_mapped_def all_entries_def)
  have sign: "bare (the (comparisonOperator (pr_Operator p)))"
    if "comparisonOperator (pr_Operator p) \<noteq> None"
    using that by (auto simp: comparisonOperator_def bare_def split: if_splits)
  consider (null) "pr_Operator p = OpIsNull" | (between) "pr_Operator p = OpBetween"
    | (member) "membership (pr_Operator p)" "pr_Operator p \<noteq> OpIsNull" "pr_Operator p \<noteq> OpBetween"
    | (pat) "pattern_operator (pr_Operator p)" "pr_Operator p \<noteq> OpIsNull" "pr_Operator p \<noteq> OpBetween"
        "\<not> membership (pr_Operator p)"
    | (cmp) "pr_Operator p \<noteq> OpIsNull" "pr_Operator p \<noteq> OpBetween" "\<not> membership (pr_Operator p)"
        "\<not> pattern_operator (pr_Operator p)"
    by blast
  then show ?thesis
  proof cases
    case null
    then show ?thesis
      by (simp add: pred_text_def pred_args_def placeholders_bare [OF column])
  next
    case between
    then have "min (length (pr_Values p)) 2 = 2"
      using assms(3) by (simp add: pred_enough_def membership_def min_def)
    then show ?thesis
      using between
      by (simp add: pred_text_def pred_args_def placeholders_bare [OF column] membership_def
          placeholders_placeholder stops_def placeholders_number upt_conv_Cons numeral_2_eq_2)
  next
    case member
    have "concat (map (placeholders \<circ> placeholder) ns) = ns" for ns
      by (induction ns) (simp_all add: placeholders_number)
    then have "placeholders (join_with '', '' (map placeholder ns) @ '')'') = ns" for ns
      by (simp add: placeholders_append stops_def placeholders_texts comp_def)
    with member show ?thesis
      by (simp add: pred_text_def pred_args_def placeholders_bare [OF column] del: upt_Suc)
  next
    case pat
    then show ?thesis
      by (simp add: pred_text_def pred_args_def placeholders_bare [OF column]
          placeholders_placeholder stops_def)
  next
    case cmp
    then have "comparisonOperator (pr_Operator p) \<noteq> None"
      using assms(3) by (simp add: pred_enough_def)
    then show ?thesis
      using cmp by (simp add: pred_text_def pred_args_def placeholders_bare [OF column]
          placeholders_bare [OF sign] placeholders_number)
  qed
qed

lemma concat_upt: "[Suc n..<Suc (n + a)] @ [Suc (n + a)..<Suc (n + a + b)] = [Suc n..<Suc (n + (a + b))]"
  using upt_add_eq_append [of "Suc n" "Suc (n + a)" b] by (simp add: add.assoc)

lemma placeholders_filter:
  "bare_mapping m \<Longrightarrow> shaped f \<Longrightarrow> \<forall>p \<in> set (predicates f). pred_mapped m p \<Longrightarrow>
   placeholders (filter_text m n f) = [Suc n..<Suc n + length (filter_args f)]"
  "bare_mapping m \<Longrightarrow> shaped_list fs \<Longrightarrow> \<forall>p \<in> set (predicates_list fs). pred_mapped m p \<Longrightarrow>
   concat (map placeholders (filter_texts m n fs)) = [Suc n..<Suc n + length (filter_args_list fs)]"
proof (induction m n f and m n fs rule: filter_text_filter_texts.induct)
  case (1 m n predicate logic children)
  show ?case
  proof (cases predicate)
    case (Some p)
    with 1 show ?thesis by (simp add: placeholders_pred del: upt_Suc)
  next
    case None
    let ?texts = "filter_texts m n children"
    have IH: "concat (map placeholders ?texts) = [Suc n..<Suc n + length (filter_args_list children)]"
      using "1.prems" None by (intro "1.IH") auto
    have "placeholders (compose_text logic (map parens ?texts)) = concat (map placeholders ?texts)"
    proof (cases "logic = LogicNot")
      case True
      then obtain child where "?texts = [child]"
        using "1.prems" None length_filter_texts [of m n children]
        by (auto simp: length_Suc_conv simp del: length_filter_texts)
      then show ?thesis
        using True by (simp add: compose_text_def del: placeholders.simps)
          (simp add: placeholders_bare [of "''NOT ''", unfolded append.simps] bare_def)
    next
      case False
      have "map (\<lambda>s. placeholders (parens s)) ?texts = map placeholders ?texts" by simp
      with False show ?thesis by (simp add: compose_text_def placeholders_texts comp_def)
    qed
    with IH None show ?thesis by simp
  qed
next
  case (3 m n f fs)
  then show ?case by (simp add: concat_upt del: upt_Suc)
qed simp

lemma placeholders_constraints:
  "bare_mapping m \<Longrightarrow> \<forall>c \<in> set cs. map_of (mp_Constraints m) (cn_Name c) \<noteq> None \<Longrightarrow>
   concat (map placeholders (constraint_texts m n cs)) = [Suc n..<Suc n + length cs]"
proof (induction cs arbitrary: n)
  case (Cons c cs)
  then obtain ident where c: "map_of (mp_Constraints m) (cn_Name c) = Some ident" by auto
  have "bare (quoteIdentifier ident)"
    by (rule bare_lookup [OF Cons.prems(1) c]) (auto simp: all_entries_def)
  then have "placeholders (constraint_text m (Suc n) c) = [Suc n]"
    by (simp add: constraint_text_def c placeholders_bare placeholders_number)
  with Cons show ?case by (simp add: upt_conv_Cons del: upt_Suc)
qed simp

lemma bare_join: "bare sep \<Longrightarrow> \<forall>p \<in> set ps. bare p \<Longrightarrow> bare (join_with sep ps)"
  using set_join_with [of sep ps] by (auto simp: bare_def)

lemma compiled_sorts:
  assumes "wf_schema schema" and "b_MaxCost (sc_bounds schema) \<le> maxInt"
    and "ApiCompile.Compile (Some schema) request options w = (Inr plan, w', trace)"
    and "t \<in> set (pl_sorts plan)"
  shows "st_Direction t \<in> {Ascending, Descending} \<and> nulls_ok (st_Nulls t)"
proof -
  from assms(1-3) obtain state where ok: "request_ok schema request"
    and plan: "plan = spec_plan schema (co_MandatoryConstraints options) request state"
    by (rule compiled)
  with assms(4) obtain d where d: "sort_def schema (st_Name t) = Some d"
    "st_Direction t \<in> {Ascending, Descending}" "st_Nulls t = sd_Nulls d"
    using final_sorts_ok [OF assms(1) ok] by (auto simp: spec_plan_def Let_def)
  then obtain i where "sc_sortIndex schema (st_Name t) = Some i" "sc_sorts schema ! i = d"
    by (auto simp: sort_def_def)
  with wf_schema_sort [OF assms(1)] have "sort_ok (b_MaxCost (sc_bounds schema)) d" by blast
  with d show ?thesis by (simp add: sort_ok_def)
qed

lemma bare_sort_text:
  assumes "bare (quoteIdentifier ident)" and "st_Direction t \<in> {Ascending, Descending}"
    and "nulls_ok (st_Nulls t)"
  shows "bare (order_term ident t)"
proof -
  have "bare (to_upper_ascii Ascending)" "bare (to_upper_ascii Descending)"
    "bare (to_upper_ascii NullsFirst)" "bare (to_upper_ascii NullsLast)"
    by code_simp+
  then have "bare (to_upper_ascii (st_Direction t))"
    "st_Nulls t \<noteq> [] \<Longrightarrow> bare (to_upper_ascii (st_Nulls t))"
    using assms(2,3) by (auto simp: nulls_ok_def)
  with assms(1) show ?thesis by (auto simp: order_term_def bare_def)
qed

lemma placeholders_where:
  assumes "bare_mapping m" and "plan_mapped m plan" and "\<forall>f. pl_filter plan = Some f \<longrightarrow> shaped f"
  shows "placeholders (join_with '' AND '' (conditions m plan)) = [1..<Suc (length (plan_args plan))]"
proof -
  let ?n = "length (pl_constraints plan)"
  have "concat (map placeholders (constraint_texts m 0 (pl_constraints plan))) = [Suc 0..<Suc 0 + ?n]"
    using assms(2) by (intro placeholders_constraints [OF assms(1)]) (simp add: plan_mapped_def)
  then have "concat (map placeholders (if pl_constraints plan = [] then []
      else [parens (join_with '' AND '' (constraint_texts m 0 (pl_constraints plan)))])) =
      [Suc 0..<Suc ?n]"
    by (simp add: placeholders_texts)
  moreover have "concat (map placeholders (case pl_filter plan of None \<Rightarrow> []
      | Some f \<Rightarrow> [parens (filter_text m ?n f)])) =
      [Suc ?n..<Suc (?n + length (case pl_filter plan of None \<Rightarrow> [] | Some f \<Rightarrow> filter_args f))]"
  proof (cases "pl_filter plan")
    case (Some f)
    then have "\<forall>p \<in> set (predicates f). pred_mapped m p"
      using assms(2) by (simp add: plan_mapped_def filter_mapped_def)
    with Some assms(3) show ?thesis
      using placeholders_filter(1) [OF assms(1), of f ?n] by simp
  qed simp
  ultimately show ?thesis
    using concat_upt [of 0 ?n "length (case pl_filter plan of None \<Rightarrow> [] | Some f \<Rightarrow> filter_args f)"]
    by (simp add: placeholders_texts conditions_def plan_args_def del: upt_Suc)
qed

text \<open>
  C27: with a compiler that \<open>NewCompiler\<close> built, the condition of a compiled plan
  has the placeholders \<open>$1\<close>, \<open>$2\<close>, \<dots> in this order, each once and one for every argument, and there
  is none in the projection or in the order.
\<close>

theorem Postgres_placeholders:
  assumes "wf_schema schema" and "b_MaxCost (sc_bounds schema) \<le> maxInt"
    and "ApiCompile.Compile (Some schema) request options w = (Inr plan, w', trace)"
    and "go_maps mapping" and "NewCompiler un mapping = Inr compiler"
    and "Compiler_Compile (Some compiler) (Some plan) = Inr parts"
  shows "placeholders (qp_Where parts) = [1..<Suc (length (qp_Arguments parts))] \<and>
    placeholders (qp_Projection parts) = [] \<and> placeholders (qp_OrderBy parts) = []"
proof -
  let ?m = "cm_mapping compiler"
  have bare: "bare_mapping ?m" using assms(4,5) by (rule NewCompiler_bare)
  have shaped: "\<forall>f. pl_filter plan = Some f \<longrightarrow> shaped f"
    using compiled_filter_shaped [OF assms(1-3)] by blast
  then have mapped: "plan_mapped ?m plan" and parts: "parts = spec_parts ?m plan"
    using assms(6) by (simp_all add: Compiler_Compile_spec split: if_splits)
  have "bare (field_text ?m n)" if "n \<in> set (pl_executionFields plan)" for n
    using mapped that bare_lookup [OF bare, of "mp_Fields ?m" n]
    by (auto simp: plan_mapped_def field_text_def all_entries_def)
  moreover have "bare (sort_text ?m t)" if t: "t \<in> set (pl_sorts plan)" for t
  proof -
    obtain ident where i: "map_of (mp_Sorts ?m) (st_Name t) = Some ident"
      using mapped t by (auto simp: plan_mapped_def)
    have "bare (quoteIdentifier ident)"
      by (rule bare_lookup [OF bare i]) (auto simp: all_entries_def)
    with i compiled_sorts [OF assms(1-3) t] show ?thesis
      by (simp add: sort_text_def bare_sort_text)
  qed
  moreover have "bare '', ''" by (simp add: bare_def)
  ultimately have "bare (qp_Projection parts)" "bare (qp_OrderBy parts)"
    by (simp_all add: parts spec_parts_def bare_join)
  then show ?thesis
    using placeholders_where [OF bare mapped shaped]
    by (simp add: placeholders_none parts spec_parts_def)
qed

theorem Postgres_placeholders_witness:
  "\<exists>parts. Compiler_Compile (Some sampleCompiler) (Some samplePlan) = Inr parts \<and>
     placeholders (qp_Where parts) = [1, 2, 3, 4]"
proof -
  obtain w trace where run:
    "ApiCompile.Compile (Some sampleSchema) sampleRequest sampleOptions 0 = (Inr samplePlan, w, trace)"
    using Compile_sample by blast
  have "plan_mapped (cm_mapping sampleCompiler) samplePlan" by code_simp
  moreover have "\<forall>f. pl_filter samplePlan = Some f \<longrightarrow> shaped f"
    using compiled_filter_shaped [OF sampleSchema_wf sampleSchema_cost run] by blast
  ultimately have parts: "Compiler_Compile (Some sampleCompiler) (Some samplePlan) =
      Inr (spec_parts (cm_mapping sampleCompiler) samplePlan)"
    by (simp add: Compiler_Compile_spec)
  have maps: "go_maps sampleMapping" by code_simp
  have "length (plan_args samplePlan) = 4" by code_simp
  with Postgres_placeholders [OF sampleSchema_wf sampleSchema_cost run maps NewCompiler_sample parts]
  have "placeholders (qp_Where (spec_parts (cm_mapping sampleCompiler) samplePlan)) = [1, 2, 3, 4]"
    by (simp add: spec_parts_def upt_rec)
  with parts show ?thesis by blast
qed

end
