(* ===== verification/SqlProperties.thy ===== *)
theory SqlProperties
  imports PostgresProperties
begin

text \<open>
  From the request of a client to the rows of the database: what the condition that the PostgreSQL
  adapter writes for a compiled plan selects.
\<close>

lemma NewCompiler_quotes_free:
  assumes "go_maps mapping" and "NewCompiler un mapping = Inr compiler"
  shows "cm_mapping compiler = mapping" "quotes_free mapping"
proof -
  have ok: "cm_mapping compiler = mapping"
    "\<forall>(name, ident) \<in> set (all_entries mapping). validIdentifier un ident"
    using assms(2) by (auto simp: NewCompiler_result [OF assms(1)] split: if_splits)
  have "quote_free ident" if "validIdentifier un ident" for ident
  proof -
    have "\<not> plain_char (CHR 0x22)"
      by (simp add: plain_char_def is_digit_char_def in_bytes_def byte_def)
    with validIdentifier_plain [OF that] show ?thesis by (auto simp: quote_free_def)
  qed
  with ok show "cm_mapping compiler = mapping" "quotes_free mapping"
    by (auto simp: quotes_free_def all_entries_def)
qed


text \<open>A row of the sample table, of which only equalities are known.\<close>

definition sampleRow :: "string \<Rightarrow> string sql_row" where
  "sampleRow tenant =
     \<lparr>rw_column = (\<lambda>col. if col = [''tenant_id''] then tenant else ''open''),
      rw_bound = v_text,
      rw_compare = (\<lambda>sign a b. Some (sign = ''='' \<and> a = b)),
      rw_null = (\<lambda>_. False), rw_text = Some\<rparr>"


end
