(* ===== verification/StrictJson.thy ===== *)
theory StrictJson
  imports ApiJson
begin

text \<open>
  \<open>internal/strictjson/strictjson.go\<close>: the bounded JSON validation that every JSON entry point runs
  before it decodes. The source walks the document with \<open>json.Decoder.Token\<close> and \<open>More\<close>; the token
  state machine of that decoder is modelled here on the remaining text, so that an error is found
  where the source finds it. \<open>validateValue\<close> is a \<open>partial_function\<close>: that it returns on every input
  is a theorem, not part of its definition.
\<close>

section \<open>The token decoder of the standard library\<close>

datatype token_state =
  TopValue | ArrayStart | ArrayValue | ArrayComma |
  ObjectStart | ObjectKey | ObjectColon | ObjectValue | ObjectComma

record token_decoder =
  td_rest :: string
  td_state :: token_state
  td_stack :: "token_state list"

datatype token_error = IoEOF | SyntaxError

text \<open>\<open>json.Token\<close>: a delimiter, or a string, number, truth value or nil.\<close>

datatype go_token = GoDelim char | GoScalar scalar

definition NewDecoder :: "string \<Rightarrow> token_decoder" where
  "NewDecoder data = \<lparr>td_rest = data, td_state = TopValue, td_stack = []\<rparr>"

definition skip_space :: "string \<Rightarrow> string" where
  "skip_space s = dropWhile is_space s"

definition value_allowed :: "token_state \<Rightarrow> bool" where
  "value_allowed st \<longleftrightarrow> st \<in> {TopValue, ArrayStart, ArrayValue, ObjectValue}"

fun value_end :: "token_state \<Rightarrow> token_state" where
  "value_end ArrayStart = ArrayComma"
| "value_end ArrayValue = ArrayComma"
| "value_end ObjectValue = ObjectComma"
| "value_end st = st"

definition open_composite :: "char \<Rightarrow> token_state \<Rightarrow> string \<Rightarrow> token_decoder \<Rightarrow>
    (token_error + go_token) \<times> token_decoder" where
  "open_composite c start rest d =
     (if value_allowed (td_state d)
      then (Inr (GoDelim c),
        \<lparr>td_rest = rest, td_state = start, td_stack = td_state d # td_stack d\<rparr>)
      else (Inl SyntaxError, d))"

definition close_composite :: "char \<Rightarrow> token_state set \<Rightarrow> string \<Rightarrow> token_decoder \<Rightarrow>
    (token_error + go_token) \<times> token_decoder" where
  "close_composite c states rest d =
     (if td_state d \<notin> states then (Inl SyntaxError, d)
      else
        (case td_stack d of
           [] \<Rightarrow> (Inl SyntaxError, d)    \<comment> \<open>not reached: such a state has an opening delimiter\<close>
         | st # stack \<Rightarrow>
             (Inr (GoDelim c), \<lparr>td_rest = rest, td_state = value_end st, td_stack = stack\<rparr>)))"

lemma skip_space_shorter: "skip_space s = c # rest \<Longrightarrow> length rest < length s"
  unfolding skip_space_def by (metis Suc_le_lessD length_Cons length_dropWhile_le)

text \<open>\<open>Decoder.Token\<close>; a colon or a comma that fits its place is skipped.\<close>

function Decoder_Token :: "token_decoder \<Rightarrow> (token_error + go_token) \<times> token_decoder" where
  "Decoder_Token d =
     (case skip_space (td_rest d) of
        [] \<Rightarrow> (Inl IoEOF, d)
      | c # rest \<Rightarrow>
          if c = CHR ''['' then open_composite c ArrayStart rest d
          else if c = CHR '']'' then close_composite c {ArrayStart, ArrayComma} rest d
          else if c = CHR ''{'' then open_composite c ObjectStart rest d
          else if c = CHR ''}'' then close_composite c {ObjectStart, ObjectComma} rest d
          else if c = CHR '':'' then
            (if td_state d \<noteq> ObjectColon then (Inl SyntaxError, d)
             else Decoder_Token (d\<lparr>td_rest := rest, td_state := ObjectValue\<rparr>))
          else if c = CHR '','' then
            (if td_state d = ArrayComma
             then Decoder_Token (d\<lparr>td_rest := rest, td_state := ArrayValue\<rparr>)
             else if td_state d = ObjectComma
             then Decoder_Token (d\<lparr>td_rest := rest, td_state := ObjectKey\<rparr>)
             else (Inl SyntaxError, d))
          else if c = CHR 0x22 \<and> (td_state d = ObjectStart \<or> td_state d = ObjectKey) then
            (case lex_string rest of
               None \<Rightarrow> (Inl SyntaxError, d)
             | Some (name, rest) \<Rightarrow>
                 (Inr (GoScalar (SStr name)), d\<lparr>td_rest := rest, td_state := ObjectColon\<rparr>))
          else if \<not> value_allowed (td_state d) then (Inl SyntaxError, d)
          else
            (case lex_token (c # rest) of
               Some (TScalar x, rest) \<Rightarrow>
                 (Inr (GoScalar x), d\<lparr>td_rest := rest, td_state := value_end (td_state d)\<rparr>)
             | _ \<Rightarrow> (Inl SyntaxError, d)))"
  by pat_completeness auto

termination
  by (relation "measure (\<lambda>d. length (td_rest d))") (auto dest: skip_space_shorter)

declare Decoder_Token.simps [simp del]

text \<open>\<open>Decoder.More\<close>.\<close>

definition Decoder_More :: "token_decoder \<Rightarrow> bool" where
  "Decoder_More d =
     (case skip_space (td_rest d) of [] \<Rightarrow> False | c # _ \<Rightarrow> c \<noteq> CHR '']'' \<and> c \<noteq> CHR ''}'')"

section \<open>Validation\<close>

datatype strict_error =
  StrictSize | StrictDepth | StrictRead | StrictMember | StrictDuplicate | StrictClose |
  StrictTrailing | StrictFinish | StrictDecode |
  StrictPanic    \<comment> \<open>the unguarded type assertion \<open>member.(string)\<close>\<close>

definition maxDepth :: nat where
  "maxDepth = 64"

text \<open>The two loops of \<open>validateValue\<close> run in modes of their own.\<close>

datatype walk = WValue | WMembers "string set" | WElements

partial_function (option) validateValue ::
  "walk \<Rightarrow> nat \<Rightarrow> token_decoder \<Rightarrow> (strict_error option \<times> token_decoder) option" where
  "validateValue walk depth decoder =
     (case walk of
        WValue \<Rightarrow>
          if depth > maxDepth then Some (Some StrictDepth, decoder)
          else
            (case Decoder_Token decoder of
               (Inl e, decoder) \<Rightarrow> Some (Some StrictRead, decoder)
             | (Inr (GoScalar x), decoder) \<Rightarrow> Some (None, decoder)
             | (Inr (GoDelim c), decoder) \<Rightarrow>
                 if c = CHR ''{'' then validateValue (WMembers {}) depth decoder
                 else validateValue WElements depth decoder)
      | WMembers seen \<Rightarrow>
          if Decoder_More decoder then
            (case Decoder_Token decoder of
               (Inl e, decoder) \<Rightarrow> Some (Some StrictMember, decoder)
             | (Inr (GoScalar (SStr name)), decoder) \<Rightarrow>
                 if name \<in> seen then Some (Some StrictDuplicate, decoder)
                 else Option.bind (validateValue WValue (depth + 1) decoder)
                   (\<lambda>(err, decoder).
                     case err of Some e \<Rightarrow> Some (Some e, decoder)
                     | None \<Rightarrow> validateValue (WMembers (insert name seen)) depth decoder)
             | (Inr token, decoder) \<Rightarrow> Some (Some StrictPanic, decoder))
          else
            (case Decoder_Token decoder of
               (Inl e, decoder) \<Rightarrow> Some (Some StrictClose, decoder)
             | (Inr token, decoder) \<Rightarrow> Some (None, decoder))
      | WElements \<Rightarrow>
          if Decoder_More decoder then
            Option.bind (validateValue WValue (depth + 1) decoder)
              (\<lambda>(err, decoder).
                case err of Some e \<Rightarrow> Some (Some e, decoder)
                | None \<Rightarrow> validateValue WElements depth decoder)
          else
            (case Decoder_Token decoder of
               (Inl e, decoder) \<Rightarrow> Some (Some StrictClose, decoder)
             | (Inr token, decoder) \<Rightarrow> Some (None, decoder)))"

definition requireEnd :: "token_decoder \<Rightarrow> strict_error option" where
  "requireEnd decoder =
     (case fst (Decoder_Token decoder) of
        Inl IoEOF \<Rightarrow> None
      | Inr _ \<Rightarrow> Some StrictTrailing
      | Inl SyntaxError \<Rightarrow> Some StrictFinish)"

section \<open>Decoding\<close>

lemma skip_space_length: "length (skip_space s) \<le> length s"
  by (simp add: skip_space_def length_dropWhile_le)

lemma token_shorter:
  assumes "skip_space s = c # rest" and "lex_token (c # rest) = Some (t, r)"
  shows "length r < length s"
  using assms lex_token_shorter [of "c # rest" t r] skip_space_length [of s] by simp

text \<open>
  \<open>Decoder.Decode\<close> at the top level reads the tokens of one value; what follows it stays unread.
\<close>

function read_value :: "nat \<Rightarrow> json_state \<Rightarrow> string \<Rightarrow> (json \<times> string) option" where
  "read_value limit st s =
     (case skip_space s of
        [] \<Rightarrow> None
      | c # rest \<Rightarrow>
          (case lex_token (c # rest) of
             None \<Rightarrow> None
           | Some (t, rest) \<Rightarrow>
               (case json_step limit st t of
                  None \<Rightarrow> None
                | Some (PDone v) \<Rightarrow> Some (v, rest)
                | Some st \<Rightarrow> read_value limit st rest)))"
  by pat_completeness auto

termination
  by (relation "measure (\<lambda>(limit, st, s). length s)") (auto intro: token_shorter)

declare read_value.simps [simp del]

definition decode_value :: "'a decoder \<Rightarrow> token_decoder \<Rightarrow> 'a \<Rightarrow> 'a option \<times> token_decoder" where
  "decode_value target d old =
     (case read_value maxNesting (PValue []) (td_rest d) of
        None \<Rightarrow> (None, d)
      | Some (v, rest) \<Rightarrow> (target v old, d\<lparr>td_rest := rest\<rparr>))"

text \<open>
  \<open>strictjson.Decode\<close>: the outer \<open>None\<close> would be a run that does not return. \<open>target\<close> decodes the
  value into the caller's type, with \<open>DisallowUnknownFields\<close> in force; its partial writes on an error
  are not modelled.
\<close>

definition strictDecode ::
  "string \<Rightarrow> int \<Rightarrow> 'a decoder \<Rightarrow> 'a \<Rightarrow> (strict_error + 'a) option" where
  "strictDecode data maxBytes target old =
     (if length data = 0 then Some (Inl StrictSize)
      else if int (length data) > maxBytes then Some (Inl StrictSize)
      else Option.bind (validateValue WValue 1 (NewDecoder data)) (\<lambda>(err, validator).
        case err of
          Some e \<Rightarrow> Some (Inl e)
        | None \<Rightarrow>
            (case requireEnd validator of
               Some e \<Rightarrow> Some (Inl e)
             | None \<Rightarrow>
                 (case decode_value target (NewDecoder data) old of
                    (None, decoder) \<Rightarrow> Some (Inl StrictDecode)
                  | (Some result, decoder) \<Rightarrow>
                      (case requireEnd decoder of
                         Some e \<Rightarrow> Some (Inl e)
                       | None \<Rightarrow> Some (Inr result))))))"

end
