(* ===== verification/StrictCorrect.thy ===== *)
theory StrictCorrect
  imports StrictJson GoJsonTree
begin

text \<open>
  Correctness of the strict validation: it returns on every text, it never reaches its unguarded type
  assertion, and it accepts exactly the documents that are one JSON value without a repeated member
  name, at most 64 values deep.
\<close>

section \<open>Tokens\<close>

text \<open>The next token of a text: \<open>None\<close> at the end, \<open>Some None\<close> where the lexer fails.\<close>

definition next_token :: "string \<Rightarrow> (token \<times> string) option option" where
  "next_token s = (case skip_space s of [] \<Rightarrow> None | c # rest \<Rightarrow> Some (lex_token (c # rest)))"

lemma skip_space_head: "skip_space s = c # rest \<Longrightarrow> \<not> is_space c"
  unfolding skip_space_def by (metis hd_dropWhile list.distinct(1) list.sel(1))

lemma lex_skip: "lex s = lex (skip_space s)"
  by (induction s) (simp_all add: skip_space_def lex.simps(2))

lemma lex_next:
  "lex s = (case next_token s of
      None \<Rightarrow> Some [] | Some None \<Rightarrow> None | Some (Some (t, r)) \<Rightarrow> map_option ((#) t) (lex r))"
proof (cases "skip_space s")
  case Nil
  then show ?thesis by (subst lex_skip) (simp add: next_token_def)
next
  case (Cons c rest)
  then show ?thesis
    using skip_space_head [OF Cons]
    by (subst lex_skip) (simp add: next_token_def lex.simps(2) split: option.split)
qed

lemma next_token_shorter: "next_token s = Some (Some (t, r)) \<Longrightarrow> length r < length s"
  using lex_token_shorter skip_space_length [of s]
  by (fastforce simp: next_token_def split: list.splits)

text \<open>\<open>reads s ts r\<close>: the tokens \<open>ts\<close> stand at the front of \<open>s\<close>, and \<open>r\<close> is the text after them.\<close>

inductive reads :: "string \<Rightarrow> token list \<Rightarrow> string \<Rightarrow> bool" where
  reads_Nil: "reads s [] s"
| reads_Cons: "next_token s = Some (Some (t, r)) \<Longrightarrow> reads r ts r' \<Longrightarrow> reads s (t # ts) r'"

inductive_simps reads_Nil_iff: "reads s [] r"
inductive_simps reads_Cons_iff: "reads s (t # ts) r"

lemma reads_append: "reads s ts r \<Longrightarrow> reads r us r' \<Longrightarrow> reads s (ts @ us) r'"
  by (induction rule: reads.induct) (auto intro: reads_Cons)

lemma reads_lex: "reads s ts r \<Longrightarrow> lex s = map_option ((@) ts) (lex r)"
proof (induction rule: reads.induct)
  case (reads_Nil s)
  then show ?case by (cases "lex s") auto
next
  case (reads_Cons s t r ts r')
  then show ?case by (subst lex_next) (cases "lex r'"; simp)
qed

lemma lex_Cons: "lex s = Some (t # ts) \<longleftrightarrow> (\<exists>r. next_token s = Some (Some (t, r)) \<and> lex r = Some ts)"
  by (subst lex_next) (auto split: option.splits)

lemma lex_Nil: "lex s = Some [] \<longleftrightarrow> next_token s = None"
  by (subst lex_next) (auto split: option.splits)

section \<open>The token decoder, token by token\<close>

definition token_step ::
  "token \<Rightarrow> string \<Rightarrow> token_decoder \<Rightarrow> (token_error + go_token) \<times> token_decoder" where
  "token_step t rest d =
     (case t of
        TArrOpen \<Rightarrow> open_composite (CHR ''['') ArrayStart rest d
      | TArrClose \<Rightarrow> close_composite (CHR '']'') {ArrayStart, ArrayComma} rest d
      | TObjOpen \<Rightarrow> open_composite (CHR ''{'') ObjectStart rest d
      | TObjClose \<Rightarrow> close_composite (CHR ''}'') {ObjectStart, ObjectComma} rest d
      | TColon \<Rightarrow>
          if td_state d \<noteq> ObjectColon then (Inl SyntaxError, d)
          else Decoder_Token (d\<lparr>td_rest := rest, td_state := ObjectValue\<rparr>)
      | TComma \<Rightarrow>
          if td_state d = ArrayComma
          then Decoder_Token (d\<lparr>td_rest := rest, td_state := ArrayValue\<rparr>)
          else if td_state d = ObjectComma
          then Decoder_Token (d\<lparr>td_rest := rest, td_state := ObjectKey\<rparr>)
          else (Inl SyntaxError, d)
      | TScalar x \<Rightarrow>
          if td_state d = ObjectStart \<or> td_state d = ObjectKey then
            (case x of
               SStr name \<Rightarrow> (Inr (GoScalar x), d\<lparr>td_rest := rest, td_state := ObjectColon\<rparr>)
             | _ \<Rightarrow> (Inl SyntaxError, d))
          else if value_allowed (td_state d)
          then (Inr (GoScalar x), d\<lparr>td_rest := rest, td_state := value_end (td_state d)\<rparr>)
          else (Inl SyntaxError, d))"

lemma lex_literal_kind: "lex_literal s = Some (x, r) \<Longrightarrow> x = SNull \<or> (\<exists>b. x = SBool b)"
  by (auto simp: lex_literal_def split: if_splits)

lemma Decoder_Token_next:
  "Decoder_Token d =
     (case next_token (td_rest d) of
        None \<Rightarrow> (Inl IoEOF, d)
      | Some None \<Rightarrow> (Inl SyntaxError, d)
      | Some (Some (t, rest)) \<Rightarrow> token_step t rest d)"
proof (cases "skip_space (td_rest d)")
  case Nil
  then show ?thesis by (subst Decoder_Token.simps) (simp add: next_token_def)
next
  case (Cons c rest)
  show ?thesis
  proof (cases "lex_delim c")
    case (Some t)
    then have "lex_token (c # rest) = Some (t, rest)" by (simp add: lex_token_def)
    then have t: "next_token (td_rest d) = Some (Some (t, rest))" by (simp add: next_token_def Cons)
    from Some consider "c = CHR ''{''" "t = TObjOpen" | "c = CHR ''}''" "t = TObjClose"
      | "c = CHR ''[''" "t = TArrOpen" | "c = CHR '']''" "t = TArrClose"
      | "c = CHR '':''" "t = TColon" | "c = CHR '',''" "t = TComma"
      by (simp add: lex_delim_def split: if_splits)
    then show ?thesis
      by cases (subst Decoder_Token.simps, simp add: Cons t token_step_def)+
  next
    case None
    then have c: "c \<noteq> CHR ''[''" "c \<noteq> CHR '']''" "c \<noteq> CHR ''{''" "c \<noteq> CHR ''}''" "c \<noteq> CHR '':''"
      "c \<noteq> CHR '',''"
      by (auto simp: lex_delim_def split: if_splits)
    show ?thesis
    proof (cases "c = CHR 0x22")
      case True
      have "lex_token (CHR 0x22 # rest) =
          map_option (\<lambda>(x, r). (TScalar (SStr x), r)) (lex_string rest)"
        by (simp add: lex_token_def lex_delim_def)
      with True show ?thesis
        by (subst Decoder_Token.simps)
          (auto simp: Cons next_token_def token_step_def value_allowed_def split: option.split)
    next
      case False
      then show ?thesis
        using lex_literal_kind [of "c # rest"]
        by (subst Decoder_Token.simps)
          (auto simp: Cons next_token_def lex_token_def token_step_def None c value_allowed_def
            split: option.split scalar.splits)
    qed
  qed
qed

lemma Decoder_More_next:
  assumes "next_token (td_rest d) = Some (Some (t, r))"
  shows "Decoder_More d \<longleftrightarrow> t \<noteq> TArrClose \<and> t \<noteq> TObjClose"
  using assms
  by (auto simp: next_token_def Decoder_More_def lex_token_def lex_delim_def
      split: list.splits if_splits option.splits)

lemma Decoder_More_end: "next_token (td_rest d) = None \<Longrightarrow> \<not> Decoder_More d"
  by (auto simp: next_token_def Decoder_More_def split: list.splits)

lemmas token_simps = Decoder_Token_next token_step_def open_composite_def close_composite_def

lemma Decoder_Token_shorter:
  "fst (Decoder_Token d) = Inr t \<Longrightarrow> length (td_rest (snd (Decoder_Token d))) < length (td_rest d)"
proof (induction "length (td_rest d)" arbitrary: d rule: less_induct)
  case less
  then obtain u r where u: "next_token (td_rest d) = Some (Some (u, r))"
    by (auto simp: Decoder_Token_next split: option.splits)
  then have short: "length r < length (td_rest d)" by (rule next_token_shorter)
  have again: "length (td_rest (snd (Decoder_Token (d\<lparr>td_rest := r, td_state := st\<rparr>)))) <
      length (td_rest d)" if "fst (Decoder_Token (d\<lparr>td_rest := r, td_state := st\<rparr>)) = Inr t" for st
    using less.hyps [OF _ that] short by simp
  have run: "Decoder_Token d = token_step u r d" by (simp add: Decoder_Token_next u)
  have "fst (token_step u r d) = Inr t" using less.prems run by simp
  then show ?case
    unfolding run using short again
    by (cases u) (auto simp: token_step_def open_composite_def close_composite_def
        split: if_splits list.splits scalar.splits)
qed

section \<open>Positions\<close>

text \<open>Where a value may be read, the separator that is skipped before it, and the state after it.\<close>

definition value_position :: "token_state \<Rightarrow> bool" where
  "value_position st \<longleftrightarrow> st \<in> {TopValue, ArrayStart, ArrayComma, ObjectColon}"

definition separator :: "token_state \<Rightarrow> token list" where
  "separator st = (if st = ArrayComma \<or> st = ObjectComma then [TComma]
     else if st = ObjectColon then [TColon] else [])"

definition inner :: "token_state \<Rightarrow> token_state" where
  "inner st = (if st = ArrayComma then ArrayValue else if st = ObjectColon then ObjectValue else st)"

definition moved :: "token_decoder \<Rightarrow> string \<Rightarrow> token_state \<Rightarrow> token_state list \<Rightarrow> token_decoder" where
  "moved d rest st stack = d\<lparr>td_rest := rest, td_state := st, td_stack := stack\<rparr>"

lemma moved_simps [simp]:
  "td_rest (moved d rest st stack) = rest" "td_state (moved d rest st stack) = st"
  "td_stack (moved d rest st stack) = stack"
  "moved (moved d r s k) rest st stack = moved d rest st stack"
  by (simp_all add: moved_def)

lemma moved_full: "moved d rest st stack = \<lparr>td_rest = rest, td_state = st, td_stack = stack\<rparr>"
  by (cases d) (simp add: moved_def)

text \<open>What \<open>Decoder_Token\<close> does on a token that opens or is a value, in a value position.\<close>

definition opened :: "token \<Rightarrow> token_decoder \<Rightarrow> string \<Rightarrow> go_token \<times> token_decoder" where
  "opened t d r =
     (let st = inner (td_state d) in
      case t of
        TArrOpen \<Rightarrow> (GoDelim (CHR ''[''), moved d r ArrayStart (st # td_stack d))
      | TObjOpen \<Rightarrow> (GoDelim (CHR ''{''), moved d r ObjectStart (st # td_stack d))
      | TScalar x \<Rightarrow> (GoScalar x, moved d r (value_end st) (td_stack d))
      | _ \<Rightarrow> undefined)"

definition starting :: "token \<Rightarrow> bool" where
  "starting t \<longleftrightarrow> t = TArrOpen \<or> t = TObjOpen \<or> (\<exists>x. t = TScalar x)"

lemma token_allowed:
  assumes "value_allowed (td_state d)" and "next_token (td_rest d) = Some (Some (t, r))"
  shows "starting t \<Longrightarrow> Decoder_Token d =
      (Inr (fst (opened t d r)), snd (opened t d r))"
    and "\<not> starting t \<Longrightarrow> t \<noteq> TArrClose \<or> td_state d \<noteq> ArrayStart \<Longrightarrow> fst (Decoder_Token d) = Inl SyntaxError"
  using assms
  by (auto simp: token_simps starting_def opened_def value_allowed_def inner_def moved_def Let_def
      split: token.splits)

lemma value_position_allowed:
  "value_position st \<Longrightarrow> value_allowed (inner st)" "inner (inner st) = inner st"
  "value_position st \<Longrightarrow> inner st = st \<Longrightarrow> separator st = []"
  by (auto simp: value_position_def value_allowed_def inner_def separator_def)

text \<open>Completeness and soundness of one token in a value position.\<close>

lemma value_token_complete:
  assumes "value_position (td_state d)" and "starting t"
    and "lex (td_rest d) = Some (separator (td_state d) @ t # ts)"
  shows "\<exists>r. Decoder_Token d = (Inr (fst (opened t d r)), snd (opened t d r)) \<and> lex r = Some ts"
proof (cases "inner (td_state d) = td_state d")
  case True
  with assms obtain r where "next_token (td_rest d) = Some (Some (t, r))" "lex r = Some ts"
    by (auto simp: value_position_allowed lex_Cons)
  with True assms show ?thesis
    using token_allowed(1) value_position_allowed(1) by metis
next
  case False
  then consider "td_state d = ArrayComma" | "td_state d = ObjectColon"
    by (auto simp: inner_def split: if_splits)
  then show ?thesis
  proof cases
    case 1
    then obtain r' r where r: "next_token (td_rest d) = Some (Some (TComma, r'))"
      "next_token r' = Some (Some (t, r))" "lex r = Some ts"
      using assms(3) by (auto simp: separator_def lex_Cons)
    let ?d = "d\<lparr>td_rest := r', td_state := ArrayValue\<rparr>"
    have "Decoder_Token d = Decoder_Token ?d"
      by (simp add: Decoder_Token_next [of d] token_step_def r 1)
    moreover have "opened t ?d r = opened t d r"
      using assms(2) by (auto simp: opened_def inner_def 1 moved_def starting_def)
    ultimately show ?thesis
      using token_allowed(1) [of ?d t r] r assms(2) by (auto simp: value_allowed_def)
  next
    case 2
    then obtain r' r where r: "next_token (td_rest d) = Some (Some (TColon, r'))"
      "next_token r' = Some (Some (t, r))" "lex r = Some ts"
      using assms(3) by (auto simp: separator_def lex_Cons)
    let ?d = "d\<lparr>td_rest := r', td_state := ObjectValue\<rparr>"
    have "Decoder_Token d = Decoder_Token ?d"
      by (simp add: Decoder_Token_next [of d] token_step_def r 2)
    moreover have "opened t ?d r = opened t d r"
      using assms(2) by (auto simp: opened_def inner_def 2 moved_def starting_def)
    ultimately show ?thesis
      using token_allowed(1) [of ?d t r] r assms(2) by (auto simp: value_allowed_def)
  qed
qed

lemma value_token_sound:
  assumes "value_position (td_state d)"
    and "Decoder_More d \<or> td_state d \<notin> {ArrayStart, ArrayComma}"
    and "Decoder_Token d = (Inr tok, d')"
  shows "\<exists>t r. starting t \<and> reads (td_rest d) (separator (td_state d) @ [t]) r \<and>
    (tok, d') = opened t d r"
proof -
  obtain u r' where u: "next_token (td_rest d) = Some (Some (u, r'))"
    using assms(3) by (auto simp: Decoder_Token_next split: option.splits)
  have close: "td_state d \<in> {ArrayStart, ArrayComma} \<Longrightarrow> u \<noteq> TArrClose"
    using assms(2) Decoder_More_next [OF u] by auto
  have step: "\<exists>t r. starting t \<and> reads (td_rest e) [t] r \<and> (tok, d') = opened t e r"
    if allowed: "value_allowed (td_state e)" and run: "Decoder_Token e = (Inr tok, d')"
      and open': "td_state e = ArrayStart \<Longrightarrow> e = d" for e
  proof -
    obtain t r where t: "next_token (td_rest e) = Some (Some (t, r))"
      using run by (auto simp: Decoder_Token_next split: option.splits)
    have "starting t"
    proof (rule ccontr)
      assume no: "\<not> starting t"
      have "t \<noteq> TArrClose \<or> td_state e \<noteq> ArrayStart"
        using close u t open' by auto
      with token_allowed(2) [OF allowed t no] run show False by simp
    qed
    moreover from token_allowed(1) [OF allowed t this] run have "(tok, d') = opened t e r" by auto
    moreover have "reads (td_rest e) [t] r" using t by (simp add: reads_Cons_iff reads_Nil_iff)
    ultimately show ?thesis by blast
  qed
  show ?thesis
  proof (cases "inner (td_state d) = td_state d")
    case True
    then show ?thesis
      using step [OF _ assms(3)] assms(1) value_position_allowed by fastforce
  next
    case False
    then consider "td_state d = ArrayComma" | "td_state d = ObjectColon"
      by (auto simp: inner_def split: if_splits)
    then show ?thesis
    proof cases
      case 1
      let ?d = "d\<lparr>td_rest := r', td_state := ArrayValue\<rparr>"
      have comma: "u = TComma" "Decoder_Token ?d = (Inr tok, d')"
        using assms(3) close 1
        by (auto simp: Decoder_Token_next [of d] u token_step_def open_composite_def
            close_composite_def value_allowed_def split: token.splits)
      from step [OF _ comma(2)] obtain t r where t: "starting t" "reads r' [t] r"
        "(tok, d') = opened t ?d r" by (auto simp: value_allowed_def)
      moreover have "opened t ?d r = opened t d r"
        using t(1) by (auto simp: opened_def inner_def 1 moved_def starting_def)
      moreover have "reads (td_rest d) (separator (td_state d) @ [t]) r"
        using u comma t(2) by (simp add: separator_def 1 reads_Cons)
      ultimately show ?thesis by auto
    next
      case 2
      let ?d = "d\<lparr>td_rest := r', td_state := ObjectValue\<rparr>"
      have colon: "u = TColon" "Decoder_Token ?d = (Inr tok, d')"
        using assms(3) 2
        by (auto simp: Decoder_Token_next [of d] u token_step_def open_composite_def
            close_composite_def value_allowed_def split: token.splits)
      from step [OF _ colon(2)] obtain t r where t: "starting t" "reads r' [t] r"
        "(tok, d') = opened t ?d r" by (auto simp: value_allowed_def)
      moreover have "opened t ?d r = opened t d r"
        using t(1) by (auto simp: opened_def inner_def 2 moved_def starting_def)
      moreover have "reads (td_rest d) (separator (td_state d) @ [t]) r"
        using u colon t(2) by (simp add: separator_def 2 reads_Cons)
      ultimately show ?thesis by auto
    qed
  qed
qed

text \<open>Names and closing delimiters.\<close>

definition named :: "string \<Rightarrow> token_decoder \<Rightarrow> string \<Rightarrow> token_decoder" where
  "named name d r = moved d r ObjectColon (td_stack d)"

lemma name_token_sound:
  assumes "td_state d = ObjectStart \<or> td_state d = ObjectComma" and "Decoder_More d"
    and "Decoder_Token d = (Inr tok, d')"
  shows "\<exists>name r. tok = GoScalar (SStr name) \<and> d' = named name d r \<and>
    reads (td_rest d) (separator (td_state d) @ [TScalar (SStr name)]) r"
proof -
  have key: "\<exists>name r. tok = GoScalar (SStr name) \<and> d' = named name e r \<and>
      reads (td_rest e) [TScalar (SStr name)] r"
    if st: "td_state e = ObjectStart \<and> Decoder_More e \<or> td_state e = ObjectKey"
      and run: "Decoder_Token e = (Inr tok, d')" for e
  proof -
    obtain t r where t: "next_token (td_rest e) = Some (Some (t, r))"
      using run by (auto simp: Decoder_Token_next split: option.splits)
    with run have "token_step t r e = (Inr tok, d')" by (simp add: Decoder_Token_next)
    then show ?thesis
      using st Decoder_More_next [OF t] t
      by (cases t) (auto simp: token_step_def open_composite_def close_composite_def
          value_allowed_def named_def moved_def reads_Cons_iff reads_Nil_iff split: scalar.splits)
  qed
  show ?thesis
  proof (cases "td_state d = ObjectStart")
    case True
    with key [of d] assms(2,3) show ?thesis by (simp add: separator_def)
  next
    case False
    with assms(1) have st: "td_state d = ObjectComma" by blast
    obtain u r' where u: "next_token (td_rest d) = Some (Some (u, r'))"
      using assms(3) by (auto simp: Decoder_Token_next split: option.splits)
    let ?d = "d\<lparr>td_rest := r', td_state := ObjectKey\<rparr>"
    have "token_step u r' d = (Inr tok, d')" using assms(3) u by (simp add: Decoder_Token_next)
    then have "u = TComma \<and> Decoder_Token ?d = (Inr tok, d')"
      using Decoder_More_next [OF u] assms(2)
      by (cases u) (simp_all add: token_step_def open_composite_def close_composite_def st
          value_allowed_def)
    with key [of ?d] u st show ?thesis
      by (auto simp: separator_def named_def moved_def intro: reads_Cons)
  qed
qed

lemma name_token_complete:
  assumes "td_state d = ObjectStart \<or> td_state d = ObjectComma"
    and "lex (td_rest d) = Some (separator (td_state d) @ TScalar (SStr name) # ts)"
  shows "\<exists>r. Decoder_Token d = (Inr (GoScalar (SStr name)), named name d r) \<and> lex r = Some ts \<and>
    Decoder_More d"
  using assms(1)
proof
  assume st: "td_state d = ObjectStart"
  with assms(2) obtain r where "next_token (td_rest d) = Some (Some (TScalar (SStr name), r))"
    "lex r = Some ts" by (auto simp: separator_def lex_Cons)
  with st show ?thesis
    by (auto simp: Decoder_Token_next token_step_def named_def moved_def Decoder_More_next)
next
  assume st: "td_state d = ObjectComma"
  with assms(2) obtain r' r where "next_token (td_rest d) = Some (Some (TComma, r'))"
    "next_token r' = Some (Some (TScalar (SStr name), r))" "lex r = Some ts"
    by (auto simp: separator_def lex_Cons)
  with st show ?thesis
    by (auto simp: Decoder_Token_next [of d] token_step_def Decoder_More_next)
      (auto simp: Decoder_Token_next token_step_def named_def moved_def)
qed

definition close_token :: "token_state \<Rightarrow> token" where
  "close_token st = (if st = ArrayStart \<or> st = ArrayComma then TArrClose else TObjClose)"

lemma close_sound:
  assumes "td_state d \<in> {ArrayStart, ArrayComma, ObjectStart, ObjectComma}"
    and "td_stack d = st # stack" and "\<not> Decoder_More d" and "Decoder_Token d = (Inr tok, d')"
  shows "\<exists>r. reads (td_rest d) [close_token (td_state d)] r \<and> d' = moved d r (value_end st) stack"
proof -
  obtain u r where u: "next_token (td_rest d) = Some (Some (u, r))"
    using assms(4) by (auto simp: Decoder_Token_next split: option.splits)
  with assms(4) have "token_step u r d = (Inr tok, d')" by (simp add: Decoder_Token_next)
  moreover have "u = TArrClose \<or> u = TObjClose" using Decoder_More_next [OF u] assms(3) by blast
  ultimately show ?thesis
    using assms(1,2) u
    by (auto simp: token_step_def close_composite_def close_token_def moved_full reads_Cons_iff
        reads_Nil_iff split: if_splits)
qed

lemma close_complete:
  assumes "td_state d \<in> {ArrayStart, ArrayComma, ObjectStart, ObjectComma}"
    and "td_stack d = st # stack" and "lex (td_rest d) = Some (close_token (td_state d) # ts)"
  shows "\<exists>tok r. Decoder_Token d = (Inr tok, moved d r (value_end st) stack) \<and> lex r = Some ts \<and>
    \<not> Decoder_More d"
proof -
  obtain r where r: "next_token (td_rest d) = Some (Some (close_token (td_state d), r))"
    "lex r = Some ts" using assms(3) by (auto simp: lex_Cons)
  then show ?thesis
    using assms(1,2) Decoder_More_next [OF r(1)]
    by (auto simp: Decoder_Token_next token_step_def close_composite_def close_token_def moved_full)
qed

section \<open>Termination\<close>

definition returns :: "walk \<Rightarrow> nat \<Rightarrow> token_decoder \<Rightarrow> bool" where
  "returns walk depth d \<longleftrightarrow> (\<exists>err d'. validateValue walk depth d = Some (err, d') \<and>
     (err = None \<longrightarrow> length (td_rest d') < length (td_rest d)))"

lemma Token_shorter: "Decoder_Token d = (Inr t, d') \<Longrightarrow> length (td_rest d') < length (td_rest d)"
  using Decoder_Token_shorter [of d t] by simp

lemma value_returns:
  assumes "\<And>walk depth d'. length (td_rest d') < length (td_rest d) \<Longrightarrow> returns walk depth d'"
  shows "returns WValue depth d"
proof (cases "Decoder_Token d")
  case (Pair res d')
  show ?thesis
  proof (cases res)
    case (Inl e)
    then show ?thesis by (simp add: returns_def validateValue.simps Pair)
  next
    case (Inr tok)
    with Pair have short: "length (td_rest d') < length (td_rest d)" by (simp add: Token_shorter)
    define walk where "walk = (if tok = GoDelim (CHR ''{'') then WMembers {} else WElements)"
    have walk: "validateValue WValue depth d = validateValue walk depth d'"
      if "tok = GoDelim c" "\<not> depth > maxDepth" for c
      using that by (subst validateValue.simps) (auto simp: Pair Inr walk_def)
    show ?thesis
    proof (cases tok)
      case (GoDelim c)
      from assms [OF short, of walk depth] show ?thesis
        using walk [OF GoDelim] short
        by (cases "depth > maxDepth")
          (auto simp: returns_def validateValue.simps [of WValue] intro: less_trans)
    next
      case (GoScalar x)
      then show ?thesis using short by (simp add: returns_def validateValue.simps Pair Inr)
    qed
  qed
qed

lemma validateValue_returns: "returns walk depth d"
proof (induction "length (td_rest d)" arbitrary: walk depth d rule: less_induct)
  case less
  then have IH: "\<And>walk depth d'. length (td_rest d') < length (td_rest d) \<Longrightarrow> returns walk depth d'"
    by blast
  have close: "\<exists>err d'. (case Decoder_Token d of
        (Inl e, decoder) \<Rightarrow> Some (Some StrictClose, decoder)
      | (Inr token, decoder) \<Rightarrow> Some (None, decoder)) = Some (err, d') \<and>
      (err = None \<longrightarrow> length (td_rest d') < length (td_rest d))"
    by (auto split: prod.splits sum.splits dest: Token_shorter)
  show ?case
  proof (cases walk)
    case WValue
    with value_returns [OF IH] show ?thesis by simp
  next
    case WElements
    show ?thesis
    proof (cases "Decoder_More d")
      case True
      obtain err d' where first: "validateValue WValue (depth + 1) d = Some (err, d')"
        "err = None \<Longrightarrow> length (td_rest d') < length (td_rest d)"
        using value_returns [OF IH, where depth = "depth + 1"] unfolding returns_def by blast
      show ?thesis
      proof (cases err)
        case None
        with first obtain err'' d'' where "validateValue WElements depth d' = Some (err'', d'')"
          "err'' = None \<Longrightarrow> length (td_rest d'') < length (td_rest d')"
          using IH unfolding returns_def by blast
        with None first show ?thesis
          unfolding WElements returns_def
          by (subst validateValue.simps) (auto simp: True intro: less_trans)
      next
        case (Some e)
        with first show ?thesis
          unfolding WElements returns_def by (subst validateValue.simps) (simp add: True)
      qed
    next
      case False
      with close show ?thesis
        unfolding WElements returns_def by (subst validateValue.simps) simp
    qed
  next
    case (WMembers seen)
    show ?thesis
    proof (cases "Decoder_More d")
      case True
      show ?thesis
      proof (cases "\<exists>name d'. Decoder_Token d = (Inr (GoScalar (SStr name)), d') \<and> name \<notin> seen")
        case False
        then have "\<exists>e d'. validateValue walk depth d = Some (Some e, d')"
          unfolding WMembers
          by (subst validateValue.simps)
            (auto simp: True split: prod.splits sum.splits go_token.splits scalar.splits)
        then show ?thesis by (auto simp: returns_def)
      next
        case named: True
        then obtain name d1 where d1: "Decoder_Token d = (Inr (GoScalar (SStr name)), d1)"
          "name \<notin> seen" "length (td_rest d1) < length (td_rest d)"
          using Token_shorter by blast
        obtain err d' where first: "validateValue WValue (depth + 1) d1 = Some (err, d')"
          "err = None \<Longrightarrow> length (td_rest d') < length (td_rest d1)"
          using IH [OF d1(3)] unfolding returns_def by blast
        show ?thesis
        proof (cases err)
          case None
          with first d1(3) have shorter: "length (td_rest d') < length (td_rest d)" by simp
          obtain err'' d'' where
            "validateValue (WMembers (insert name seen)) depth d' = Some (err'', d'')"
            "err'' = None \<Longrightarrow> length (td_rest d'') < length (td_rest d')"
            using IH [OF shorter] unfolding returns_def by blast
          with None first d1 shorter show ?thesis
            unfolding WMembers returns_def
            by (subst validateValue.simps) (auto simp: True intro: less_trans)
        next
          case (Some e)
          with first d1 show ?thesis
            unfolding WMembers returns_def by (subst validateValue.simps) (simp add: True)
        qed
      qed
    next
      case False
      with close show ?thesis
        unfolding WMembers returns_def by (subst validateValue.simps) simp
    qed
  qed
qed

section \<open>Soundness\<close>

text \<open>The documents that the validation is meant to accept.\<close>

fun unique_names :: "json \<Rightarrow> bool" where
  "unique_names (JScalar s) \<longleftrightarrow> True"
| "unique_names (JArr vs) \<longleftrightarrow> (\<forall>v \<in> set vs. unique_names v)"
| "unique_names (JObj ms) \<longleftrightarrow> distinct (map fst ms) \<and> (\<forall>(k, v) \<in> set ms. unique_names v)"

text \<open>The depth of a document, a scalar counting one.\<close>

fun json_depth :: "json \<Rightarrow> nat" where
  "json_depth (JScalar s) = 1"
| "json_depth (JArr vs) = Suc (fold max (map json_depth vs) 0)"
| "json_depth (JObj ms) = Suc (fold max (map (\<lambda>(k, v). json_depth v) ms) 0)"

definition fits :: "nat \<Rightarrow> json \<Rightarrow> bool" where
  "fits depth v \<longleftrightarrow> unique_names v \<and> json_depth v + depth \<le> Suc maxDepth"

lemma fits_simps [simp]:
  "fits depth (JScalar x) \<longleftrightarrow> depth \<le> maxDepth"
  "fits depth (JArr vs) \<longleftrightarrow> depth \<le> maxDepth \<and> (\<forall>v \<in> set vs. fits (Suc depth) v)"
  "fits depth (JObj ms) \<longleftrightarrow>
     depth \<le> maxDepth \<and> distinct (map fst ms) \<and> (\<forall>m \<in> set ms. fits (Suc depth) (snd m))"
proof -
  have bound: "Suc (fold max (map f xs) 0) + depth \<le> Suc maxDepth \<longleftrightarrow>
      depth \<le> maxDepth \<and> (\<forall>x \<in> set xs. f x + Suc depth \<le> Suc maxDepth)"
    for f :: "'x \<Rightarrow> nat" and xs
  proof -
    have "Suc (fold max (map f xs) 0) + depth \<le> Suc maxDepth \<longleftrightarrow>
        fold max (map f xs) 0 \<le> maxDepth - depth \<and> depth \<le> maxDepth" by auto
    also have "\<dots> \<longleftrightarrow> depth \<le> maxDepth \<and> (\<forall>x \<in> set xs. f x \<le> maxDepth - depth)"
      by (auto simp: fold_max)
    finally show ?thesis by (auto simp: le_diff_conv2)
  qed
  show "fits depth (JScalar x) \<longleftrightarrow> depth \<le> maxDepth" by (auto simp: fits_def)
  show "fits depth (JArr vs) \<longleftrightarrow> depth \<le> maxDepth \<and> (\<forall>v \<in> set vs. fits (Suc depth) v)"
    unfolding fits_def json_depth.simps bound by auto
  show "fits depth (JObj ms) \<longleftrightarrow>
      depth \<le> maxDepth \<and> distinct (map fst ms) \<and> (\<forall>m \<in> set ms. fits (Suc depth) (snd m))"
    unfolding fits_def json_depth.simps bound by (auto simp: case_prod_beta)
qed

text \<open>The tokens of the rest of an array or an object, from its first or a later element.\<close>

definition elements_tokens :: "token_state \<Rightarrow> json list \<Rightarrow> token list" where
  "elements_tokens st vs =
     (if st = ArrayStart then join_with [TComma] (map tokens_of vs)
      else concat (map (\<lambda>v. TComma # tokens_of v) vs))"

definition members_tokens :: "token_state \<Rightarrow> (string \<times> json) list \<Rightarrow> token list" where
  "members_tokens st ms =
     (if st = ObjectStart then object_tokens ms
      else concat (map (\<lambda>m. TComma # member_tokens m) ms))"

lemma join_Cons: "join_with [sep] (f x # map f xs) = f x @ concat (map (\<lambda>y. sep # f y) xs)"
  by (induction xs arbitrary: x) auto

lemma elements_tokens_simps [simp]:
  "elements_tokens st [] = []"
  "st = ArrayStart \<or> st = ArrayComma \<Longrightarrow> elements_tokens st (v # vs) =
     separator st @ tokens_of v @ elements_tokens ArrayComma vs"
  by (auto simp: elements_tokens_def separator_def join_Cons)

lemma members_tokens_simps [simp]:
  "members_tokens st [] = []"
  "st = ObjectStart \<or> st = ObjectComma \<Longrightarrow> members_tokens st (m # ms) =
     separator st @ TScalar (SStr (fst m)) # TColon # tokens_of (snd m) @
     members_tokens ObjectComma ms"
  using join_Cons [of TComma member_tokens m ms]
  by (auto simp: members_tokens_def separator_def member_tokens_def)

text \<open>What a walk may start from, and what it has read when it ends without an error.\<close>

definition ready :: "walk \<Rightarrow> token_decoder \<Rightarrow> bool" where
  "ready walk d \<longleftrightarrow>
     (case walk of
        WValue \<Rightarrow> value_position (td_state d) \<and>
          (Decoder_More d \<or> td_state d \<notin> {ArrayStart, ArrayComma})
      | WElements \<Rightarrow> td_state d \<in> {ArrayStart, ArrayComma} \<and> td_stack d \<noteq> []
      | WMembers seen \<Rightarrow> td_state d \<in> {ObjectStart, ObjectComma} \<and> td_stack d \<noteq> [])"

definition walked :: "walk \<Rightarrow> nat \<Rightarrow> token_decoder \<Rightarrow> token_decoder \<Rightarrow> bool" where
  "walked walk depth d d' \<longleftrightarrow>
     (case walk of
        WValue \<Rightarrow> \<exists>v r. fits depth v \<and>
          reads (td_rest d) (separator (td_state d) @ tokens_of v) r \<and>
          d' = moved d r (value_end (inner (td_state d))) (td_stack d)
      | WElements \<Rightarrow> \<exists>vs r. (\<forall>v \<in> set vs. fits (Suc depth) v) \<and>
          reads (td_rest d) (elements_tokens (td_state d) vs @ [TArrClose]) r \<and>
          d' = moved d r (value_end (hd (td_stack d))) (tl (td_stack d))
      | WMembers seen \<Rightarrow> \<exists>ms r. (\<forall>m \<in> set ms. fits (Suc depth) (snd m)) \<and>
          distinct (map fst ms) \<and> fst ` set ms \<inter> seen = {} \<and>
          reads (td_rest d) (members_tokens (td_state d) ms @ [TObjClose]) r \<and>
          d' = moved d r (value_end (hd (td_stack d))) (tl (td_stack d)))"

lemma walked_value:
  "fits depth v \<Longrightarrow> reads (td_rest d) (separator (td_state d) @ tokens_of v) r \<Longrightarrow>
   walked WValue depth d (moved d r (value_end (inner (td_state d))) (td_stack d))"
  by (auto simp: walked_def)

lemma walked_elements:
  "\<forall>v \<in> set vs. fits (Suc depth) v \<Longrightarrow>
   reads (td_rest d) (elements_tokens (td_state d) vs @ [TArrClose]) r \<Longrightarrow>
   walked WElements depth d (moved d r (value_end (hd (td_stack d))) (tl (td_stack d)))"
  by (auto simp: walked_def)

lemma walked_members:
  "\<forall>m \<in> set ms. fits (Suc depth) (snd m) \<Longrightarrow> distinct (map fst ms) \<Longrightarrow> fst ` set ms \<inter> seen = {} \<Longrightarrow>
   reads (td_rest d) (members_tokens (td_state d) ms @ [TObjClose]) r \<Longrightarrow>
   walked (WMembers seen) depth d (moved d r (value_end (hd (td_stack d))) (tl (td_stack d)))"
  by (auto simp: walked_def)

definition sound_run ::
  "walk \<Rightarrow> nat \<Rightarrow> token_decoder \<Rightarrow> strict_error option \<times> token_decoder \<Rightarrow> bool" where
  "sound_run walk depth d result \<longleftrightarrow>
     (ready walk d \<longrightarrow> fst result \<noteq> Some StrictPanic \<and>
        (fst result = None \<longrightarrow> walked walk depth d (snd result)))"

lemma sound_value:
  assumes IH: "\<And>walk depth d result. run walk depth d = Some result \<Longrightarrow> sound_run walk depth d result"
    and "depth \<le> maxDepth" and "Decoder_Token d = (Inr tok, d')" and "ready WValue d"
    and result: "(case tok of GoScalar x \<Rightarrow> Some (None, d')
      | GoDelim c \<Rightarrow> if c = CHR ''{'' then run (WMembers {}) depth d' else run WElements depth d') =
      Some result"
  shows "fst result \<noteq> Some StrictPanic \<and>
    (fst result = None \<longrightarrow> walked WValue depth d (snd result))"
proof -
  obtain t r where t: "starting t" "reads (td_rest d) (separator (td_state d) @ [t]) r"
    and eq: "(tok, d') = opened t d r"
    using value_token_sound [OF _ _ assms(3)] assms(4) by (auto simp: ready_def)
  let ?st = "inner (td_state d)"
  from t(1) consider x where "t = TScalar x" | "t = TArrOpen" | "t = TObjOpen"
    by (auto simp: starting_def)
  then show ?thesis
  proof cases
    case 1
    then have "result = (None, moved d r (value_end ?st) (td_stack d))"
      using eq result by (simp add: opened_def Let_def)
    moreover have "fits depth (JScalar x)" using assms(2) by simp
    ultimately show ?thesis using walked_value [of depth "JScalar x" d r] t(2) 1 by simp
  next
    case 2
    then have d': "d' = moved d r ArrayStart (?st # td_stack d)" and "run WElements depth d' = Some result"
      using eq result by (simp_all add: opened_def Let_def)
    then have "sound_run WElements depth d' result" by (intro IH)
    then have panic: "fst result \<noteq> Some StrictPanic"
      and walk: "fst result = None \<Longrightarrow> walked WElements depth d' (snd result)"
      by (auto simp: sound_run_def ready_def d')
    have "walked WValue depth d (snd result)" if none: "fst result = None"
    proof -
      obtain vs r' where vs: "\<forall>v \<in> set vs. fits (Suc depth) v"
        "reads r (elements_tokens ArrayStart vs @ [TArrClose]) r'"
        "snd result = moved d r' (value_end ?st) (td_stack d)"
        using walk [OF none] by (auto simp: walked_def d')
      have "reads (td_rest d) (separator (td_state d) @ tokens_of (JArr vs)) r'"
        using reads_append [OF t(2) vs(2)] by (simp add: 2 elements_tokens_def)
      moreover have "fits depth (JArr vs)" using vs(1) assms(2) by simp
      ultimately show ?thesis using vs(3) by (simp only: walked_value)
    qed
    with panic show ?thesis by blast
  next
    case 3
    then have d': "d' = moved d r ObjectStart (?st # td_stack d)"
      and "run (WMembers {}) depth d' = Some result"
      using eq result by (simp_all add: opened_def Let_def)
    then have "sound_run (WMembers {}) depth d' result" by (intro IH)
    then have panic: "fst result \<noteq> Some StrictPanic"
      and walk: "fst result = None \<Longrightarrow> walked (WMembers {}) depth d' (snd result)"
      by (auto simp: sound_run_def ready_def d')
    have "walked WValue depth d (snd result)" if none: "fst result = None"
    proof -
      obtain ms r' where ms: "\<forall>m \<in> set ms. fits (Suc depth) (snd m)" "distinct (map fst ms)"
        "reads r (members_tokens ObjectStart ms @ [TObjClose]) r'"
        "snd result = moved d r' (value_end ?st) (td_stack d)"
        using walk [OF none] by (auto simp: walked_def d')
      have "reads (td_rest d) (separator (td_state d) @ tokens_of (JObj ms)) r'"
        using reads_append [OF t(2) ms(3)] by (simp add: 3 members_tokens_def)
      moreover have "fits depth (JObj ms)" using ms(1,2) assms(2) by simp
      ultimately show ?thesis using ms(4) by (simp only: walked_value)
    qed
    with panic show ?thesis by blast
  qed
qed

lemma sound_close:
  assumes "td_state d \<in> {ArrayStart, ArrayComma, ObjectStart, ObjectComma}" and "td_stack d \<noteq> []"
    and "\<not> Decoder_More d" and "Decoder_Token d = (Inr tok, d')"
  shows "\<exists>r. reads (td_rest d) [close_token (td_state d)] r \<and>
    d' = moved d r (value_end (hd (td_stack d))) (tl (td_stack d))"
  using close_sound [OF assms(1) _ assms(3,4)] assms(2) by (metis list.collapse)

lemma sound_elements:
  assumes IH: "\<And>walk depth d result. run walk depth d = Some result \<Longrightarrow> sound_run walk depth d result"
    and ready: "ready WElements d" and more: "Decoder_More d"
    and result: "Option.bind (run WValue (depth + 1) d) (\<lambda>(err, d1).
      case err of Some e \<Rightarrow> Some (Some e, d1) | None \<Rightarrow> run WElements depth d1) = Some result"
  shows "fst result \<noteq> Some StrictPanic \<and>
    (fst result = None \<longrightarrow> walked WElements depth d (snd result))"
proof -
  obtain err d1 where first: "run WValue (depth + 1) d = Some (err, d1)"
    and rest: "(case err of Some e \<Rightarrow> Some (Some e, d1) | None \<Rightarrow> run WElements depth d1) = Some result"
    using result by (auto split: bind_splits)
  have st: "td_state d \<in> {ArrayStart, ArrayComma}" "td_stack d \<noteq> []"
    using ready by (auto simp: ready_def)
  have "ready WValue d" using st(1) more by (auto simp: ready_def value_position_def)
  then have value': "err \<noteq> Some StrictPanic" "err = None \<Longrightarrow> walked WValue (depth + 1) d d1"
    using IH [OF first] by (auto simp: sound_run_def)
  show ?thesis
  proof (cases err)
    case (Some e)
    with rest value' show ?thesis by auto
  next
    case None
    have "value_end (inner (td_state d)) = ArrayComma" using st(1) by (auto simp: inner_def)
    with value'(2) [OF None] obtain v r where v: "fits (Suc depth) v"
      "reads (td_rest d) (separator (td_state d) @ tokens_of v) r"
      "d1 = moved d r ArrayComma (td_stack d)"
      by (auto simp: walked_def)
    have run: "run WElements depth d1 = Some result" using rest None by simp
    have "ready WElements d1" using st(2) by (simp add: ready_def v(3))
    then have tail: "fst result \<noteq> Some StrictPanic"
      "fst result = None \<Longrightarrow> walked WElements depth d1 (snd result)"
      using IH [OF run] by (auto simp: sound_run_def)
    have "walked WElements depth d (snd result)" if none: "fst result = None"
    proof -
      obtain vs r' where vs: "\<forall>v \<in> set vs. fits (Suc depth) v"
        "reads r (elements_tokens ArrayComma vs @ [TArrClose]) r'"
        "snd result = moved d r' (value_end (hd (td_stack d))) (tl (td_stack d))"
        using tail(2) [OF none] by (auto simp: walked_def v(3))
      have "reads (td_rest d) (elements_tokens (td_state d) (v # vs) @ [TArrClose]) r'"
        using reads_append [OF v(2) vs(2)] st(1) by auto
      moreover have "\<forall>v \<in> set (v # vs). fits (Suc depth) v" using v(1) vs(1) by simp
      ultimately show ?thesis using vs(3) by (simp only: walked_elements)
    qed
    with tail(1) show ?thesis by blast
  qed
qed

lemma sound_members:
  assumes IH: "\<And>walk depth d result. run walk depth d = Some result \<Longrightarrow> sound_run walk depth d result"
    and ready: "ready (WMembers seen) d" and more: "Decoder_More d"
    and result: "(case Decoder_Token d of
        (Inl e, decoder) \<Rightarrow> Some (Some StrictMember, decoder)
      | (Inr (GoScalar (SStr name)), decoder) \<Rightarrow>
          if name \<in> seen then Some (Some StrictDuplicate, decoder)
          else Option.bind (run WValue (depth + 1) decoder) (\<lambda>(err, d1).
            case err of Some e \<Rightarrow> Some (Some e, d1)
            | None \<Rightarrow> run (WMembers (insert name seen)) depth d1)
      | (Inr token, decoder) \<Rightarrow> Some (Some StrictPanic, decoder)) = Some result"
  shows "fst result \<noteq> Some StrictPanic \<and>
    (fst result = None \<longrightarrow> walked (WMembers seen) depth d (snd result))"
proof (cases "Decoder_Token d")
  case (Pair res d0)
  have st: "td_state d = ObjectStart \<or> td_state d = ObjectComma" "td_stack d \<noteq> []"
    using ready by (auto simp: ready_def)
  show ?thesis
  proof (cases res)
    case (Inl e)
    with Pair result show ?thesis by auto
  next
    case (Inr tok)
    from name_token_sound [OF st(1) more Pair [unfolded Inr]] obtain name r where
      tok: "tok = GoScalar (SStr name)" "d0 = named name d r"
      "reads (td_rest d) (separator (td_state d) @ [TScalar (SStr name)]) r" by blast
    show ?thesis
    proof (cases "name \<in> seen")
      case True
      with Pair Inr tok(1) result show ?thesis by auto
    next
      case False
      with Pair Inr tok(1) result obtain err d1 where
        first: "run WValue (depth + 1) d0 = Some (err, d1)"
        and rest: "(case err of Some e \<Rightarrow> Some (Some e, d1)
          | None \<Rightarrow> run (WMembers (insert name seen)) depth d1) = Some result"
        by (auto split: bind_splits)
      have "ready WValue d0" by (simp add: ready_def value_position_def tok(2) named_def)
      then have value': "err \<noteq> Some StrictPanic" "err = None \<Longrightarrow> walked WValue (depth + 1) d0 d1"
        using IH [OF first] by (auto simp: sound_run_def)
      show ?thesis
      proof (cases err)
        case (Some e)
        with rest value' show ?thesis by auto
      next
        case None
        with value'(2) obtain v r1 where v: "fits (Suc depth) v"
          "reads r (TColon # tokens_of v) r1" "d1 = moved d r1 ObjectComma (td_stack d)"
          by (auto simp: walked_def tok(2) named_def separator_def inner_def)
        have run: "run (WMembers (insert name seen)) depth d1 = Some result" using rest None by simp
        have "ready (WMembers (insert name seen)) d1" using st(2) by (simp add: ready_def v(3))
        then have tail: "fst result \<noteq> Some StrictPanic"
          "fst result = None \<Longrightarrow> walked (WMembers (insert name seen)) depth d1 (snd result)"
          using IH [OF run] by (auto simp: sound_run_def)
        have "walked (WMembers seen) depth d (snd result)" if none: "fst result = None"
        proof -
          obtain ms r' where ms: "\<forall>m \<in> set ms. fits (Suc depth) (snd m)" "distinct (map fst ms)"
            "fst ` set ms \<inter> insert name seen = {}"
            "reads r1 (members_tokens ObjectComma ms @ [TObjClose]) r'"
            "snd result = moved d r' (value_end (hd (td_stack d))) (tl (td_stack d))"
            using tail(2) [OF none] by (auto simp: walked_def v(3))
          have "reads (td_rest d) (members_tokens (td_state d) ((name, v) # ms) @ [TObjClose]) r'"
            using reads_append [OF tok(3) reads_append [OF v(2) ms(4)]] st(1) by auto
          moreover have "\<forall>m \<in> set ((name, v) # ms). fits (Suc depth) (snd m)"
            "distinct (map fst ((name, v) # ms))" "fst ` set ((name, v) # ms) \<inter> seen = {}"
            using v(1) ms(1-3) False by auto
          ultimately show ?thesis using ms(5) by (simp only: walked_members)
        qed
        with tail(1) show ?thesis by blast
      qed
    qed
  qed
qed

lemma validateValue_sound:
  assumes "validateValue walk depth d = Some result"
  shows "sound_run walk depth d result"
proof (rule validateValue.raw_induct [where P = sound_run, OF _ assms], goal_cases)
  case (1 run walk depth d result)
  note IH = 1(1) and body = 1(2)
  show ?case
    unfolding sound_run_def
  proof (intro impI)
    assume ready: "ready walk d"
    show "fst result \<noteq> Some StrictPanic \<and> (fst result = None \<longrightarrow> walked walk depth d (snd result))"
    proof (cases walk)
      case WValue
      show ?thesis
      proof (cases "depth > maxDepth \<or> (\<exists>e d'. Decoder_Token d = (Inl e, d'))")
        case True
        with body WValue show ?thesis by (auto split: if_splits)
      next
        case False
        then obtain tok d' where tok: "Decoder_Token d = (Inr tok, d')" "depth \<le> maxDepth"
          by (metis not_less old.prod.exhaust old.sum.exhaust)
        with body WValue have "(case tok of GoScalar x \<Rightarrow> Some (None, d')
            | GoDelim c \<Rightarrow> if c = CHR ''{'' then run (WMembers {}) depth d' else run WElements depth d') =
            Some result"
          by (cases tok) auto
        from sound_value [where run = run, OF IH tok(2,1) ready [unfolded WValue] this] WValue
        show ?thesis by simp
      qed
    next
      case (WMembers seen)
      have st: "td_state d \<in> {ObjectStart, ObjectComma}" "td_stack d \<noteq> []"
        using ready WMembers by (auto simp: ready_def)
      show ?thesis
      proof (cases "Decoder_More d")
        case True
        with body WMembers show ?thesis
          using sound_members [where run = run, OF IH ready [unfolded WMembers] True] by simp
      next
        case False
        show ?thesis
        proof (cases "Decoder_Token d")
          case (Pair res d')
          then show ?thesis
            using body WMembers False sound_close [OF _ st(2) False, of _ d'] st(1)
              walked_members [of "[]" depth seen d]
            by (cases res) (auto simp: close_token_def)
        qed
      qed
    next
      case WElements
      have st: "td_state d \<in> {ArrayStart, ArrayComma}" "td_stack d \<noteq> []"
        using ready WElements by (auto simp: ready_def)
      show ?thesis
      proof (cases "Decoder_More d")
        case True
        with body WElements show ?thesis
          using sound_elements [where run = run, OF IH ready [unfolded WElements] True] by simp
      next
        case False
        show ?thesis
        proof (cases "Decoder_Token d")
          case (Pair res d')
          then show ?thesis
            using body WElements False sound_close [OF _ st(2) False, of _ d'] st(1)
              walked_elements [of "[]" depth d]
            by (cases res) (auto simp: close_token_def)
        qed
      qed
    qed
  qed
qed

section \<open>Completeness\<close>

definition accepted :: "json \<Rightarrow> bool" where
  "accepted v \<longleftrightarrow> (\<forall>depth d ts. value_position (td_state d) \<longrightarrow> fits depth v \<longrightarrow>
     lex (td_rest d) = Some (separator (td_state d) @ tokens_of v @ ts) \<longrightarrow>
     (\<exists>r. validateValue WValue depth d =
        Some (None, moved d r (value_end (inner (td_state d))) (td_stack d)) \<and> lex r = Some ts))"

lemma acceptedD:
  "accepted v \<Longrightarrow> value_position (td_state d) \<Longrightarrow> fits depth v \<Longrightarrow>
   lex (td_rest d) = Some (separator (td_state d) @ tokens_of v @ ts) \<Longrightarrow>
   \<exists>r. validateValue WValue depth d =
     Some (None, moved d r (value_end (inner (td_state d))) (td_stack d)) \<and> lex r = Some ts"
  by (simp add: accepted_def)

lemma tokens_start: "\<exists>t us. tokens_of v = t # us \<and> starting t"
  by (cases v) (auto simp: starting_def)

lemma more_elements:
  assumes "td_state d = ArrayStart \<or> td_state d = ArrayComma"
    and "lex (td_rest d) = Some (separator (td_state d) @ tokens_of v @ ts)"
  shows "Decoder_More d"
proof -
  obtain t us where "tokens_of v = t # us" "starting t" using tokens_start by blast
  with assms obtain u r where "next_token (td_rest d) = Some (Some (u, r))" "u = TComma \<or> starting u"
    by (auto simp: separator_def lex_Cons)
  then show ?thesis by (auto simp: Decoder_More_next starting_def)
qed

lemma accept_elements:
  assumes "\<forall>v \<in> set vs. accepted v \<and> fits (Suc depth) v"
    and "td_state d = ArrayStart \<or> td_state d = ArrayComma" and "td_stack d = st # stack"
    and "lex (td_rest d) = Some (elements_tokens (td_state d) vs @ TArrClose # ts)"
  shows "\<exists>r. validateValue WElements depth d = Some (None, moved d r (value_end st) stack) \<and>
    lex r = Some ts"
  using assms
proof (induction vs arbitrary: d)
  case Nil
  then obtain tok r where "Decoder_Token d = (Inr tok, moved d r (value_end st) stack)"
    "lex r = Some ts" "\<not> Decoder_More d"
    using close_complete [of d st stack ts] by (auto simp: close_token_def)
  then show ?case by (subst validateValue.simps) auto
next
  case (Cons v vs)
  have text': "lex (td_rest d) =
      Some (separator (td_state d) @ tokens_of v @ elements_tokens ArrayComma vs @ TArrClose # ts)"
    using Cons.prems(2,4) by simp
  have "value_position (td_state d)" "value_end (inner (td_state d)) = ArrayComma"
    using Cons.prems(2) by (auto simp: value_position_def inner_def)
  then obtain r where r: "validateValue WValue (Suc depth) d =
      Some (None, moved d r ArrayComma (td_stack d))"
      "lex r = Some (elements_tokens ArrayComma vs @ TArrClose # ts)"
    using acceptedD [OF _ _ _ text', of "Suc depth"] Cons.prems(1) by auto
  from Cons.IH [of "moved d r ArrayComma (td_stack d)"] obtain r' where
    "validateValue WElements depth (moved d r ArrayComma (td_stack d)) =
       Some (None, moved d r' (value_end st) stack)" "lex r' = Some ts"
    using Cons.prems(1,3) r(2) by auto
  with r(1) more_elements [OF Cons.prems(2) text'] show ?case
    by (subst validateValue.simps) auto
qed

lemma accept_members:
  assumes "\<forall>m \<in> set ms. accepted (snd m) \<and> fits (Suc depth) (snd m)"
    and "distinct (map fst ms)" and "fst ` set ms \<inter> seen = {}"
    and "td_state d = ObjectStart \<or> td_state d = ObjectComma" and "td_stack d = st # stack"
    and "lex (td_rest d) = Some (members_tokens (td_state d) ms @ TObjClose # ts)"
  shows "\<exists>r. validateValue (WMembers seen) depth d = Some (None, moved d r (value_end st) stack) \<and>
    lex r = Some ts"
  using assms
proof (induction ms arbitrary: d seen)
  case Nil
  then obtain tok r where "Decoder_Token d = (Inr tok, moved d r (value_end st) stack)"
    "lex r = Some ts" "\<not> Decoder_More d"
    using close_complete [of d st stack ts] by (auto simp: close_token_def)
  then show ?case by (subst validateValue.simps) auto
next
  case (Cons m ms)
  obtain name v where m: "m = (name, v)" by fastforce
  have text': "lex (td_rest d) = Some (separator (td_state d) @ TScalar (SStr name) #
      TColon # tokens_of v @ members_tokens ObjectComma ms @ TObjClose # ts)"
    using Cons.prems(4,6) by (simp add: m)
  from name_token_complete [OF Cons.prems(4) text'] obtain r where
    r: "Decoder_Token d = (Inr (GoScalar (SStr name)), named name d r)" "Decoder_More d"
      "lex r = Some (TColon # tokens_of v @ members_tokens ObjectComma ms @ TObjClose # ts)"
    by blast
  have "accepted v" "fits (Suc depth) v" using Cons.prems(1) m by auto
  from acceptedD [OF this(1) _ this(2), of "named name d r"] obtain r1 where
    r1: "validateValue WValue (Suc depth) (named name d r) =
        Some (None, moved d r1 ObjectComma (td_stack d))"
      "lex r1 = Some (members_tokens ObjectComma ms @ TObjClose # ts)"
    using r(3) by (auto simp: named_def value_position_def separator_def inner_def)
  from Cons.IH [of "insert name seen" "moved d r1 ObjectComma (td_stack d)"] obtain r2 where
    "validateValue (WMembers (insert name seen)) depth (moved d r1 ObjectComma (td_stack d)) =
       Some (None, moved d r2 (value_end st) stack)" "lex r2 = Some ts"
    using Cons.prems(1-3,5) r1(2) m by auto
  moreover have "name \<notin> seen" using Cons.prems(3) m by auto
  ultimately show ?case
    using r(1,2) r1(1) by (subst validateValue.simps) auto
qed

lemma fits_depth: "fits depth v \<Longrightarrow> depth \<le> maxDepth"
  by (cases v) simp_all

lemma accepted: "accepted v"
proof (induction v rule: tokens_of.induct)
  case (1 x)
  show ?case
    unfolding accepted_def
  proof (intro allI impI)
    fix depth ts and d :: token_decoder
    assume "value_position (td_state d)" "fits depth (JScalar x)"
      "lex (td_rest d) = Some (separator (td_state d) @ tokens_of (JScalar x) @ ts)"
    then obtain r where "Decoder_Token d =
        (Inr (GoScalar x), moved d r (value_end (inner (td_state d))) (td_stack d))"
        "lex r = Some ts" "\<not> depth > maxDepth"
      using value_token_complete [of d "TScalar x" ts]
      by (auto simp: starting_def opened_def Let_def)
    then show "\<exists>r. validateValue WValue depth d =
        Some (None, moved d r (value_end (inner (td_state d))) (td_stack d)) \<and> lex r = Some ts"
      by (subst validateValue.simps) auto
  qed
next
  case (2 vs)
  show ?case
    unfolding accepted_def
  proof (intro allI impI)
    fix depth ts and d :: token_decoder
    assume pos: "value_position (td_state d)" and fits: "fits depth (JArr vs)"
      and text': "lex (td_rest d) = Some (separator (td_state d) @ tokens_of (JArr vs) @ ts)"
    let ?st = "inner (td_state d)"
    obtain r where r: "Decoder_Token d =
        (Inr (GoDelim (CHR ''['')), moved d r ArrayStart (?st # td_stack d))"
        "lex r = Some (elements_tokens ArrayStart vs @ TArrClose # ts)"
      using value_token_complete [OF pos, of TArrOpen] text'
      by (auto simp: starting_def opened_def Let_def elements_tokens_def)
    have "\<exists>r'. validateValue WElements depth (moved d r ArrayStart (?st # td_stack d)) =
        Some (None, moved d r' (value_end ?st) (td_stack d)) \<and> lex r' = Some ts"
      using accept_elements [of vs depth "moved d r ArrayStart (?st # td_stack d)" ?st "td_stack d" ts]
        2 fits r(2) by simp
    with r(1) fits_depth [OF fits] show "\<exists>r. validateValue WValue depth d =
        Some (None, moved d r (value_end ?st) (td_stack d)) \<and> lex r = Some ts"
      by (subst validateValue.simps) auto
  qed
next
  case (3 ms)
  show ?case
    unfolding accepted_def
  proof (intro allI impI)
    fix depth ts and d :: token_decoder
    assume pos: "value_position (td_state d)" and fits: "fits depth (JObj ms)"
      and text': "lex (td_rest d) = Some (separator (td_state d) @ tokens_of (JObj ms) @ ts)"
    let ?st = "inner (td_state d)"
    obtain r where r: "Decoder_Token d =
        (Inr (GoDelim (CHR ''{'')), moved d r ObjectStart (?st # td_stack d))"
        "lex r = Some (members_tokens ObjectStart ms @ TObjClose # ts)"
      using value_token_complete [OF pos, of TObjOpen] text'
      by (auto simp: starting_def opened_def Let_def members_tokens_def)
    have "\<forall>m \<in> set ms. accepted (snd m)" using 3 by fastforce
    then have "\<exists>r'. validateValue (WMembers {}) depth (moved d r ObjectStart (?st # td_stack d)) =
        Some (None, moved d r' (value_end ?st) (td_stack d)) \<and> lex r' = Some ts"
      using accept_members [of ms depth "{}" "moved d r ObjectStart (?st # td_stack d)" ?st
          "td_stack d" ts] fits r(2) by simp
    with r(1) fits_depth [OF fits] show "\<exists>r. validateValue WValue depth d =
        Some (None, moved d r (value_end ?st) (td_stack d)) \<and> lex r = Some ts"
      by (subst validateValue.simps) auto
  qed
qed

section \<open>Whole documents\<close>

lemma requireEnd_top:
  assumes "td_state d = TopValue"
  shows "requireEnd d = None \<longleftrightarrow> lex (td_rest d) = Some []"
proof -
  have "requireEnd d = None \<longleftrightarrow> fst (Decoder_Token d) = Inl IoEOF"
    by (auto simp: requireEnd_def split: sum.splits token_error.splits)
  also have "\<dots> \<longleftrightarrow> next_token (td_rest d) = None"
    using assms by (auto simp: token_simps value_allowed_def split: option.splits token.splits)
  finally show ?thesis by (simp add: lex_Nil)
qed

lemma validate_document:
  "(\<exists>d'. validateValue WValue depth (NewDecoder data) = Some (None, d') \<and> requireEnd d' = None) \<longleftrightarrow>
   (\<exists>v. fits depth v \<and> lex data = Some (tokens_of v))"
proof
  assume "\<exists>d'. validateValue WValue depth (NewDecoder data) = Some (None, d') \<and> requireEnd d' = None"
  then obtain d' where run: "validateValue WValue depth (NewDecoder data) = Some (None, d')"
    and fin: "requireEnd d' = None" by blast
  have "ready WValue (NewDecoder data)"
    by (simp add: ready_def NewDecoder_def value_position_def)
  with validateValue_sound [OF run] have "walked WValue depth (NewDecoder data) d'"
    by (simp add: sound_run_def)
  then obtain v r where v: "fits depth v" "reads data (tokens_of v) r"
    "d' = moved (NewDecoder data) r TopValue []"
    by (auto simp: walked_def NewDecoder_def separator_def inner_def)
  then have "lex r = Some []" using fin by (simp add: requireEnd_top)
  with reads_lex [OF v(2)] v(1) show "\<exists>v. fits depth v \<and> lex data = Some (tokens_of v)" by auto
next
  assume "\<exists>v. fits depth v \<and> lex data = Some (tokens_of v)"
  then obtain v where "fits depth v" "lex data = Some (tokens_of v @ [])" by auto
  with acceptedD [OF accepted, of "NewDecoder data" depth v "[]"] obtain r where
    "validateValue WValue depth (NewDecoder data) = Some (None, moved (NewDecoder data) r TopValue [])"
    "lex r = Some []"
    by (auto simp: NewDecoder_def value_position_def separator_def inner_def)
  then show "\<exists>d'. validateValue WValue depth (NewDecoder data) = Some (None, d') \<and> requireEnd d' = None"
    by (auto simp: requireEnd_top)
qed

lemma json_depth_arr: "json_depth (JArr vs) \<le> n \<longleftrightarrow> 0 < n \<and> (\<forall>v \<in> set vs. Suc (json_depth v) \<le> n)"
  by (cases n) (auto simp: fold_max)

lemma json_depth_obj:
  "json_depth (JObj ms) \<le> n \<longleftrightarrow> 0 < n \<and> (\<forall>(k, v) \<in> set ms. Suc (json_depth v) \<le> n)"
  by (cases n) (auto simp: fold_max)

lemma nesting_depth: "json_depth v \<le> n \<Longrightarrow> nesting v \<le> n"
proof (induction v arbitrary: n rule: tokens_of.induct)
  case (2 vs)
  then show ?case
    unfolding json_depth_arr nesting_arr by (cases n) auto
next
  case (3 ms)
  then show ?case
    unfolding json_depth_obj nesting_obj by (cases n) fastforce+
qed simp

lemma read_value_document:
  "lex s = Some ts \<Longrightarrow> json_run limit st ts = Some (PDone v) \<Longrightarrow> ts \<noteq> [] \<Longrightarrow>
   \<exists>r. read_value limit st s = Some (v, r) \<and> lex r = Some []"
proof (induction ts arbitrary: s st)
  case (Cons t ts)
  obtain r where r: "next_token s = Some (Some (t, r))" "lex r = Some ts"
    using Cons.prems(1) by (auto simp: lex_Cons)
  obtain st' where st': "json_step limit st t = Some st'" "json_run limit st' ts = Some (PDone v)"
    using Cons.prems(2) by (auto split: bind_splits)
  have unfold: "read_value limit st s =
      (case st' of PDone v \<Rightarrow> Some (v, r) | _ \<Rightarrow> read_value limit st' r)"
    using r(1) st'(1)
    by (subst read_value.simps) (auto simp: next_token_def split: list.splits json_state.splits)
  show ?case
  proof (cases "\<exists>w. st' = PDone w")
    case True
    then obtain w where w: "st' = PDone w" by blast
    with st'(2) have "ts = []" by (cases ts) auto
    with w st'(2) r(2) unfold show ?thesis by simp
  next
    case False
    with st'(2) have "ts \<noteq> []" by auto
    with Cons.IH [OF r(2) st'(2)] False unfold show ?thesis by (auto split: json_state.splits)
  qed
qed simp

lemma decode_document:
  assumes "json_parse data = Some v"
  shows "\<exists>d. decode_value target (NewDecoder data) old = (target v old, d) \<and> requireEnd d = None"
proof -
  obtain ts where ts: "lex data = Some ts" "parse_tokens maxNesting ts = Some v"
    using assms by (auto simp: json_parse_def split: bind_splits)
  then have "json_run maxNesting (PValue []) ts = Some (PDone v)"
    by (auto simp: parse_tokens_def split: option.splits json_state.splits)
  moreover have "ts \<noteq> []" using ts(2) by (auto simp: parse_tokens_def)
  ultimately obtain r where r: "read_value maxNesting (PValue []) data = Some (v, r)" "lex r = Some []"
    using read_value_document [OF ts(1)] by blast
  let ?d = "(NewDecoder data)\<lparr>td_rest := r\<rparr>"
  have "requireEnd ?d = None" using r(2) by (simp add: requireEnd_top NewDecoder_def)
  with r(1) show ?thesis by (auto simp: decode_value_def NewDecoder_def)
qed

lemma parse_document:
  assumes "fits depth v"
  shows "lex data = Some (tokens_of v) \<longleftrightarrow> json_parse data = Some v"
proof
  have "nesting v \<le> maxNesting"
    using assms nesting_depth [of v maxNesting] by (simp add: fits_def maxDepth_def maxNesting_def)
  moreover assume "lex data = Some (tokens_of v)"
  ultimately show "json_parse data = Some v" by (simp add: json_parse_def parse_tokens_of)
next
  assume "json_parse data = Some v"
  then show "lex data = Some (tokens_of v)"
    by (auto simp: json_parse_def dest: parse_tokens_sound split: bind_splits)
qed

lemma validation_iff:
  "(\<exists>d'. validateValue WValue depth (NewDecoder data) = Some (None, d') \<and> requireEnd d' = None) \<longleftrightarrow>
   (\<exists>v. json_parse data = Some v \<and> unique_names v \<and> json_depth v + depth \<le> Suc maxDepth)"
proof -
  have "(\<exists>v. fits depth v \<and> lex data = Some (tokens_of v)) \<longleftrightarrow>
      (\<exists>v. fits depth v \<and> json_parse data = Some v)"
    using parse_document [of depth _ data] by blast
  then show ?thesis unfolding validate_document by (auto simp: fits_def)
qed

lemma validation_returns:
  "\<exists>err d'. validateValue WValue depth (NewDecoder data) = Some (err, d') \<and> err \<noteq> Some StrictPanic"
proof -
  obtain err d' where run: "validateValue WValue depth (NewDecoder data) = Some (err, d')"
    using validateValue_returns [of WValue depth "NewDecoder data"] by (auto simp: returns_def)
  have "ready WValue (NewDecoder data)"
    by (simp add: ready_def NewDecoder_def value_position_def)
  with validateValue_sound [OF run] have "err \<noteq> Some StrictPanic" by (simp add: sound_run_def)
  with run show ?thesis by blast
qed

text \<open>The two facts the JSON entry points use.\<close>

lemma strictDecode_Inr:
  "strictDecode data maxBytes target old = Some (Inr result) \<longleftrightarrow>
     data \<noteq> [] \<and> int (length data) \<le> maxBytes \<and>
     (\<exists>v. json_parse data = Some v \<and> unique_names v \<and> json_depth v \<le> maxDepth \<and>
        target v old = Some result)"
proof -
  obtain err d' where run: "validateValue WValue 1 (NewDecoder data) = Some (err, d')"
    using validation_returns [of 1] by blast
  show ?thesis
  proof (cases "data \<noteq> [] \<and> int (length data) \<le> maxBytes \<and> err = None \<and> requireEnd d' = None")
    case True
    then obtain v where v: "json_parse data = Some v" "unique_names v" "json_depth v \<le> maxDepth"
      using validation_iff [of 1 data] run by auto
    from decode_document [OF v(1), of target old] obtain d where
      "decode_value target (NewDecoder data) old = (target v old, d)" "requireEnd d = None"
      by blast
    with True run v show ?thesis by (auto simp: strictDecode_def split: option.split)
  next
    case False
    then have "data = [] \<or> \<not> int (length data) \<le> maxBytes \<or>
        \<not> (\<exists>v. json_parse data = Some v \<and> unique_names v \<and> json_depth v \<le> maxDepth)"
      using validation_iff [of 1 data] run by auto
    moreover have "strictDecode data maxBytes target old \<noteq> Some (Inr result)"
      using False run by (auto simp: strictDecode_def split: option.splits if_splits)
    ultimately show ?thesis by blast
  qed
qed

lemma strictDecode_returns: "\<exists>r. strictDecode data maxBytes target old = Some r \<and> r \<noteq> Inl StrictPanic"
proof -
  obtain err d' where "validateValue WValue 1 (NewDecoder data) = Some (err, d')"
    "err \<noteq> Some StrictPanic"
    using validation_returns by blast
  moreover have "requireEnd d \<noteq> Some StrictPanic" for d
    by (simp add: requireEnd_def split: sum.split token_error.split)
  ultimately show ?thesis
    by (auto simp: strictDecode_def split: option.split prod.split)
qed

end
