(* ===== verification/StrictProperties.thy ===== *)
theory StrictProperties
  imports StrictCorrect
begin

text \<open>
  The two properties of the strict decoder, and \<open>strictResult\<close>: what its callers see, which by these
  properties is a value or an error, never a panic or a run without end.
\<close>

text \<open>
  C30: \<open>Decode\<close> returns on every text, whatever it contains: the recursion of
  \<open>validateValue\<close> and its two loops consume the text, and the unguarded type assertion of a member
  name to a string is never reached with anything else.
\<close>

theorem Strict_returns:
  "\<exists>r. strictDecode data maxBytes target old = Some r \<and> r \<noteq> Inl StrictPanic"
  by (rule strictDecode_returns)

text \<open>
  C10: \<open>Decode\<close> accepts exactly the texts within the size bound that are one JSON
  document, whose objects never repeat a decoded member name, that is at most 64 values deep, and
  that the target type decodes; the result is then what the target type decodes.
\<close>

theorem Strict_accepts:
  "strictDecode data maxBytes target old = Some (Inr result) \<longleftrightarrow>
     data \<noteq> [] \<and> int (length data) \<le> maxBytes \<and>
     (\<exists>v. json_parse data = Some v \<and> unique_names v \<and> json_depth v \<le> 64 \<and>
        target v old = Some result)"
  using strictDecode_Inr [of data maxBytes target old result] by (simp add: maxDepth_def)

end
