(* ===== verification/StrictEntry.thy ===== *)
theory StrictEntry
  imports StrictCorrect ApiJsonCorrect
begin

text \<open>
  How the adapters use \<open>strictjson.Decode\<close>: \<open>strictResult\<close> is its value, \<open>None\<close> for any of its errors.
  \<open>strictDecode_returns\<close> shows that nothing else can happen, so no outcome is lost here. The lemmas
  say what it makes of a document that \<open>json.Marshal\<close> wrote.
\<close>

definition strictResult :: "string \<Rightarrow> int \<Rightarrow> 'a decoder \<Rightarrow> 'a \<Rightarrow> 'a option" where
  "strictResult data maxBytes target old =
     (case strictDecode data maxBytes target old of Some (Inr x) \<Rightarrow> Some x | _ \<Rightarrow> None)"

lemma strictResult_iff:
  "strictResult data maxBytes target old = Some x \<longleftrightarrow>
     data \<noteq> [] \<and> int (length data) \<le> maxBytes \<and>
     (\<exists>v. json_parse data = Some v \<and> unique_names v \<and> json_depth v \<le> maxDepth \<and>
        target v old = Some x)"
  unfolding strictDecode_Inr [symmetric]
  by (auto simp: strictResult_def split: option.splits sum.splits)

lemma json_parse_nonempty: "json_parse data = Some v \<Longrightarrow> data \<noteq> []"
  by (auto simp: json_parse_def parse_tokens_def)

text \<open>
  The contract of a closed JSON reader, which the adapters and the release tools rely on: it reads
  the texts that it admits and that are one document without repeated names, at most \<open>limit\<close> deep.
\<close>

locale document_reader =
  fixes admits :: "string \<Rightarrow> bool" and "limit" :: nat
    and read_text :: "string \<Rightarrow> 'a decoder \<Rightarrow> 'a \<Rightarrow> 'a option"
  assumes read_iff: "read_text data target old = Some x \<longleftrightarrow>
      admits data \<and> (\<exists>v. json_parse data = Some v \<and> unique_names v \<and> json_depth v \<le> limit \<and>
        target v old = Some x)"
    and limit_nesting: "limit \<le> maxNesting"
begin

lemma read_render:
  assumes "numbers_ok v" and "clean_json v = v" and "unique_names v" and "json_depth v \<le> limit"
    and "admits (render v)"
  shows "read_text (render v) target old = target v old"
proof -
  have "nesting v \<le> maxNesting"
    using assms(4) limit_nesting nesting_depth [of v maxNesting] by simp
  then have "json_parse (render v) = Some v"
    using json_parse_render [OF assms(1)] assms(2) by simp
  then have iff: "read_text (render v) target old = Some x \<longleftrightarrow> target v old = Some x" for x
    using assms(3-5) by (auto simp: read_iff)
  show ?thesis by (cases "target v old"; cases "read_text (render v) target old") (use iff in auto)
qed

end

interpretation strict: document_reader "\<lambda>data. int (length data) \<le> maxBytes" maxDepth
  "\<lambda>data target old. strictResult data maxBytes target old" for maxBytes
  using json_parse_nonempty
  by unfold_locales (auto simp: strictResult_iff maxDepth_def maxNesting_def)

lemmas strictResult_render = strict.read_render

section \<open>Documents of the request types\<close>

lemma unique_nil_list: "(\<forall>x \<in> set xs. unique_names (f x)) \<Longrightarrow> unique_names (nil_list f xs)"
  by (simp add: nil_list_def)

lemma unique_value [simp]: "unique_names (value_json v)"
  by (simp add: value_json_def)

lemma unique_sort [simp]: "unique_names (sort_json t)"
  by (simp add: sort_json_def omit_empty_def)

lemma unique_predicate [simp]: "unique_names (predicate_json p)"
  by (simp add: predicate_json_def unique_nil_list)

lemma unique_filter [simp]: "unique_names (filter_json f)"
proof (induction f)
  case (FilterExpr predicate logic children)
  then show ?case by (auto simp: omit_empty_def split: option.splits)
qed

text \<open>The height of a filter expression bounds the depth of its document.\<close>

fun filter_height :: "FilterExpr \<Rightarrow> nat" where
  "filter_height (FilterExpr predicate logic children) =
     Suc (fold max (map filter_height children) 0)"

lemma filter_height_le:
  "filter_height (FilterExpr predicate logic children) \<le> n \<longleftrightarrow>
     0 < n \<and> (\<forall>c \<in> set children. Suc (filter_height c) \<le> n)"
  by (cases n) (auto simp: fold_max)

lemma json_depth_pos: "0 < json_depth v"
  by (cases v) simp_all

lemma depth_nil_list:
  "0 < n \<Longrightarrow> (\<forall>x \<in> set xs. Suc (json_depth (f x)) \<le> n) \<Longrightarrow> json_depth (nil_list f xs) \<le> n"
  unfolding nil_list_def by (auto simp: json_depth_arr simp del: json_depth.simps(2))

lemma depth_value [simp]: "json_depth (value_json v) = 2"
  by (simp add: value_json_def)

lemma depth_sort: "json_depth (sort_json t) \<le> 2"
  unfolding sort_json_def json_depth_obj by (auto simp: omit_empty_def split: if_splits)

lemma depth_predicate: "json_depth (predicate_json p) \<le> 4"
  unfolding predicate_json_def json_depth_obj using depth_nil_list [of 3 "pr_Values p" value_json]
  by auto

lemma depth_filter: "json_depth (filter_json f) \<le> 2 * filter_height f + 3"
proof (induction f)
  case (FilterExpr predicate logic children)
  let ?n = "2 * filter_height (FilterExpr predicate logic children) + 3"
  have "Suc (Suc (json_depth (filter_json c))) \<le> ?n" if "c \<in> set children" for c
    using FilterExpr [OF that] that
      filter_height_le [of predicate logic children "filter_height (FilterExpr predicate logic children)"]
    by fastforce
  then have "children \<noteq> [] \<Longrightarrow> Suc (json_depth (JArr (map filter_json children))) \<le> ?n"
    using json_depth_arr [of "map filter_json children" "?n - 1"] by fastforce
  moreover have "Suc (json_depth (predicate_json p)) \<le> ?n" for p
    using depth_predicate [of p] by simp
  ultimately have "\<forall>(k, v) \<in> set ((case predicate of None \<Rightarrow> [] | Some p \<Rightarrow> [(''predicate'', predicate_json p)]) @
      omit_empty ''logic'' logic @
      (if children = [] then [] else [(''children'', JArr (map filter_json children))])).
      Suc (json_depth v) \<le> ?n"
    by (auto simp: omit_empty_def split: option.splits if_splits)
  then show ?case
    unfolding filter_json.simps json_depth_obj by simp
qed

section \<open>Written text is valid UTF-8\<close>

lemma valid_utf8_append: "valid_utf8 s \<Longrightarrow> valid_utf8 (s @ t) = valid_utf8 t"
proof (induction s rule: sanitize.induct)
  case (2 c cs)
  obtain r w where rw: "decodeRune (c # cs) = (r, w)" by fastforce
  with 2(2) have ok: "\<not> (r = runeError \<and> w = 1)" "valid_utf8 (drop w (c # cs))"
    by (simp_all add: valid_utf8.simps(2) Let_def)
  have "(c # cs) @ t = take w (c # cs) @ (drop w (c # cs) @ t)"
    by (metis append_assoc append_take_drop_id)
  then show ?case
    using valid_utf8_rune [OF rw ok(1)] 2(1) [OF rw [symmetric] refl ok(2)] by metis
qed simp

lemma valid_utf8_join:
  "valid_utf8 sep \<Longrightarrow> \<forall>p \<in> set ps. valid_utf8 p \<Longrightarrow> valid_utf8 (join_with sep ps)"
  by (induction sep ps rule: join_with.induct) (auto simp: valid_utf8_append)

lemma escape_ascii_utf8: "byte c < 128 \<Longrightarrow> \<forall>d \<in> set (escape_ascii c). byte d < 128"
proof -
  have "byte (hex_char n) < 128" if "n < 16" for n
    using that by (auto simp: hex_char_def byte_char_of)
  moreover assume "byte c < 128"
  ultimately show ?thesis by (auto simp: escape_ascii_def byte_def)
qed

lemma valid_utf8_quote: "valid_utf8 (quote_body s)"
proof (induction s rule: sanitize.induct)
  case (2 c cs)
  obtain r w where rw: "decodeRune (c # cs) = (r, w)" by fastforce
  note IH = 2 [OF rw [symmetric] refl]
  show ?case
  proof (cases "byte c < 128")
    case True
    with rw have "w = 1" by (simp add: decodeRune_ascii)
    with True IH valid_utf8_ascii [OF escape_ascii_utf8 [OF True]] show ?thesis
      by (simp add: quote_with.simps(2) valid_utf8_append)
  next
    case False
    let ?rest = "quote_body (drop w (c # cs))"
    have rest: "valid_utf8 ?rest" using IH .
    have "valid_utf8 ((CHR 0x5C # ''ufffd'') @ ?rest)" "valid_utf8 ((CHR 0x5C # ''u2028'') @ ?rest)"
      "valid_utf8 ((CHR 0x5C # ''u2029'') @ ?rest)"
      by (rule valid_utf8_append [THEN iffD2, OF _ rest],
          simp add: valid_utf8_ascii byte_def)+
    moreover have "\<not> (r = runeError \<and> w = 1) \<Longrightarrow> valid_utf8 (take w (c # cs) @ ?rest)"
      using valid_utf8_rune [OF rw] rest by blast
    ultimately show ?thesis
      unfolding quote_with.simps(2) rw Let_def prod.case if_not_P [OF False]
      by (simp only: if_distrib [of "\<lambda>s. valid_utf8 (s @ ?rest)"] split: if_split) blast
  qed
qed simp

text \<open>Documents without numbers.\<close>

fun numberless :: "json \<Rightarrow> bool" where
  "numberless (JScalar s) \<longleftrightarrow> (case s of SNum n \<Rightarrow> False | _ \<Rightarrow> True)"
| "numberless (JArr vs) \<longleftrightarrow> (\<forall>v \<in> set vs. numberless v)"
| "numberless (JObj ms) \<longleftrightarrow> (\<forall>(k, v) \<in> set ms. numberless v)"

lemma numberless_tokens: "numberless v \<Longrightarrow> \<forall>t \<in> set (tokens_of v). \<forall>n. t \<noteq> TScalar (SNum n)"
proof (induction v rule: tokens_of.induct)
  case (2 vs)
  then show ?case using set_join_with [of "[TComma]" "map tokens_of vs"] by fastforce
next
  case (3 ms)
  have "\<forall>t \<in> set (member_tokens m). \<forall>n. t \<noteq> TScalar (SNum n)" if "m \<in> set ms" for m
    using 3 that by (cases m) (fastforce simp: member_tokens_def)
  then have "\<forall>t \<in> set (object_tokens ms). \<forall>n. t \<noteq> TScalar (SNum n)"
    using set_join_with [of "[TComma]" "map member_tokens ms"] by fastforce
  then show ?case by simp
qed (auto split: scalar.splits)

lemma valid_utf8_render: "numberless v \<Longrightarrow> valid_utf8 (render v)"
proof -
  have "valid_utf8 (token_text t)" if "\<forall>n. t \<noteq> TScalar (SNum n)" for t
  proof (cases t)
    case (TScalar x)
    have "valid_utf8 (CHR 0x22 # quote_body s @ [CHR 0x22])" for s
      by (simp add: valid_utf8_ascii_Cons valid_utf8_append [OF valid_utf8_quote] byte_def)
    with that TScalar show ?thesis by (cases x) (auto simp: valid_utf8_ascii byte_def)
  qed (simp_all add: valid_utf8_ascii byte_def)
  then have "valid_utf8 (concat (map token_text ts))" if "\<forall>t \<in> set ts. \<forall>n. t \<noteq> TScalar (SNum n)" for ts
    using that by (induction ts) (auto simp: valid_utf8_append)
  then show "numberless v \<Longrightarrow> ?thesis" using numberless_tokens by (simp add: render_def)
qed

lemma numberless_filter: "numberless (filter_json f)"
proof (induction f)
  case (FilterExpr predicate logic children)
  have "numberless (value_json v)" for v by (simp add: value_json_def)
  then have "numberless (predicate_json p)" for p
    by (simp add: predicate_json_def nil_list_def)
  with FilterExpr show ?case by (auto simp: omit_empty_def split: option.splits)
qed

end
