(* ===== verification/HttpAdapter.thy ===== *)
theory HttpAdapter
  imports StrictEntry "HOL-Library.AList"
begin

text \<open>
  \<open>adapters/http/http.go\<close>: the parser of the conventional query string, with the parts of \<open>net/url\<close>
  it relies on. A \<open>url.Values\<close> is the list of its entries; the source ranges over it in any order,
  and so does the model: the first failing entry decides only that there is an error.
\<close>

section \<open>net/url\<close>

text \<open>\<open>url.QueryUnescape\<close>.\<close>

fun queryUnescape :: "string \<Rightarrow> string option" where
  "queryUnescape [] = Some []"
| "queryUnescape (c # cs) =
     (if c = CHR ''%'' then
        (case cs of
           a # b # rest \<Rightarrow>
             (case (hex_value a, hex_value b) of
                (Some x, Some y) \<Rightarrow> map_option ((#) (char_of (16 * x + y))) (queryUnescape rest)
              | _ \<Rightarrow> None)
         | _ \<Rightarrow> None)
      else map_option ((#) (if c = CHR ''+'' then CHR '' '' else c)) (queryUnescape cs))"

type_synonym url_values = "(string \<times> string list) list"

definition addValue :: "string \<Rightarrow> string \<Rightarrow> url_values \<Rightarrow> url_values" where
  "addValue key value m =
     AList.update key ((case map_of m key of None \<Rightarrow> [] | Some vs \<Rightarrow> vs) @ [value]) m"

text \<open>One piece between ampersands; the flag is false once there was an error.\<close>

definition parsePiece :: "string \<Rightarrow> url_values \<times> bool \<Rightarrow> url_values \<times> bool" where
  "parsePiece piece = (\<lambda>(m, valid).
     if CHR '';'' \<in> set piece then (m, False)
     else if piece = [] then (m, valid)
     else
       (case queryUnescape (takeWhile (\<lambda>c. c \<noteq> CHR ''='') piece) of
          None \<Rightarrow> (m, False)
        | Some key \<Rightarrow>
            (case queryUnescape (drop 1 (dropWhile (\<lambda>c. c \<noteq> CHR ''='') piece)) of
               None \<Rightarrow> (m, False)
             | Some value \<Rightarrow> (addValue key value m, valid))))"

text \<open>\<open>url.ParseQuery\<close>; \<open>maxParams\<close> is the limit of the installed release on the number of pieces.\<close>

definition parseQuery :: "nat \<Rightarrow> string \<Rightarrow> url_values option" where
  "parseQuery maxParams query =
     (if count_list query (CHR ''&'') + 1 > maxParams then None
      else
        let (m, valid) = fold parsePiece (split_on (CHR ''&'') query) ([], True)
        in if valid then Some m else None)"

section \<open>Components\<close>

definition supported :: "string list" where
  "supported =
     [''schema_revision'', ''fields'', ''include'', ''filter'', ''sort'', ''page[mode]'',
      ''page[size]'', ''page[after]'', ''page[before]'', ''page[offset]'']"

definition one :: "url_values \<Rightarrow> string \<Rightarrow> string option" where
  "one values name = map_option hd (map_of values name)"

definition commaList :: "string \<Rightarrow> string list option" where
  "commaList value =
     (if value = [] then Some []
      else
        let items = split_on (CHR '','') value
        in if list_all (\<lambda>item. item \<noteq> []) items then Some items else None)"

definition sortItem :: "string \<Rightarrow> SortTerm option" where
  "sortItem item =
     (let (direction, item) =
            (case item of
               c # rest \<Rightarrow> if c = CHR ''-'' then (Descending, rest) else (Ascending, item)
             | [] \<Rightarrow> (Ascending, item))
      in if item = [] then None
         else Some \<lparr>st_Name = item, st_Direction = direction, st_Nulls = []\<rparr>)"

definition sortList :: "string \<Rightarrow> SortTerm list option" where
  "sortList value = Option.bind (commaList value) (\<lambda>items. those (map sortItem items))"

definition pageText ::
  "url_values \<Rightarrow> string \<Rightarrow> (string \<Rightarrow> PageRequest \<Rightarrow> PageRequest) \<Rightarrow> PageRequest \<Rightarrow> PageRequest" where
  "pageText values name put page = (case one values name of None \<Rightarrow> page | Some value \<Rightarrow> put value page)"

definition pageInt ::
  "url_values \<Rightarrow> string \<Rightarrow> (int \<Rightarrow> PageRequest \<Rightarrow> PageRequest) \<Rightarrow> PageRequest \<Rightarrow> PageRequest option" where
  "pageInt values name put page =
     (case one values name of
        None \<Rightarrow> Some page
      | Some value \<Rightarrow>
          (case atoi value of None \<Rightarrow> None | Some parsed \<Rightarrow> Some (put parsed page)))"

text \<open>The two integers are read in the random order of a map; they are independent.\<close>

definition parsePage :: "url_values \<Rightarrow> PageRequest \<Rightarrow> PageRequest option" where
  "parsePage values page =
     (let page = pageText values ''page[mode]'' (\<lambda>x p. p\<lparr>pg_Mode := x\<rparr>) page;
          page = pageText values ''page[after]'' (\<lambda>x p. p\<lparr>pg_After := x\<rparr>) page;
          page = pageText values ''page[before]'' (\<lambda>x p. p\<lparr>pg_Before := x\<rparr>) page
      in Option.bind (pageInt values ''page[size]'' (\<lambda>x p. p\<lparr>pg_Size := x\<rparr>) page)
           (pageInt values ''page[offset]'' (\<lambda>x p. p\<lparr>pg_Offset := x\<rparr>)))"

section \<open>Parse\<close>

datatype http_error = Http_ErrInvalid

text \<open>A component that is present is parsed and put into the request.\<close>

definition component ::
  "url_values \<Rightarrow> string \<Rightarrow> (string \<Rightarrow> 'a option) \<Rightarrow> ('a \<Rightarrow> Request \<Rightarrow> Request) \<Rightarrow>
   Request \<Rightarrow> Request option" where
  "component values name parse put request =
     (case one values name of
        None \<Rightarrow> Some request
      | Some value \<Rightarrow>
          (case parse value of None \<Rightarrow> None | Some parsed \<Rightarrow> Some (put parsed request)))"

definition validEntry :: "string \<times> string list \<Rightarrow> bool" where
  "validEntry = (\<lambda>(name, entries).
     \<not> (name \<notin> set supported \<or> length entries \<noteq> 1 \<or> \<not> valid_utf8 (entries ! 0)))"

text \<open>The components in the order of \<open>Parse\<close>, each into the request so far.\<close>

definition readRequest ::
  "'f float_std \<Rightarrow> 't time_std \<Rightarrow> int \<Rightarrow> url_values \<Rightarrow> Request option" where
  "readRequest fl tm maxBytes values =
     Option.bind (component values ''schema_revision'' Some
       (\<lambda>x r. r\<lparr>rq_SchemaRevision := Some x\<rparr>) zeroRequest) (\<lambda>request.
     Option.bind (component values ''fields'' commaList
       (\<lambda>x r. r\<lparr>rq_Fields := Some x\<rparr>) request) (\<lambda>request.
     Option.bind (component values ''include'' commaList
       (\<lambda>x r. r\<lparr>rq_Includes := Some x\<rparr>) request) (\<lambda>request.
     Option.bind (component values ''filter''
       (\<lambda>value. strictResult value maxBytes (dec_filter fl tm True) zeroFilter)
       (\<lambda>x r. r\<lparr>rq_Filter := Some x\<rparr>) request) (\<lambda>request.
     Option.bind (component values ''sort'' sortList
       (\<lambda>x r. r\<lparr>rq_Sorts := Some x\<rparr>) request) (\<lambda>request.
     map_option (\<lambda>page. request\<lparr>rq_Page := page\<rparr>) (parsePage values (rq_Page request)))))))"

definition Parse_http ::
  "nat \<Rightarrow> 'f float_std \<Rightarrow> 't time_std \<Rightarrow> string \<Rightarrow> int \<Rightarrow> http_error + Request" where
  "Parse_http maxParams fl tm rawQuery maxBytes =
     (if maxBytes \<le> 0 \<or> int (length rawQuery) > maxBytes \<or> \<not> valid_utf8 rawQuery
      then Inl Http_ErrInvalid
      else
        (case parseQuery maxParams rawQuery of
           None \<Rightarrow> Inl Http_ErrInvalid
         | Some values \<Rightarrow>
             if \<not> list_all validEntry values then Inl Http_ErrInvalid
             else
               (case readRequest fl tm maxBytes values of
                  None \<Rightarrow> Inl Http_ErrInvalid
                | Some request \<Rightarrow> Inr request)))"

end
