(* ===== verification/HttpCorrect.thy ===== *)
theory HttpCorrect
  imports HttpAdapter
begin

text \<open>
  What a query string means: its decoded pairs, and the request that a set of single-valued
  parameters stands for, stated without the parser; and that \<open>Parse\<close> computes exactly this.
\<close>

section \<open>Pairs\<close>

definition piecePair :: "string \<Rightarrow> (string \<times> string) option" where
  "piecePair piece =
     (if CHR '';'' \<in> set piece then None
      else Option.bind (queryUnescape (takeWhile (\<lambda>c. c \<noteq> CHR ''='') piece)) (\<lambda>key.
        map_option (Pair key) (queryUnescape (drop 1 (dropWhile (\<lambda>c. c \<noteq> CHR ''='') piece)))))"

definition queryPairs :: "string \<Rightarrow> (string \<times> string) list option" where
  "queryPairs raw =
     those (map piecePair (filter (\<lambda>p. p \<noteq> []) (split_on (CHR ''&'') raw)))"

definition grouped :: "(string \<times> string) list \<Rightarrow> url_values" where
  "grouped ps = fold (\<lambda>(k, v). addValue k v) ps []"

lemma parsePiece_pair:
  "parsePiece piece (m, valid) =
     (if piece = [] then (m, valid)
      else case piecePair piece of None \<Rightarrow> (m, False) | Some (k, v) \<Rightarrow> (addValue k v m, valid))"
  by (auto simp: parsePiece_def piecePair_def split: option.splits bind_splits)

lemma fold_parsePiece:
  "case fold parsePiece pieces (m, valid) of (m', valid') \<Rightarrow>
     (case those (map piecePair (filter (\<lambda>p. p \<noteq> []) pieces)) of
        None \<Rightarrow> \<not> valid'
      | Some ps \<Rightarrow> valid' = valid \<and> m' = fold (\<lambda>(k, v). addValue k v) ps m)"
proof (induction pieces arbitrary: m valid)
  case (Cons p pieces)
  show ?case
  proof (cases "p = [] \<or> piecePair p = None")
    case True
    with Cons [where m = m and valid = valid] Cons [where m = m and valid = False] show ?thesis
      by (auto simp: parsePiece_pair split: option.splits prod.splits)
  next
    case False
    then obtain k v where "p \<noteq> []" "piecePair p = Some (k, v)" by auto
    with Cons [where m = "addValue k v m" and valid = valid] show ?thesis
      by (auto simp: parsePiece_pair split: option.splits prod.splits)
  qed
qed simp

lemma parseQuery_pairs:
  "parseQuery maxParams raw = Some m \<longleftrightarrow>
     count_list raw (CHR ''&'') < maxParams \<and> (\<exists>ps. queryPairs raw = Some ps \<and> m = grouped ps)"
  using fold_parsePiece [where pieces = "split_on (CHR ''&'') raw" and m = "[]" and valid = True]
  by (cases "fold parsePiece (split_on (CHR ''&'') raw) ([], True)")
    (auto simp: parseQuery_def queryPairs_def grouped_def split: option.splits)

lemma update_new_key: "k \<notin> fst ` set al \<Longrightarrow> AList.update k v al = al @ [(k, v)]"
  by (induction al) auto

lemma grouped_distinct: "distinct (map fst ps) \<Longrightarrow> grouped ps = map (\<lambda>(k, v). (k, [v])) ps"
proof -
  have "fold (\<lambda>(k, v). addValue k v) qs (map (\<lambda>(k, v). (k, [v])) rs) = map (\<lambda>(k, v). (k, [v])) (rs @ qs)"
    if "distinct (map fst (rs @ qs))" for qs rs :: "(string \<times> string) list"
    using that
  proof (induction qs arbitrary: rs)
    case (Cons p qs)
    obtain k v where p: "p = (k, v)" by fastforce
    have fresh: "k \<notin> fst ` set (map (\<lambda>(k, v). (k, [v])) rs)"
      using Cons.prems p by (auto simp: image_image case_prod_beta)
    then have "map_of (map (\<lambda>(k, v). (k, [v])) rs) k = None" by (simp add: map_of_eq_None_iff)
    then have "addValue k v (map (\<lambda>(k, v). (k, [v])) rs) = map (\<lambda>(k, v). (k, [v])) (rs @ [p])"
      using fresh by (simp add: addValue_def update_new_key p)
    then show ?case using Cons.IH [of "rs @ [p]"] Cons.prems p by simp
  qed simp
  from this [of "[]" ps] show "distinct (map fst ps) \<Longrightarrow> ?thesis" by (simp add: grouped_def)
qed

lemma grouped_lookup:
  "map_of (grouped ps) k =
     (let vs = map snd (filter (\<lambda>p. fst p = k) ps) in if vs = [] then None else Some vs)"
proof (induction ps rule: rev_induct)
  case (snoc p ps)
  obtain k' v where "p = (k', v)" by fastforce
  with snoc show ?case
    by (auto simp: grouped_def addValue_def update_conv Let_def split: option.splits if_splits)
qed (simp add: grouped_def)

lemma validEntries_grouped:
  "list_all validEntry (grouped ps) \<longleftrightarrow>
     distinct (map fst ps) \<and> (\<forall>(k, v) \<in> set ps. k \<in> set supported \<and> valid_utf8 v)"
proof
  assume valid: "list_all validEntry (grouped ps)"
  have single: "length (filter (\<lambda>p. fst p = k) ps) \<le> 1" for k
  proof (cases "filter (\<lambda>p. fst p = k) ps")
    case (Cons p qs)
    then have "map_of (grouped ps) k = Some (map snd (p # qs))" by (simp add: grouped_lookup)
    then have "validEntry (k, map snd (p # qs))"
      using valid by (auto simp: list_all_iff dest: map_of_SomeD)
    with Cons show ?thesis by (simp add: validEntry_def)
  qed simp
  have "distinct (map fst ps)"
    using single
  proof (induction ps)
    case (Cons p ps)
    have "length (filter (\<lambda>q. fst q = k) ps) \<le> 1" for k
      using Cons.prems [of k] by (auto split: if_splits)
    moreover have "filter (\<lambda>q. fst q = fst p) ps = []" using Cons.prems [of "fst p"] by simp
    then have "fst p \<notin> set (map fst ps)" by (auto simp: filter_empty_conv)
    ultimately show ?case using Cons.IH by simp
  qed simp
  moreover from valid have "\<forall>(k, v) \<in> set ps. k \<in> set supported \<and> valid_utf8 v"
    unfolding grouped_distinct [OF calculation] by (auto simp: list_all_iff validEntry_def)
  ultimately show "distinct (map fst ps) \<and> (\<forall>(k, v) \<in> set ps. k \<in> set supported \<and> valid_utf8 v)"
    by blast
next
  assume "distinct (map fst ps) \<and> (\<forall>(k, v) \<in> set ps. k \<in> set supported \<and> valid_utf8 v)"
  then show "list_all validEntry (grouped ps)"
    by (auto simp: grouped_distinct list_all_iff validEntry_def)
qed

lemma one_grouped: "distinct (map fst ps) \<Longrightarrow> one (grouped ps) name = map_of ps name"
proof -
  have "map_option hd (map_of (map (\<lambda>(k, v). (k, [v])) qs) name) = map_of qs name"
    for qs :: "(string \<times> string) list"
    by (induction qs) auto
  then show "distinct (map fst ps) \<Longrightarrow> ?thesis" by (simp add: one_def grouped_distinct)
qed

section \<open>Meaning\<close>

text \<open>A list parameter, a sort parameter, and the integers, as relations between text and value.\<close>

definition comma_text :: "string \<Rightarrow> string list \<Rightarrow> bool" where
  "comma_text value items \<longleftrightarrow>
     value = join_with '','' items \<and> (\<forall>item \<in> set items. item \<noteq> [] \<and> CHR '','' \<notin> set item)"

definition sort_item_text :: "SortTerm \<Rightarrow> string" where
  "sort_item_text t = (if st_Direction t = Descending then ''-'' @ st_Name t else st_Name t)"

definition sort_item_ok :: "SortTerm \<Rightarrow> bool" where
  "sort_item_ok t \<longleftrightarrow> st_Nulls t = [] \<and> st_Name t \<noteq> [] \<and> CHR '','' \<notin> set (st_Name t) \<and>
     (st_Direction t = Descending \<or> st_Direction t = Ascending \<and> hd (st_Name t) \<noteq> CHR ''-'')"

definition sort_param :: "string \<Rightarrow> SortTerm list \<Rightarrow> bool" where
  "sort_param value ts \<longleftrightarrow>
     value = join_with '','' (map sort_item_text ts) \<and> (\<forall>t \<in> set ts. sort_item_ok t)"

definition filter_param :: "'f float_std \<Rightarrow> 't time_std \<Rightarrow> int \<Rightarrow> string \<Rightarrow> FilterExpr \<Rightarrow> bool" where
  "filter_param fl tm maxBytes value f \<longleftrightarrow>
     value \<noteq> [] \<and> int (length value) \<le> maxBytes \<and>
     (\<exists>v. json_parse value = Some v \<and> unique_names v \<and> json_depth v \<le> maxDepth \<and>
        dec_filter fl tm True v zeroFilter = Some f)"

definition optional :: "('a \<Rightarrow> 'b \<Rightarrow> bool) \<Rightarrow> 'a option \<Rightarrow> 'b option \<Rightarrow> bool" where
  "optional rel x y \<longleftrightarrow>
     (case x of None \<Rightarrow> y = None | Some a \<Rightarrow> (case y of None \<Rightarrow> False | Some b \<Rightarrow> rel a b))"

definition defaulted :: "'b \<Rightarrow> ('a \<Rightarrow> 'b \<Rightarrow> bool) \<Rightarrow> 'a option \<Rightarrow> 'b \<Rightarrow> bool" where
  "defaulted zero rel x y \<longleftrightarrow> (case x of None \<Rightarrow> y = zero | Some a \<Rightarrow> rel a y)"

text \<open>The request that the parameters \<open>look\<close> stand for.\<close>

definition http_meaning ::
  "'f float_std \<Rightarrow> 't time_std \<Rightarrow> int \<Rightarrow> (string \<Rightarrow> string option) \<Rightarrow> Request \<Rightarrow> bool" where
  "http_meaning fl tm maxBytes look r \<longleftrightarrow>
     rq_SchemaRevision r = look ''schema_revision'' \<and>
     optional comma_text (look ''fields'') (rq_Fields r) \<and>
     optional comma_text (look ''include'') (rq_Includes r) \<and>
     optional (filter_param fl tm maxBytes) (look ''filter'') (rq_Filter r) \<and>
     optional sort_param (look ''sort'') (rq_Sorts r) \<and>
     defaulted [] (=) (look ''page[mode]'') (pg_Mode (rq_Page r)) \<and>
     defaulted [] (=) (look ''page[after]'') (pg_After (rq_Page r)) \<and>
     defaulted [] (=) (look ''page[before]'') (pg_Before (rq_Page r)) \<and>
     defaulted 0 (\<lambda>value x. atoi value = Some x) (look ''page[size]'') (pg_Size (rq_Page r)) \<and>
     defaulted 0 (\<lambda>value x. atoi value = Some x) (look ''page[offset]'') (pg_Offset (rq_Page r))"

lemma comma_items:
  assumes "\<forall>item \<in> set items. item \<noteq> [] \<and> CHR '','' \<notin> set item"
  shows "join_with '','' items = [] \<longleftrightarrow> items = []"
    and "items \<noteq> [] \<Longrightarrow> split_on (CHR '','') (join_with '','' items) = items"
proof -
  show "items \<noteq> [] \<Longrightarrow> split_on (CHR '','') (join_with '','' items) = items"
    using assms by (intro split_join) auto
  show "join_with '','' items = [] \<longleftrightarrow> items = []"
    using assms by (cases items; cases "tl items") auto
qed

lemma commaList_text: "commaList value = Some items \<longleftrightarrow> comma_text value items"
proof
  assume run: "commaList value = Some items"
  show "comma_text value items"
  proof (cases "value = []")
    case True
    with run show ?thesis by (simp add: commaList_def comma_text_def)
  next
    case False
    with run have "items = split_on (CHR '','') value" "\<forall>item \<in> set items. item \<noteq> []"
      by (auto simp: commaList_def Let_def list_all_iff split: if_splits)
    then show ?thesis
      using join_split [of "CHR '',''" "value"] split_on_parts [of _ "CHR '',''" "value"]
      by (auto simp: comma_text_def)
  qed
next
  assume text': "comma_text value items"
  then have "\<forall>item \<in> set items. item \<noteq> [] \<and> CHR '','' \<notin> set item" "value = join_with '','' items"
    by (simp_all add: comma_text_def)
  with comma_items [OF this(1)] show "commaList value = Some items"
    by (auto simp: commaList_def Let_def list_all_iff)
qed

lemma sortItem_text:
  assumes "CHR '','' \<notin> set item" and "item \<noteq> []"
  shows "sortItem item = Some t \<longleftrightarrow> sort_item_text t = item \<and> sort_item_ok t"
proof (cases item)
  case (Cons c rest)
  have order: "Ascending \<noteq> Descending" by simp
  show ?thesis
  proof (cases "c = CHR ''-''")
    case True
    with Cons assms show ?thesis
      by (cases t; cases "st_Name t")
        (auto simp: sortItem_def sort_item_text_def sort_item_ok_def split: if_splits)
  next
    case False
    with Cons assms show ?thesis
      by (cases t) (auto simp: sortItem_def sort_item_text_def sort_item_ok_def split: if_splits)
  qed
qed (use assms in simp)

lemma those_map_list_all2: "those (map f xs) = Some ys \<longleftrightarrow> list_all2 (\<lambda>x y. f x = Some y) xs ys"
  by (induction xs arbitrary: ys) (auto simp: list_all2_Cons1 split: option.splits)

lemma sort_item_text_plain:
  "sort_item_ok t \<Longrightarrow> sort_item_text t \<noteq> [] \<and> CHR '','' \<notin> set (sort_item_text t)"
  by (auto simp: sort_item_ok_def sort_item_text_def)

lemma sortList_text: "sortList value = Some ts \<longleftrightarrow> sort_param value ts"
proof -
  have "sortList value = Some ts \<longleftrightarrow>
      (\<exists>items. comma_text value items \<and> list_all2 (\<lambda>x y. sortItem x = Some y) items ts)"
    by (auto simp: sortList_def those_map_list_all2 commaList_text [symmetric] split: bind_splits)
  also have "\<dots> \<longleftrightarrow> (\<exists>items. comma_text value items \<and>
      list_all2 (\<lambda>x y. sort_item_text y = x \<and> sort_item_ok y) items ts)"
    using sortItem_text unfolding comma_text_def list_all2_conv_all_nth by (metis nth_mem)
  also have "\<dots> \<longleftrightarrow> sort_param value ts"
  proof -
    have "list_all2 (\<lambda>x y. sort_item_text y = x \<and> sort_item_ok y) items ts \<longleftrightarrow>
        items = map sort_item_text ts \<and> (\<forall>t \<in> set ts. sort_item_ok t)" for items
      by (induction ts arbitrary: items) (auto simp: list_all2_Cons2)
    then show ?thesis
      using sort_item_text_plain by (auto simp: sort_param_def comma_text_def)
  qed
  finally show ?thesis .
qed

lemma component_optional:
  assumes "distinct (map fst ps)" and "\<And>v y. parse v = Some y \<longleftrightarrow> rel v y"
    and "\<And>y. put y r = upd (Some y) r" and "upd None r = r"
  shows "component (grouped ps) name parse put r = Some r' \<longleftrightarrow>
    (\<exists>x. optional rel (map_of ps name) x \<and> r' = upd x r)"
proof (cases "map_of ps name")
  case None
  then show ?thesis
    using assms(4) by (auto simp: component_def one_grouped [OF assms(1)] optional_def)
next
  case (Some v)
  then show ?thesis
    using assms(2,3)
    by (auto simp: component_def one_grouped [OF assms(1)] optional_def split: option.splits)
      (metis option.inject option.distinct(1) option.exhaust)+
qed

lemma filter_result: "strictResult x maxBytes (dec_filter fl tm True) zeroFilter = Some f \<longleftrightarrow>
    filter_param fl tm maxBytes x f"
  by (simp add: strictResult_iff filter_param_def)

lemma parsePage_meaning:
  assumes "distinct (map fst ps)"
  shows "parsePage (grouped ps) zeroPage = Some page \<longleftrightarrow>
    defaulted [] (=) (map_of ps ''page[mode]'') (pg_Mode page) \<and>
    defaulted [] (=) (map_of ps ''page[after]'') (pg_After page) \<and>
    defaulted [] (=) (map_of ps ''page[before]'') (pg_Before page) \<and>
    defaulted 0 (\<lambda>value x. atoi value = Some x) (map_of ps ''page[size]'') (pg_Size page) \<and>
    defaulted 0 (\<lambda>value x. atoi value = Some x) (map_of ps ''page[offset]'') (pg_Offset page)"
  unfolding parsePage_def pageText_def pageInt_def one_grouped [OF assms] defaulted_def zeroPage_def
  by (cases page)
    (auto simp: Let_def split: option.splits bind_splits)

lemma ex_image: "(\<exists>y. (\<exists>x. P x \<and> y = f x) \<and> Q y) \<longleftrightarrow> (\<exists>x. P x \<and> Q (f x))"
  by blast

lemma readRequest_meaning:
  assumes dist: "distinct (map fst ps)"
  shows "readRequest fl tm maxBytes (grouped ps) = Some r \<longleftrightarrow>
    http_meaning fl tm maxBytes (map_of ps) r"
proof -
  note step = component_optional [OF dist]
  have revision: "component (grouped ps) ''schema_revision'' Some
      (\<lambda>x r. r\<lparr>rq_SchemaRevision := Some x\<rparr>) zeroRequest = Some r' \<longleftrightarrow>
      r' = zeroRequest\<lparr>rq_SchemaRevision := map_of ps ''schema_revision''\<rparr>" for r'
    by (auto simp: component_def one_grouped [OF dist] zeroRequest_def split: option.splits)
  have fields: "rq_Fields r = None \<Longrightarrow> component (grouped ps) ''fields'' commaList
      (\<lambda>x r. r\<lparr>rq_Fields := Some x\<rparr>) r = Some r' \<longleftrightarrow>
      (\<exists>x. optional comma_text (map_of ps ''fields'') x \<and> r' = r\<lparr>rq_Fields := x\<rparr>)" for r r'
    by (rule step) (simp_all add: commaList_text)
  have includes': "rq_Includes r = None \<Longrightarrow> component (grouped ps) ''include'' commaList
      (\<lambda>x r. r\<lparr>rq_Includes := Some x\<rparr>) r = Some r' \<longleftrightarrow>
      (\<exists>x. optional comma_text (map_of ps ''include'') x \<and> r' = r\<lparr>rq_Includes := x\<rparr>)" for r r'
    by (rule step) (simp_all add: commaList_text)
  have filters: "rq_Filter r = None \<Longrightarrow> component (grouped ps) ''filter''
      (\<lambda>value. strictResult value maxBytes (dec_filter fl tm True) zeroFilter)
      (\<lambda>x r. r\<lparr>rq_Filter := Some x\<rparr>) r = Some r' \<longleftrightarrow>
      (\<exists>x. optional (filter_param fl tm maxBytes) (map_of ps ''filter'') x \<and> r' = r\<lparr>rq_Filter := x\<rparr>)"
    for r r'
    by (rule step) (simp_all add: filter_result)
  have sorts: "rq_Sorts r = None \<Longrightarrow> component (grouped ps) ''sort'' sortList
      (\<lambda>x r. r\<lparr>rq_Sorts := Some x\<rparr>) r = Some r' \<longleftrightarrow>
      (\<exists>x. optional sort_param (map_of ps ''sort'') x \<and> r' = r\<lparr>rq_Sorts := x\<rparr>)" for r r'
    by (rule step) (simp_all add: sortList_text)
  have "readRequest fl tm maxBytes (grouped ps) = Some r \<longleftrightarrow>
      (\<exists>a b c d page. optional comma_text (map_of ps ''fields'') a \<and>
         optional comma_text (map_of ps ''include'') b \<and>
         optional (filter_param fl tm maxBytes) (map_of ps ''filter'') c \<and>
         optional sort_param (map_of ps ''sort'') d \<and>
         parsePage (grouped ps) zeroPage = Some page \<and>
         r = \<lparr>rq_SchemaRevision = map_of ps ''schema_revision'', rq_Fields = a, rq_Includes = b,
              rq_Filter = c, rq_Sorts = d, rq_Page = page\<rparr>)"
    unfolding readRequest_def bind_eq_Some_conv revision
    by (simp add: zeroRequest_def fields includes' filters sorts ex_image) blast
  also have "\<dots> \<longleftrightarrow> http_meaning fl tm maxBytes (map_of ps) r"
    unfolding parsePage_meaning [OF dist] http_meaning_def by (cases r) auto
  finally show ?thesis .
qed

lemma Parse_http_meaning:
  "Parse_http maxParams fl tm raw maxBytes = Inr r \<longleftrightarrow>
     0 < maxBytes \<and> int (length raw) \<le> maxBytes \<and> valid_utf8 raw \<and>
     count_list raw (CHR ''&'') < maxParams \<and>
     (\<exists>ps. queryPairs raw = Some ps \<and> distinct (map fst ps) \<and>
        (\<forall>(k, v) \<in> set ps. k \<in> set supported \<and> valid_utf8 v) \<and>
        http_meaning fl tm maxBytes (map_of ps) r)"
proof (cases "0 < maxBytes \<and> int (length raw) \<le> maxBytes \<and> valid_utf8 raw \<and>
    (\<exists>ps. parseQuery maxParams raw = Some (grouped ps) \<and> queryPairs raw = Some ps \<and>
      list_all validEntry (grouped ps))")
  case True
  then obtain ps where query: "parseQuery maxParams raw = Some (grouped ps)"
    and pairs: "queryPairs raw = Some ps" and valid: "list_all validEntry (grouped ps)"
    by blast
  then have dist: "distinct (map fst ps)"
    and entries: "\<forall>(k, v) \<in> set ps. k \<in> set supported \<and> valid_utf8 v"
    and count: "count_list raw (CHR ''&'') < maxParams"
    by (auto simp: validEntries_grouped parseQuery_pairs)
  show ?thesis
    using True query pairs dist entries count readRequest_meaning [OF dist, of fl tm maxBytes r]
    by (auto simp: Parse_http_def split: option.splits)
next
  case False
  then have "Parse_http maxParams fl tm raw maxBytes = Inl Http_ErrInvalid"
    by (auto simp: Parse_http_def parseQuery_pairs split: option.split)
  with False show ?thesis
    by (auto simp: parseQuery_pairs validEntries_grouped)
qed

end
