(* ===== verification/HttpProperties.thy ===== *)
theory HttpProperties
  imports HttpCorrect JsonProperties
begin

text \<open>
  The properties of the HTTP parser: what an accepted query string is, and that every request that
  the conventional representation can express is read back from it unchanged.
\<close>

section \<open>Meaning\<close>

text \<open>
  C11: \<open>Parse\<close> accepts a query string exactly when it is within its bounds and valid
  UTF-8, decodes into pairs with supported and pairwise distinct names (an escaped duplicate counts)
  and valid values, and the values of these parameters stand for a request, which is the result:
  comma lists without empty items, sort items with an optional minus sign and no null order, a filter
  document that the strict decoder accepts, and decimal integers.
\<close>

theorem Http_meaning:
  "Parse_http maxParams fl tm raw maxBytes = Inr r \<longleftrightarrow>
     0 < maxBytes \<and> int (length raw) \<le> maxBytes \<and> valid_utf8 raw \<and>
     count_list raw (CHR ''&'') < maxParams \<and>
     (\<exists>ps. queryPairs raw = Some ps \<and> distinct (map fst ps) \<and>
        (\<forall>(k, v) \<in> set ps. k \<in> set supported \<and> valid_utf8 v) \<and>
        http_meaning fl tm maxBytes (map_of ps) r)"
  by (rule Parse_http_meaning)

definition sampleQuery :: string where
  "sampleQuery = ''sort=-created%2Cid&page[size]=20''"

definition sampleOrder :: "SortTerm list" where
  "sampleOrder =
     [\<lparr>st_Name = ''created'', st_Direction = Descending, st_Nulls = []\<rparr>,
      \<lparr>st_Name = ''id'', st_Direction = Ascending, st_Nulls = []\<rparr>]"

theorem Http_meaning_witness:
  "Parse_http 10 sampleFloat sampleTime sampleQuery 100 =
     Inr (zeroRequest\<lparr>rq_Sorts := Some sampleOrder, rq_Page := zeroPage\<lparr>pg_Size := 20\<rparr>\<rparr>)"
proof -
  let ?ps = "[(''sort'', ''-created,id''), (''page[size]'', ''20'')]"
  let ?r = "zeroRequest\<lparr>rq_Sorts := Some sampleOrder, rq_Page := zeroPage\<lparr>pg_Size := 20\<rparr>\<rparr>"
  have raw: "int (length sampleQuery) \<le> 100" "count_list sampleQuery (CHR ''&'') < 10"
    "queryPairs sampleQuery = Some ?ps"
    by code_simp+
  have utf8: "valid_utf8 sampleQuery" "valid_utf8 ''-created,id''" "valid_utf8 ''20''"
    by (simp_all add: valid_utf8_ascii byte_def sampleQuery_def)
  have entries: "distinct (map fst ?ps)" "\<forall>(k, v) \<in> set ?ps. k \<in> set supported \<and> valid_utf8 v"
    using utf8 by (simp_all add: supported_def)
  have "sortList ''-created,id'' = Some sampleOrder" "formatInt 20 = ''20''" by code_simp+
  moreover have "in_int64 20" by (simp add: in_int64_def minInt_def maxInt_def)
  ultimately have "sortList ''-created,id'' = Some sampleOrder" "atoi ''20'' = Some 20"
    using parseInt_formatInt [of 20] by (simp_all add: atoi_def)
  then have "http_meaning sampleFloat sampleTime 100 (map_of ?ps) ?r"
    by (simp add: http_meaning_def sortList_text zeroRequest_def zeroPage_def optional_def
        defaulted_def)
  with raw(3) entries have pairs: "\<exists>ps. queryPairs sampleQuery = Some ps \<and> distinct (map fst ps) \<and>
      (\<forall>(k, v) \<in> set ps. k \<in> set supported \<and> valid_utf8 v) \<and>
      http_meaning sampleFloat sampleTime 100 (map_of ps) ?r"
    by blast
  show ?thesis
    unfolding Http_meaning by (intro conjI pairs raw(1,2) utf8(1)) simp
qed

section \<open>Representation\<close>

text \<open>\<open>url.QueryEscape\<close>, and the query string of a list of parameters.\<close>

definition unreserved :: "char \<Rightarrow> bool" where
  "unreserved c \<longleftrightarrow> is_digit_char c \<or> in_bytes 65 90 c \<or> in_bytes 97 122 c \<or>
     c = CHR ''-'' \<or> c = CHR ''_'' \<or> c = CHR ''.'' \<or> c = CHR ''~''"

definition hex_upper :: "nat \<Rightarrow> char" where
  "hex_upper n = (if n < 10 then char_of (48 + n) else char_of (55 + n))"

definition escape_byte :: "char \<Rightarrow> string" where
  "escape_byte c =
     (if unreserved c then [c] else if c = CHR '' '' then ''+''
      else [CHR ''%'', hex_upper (byte c div 16), hex_upper (byte c mod 16)])"

definition queryEscape :: "string \<Rightarrow> string" where
  "queryEscape s = concat (map escape_byte s)"

definition http_query :: "(string \<times> string) list \<Rightarrow> string" where
  "http_query ps = join_with ''&'' (map (\<lambda>(k, v). queryEscape k @ ''='' @ queryEscape v) ps)"

lemma hex_upper_value: "n < 16 \<Longrightarrow> hex_value (hex_upper n) = Some n"
  by (auto simp: hex_upper_def hex_value_def byte_char_of Let_def)

lemma escape_byte_chars:
  "d \<in> set (escape_byte c) \<Longrightarrow>
   byte d < 128 \<and> d \<noteq> CHR ''&'' \<and> d \<noteq> CHR ''='' \<and> d \<noteq> CHR '';''"
proof -
  have hex: "in_bytes 48 57 (hex_upper n) \<or> in_bytes 65 70 (hex_upper n)" if "n < 16" for n
    using that by (auto simp: hex_upper_def in_bytes_def byte_char_of)
  have no: "\<not> in_bytes 48 57 e \<and> \<not> in_bytes 65 70 e \<and> \<not> in_bytes 65 90 e \<and> \<not> in_bytes 97 122 e"
    if "e = CHR ''&'' \<or> e = CHR ''='' \<or> e = CHR '';''" for e
    using that by (auto simp: in_bytes_def byte_def)
  have "byte c div 16 < 16" "byte c mod 16 < 16" using byte_less [of c] by auto
  note hexes = hex [OF this(1)] hex [OF this(2)]
  assume d: "d \<in> set (escape_byte c)"
  then consider "d = c" "unreserved c" | "d = CHR ''+''" | "d = CHR ''%''"
    | "in_bytes 48 57 d \<or> in_bytes 65 70 d"
    using hexes by (auto simp: escape_byte_def split: if_splits)
  then show ?thesis
  proof cases
    case 1
    then have "c \<noteq> CHR ''&'' \<and> c \<noteq> CHR ''='' \<and> c \<noteq> CHR '';''"
      using no [of c] by (auto simp: unreserved_def is_digit_char_def)
    with 1 show ?thesis
      by (auto simp: unreserved_def is_digit_char_def in_bytes_def byte_def)
  next
    case 4
    with no [of d] have "d \<noteq> CHR ''&'' \<and> d \<noteq> CHR ''='' \<and> d \<noteq> CHR '';''" by blast
    with 4 show ?thesis by (auto simp: in_bytes_def)
  qed (simp_all add: byte_def)
qed

lemma queryEscape_chars:
  "d \<in> set (queryEscape s) \<Longrightarrow> byte d < 128 \<and> d \<noteq> CHR ''&'' \<and> d \<noteq> CHR ''='' \<and> d \<noteq> CHR '';''"
  using escape_byte_chars by (auto simp: queryEscape_def)

lemma unescape_escape: "queryUnescape (queryEscape s) = Some s"
proof (induction s)
  case (Cons c s)
  have "char_of (16 * (byte c div 16) + byte c mod 16) = c"
    by (simp add: byte_def)
  moreover have "byte c div 16 < 16" "byte c mod 16 < 16" using byte_less [of c] by auto
  moreover have "unreserved c \<Longrightarrow> c \<noteq> CHR ''%'' \<and> c \<noteq> CHR ''+''"
    by (auto simp: unreserved_def is_digit_char_def in_bytes_def byte_def)
  ultimately show ?case
    using Cons by (auto simp: queryEscape_def escape_byte_def hex_upper_value)
qed (simp add: queryEscape_def)

lemma piecePair_query: "piecePair (queryEscape k @ CHR ''='' # queryEscape v) = Some (k, v)"
proof -
  have "takeWhile (\<lambda>c. c \<noteq> CHR ''='') (queryEscape k @ CHR ''='' # queryEscape v) = queryEscape k"
    "dropWhile (\<lambda>c. c \<noteq> CHR ''='') (queryEscape k @ CHR ''='' # queryEscape v) =
       CHR ''='' # queryEscape v"
    using queryEscape_chars [of _ k] by (simp_all add: takeWhile_append2 dropWhile_append2)
  moreover have "CHR '';'' \<notin> set (queryEscape k @ CHR ''='' # queryEscape v)"
    using queryEscape_chars by auto
  ultimately show ?thesis by (simp add: piecePair_def unescape_escape)
qed

lemma http_query_pairs:
  "queryPairs (http_query ps) = Some ps"
  "ps \<noteq> [] \<Longrightarrow> Suc (count_list (http_query ps) (CHR ''&'')) = length ps"
  "\<forall>c \<in> set (http_query ps). byte c < 128"
proof -
  let ?pieces = "map (\<lambda>(k, v). queryEscape k @ CHR ''='' # queryEscape v) ps"
  have query: "http_query ps = join_with ''&'' ?pieces" by (simp add: http_query_def)
  have no: "CHR ''&'' \<notin> set p" if "p \<in> set ?pieces" for p
    using that queryEscape_chars by fastforce
  have split: "split_on (CHR ''&'') (http_query ps) = ?pieces" if "ps \<noteq> []"
    unfolding query using that no by (intro split_join) auto
  have "those (map piecePair ?pieces) = Some ps"
    by (induction ps) (auto simp: piecePair_query)
  moreover have "filter (\<lambda>p. p \<noteq> []) ?pieces = ?pieces"
    by (auto simp: filter_id_conv)
  ultimately show "queryPairs (http_query ps) = Some ps"
    using split by (cases "ps = []") (auto simp: queryPairs_def http_query_def)
  show "Suc (count_list (http_query ps) (CHR ''&'')) = length ps" if "ps \<noteq> []"
    using split [OF that] length_split_on [of "CHR ''&''" "http_query ps"] by simp
  have "byte d < 128" if "d \<in> set p" "p \<in> set ?pieces" for d p
    using that queryEscape_chars by (auto simp: byte_def)
  moreover have "byte (CHR ''&'') < 128" by (simp add: byte_def)
  ultimately show "\<forall>c \<in> set (http_query ps). byte c < 128"
    unfolding query using set_join_with [of "''&''" ?pieces] by fastforce
qed

end
