(* ===== verification/RpcAdapter.thy ===== *)
theory RpcAdapter
  imports StrictEntry
begin

text \<open>
  \<open>adapters/jsonrpc/jsonrpc.go\<close>: the JSON-RPC parameters, their strict decoding, and the request they
  stand for. A nil pointer is \<open>None\<close>; a nil and an empty slice behind a pointer are not told apart,
  neither here nor by the request.
\<close>

record Params =
  pm_SchemaRevision :: "string option"
  pm_Fields :: "string list option"
  pm_Includes :: "string list option"
  pm_Filter :: "FilterExpr option"
  pm_Sorts :: "SortTerm list option"
  pm_Page :: "PageRequest option"

definition zeroParams :: Params where
  "zeroParams =
     \<lparr>pm_SchemaRevision = None, pm_Fields = None, pm_Includes = None, pm_Filter = None,
      pm_Sorts = None, pm_Page = None\<rparr>"

text \<open>The struct tags of \<open>Params\<close>, as \<open>encoding/json\<close> reads them.\<close>

definition params_names :: "string list" where
  "params_names = [''schema_revision'', ''fields'', ''includes'', ''filter'', ''sorts'', ''page'']"

definition params_field ::
  "'f float_std \<Rightarrow> 't time_std \<Rightarrow> string \<Rightarrow> json \<Rightarrow> Params \<Rightarrow> Params option" where
  "params_field fl tm n j p =
     (if n = ''schema_revision'' then
        map_option (\<lambda>x. p\<lparr>pm_SchemaRevision := x\<rparr>) (dec_pointer dec_string [] j (pm_SchemaRevision p))
      else if n = ''fields'' then
        map_option (\<lambda>x. p\<lparr>pm_Fields := x\<rparr>)
          (dec_pointer (dec_list dec_string []) [] j (pm_Fields p))
      else if n = ''includes'' then
        map_option (\<lambda>x. p\<lparr>pm_Includes := x\<rparr>)
          (dec_pointer (dec_list dec_string []) [] j (pm_Includes p))
      else if n = ''filter'' then
        map_option (\<lambda>x. p\<lparr>pm_Filter := x\<rparr>)
          (dec_pointer (dec_filter fl tm True) zeroFilter j (pm_Filter p))
      else if n = ''sorts'' then
        map_option (\<lambda>x. p\<lparr>pm_Sorts := x\<rparr>)
          (dec_pointer (dec_list (dec_sort True) zeroSort) [] j (pm_Sorts p))
      else
        map_option (\<lambda>x. p\<lparr>pm_Page := x\<rparr>)
          (dec_pointer (dec_page True) zeroPage j (pm_Page p)))"

definition dec_params :: "'f float_std \<Rightarrow> 't time_std \<Rightarrow> Params decoder" where
  "dec_params fl tm = dec_struct True params_names (params_field fl tm)"

datatype rpc_error = Rpc_ErrInvalid

definition Parse_rpc ::
  "'f float_std \<Rightarrow> 't time_std \<Rightarrow> string \<Rightarrow> int \<Rightarrow> rpc_error + Params" where
  "Parse_rpc fl tm data maxBytes =
     (case strictResult data maxBytes (dec_params fl tm) zeroParams of
        None \<Rightarrow> Inl Rpc_ErrInvalid
      | Some params \<Rightarrow> Inr params)"

fun cloneFilter_rpc :: "FilterExpr \<Rightarrow> FilterExpr" where
  "cloneFilter_rpc (FilterExpr predicate logic children) =
     FilterExpr
       (map_option
         (\<lambda>p. \<lparr>pr_Name = pr_Name p, pr_Operator = pr_Operator p, pr_Values = pr_Values p\<rparr>)
         predicate)
       logic (map cloneFilter_rpc children)"

lemma cloneFilter_rpc_id [simp]: "cloneFilter_rpc f = f"
proof (induction f)
  case (FilterExpr predicate logic children)
  then have "map cloneFilter_rpc children = children" by (simp add: map_idI)
  then show ?case by (cases predicate) simp_all
qed

definition Params_Request :: "Params \<Rightarrow> Request" where
  "Params_Request p =
     (let request = zeroRequest\<lparr>rq_Filter := map_option cloneFilter_rpc (pm_Filter p)\<rparr>;
          request = (case pm_SchemaRevision p of None \<Rightarrow> request
            | Some x \<Rightarrow> request\<lparr>rq_SchemaRevision := Some x\<rparr>);
          request = (case pm_Fields p of None \<Rightarrow> request | Some x \<Rightarrow> request\<lparr>rq_Fields := Some x\<rparr>);
          request = (case pm_Includes p of None \<Rightarrow> request | Some x \<Rightarrow> request\<lparr>rq_Includes := Some x\<rparr>);
          request = (case pm_Sorts p of None \<Rightarrow> request | Some x \<Rightarrow> request\<lparr>rq_Sorts := Some x\<rparr>)
      in case pm_Page p of None \<Rightarrow> request | Some x \<Rightarrow> request\<lparr>rq_Page := x\<rparr>)"

section \<open>The OpenRPC descriptor\<close>

text \<open>A \<open>map[string]any\<close> is a JSON object; the order of its members stands for any order.\<close>

record ContentDescriptor =
  cd_Name :: string
  cd_Required :: bool
  cd_Schema :: json

definition type_schema :: "string \<Rightarrow> json" where
  "type_schema t = JObj [(''type'', JStr t)]"

definition list_schema :: "string \<Rightarrow> json" where
  "list_schema t = JObj [(''type'', JStr ''array''), (''items'', type_schema t)]"

definition OpenRPCContentDescriptor :: ContentDescriptor where
  "OpenRPCContentDescriptor =
     \<lparr>cd_Name = ''query'', cd_Required = False,
      cd_Schema = JObj
        [(''type'', JStr ''object''), (''additionalProperties'', JBool False),
         (''properties'', JObj
           [(''schema_revision'', type_schema ''string''),
            (''fields'', list_schema ''string''),
            (''includes'', list_schema ''string''),
            (''filter'', type_schema ''object''),
            (''sorts'', type_schema ''array''),
            (''page'', type_schema ''object'')])]\<rparr>"

end
