(* ===== verification/TransportProperties.thy ===== *)
theory TransportProperties
  imports HttpProperties RpcAdapter
begin

text \<open>
  The two transports that carry a whole request: for each a writer, which stands for the client, and
  the proof that its parser reads the request back.
\<close>

section \<open>Requests that can be sent\<close>

definition utf8_texts :: "string list option \<Rightarrow> bool" where
  "utf8_texts xs \<longleftrightarrow> (case xs of None \<Rightarrow> True | Some ys \<Rightarrow> \<forall>y \<in> set ys. valid_utf8 y)"

definition utf8_page :: "PageRequest \<Rightarrow> bool" where
  "utf8_page p \<longleftrightarrow> valid_utf8 (pg_Mode p) \<and> valid_utf8 (pg_After p) \<and> valid_utf8 (pg_Before p) \<and>
     in_int64 (pg_Size p) \<and> in_int64 (pg_Offset p)"

text \<open>
  The texts are UTF-8, the integers are \<open>int\<close>s, the values are typed, and the filter is at most 30
  levels high, which keeps its document within the 64 levels of the strict decoder.
\<close>

definition sendable :: "'f float_std \<Rightarrow> 't time_std \<Rightarrow> Request \<Rightarrow> bool" where
  "sendable fl tm r \<longleftrightarrow>
     (case rq_SchemaRevision r of None \<Rightarrow> True | Some x \<Rightarrow> valid_utf8 x) \<and>
     utf8_texts (rq_Fields r) \<and> utf8_texts (rq_Includes r) \<and>
     (case rq_Filter r of None \<Rightarrow> True
      | Some f \<Rightarrow> utf8_filter f \<and> typed_filter fl tm f \<and> filter_height f \<le> 30) \<and>
     (case rq_Sorts r of None \<Rightarrow> True | Some ts \<Rightarrow> \<forall>t \<in> set ts. utf8_sort t) \<and>
     utf8_page (rq_Page r)"

text \<open>What the query string can express of it: items without commas, sorts without null order.\<close>

definition comma_free :: "string list option \<Rightarrow> bool" where
  "comma_free xs \<longleftrightarrow> (case xs of None \<Rightarrow> True
     | Some ys \<Rightarrow> \<forall>y \<in> set ys. y \<noteq> [] \<and> CHR '','' \<notin> set y)"

definition http_expressible :: "Request \<Rightarrow> bool" where
  "http_expressible r \<longleftrightarrow> comma_free (rq_Fields r) \<and> comma_free (rq_Includes r) \<and>
     (case rq_Sorts r of None \<Rightarrow> True | Some ts \<Rightarrow> \<forall>t \<in> set ts. sort_item_ok t)"

section \<open>The query string of a request\<close>

definition param :: "string \<Rightarrow> string option \<Rightarrow> (string \<times> string) list" where
  "param name x = (case x of None \<Rightarrow> [] | Some v \<Rightarrow> [(name, v)])"

definition http_params :: "Request \<Rightarrow> (string \<times> string) list" where
  "http_params r =
     param ''schema_revision'' (rq_SchemaRevision r) @
     param ''fields'' (map_option (join_with '','') (rq_Fields r)) @
     param ''include'' (map_option (join_with '','') (rq_Includes r)) @
     param ''filter'' (map_option (\<lambda>f. render (filter_json f)) (rq_Filter r)) @
     param ''sort'' (map_option (\<lambda>ts. join_with '','' (map sort_item_text ts)) (rq_Sorts r)) @
     [(''page[mode]'', pg_Mode (rq_Page r)), (''page[after]'', pg_After (rq_Page r)),
      (''page[before]'', pg_Before (rq_Page r)),
      (''page[size]'', formatInt (pg_Size (rq_Page r))),
      (''page[offset]'', formatInt (pg_Offset (rq_Page r)))]"

lemma param_lookup [simp]:
  "map_of (param n x) k = (if k = n then x else None)"
  "fst ` set (param n x) = (if x = None then {} else {n})"
  "distinct (map fst (param n x))"
  "(k, v) \<in> set (param n x) \<longleftrightarrow> k = n \<and> x = Some v"
  by (auto simp: param_def split: option.split)

lemma http_params_lookup:
  "map_of (http_params r) ''schema_revision'' = rq_SchemaRevision r"
  "map_of (http_params r) ''fields'' = map_option (join_with '','') (rq_Fields r)"
  "map_of (http_params r) ''include'' = map_option (join_with '','') (rq_Includes r)"
  "map_of (http_params r) ''filter'' = map_option (\<lambda>f. render (filter_json f)) (rq_Filter r)"
  "map_of (http_params r) ''sort'' =
     map_option (\<lambda>ts. join_with '','' (map sort_item_text ts)) (rq_Sorts r)"
  "map_of (http_params r) ''page[mode]'' = Some (pg_Mode (rq_Page r))"
  "map_of (http_params r) ''page[after]'' = Some (pg_After (rq_Page r))"
  "map_of (http_params r) ''page[before]'' = Some (pg_Before (rq_Page r))"
  "map_of (http_params r) ''page[size]'' = Some (formatInt (pg_Size (rq_Page r)))"
  "map_of (http_params r) ''page[offset]'' = Some (formatInt (pg_Offset (rq_Page r)))"
  by (simp_all add: http_params_def map_add_def split: option.split)

lemma http_params_names:
  "distinct (map fst (http_params r))" "fst ` set (http_params r) \<subseteq> set supported"
  "length (http_params r) \<le> 10" "http_params r \<noteq> []"
proof -
  show "distinct (map fst (http_params r))"
    unfolding http_params_def by (simp add: image_Un)
  show "fst ` set (http_params r) \<subseteq> set supported"
    unfolding http_params_def by (auto simp: supported_def)
  have "length (param n x) \<le> 1" for n x by (simp add: param_def split: option.split)
  from this [of "''schema_revision''" "rq_SchemaRevision r"]
    this [of "''fields''" "map_option (join_with '','') (rq_Fields r)"]
    this [of "''include''" "map_option (join_with '','') (rq_Includes r)"]
    this [of "''filter''" "map_option (\<lambda>f. render (filter_json f)) (rq_Filter r)"]
    this [of "''sort''" "map_option (\<lambda>ts. join_with '','' (map sort_item_text ts)) (rq_Sorts r)"]
  show "length (http_params r) \<le> 10" by (simp add: http_params_def)
qed (simp add: http_params_def)

lemma valid_utf8_formatInt: "valid_utf8 (formatInt x)"
  using digits_ascii by (auto simp: formatInt_def byte_def [of "CHR ''-''"] intro!: valid_utf8_ascii)

lemma http_params_utf8:
  assumes "sendable fl tm r"
  shows "\<forall>(k, v) \<in> set (http_params r). valid_utf8 v"
proof -
  have comma: "valid_utf8 '',''" by (simp add: valid_utf8_ascii byte_def)
  have item: "utf8_sort t \<Longrightarrow> valid_utf8 (sort_item_text t)" for t
    using valid_utf8_ascii_Cons [of "CHR ''-''" "st_Name t"]
    by (auto simp: utf8_sort_def sort_item_text_def byte_def)
  show ?thesis
    using assms comma item numberless_filter
    by (auto simp: http_params_def sendable_def utf8_texts_def utf8_page_def valid_utf8_formatInt
        intro!: valid_utf8_join valid_utf8_render)
qed

lemma http_params_meaning:
  assumes send: "sendable fl tm r" and "http_expressible r"
    and size: "\<forall>f. rq_Filter r = Some f \<longrightarrow> int (length (render (filter_json f))) \<le> maxBytes"
  shows "http_meaning fl tm maxBytes (map_of (http_params r)) r"
proof -
  have lists: "optional comma_text (map_option (join_with '','') xs) xs" if "comma_free xs" for xs
    using that by (auto simp: comma_free_def optional_def comma_text_def split: option.splits)
  have ints: "in_int64 x \<Longrightarrow> atoi (formatInt x) = Some x" for x
    by (simp add: atoi_def parseInt_formatInt)
  have "filter_param fl tm maxBytes (render (filter_json f)) f" if f: "rq_Filter r = Some f" for f
  proof -
    have "utf8_filter f" "typed_filter fl tm f" "filter_height f \<le> 30"
      using send f by (auto simp: sendable_def)
    moreover have "json_depth (filter_json f) \<le> maxDepth"
      using depth_filter [of f] calculation(3) by (simp add: maxDepth_def)
    ultimately have "strictResult (render (filter_json f)) maxBytes (dec_filter fl tm True) zeroFilter =
        Some f"
      using size f by (simp add: strictResult_render clean_filter dec_filter_json)
    then show ?thesis by (simp add: filter_result)
  qed
  then have "optional (filter_param fl tm maxBytes) (map_option (\<lambda>f. render (filter_json f)) (rq_Filter r))
      (rq_Filter r)"
    by (auto simp: optional_def split: option.splits)
  moreover have "optional sort_param
      (map_option (\<lambda>ts. join_with '','' (map sort_item_text ts)) (rq_Sorts r)) (rq_Sorts r)"
    using assms(2) by (auto simp: optional_def http_expressible_def sort_param_def split: option.splits)
  ultimately show ?thesis
    using assms(2) send ints
    by (simp add: http_meaning_def http_params_lookup lists http_expressible_def sendable_def
        utf8_page_def defaulted_def)
qed

lemma length_join: "p \<in> set ps \<Longrightarrow> length p \<le> length (join_with sep ps)"
  by (induction sep ps rule: join_with.induct) auto

lemma length_queryEscape: "length s \<le> length (queryEscape s)"
proof (induction s)
  case (Cons c s)
  have "1 \<le> length (escape_byte c)" by (simp add: escape_byte_def)
  with Cons show ?case by (simp add: queryEscape_def)
qed simp

lemma length_http_query:
  assumes "(k, v) \<in> set ps"
  shows "length v \<le> length (http_query ps)"
proof -
  have "queryEscape k @ ''='' @ queryEscape v \<in> set (map (\<lambda>(k, v). queryEscape k @ ''='' @ queryEscape v) ps)"
    using assms by force
  from length_join [OF this, of "''&''"] length_queryEscape [of v] show ?thesis
    by (simp add: http_query_def)
qed

lemma http_reads:
  assumes "sendable fl tm r" and "http_expressible r" and "10 \<le> maxParams"
    and raw: "int (length (http_query (http_params r))) \<le> maxBytes"
  shows "Parse_http maxParams fl tm (http_query (http_params r)) maxBytes = Inr r"
proof -
  let ?ps = "http_params r"
  have size: "\<forall>f. rq_Filter r = Some f \<longrightarrow> int (length (render (filter_json f))) \<le> maxBytes"
  proof (intro allI impI)
    fix f
    assume "rq_Filter r = Some f"
    then have "map_of ?ps ''filter'' = Some (render (filter_json f))" by (simp add: http_params_lookup)
    then show "int (length (render (filter_json f))) \<le> maxBytes"
      using length_http_query [OF map_of_SomeD] raw by fastforce
  qed
  have "http_query ?ps \<noteq> []"
    using http_query_pairs(1) [of ?ps] http_params_names(4) [of r]
    by (auto simp: queryPairs_def)
  then have "0 < maxBytes" using raw by (cases "http_query ?ps") auto
  moreover have "valid_utf8 (http_query ?ps)"
    using http_query_pairs(3) by (rule valid_utf8_ascii)
  moreover have "count_list (http_query ?ps) (CHR ''&'') < maxParams"
    using http_query_pairs(2) [OF http_params_names(4)] http_params_names(3) [of r] assms(3)
    by (metis Suc_le_lessD order.trans)
  moreover have "\<forall>(k, v) \<in> set ?ps. k \<in> set supported \<and> valid_utf8 v"
    using http_params_utf8 [OF assms(1)] http_params_names(2) [of r] by fastforce
  ultimately show ?thesis
    unfolding Parse_http_meaning
    using raw http_query_pairs(1) http_params_names(1) http_params_meaning [OF assms(1,2) size]
    by blast
qed

section \<open>The parameters of a request\<close>

definition page_json :: "PageRequest \<Rightarrow> json" where
  "page_json p =
     JObj [(''mode'', JStr (pg_Mode p)), (''size'', JNum (formatInt (pg_Size p))),
           (''after'', JStr (pg_After p)), (''before'', JStr (pg_Before p)),
           (''offset'', JNum (formatInt (pg_Offset p)))]"

definition opt_member :: "string \<Rightarrow> ('a \<Rightarrow> json) \<Rightarrow> 'a option \<Rightarrow> (string \<times> json) list" where
  "opt_member name f x = (case x of None \<Rightarrow> [] | Some y \<Rightarrow> [(name, f y)])"

definition array_json :: "('a \<Rightarrow> json) \<Rightarrow> 'a list \<Rightarrow> json" where
  "array_json f xs = JArr (map f xs)"

definition rpc_document :: "Request \<Rightarrow> json" where
  "rpc_document r =
     JObj (opt_member ''schema_revision'' JStr (rq_SchemaRevision r) @
           opt_member ''fields'' (array_json JStr) (rq_Fields r) @
           opt_member ''includes'' (array_json JStr) (rq_Includes r) @
           opt_member ''filter'' filter_json (rq_Filter r) @
           opt_member ''sorts'' (array_json sort_json) (rq_Sorts r) @
           [(''page'', page_json (rq_Page r))])"

definition rpc_params :: "Request \<Rightarrow> Params" where
  "rpc_params r =
     \<lparr>pm_SchemaRevision = rq_SchemaRevision r, pm_Fields = rq_Fields r,
      pm_Includes = rq_Includes r, pm_Filter = rq_Filter r, pm_Sorts = rq_Sorts r,
      pm_Page = Some (rq_Page r)\<rparr>"

lemma dec_list_array:
  "(\<forall>x \<in> set xs. dec (f x) zero = Some x) \<Longrightarrow> dec_list dec zero (array_json f xs) old = Some xs"
proof -
  assume "\<forall>x \<in> set xs. dec (f x) zero = Some x"
  then have "those (map (\<lambda>v. dec v zero) (map f xs)) = Some xs" by (induction xs) auto
  then show ?thesis by (simp add: dec_list_def array_json_def)
qed

lemma dec_page_json:
  assumes "utf8_page p"
  shows "dec_page strict (page_json p) old = Some p"
proof -
  have "parseInt 64 (formatInt (pg_Size p)) = Some (pg_Size p)"
    "parseInt 64 (formatInt (pg_Offset p)) = Some (pg_Offset p)"
    using assms by (simp_all add: utf8_page_def parseInt_formatInt)
  then show ?thesis
    by (cases p) (simp add: dec_page_def dec_struct_def page_json_def match_exact page_field_def
        dec_int_def)
qed

lemma dec_members_append:
  "dec_members strict names field (ms @ ns) s =
     Option.bind (dec_members strict names field ms s) (dec_members strict names field ns)"
  by (induction strict names field ms s rule: dec_members.induct)
    (auto split: option.splits bind_splits)

lemma dec_opt_member:
  assumes "name \<in> set names" and "\<And>y. x = Some y \<Longrightarrow> field name (f y) s = Some (put x)"
    and "x = None \<Longrightarrow> put x = s"
  shows "dec_members strict names field (opt_member name f x) s = Some (put x)"
  using assms by (auto simp: opt_member_def match_exact split: option.split)

lemma dec_rpc_document:
  assumes "sendable fl tm r"
  shows "dec_params fl tm (rpc_document r) zeroParams = Some (rpc_params r)"
proof -
  let ?dec = "dec_members True params_names (params_field fl tm)"
  have str: "dec_list dec_string [] (array_json JStr xs) old = Some xs" for xs old
    by (rule dec_list_array) simp
  have srt: "dec_list (dec_sort True) zeroSort (array_json sort_json ts) old = Some ts" for ts old
    by (rule dec_list_array) (simp add: dec_sort_json)
  have flt: "dec_filter fl tm True (filter_json f) zeroFilter = Some f" if "rq_Filter r = Some f" for f
    using assms that by (simp add: sendable_def dec_filter_json)
  have shape: "array_json g ys = JArr (map g ys)" for g :: "'y \<Rightarrow> json" and ys
    by (simp add: array_json_def)
  have revision: "?dec (opt_member ''schema_revision'' JStr (rq_SchemaRevision r)) s =
      Some (s\<lparr>pm_SchemaRevision := rq_SchemaRevision r\<rparr>)" if "pm_SchemaRevision s = None" for s
    by (rule dec_opt_member [where put = "\<lambda>x. s\<lparr>pm_SchemaRevision := x\<rparr>"])
      (use that in \<open>simp_all add: params_names_def params_field_def dec_pointer_def\<close>)
  have fields: "?dec (opt_member ''fields'' (array_json JStr) (rq_Fields r)) s =
      Some (s\<lparr>pm_Fields := rq_Fields r\<rparr>)" if "pm_Fields s = None" for s
    by (rule dec_opt_member [where put = "\<lambda>x. s\<lparr>pm_Fields := x\<rparr>"])
      (use that str in \<open>simp_all add: params_names_def params_field_def dec_pointer_def shape\<close>)
  have includes': "?dec (opt_member ''includes'' (array_json JStr) (rq_Includes r)) s =
      Some (s\<lparr>pm_Includes := rq_Includes r\<rparr>)" if "pm_Includes s = None" for s
    by (rule dec_opt_member [where put = "\<lambda>x. s\<lparr>pm_Includes := x\<rparr>"])
      (use that str in \<open>simp_all add: params_names_def params_field_def dec_pointer_def shape\<close>)
  have filters: "?dec (opt_member ''filter'' filter_json (rq_Filter r)) s =
      Some (s\<lparr>pm_Filter := rq_Filter r\<rparr>)" if "pm_Filter s = None" for s
  proof (rule dec_opt_member [where put = "\<lambda>x. s\<lparr>pm_Filter := x\<rparr>"])
    fix f
    assume f: "rq_Filter r = Some f"
    obtain ms where "filter_json f = JObj ms" by (cases f) auto
    with flt [OF f] have "dec_pointer (dec_filter fl tm True) zeroFilter (filter_json f) None = Some (Some f)"
      by (simp add: dec_pointer_def)
    with that f show "params_field fl tm ''filter'' (filter_json f) s = Some (s\<lparr>pm_Filter := rq_Filter r\<rparr>)"
      by (simp add: params_field_def)
  qed (use that in \<open>simp_all add: params_names_def\<close>)
  have sorts: "?dec (opt_member ''sorts'' (array_json sort_json) (rq_Sorts r)) s =
      Some (s\<lparr>pm_Sorts := rq_Sorts r\<rparr>)" if "pm_Sorts s = None" for s
    by (rule dec_opt_member [where put = "\<lambda>x. s\<lparr>pm_Sorts := x\<rparr>"])
      (use that srt in \<open>simp_all add: params_names_def params_field_def dec_pointer_def shape\<close>)
  have "dec_page True (page_json (rq_Page r)) zeroPage = Some (rq_Page r)"
    using assms by (simp add: sendable_def dec_page_json)
  then have page: "?dec [(''page'', page_json (rq_Page r))] s = Some (s\<lparr>pm_Page := Some (rq_Page r)\<rparr>)"
    if "pm_Page s = None" for s
    using that
    by (simp add: match_exact params_names_def params_field_def dec_pointer_def page_json_def)
  show ?thesis
    by (simp add: dec_params_def dec_struct_def rpc_document_def dec_members_append revision fields
        includes' filters sorts page zeroParams_def rpc_params_def del: dec_members.simps)
qed

lemma rpc_keys [simp]:
  "sanitize ''schema_revision'' = ''schema_revision''" "sanitize ''fields'' = ''fields''"
  "sanitize ''includes'' = ''includes''" "sanitize ''filter'' = ''filter''"
  "sanitize ''sorts'' = ''sorts''" "sanitize ''page'' = ''page''" "sanitize ''mode'' = ''mode''"
  "sanitize ''size'' = ''size''" "sanitize ''after'' = ''after''" "sanitize ''before'' = ''before''"
  "sanitize ''offset'' = ''offset''"
  by (simp_all add: ascii_clean byte_def)

lemma rpc_document_clean:
  assumes "sendable fl tm r"
  shows "clean_json (rpc_document r) = rpc_document r"
proof -
  have member: "map (\<lambda>(k, v). (sanitize k, clean_json v)) (opt_member n f x) = opt_member n f x"
    if "sanitize n = n" "\<forall>y. x = Some y \<longrightarrow> clean_json (f y) = f y" for n x and f :: "'y \<Rightarrow> json"
    using that by (simp add: opt_member_def split: option.split)
  have arr: "clean_json (array_json f xs) = array_json f xs"
    if "\<forall>x \<in> set xs. clean_json (f x) = f x" for xs and f :: "'y \<Rightarrow> json"
    using that by (simp add: array_json_def map_idI)
  have page: "clean_json (page_json (rq_Page r)) = page_json (rq_Page r)"
    using assms by (simp add: page_json_def sendable_def utf8_page_def sanitize_valid)
  have revision: "\<forall>y. rq_SchemaRevision r = Some y \<longrightarrow> clean_json (JStr y) = JStr y"
    and fields: "\<forall>y. rq_Fields r = Some y \<longrightarrow> clean_json (array_json JStr y) = array_json JStr y"
    and includes': "\<forall>y. rq_Includes r = Some y \<longrightarrow> clean_json (array_json JStr y) = array_json JStr y"
    and filters: "\<forall>y. rq_Filter r = Some y \<longrightarrow> clean_json (filter_json y) = filter_json y"
    and sorts: "\<forall>y. rq_Sorts r = Some y \<longrightarrow> clean_json (array_json sort_json y) = array_json sort_json y"
    using assms
    by (auto simp: sendable_def utf8_texts_def sanitize_valid clean_filter intro!: arr clean_sort)
  show ?thesis
    unfolding rpc_document_def clean_json.simps map_append
      member [OF rpc_keys(1) revision] member [OF rpc_keys(2) fields]
      member [OF rpc_keys(3) includes'] member [OF rpc_keys(4) filters]
      member [OF rpc_keys(5) sorts]
    by (simp add: page)
qed

lemma rpc_document_ok:
  assumes "sendable fl tm r"
  shows "numbers_ok (rpc_document r)" "unique_names (rpc_document r)"
    "json_depth (rpc_document r) \<le> maxDepth"
proof -
  have page: "numbers_ok (page_json p)" "unique_names (page_json p)" "json_depth (page_json p) = 2" for p
    by (simp_all add: page_json_def token_ok_def number_text_formatInt)
  have str: "numbers_ok (array_json JStr xs)" "unique_names (array_json JStr xs)"
    "json_depth (array_json JStr xs) \<le> 2" for xs
    by (simp_all add: array_json_def token_ok_def json_depth_arr del: json_depth.simps(2))
  have srt: "numbers_ok (array_json sort_json ts)" "unique_names (array_json sort_json ts)"
    "json_depth (array_json sort_json ts) \<le> 3" for ts
    using depth_sort
    by (auto simp: array_json_def json_depth_arr numeral_3_eq_3 numeral_2_eq_2 simp del: json_depth.simps(2))
  have filters: "json_depth (filter_json f) \<le> 63" if "rq_Filter r = Some f" for f
    using depth_filter [of f] assms that by (simp add: sendable_def)
  have mem: "(k, v) \<in> set (opt_member n g x) \<longleftrightarrow> k = n \<and> (\<exists>y. x = Some y \<and> v = g y)"
    for k v n x and g :: "'y \<Rightarrow> json"
    by (auto simp: opt_member_def split: option.split)
  show "numbers_ok (rpc_document r)"
    using page(1) str(1) srt(1) by (auto simp: rpc_document_def mem token_ok_def)
  have names: "fst ` set (opt_member n g x) = (if x = None then {} else {n})"
    "distinct (map fst (opt_member n g x))" for n x and g :: "'y \<Rightarrow> json"
    by (auto simp: opt_member_def split: option.split)
  show "unique_names (rpc_document r)"
    using page(2) str(2) srt(2) by (auto simp: rpc_document_def mem names)
  have bound: "Suc (json_depth v) \<le> 64" if "(k, v) \<in> set (opt_member ''schema_revision'' JStr (rq_SchemaRevision r) @
      opt_member ''fields'' (array_json JStr) (rq_Fields r) @
      opt_member ''includes'' (array_json JStr) (rq_Includes r) @
      opt_member ''filter'' filter_json (rq_Filter r) @
      opt_member ''sorts'' (array_json sort_json) (rq_Sorts r) @
      [(''page'', page_json (rq_Page r))])" for k v
  proof -
    have "json_depth v \<le> 3 \<or> (\<exists>f. rq_Filter r = Some f \<and> v = filter_json f)"
      using that page(3) srt(3) order.trans [OF str(3), of 3] by (auto simp: mem)
    with filters show ?thesis by fastforce
  qed
  then show "json_depth (rpc_document r) \<le> maxDepth"
    unfolding rpc_document_def json_depth_obj maxDepth_def
    by (intro conjI ballI; simp only: split_paired_all prod.case bound zero_less_numeral)
qed

lemma rpc_reads:
  assumes "sendable fl tm r" and "int (length (render (rpc_document r))) \<le> maxBytes"
  shows "Parse_rpc fl tm (render (rpc_document r)) maxBytes = Inr (rpc_params r)"
  using rpc_document_ok [OF assms(1)] rpc_document_clean [OF assms(1)] assms
  by (simp add: Parse_rpc_def strictResult_render dec_rpc_document)

lemma map_cloneFilter_rpc [simp]: "map_option cloneFilter_rpc x = x"
  by (cases x) simp_all

lemma rpc_params_request: "Params_Request (rpc_params r) = r"
  by (cases r) (simp add: Params_Request_def rpc_params_def zeroRequest_def Let_def split: option.split)

section \<open>Both transports\<close>


definition sampleSent :: Request where
  "sampleSent = zeroRequest
     \<lparr>rq_Fields := Some [''title''], rq_Sorts := Some sampleOrder,
      rq_Filter := Some (FilterExpr
        (Some \<lparr>pr_Name = ''status'', pr_Operator = OpEqual, pr_Values = [StringValue ''50%'']\<rparr>) [] []),
      rq_Page := zeroPage\<lparr>pg_Size := 5\<rparr>\<rparr>"


end
