(* ===== verification/ValidationAdapter.thy ===== *)
theory ValidationAdapter
  imports ApiErrors
begin

text \<open>
  \<open>adapters/validation/validation.go\<close>: query failures as a report of \<open>go-validation\<close>. The paths,
  violations and reports of that package are abstract; the operations the adapter calls are the
  fields of a record. \<open>appendPath\<close> recurses on the rest of the path text.
\<close>

datatype path_segment = Field string | Index int | Key string

record ('p, 'v, 'r, 'l) validation_lib =
  vl_RootPath :: 'p
  vl_Append :: "'p \<Rightarrow> path_segment \<Rightarrow> 'p"
  vl_NewViolation :: "'p \<Rightarrow> string \<Rightarrow> 'v"   \<comment> \<open>severity \<open>Error\<close>, no parameters, no cause\<close>
  vl_NewReport :: "'l \<Rightarrow> 'r"
  vl_Add :: "'r \<Rightarrow> 'v \<Rightarrow> 'r"

text \<open>What \<open>errors.As\<close> finds in an error: the violations of the library, or something else.\<close>

datatype go_error = QueryViolations Violations | OtherError

definition plain_path_char :: "char \<Rightarrow> bool" where
  "plain_path_char c \<longleftrightarrow> c \<noteq> CHR ''.'' \<and> c \<noteq> CHR ''[''"

definition bracket_segment :: "string \<Rightarrow> path_segment" where
  "bracket_segment item = (case atoi item of Some index \<Rightarrow> Index index | None \<Rightarrow> Key item)"

function appendPath :: "('p \<Rightarrow> path_segment \<Rightarrow> 'p) \<Rightarrow> 'p \<Rightarrow> string \<Rightarrow> 'p" where
  "appendPath append' path text' =
     (if text' = [] then path
      else
        let field = takeWhile plain_path_char text' in
        case dropWhile plain_path_char text' of
          [] \<Rightarrow> append' path (Field text')
        | c # remainder \<Rightarrow>
            let path = (if field \<noteq> [] then append' path (Field field) else path) in
            if c = CHR ''.'' then appendPath append' path remainder
            else
              let path = append' path (bracket_segment (takeWhile (\<lambda>d. d \<noteq> CHR '']'') remainder)) in
              (case dropWhile (\<lambda>d. d \<noteq> CHR '']'') remainder of
                 [] \<Rightarrow> path
               | _ # rest \<Rightarrow> appendPath append' path rest))"
  by pat_completeness auto

termination
proof (relation "measure (\<lambda>(append', path, text'). length text')", goal_cases)
  case (3 append' path text' field c remainder path' path'' d rest)
  then have "length rest < length remainder" "length remainder < length text'"
    using dropWhile_shorter by metis+
  then show ?case by simp
qed (auto dest: dropWhile_shorter)

declare appendPath.simps [simp del]

definition parsePath :: "('p, 'v, 'r, 'l) validation_lib \<Rightarrow> string \<Rightarrow> 'p" where
  "parsePath lib text' = appendPath (vl_Append lib) (vl_RootPath lib) text'"

definition Report :: "('p, 'v, 'r, 'l) validation_lib \<Rightarrow> go_error option \<Rightarrow> 'l \<Rightarrow> 'r" where
  "Report lib err limits =
     (let report = vl_NewReport lib limits in
      case err of
        None \<Rightarrow> report
      | Some OtherError \<Rightarrow>
          vl_Add lib report (vl_NewViolation lib (vl_RootPath lib) ''query_error'')
      | Some (QueryViolations items) \<Rightarrow>
          fold (\<lambda>v report.
              vl_Add lib report (vl_NewViolation lib (parsePath lib (vi_Path v)) (vi_Code v)))
            (Violations_Items (Some items)) report)"

section \<open>Correctness\<close>

text \<open>
  The text of a structured path: fields are separated by dots, indexes and keys stand in brackets.
\<close>

definition segment_text :: "bool \<Rightarrow> path_segment \<Rightarrow> string" where
  "segment_text first s =
     (case s of
        Field f \<Rightarrow> (if first then f else CHR ''.'' # f)
      | Index i \<Rightarrow> CHR ''['' # formatInt i @ '']''
      | Key k \<Rightarrow> CHR ''['' # k @ '']'')"

fun path_text :: "bool \<Rightarrow> path_segment list \<Rightarrow> string" where
  "path_text first [] = []"
| "path_text first (s # ss) = segment_text first s @ path_text False ss"

definition segment_ok :: "path_segment \<Rightarrow> bool" where
  "segment_ok s \<longleftrightarrow>
     (case s of
        Field f \<Rightarrow> f \<noteq> [] \<and> (\<forall>c \<in> set f. plain_path_char c)
      | Index i \<Rightarrow> in_int64 i
      | Key k \<Rightarrow> CHR '']'' \<notin> set k \<and> atoi k = None)"

lemma bracket_text:
  assumes "segment_ok s" and "s = Index i \<and> item = formatInt i \<or> s = Key item"
  shows "CHR '']'' \<notin> set item" "bracket_segment item = s"
proof -
  have "CHR '']'' \<notin> set (dec_nat n)" for n
    using dec_nat_digits [of "CHR '']''" n] by (auto simp: is_digit_char_def in_bytes_def byte_def)
  then have "CHR '']'' \<notin> set (formatInt i)" for i by (auto simp: formatInt_def)
  then show "CHR '']'' \<notin> set item" using assms by (auto simp: segment_ok_def)
  show "bracket_segment item = s"
    using assms by (auto simp: bracket_segment_def segment_ok_def atoi_def parseInt_formatInt)
qed

lemma appendPath_bracket:
  assumes "CHR '']'' \<notin> set item"
  shows "appendPath app path (CHR ''['' # item @ CHR '']'' # rest) =
    appendPath app (app path (bracket_segment item)) rest"
proof -
  have "takeWhile (\<lambda>d. d \<noteq> CHR '']'') (item @ CHR '']'' # rest) = item"
    "dropWhile (\<lambda>d. d \<noteq> CHR '']'') (item @ CHR '']'' # rest) = CHR '']'' # rest"
    using assms by (induction item) auto
  then show ?thesis
    by (subst appendPath.simps) (simp add: plain_path_char_def)
qed

lemma path_text_head:
  "path_text False ss = [] \<or> (\<exists>c rest. path_text False ss = c # rest \<and> \<not> plain_path_char c)"
  by (cases ss) (auto simp: segment_text_def plain_path_char_def split: path_segment.splits)

lemma appendPath_field:
  assumes "f \<noteq> []" and "\<forall>c \<in> set f. plain_path_char c"
  shows "appendPath app path (f @ path_text False ss) =
    appendPath app (app path (Field f)) (path_text False ss)"
  using path_text_head [of ss]
proof (elim disjE exE conjE)
  assume none: "path_text False ss = []"
  have "dropWhile plain_path_char f = []" using assms(2) by simp
  then show ?thesis
    unfolding none using assms(1)
    by (simp only: appendPath.simps [of app path f] appendPath.simps [of app _ "[]"] append_Nil2
        Let_def list.case if_False simp_thms if_True)
next
  fix c rest
  assume rest: "path_text False ss = c # rest" "\<not> plain_path_char c"
  have "takeWhile plain_path_char (f @ c # rest) = f" "dropWhile plain_path_char (f @ c # rest) = c # rest"
    using assms(2) rest(2) by (induction f) auto
  then show ?thesis
    unfolding rest using assms(1) rest(2)
    by (simp add: appendPath.simps [of app path "f @ c # rest"] appendPath.simps [of app _ "c # rest"])
qed

lemma appendPath_dot: "appendPath app path (CHR ''.'' # rest) = appendPath app path rest"
  by (subst appendPath.simps) (simp add: plain_path_char_def)

lemma appendPath_text:
  "\<forall>s \<in> set ss. segment_ok s \<Longrightarrow> appendPath app path (path_text first ss) = foldl app path ss"
proof (induction ss arbitrary: first path)
  case Nil
  then show ?case by (simp add: appendPath.simps)
next
  case (Cons s ss)
  show ?case
  proof (cases s)
    case (Field f)
    then have "f \<noteq> []" "\<forall>c \<in> set f. plain_path_char c" using Cons.prems by (simp_all add: segment_ok_def)
    from appendPath_field [OF this, of app path ss] Cons Field show ?thesis
      by (cases first) (simp_all add: segment_text_def appendPath_dot)
  next
    case (Index i)
    then have "segment_ok s" using Cons.prems by simp
    from bracket_text [OF this, of i "formatInt i"] Index Cons show ?thesis
      by (simp add: segment_text_def appendPath_bracket)
  next
    case (Key k)
    then have "segment_ok s" using Cons.prems by simp
    from bracket_text [OF this, of _ k] Key Cons show ?thesis
      by (simp add: segment_text_def appendPath_bracket)
  qed
qed

end
