(* ===== verification/CompileReport.thy ===== *)
theory CompileReport
  imports CompileTrace ValidationAdapter
begin

text \<open>
  Where a rejected compilation points. Each violation is reported at the path of something the
  caller sent or the application configured: a part of the request, an element of one of its lists,
  a node of its filter. Such a path is the text of a structured path, so the report of
  \<open>adapters/validation\<close> locates each violation by segments.
\<close>

section \<open>The violations of a run\<close>

lemma en_items_authorized: "en_col (snd (authorized options kind name e)) = en_col e"
  by (simp add: authorized_def Let_def case_prod_beta split: option.split)

definition reported_at :: "(string \<Rightarrow> bool) \<Rightarrow> 'w env \<Rightarrow> bool" where
  "reported_at P e \<longleftrightarrow> (\<forall>v \<in> set (vc_items (en_col e)). P (vi_Path v))"

lemma reported_at_start: "reported_at P (start_env schema w)"
  by (simp add: reported_at_def start_env_def vc_new_def)

lemma reported_at_add: "reported_at P e \<Longrightarrow> P path \<Longrightarrow> reported_at P (en_add code path message e)"
  by (auto simp: reported_at_def en_add_def vc_add_def)

lemma asking_reported: "asking P schema options e e' \<Longrightarrow> reported_at P e \<Longrightarrow> reported_at P e'"
proof (induction rule: asking.induct)
  case (asking_ask e e' kind name)
  then show ?case by (simp add: reported_at_def en_items_authorized)
qed (simp_all add: reported_at_add)

lemma compileCursor_reported:
  assumes "P ''page''" and "reported_at P e"
  shows "reported_at P (snd (compileCursor schema options (plan, e)))"
proof -
  have failure: "reported_at P (cursorFailure e')" if "reported_at P e'" for e' :: "'a env"
    using that assms(1) by (simp add: cursorFailure_def reported_at_add)
  have "en_col (snd (decode_token options token revision sorts e)) = en_col e" for token revision sorts
    by (simp add: decode_token_def Let_def case_prod_beta split: option.split)
  then have "reported_at P (snd (decode_token options token revision sorts e))"
    for token revision sorts using assms(2) by (simp add: reported_at_def)
  then show ?thesis
    using assms(2) failure
    by (simp add: compileCursor_run Let_def case_prod_beta split: option.split prod.split)
qed

lemma Compile_paths:
  assumes wf: "wf_schema schema" and at: "reports_at P schema request options"
    and run: "fst (Compile (Some schema) request options w) = Inl items"
  shows "\<forall>v \<in> set items. P (vi_Path v)"
proof -
  define st where "st = compileStages schema request options (start_env schema w)"
  have "P ''page''" "P ''query''" using at by (simp_all add: reports_at_def page_paths_def)
  have "reported_at P (snd st)"
    using asking_reported [OF asking_stages [OF wf at] reported_at_start] by (simp add: st_def)
  then have "reported_at P (snd (compileCursor schema options st))"
    using compileCursor_reported [where P = P and e = "snd st" and plan = "fst st"] \<open>P ''page''\<close>
    by simp
  then have "reported_at P (snd (compileAll schema request options (start_env schema w)))"
    unfolding compileAll_stages Let_def case_prod_beta snd_conv st_def [symmetric]
    using \<open>P ''query''\<close> by (simp add: reported_at_add)
  then show ?thesis
    using run unfolding Compile_unfold case_prod_beta Let_def reported_at_def
    by (auto simp: vc_err_Some split: option.splits)
qed

section \<open>Structured paths\<close>

definition node_segments :: "nat list \<Rightarrow> path_segment list" where
  "node_segments is = concat (map (\<lambda>i. [Field ''children'', Index (int i)]) is)"

definition page_fields :: "string list" where
  "page_fields = [''mode'', ''size'', ''offset'', ''after'', ''before'']"

inductive locates :: "Schema \<Rightarrow> Request \<Rightarrow> Constraint list \<Rightarrow> path_segment list \<Rightarrow> bool"
  for schema :: Schema and request :: Request and constraints :: "Constraint list" where
  locates_part:
    "part \<in> {''schema_revision'', ''constraints'', ''fields'', ''includes'', ''sorts'', ''page'', ''query''} \<Longrightarrow>
     locates schema request constraints [Field part]"
| locates_page: "part \<in> set page_fields \<Longrightarrow> locates schema request constraints [Field ''page'', Field part]"
| locates_constraint:
    "i < length constraints \<Longrightarrow> locates schema request constraints [Field ''constraints'', Index (int i)]"
| locates_field:
    "i < length (selected_fields schema (rq_Fields request)) \<Longrightarrow>
     locates schema request constraints [Field ''fields'', Index (int i)]"
| locates_include:
    "i < length (requested_includes (rq_Includes request)) \<Longrightarrow>
     locates schema request constraints [Field ''includes'', Index (int i)]"
| locates_sort:
    "i < length (requested_sorts schema (rq_Sorts request)) \<Longrightarrow>
     locates schema request constraints [Field ''sorts'', Index (int i)]"
| locates_node:
    "rq_Filter request = Some f \<Longrightarrow> node_at f is \<noteq> None \<Longrightarrow>
     locates schema request constraints (Field ''filter'' # node_segments is)"

text \<open>The lists of a request are slices, whose lengths are ints of the language.\<close>

definition slice_ok :: "'a list \<Rightarrow> bool" where
  "slice_ok xs \<longleftrightarrow> int (length xs) \<le> maxInt"

fun node_slices :: "FilterExpr \<Rightarrow> bool" where
  "node_slices (FilterExpr predicate logic children) \<longleftrightarrow>
     slice_ok children \<and> (\<forall>f \<in> set children. node_slices f)"

definition request_slices :: "Schema \<Rightarrow> Request \<Rightarrow> Constraint list \<Rightarrow> bool" where
  "request_slices schema request constraints \<longleftrightarrow>
     slice_ok constraints \<and> slice_ok (selected_fields schema (rq_Fields request)) \<and>
     slice_ok (requested_includes (rq_Includes request)) \<and>
     slice_ok (requested_sorts schema (rq_Sorts request)) \<and>
     (case rq_Filter request of None \<Rightarrow> True | Some f \<Rightarrow> node_slices f)"

lemma slice_index: "slice_ok xs \<Longrightarrow> i < length xs \<Longrightarrow> segment_ok (Index (int i))"
  by (simp add: slice_ok_def segment_ok_def in_int64_def minInt_def)

lemma node_segments_ok:
  "node_at f is \<noteq> None \<Longrightarrow> node_slices f \<Longrightarrow> \<forall>s \<in> set (node_segments is). segment_ok s"
proof (induction f "is" rule: node_at.induct)
  case (2 predicate logic children i "is")
  then have i: "i < length children" by (auto split: if_splits)
  with 2 have "\<forall>s \<in> set (node_segments is). segment_ok s" by simp
  moreover have "segment_ok (Index (int i))" using slice_index [OF _ i] 2(3) by simp
  moreover have "segment_ok (Field ''children'')" by (simp add: segment_ok_def plain_path_char_def)
  ultimately show ?case by (simp add: node_segments_def)
qed (simp add: node_segments_def)

lemma locates_ok:
  assumes "locates schema request constraints ss" and "request_slices schema request constraints"
  shows "\<forall>s \<in> set ss. segment_ok s"
  using assms(1)
proof cases
  case (locates_node f "is")
  then have "\<forall>s \<in> set (node_segments is). segment_ok s"
    using assms(2) by (intro node_segments_ok [of f]) (simp_all add: request_slices_def)
  then show ?thesis using locates_node(1) by (simp add: segment_ok_def plain_path_char_def)
qed (use assms(2) in \<open>auto simp: request_slices_def page_fields_def intro: slice_index,
      auto simp: segment_ok_def plain_path_char_def\<close>)

lemma index_text: "path_text True [Field part, Index (int i)] = indexed_path part i"
  by (simp add: segment_text_def indexed_path_def formatInt_def)

lemma node_text: "path @ path_text False (node_segments is) = node_path path is"
proof (induction "is" arbitrary: path)
  case (Cons i "is")
  have "path @ path_text False (node_segments (i # is)) =
      indexed_path (path @ ''.children'') i @ path_text False (node_segments is)"
    by (simp add: node_segments_def segment_text_def indexed_path_def formatInt_def)
  then show ?case by (simp only: Cons.IH node_path.simps)
qed (simp add: node_segments_def)

definition located :: "Schema \<Rightarrow> Request \<Rightarrow> Constraint list \<Rightarrow> string \<Rightarrow> bool" where
  "located schema request constraints path \<longleftrightarrow>
     (\<exists>ss. locates schema request constraints ss \<and> path = path_text True ss)"

lemma located_part:
  "part \<in> {''schema_revision'', ''constraints'', ''fields'', ''includes'', ''sorts'', ''page'', ''query''} \<Longrightarrow>
   located schema request constraints part"
  unfolding located_def
  by (intro exI [of _ "[Field part]"] conjI locates_part) (auto simp: segment_text_def)

lemma reports_located:
  "reports_at (located schema request (co_MandatoryConstraints options)) schema request options"
proof -
  let ?cs = "co_MandatoryConstraints options"
  have list: "located schema request ?cs (indexed_path part i)"
    if "locates schema request ?cs [Field part, Index (int i)]" for part i
    using that index_text unfolding located_def by metis
  have page: "located schema request ?cs (''page.'' @ part)" if "part \<in> set page_fields" for part
    unfolding located_def
    by (intro exI [of _ "[Field ''page'', Field part]"] conjI locates_page that)
      (simp add: segment_text_def)
  have "located schema request ?cs path" if "path \<in> set page_paths" for path
    using that located_part [of "''page''"] page [of "''mode''"] page [of "''size''"]
      page [of "''offset''"] page [of "''after''"] page [of "''before''"]
    by (auto simp: page_paths_def page_fields_def)
  moreover have "nodes_of (located schema request ?cs) ''filter'' f" if "rq_Filter request = Some f" for f
    unfolding nodes_of_def located_def
  proof (intro allI impI)
    fix "is"
    assume "node_at f is \<noteq> None"
    with that have "locates schema request ?cs (Field ''filter'' # node_segments is)"
      by (rule locates_node)
    moreover have "node_path ''filter'' is = path_text True (Field ''filter'' # node_segments is)"
      by (simp add: segment_text_def node_text [symmetric])
    ultimately show "\<exists>ss. locates schema request ?cs ss \<and> node_path ''filter'' is = path_text True ss"
      by blast
  qed
  ultimately show ?thesis
    unfolding reports_at_def parts_of_def
    by (simp add: located_part list locates_constraint locates_field locates_include locates_sort)
qed

section \<open>The report\<close>

lemma Report_violations:
  assumes "\<forall>v \<in> set items. (\<forall>s \<in> set (segments v). segment_ok s) \<and>
    vi_Path v = path_text True (segments v)"
  shows "Report lib (Some (QueryViolations items)) limits =
      foldl (vl_Add lib) (vl_NewReport lib limits)
        (map (\<lambda>v. vl_NewViolation lib
           (foldl (vl_Append lib) (vl_RootPath lib) (segments v)) (vi_Code v)) items)"
proof -
  have "fold (\<lambda>v r. vl_Add lib r (vl_NewViolation lib (parsePath lib (vi_Path v)) (vi_Code v))) vs r =
      foldl (vl_Add lib) r (map (\<lambda>v. vl_NewViolation lib
        (foldl (vl_Append lib) (vl_RootPath lib) (segments v)) (vi_Code v)) vs)"
    if "set vs \<subseteq> set items" for vs r
    using that
  proof (induction vs arbitrary: r)
    case (Cons v vs)
    then have "vi_Path v = path_text True (segments v)" "\<forall>s \<in> set (segments v). segment_ok s"
      using assms by auto
    then have "parsePath lib (vi_Path v) = foldl (vl_Append lib) (vl_RootPath lib) (segments v)"
      by (simp add: parsePath_def appendPath_text)
    with Cons show ?case by simp
  qed simp
  then show ?thesis by (simp add: Report_def Violations_Items_def)
qed

end
