(* ===== verification/ConformanceSupport.thy ===== *)
theory ConformanceSupport
  imports PlanCanonical ApiCompile ValidationAdapter "HOL-Library.List_Lexorder" "HOL-Library.Char_ord"
begin

text \<open>
  \<open>apiquerytest/apiquerytest.go\<close>: the fixture builders, the assertions and the conformance run that
  adapters are tested with. \<open>t.Fatalf\<close> ends the test: \<open>None\<close>, or \<open>False\<close> where there is no result.
\<close>

section \<open>Builders\<close>

definition zeroPagination :: PaginationDefinition where
  "zeroPagination =
     \<lparr>pd_Cursor = False, pd_Offset = False, pd_DefaultPageSize = 0, pd_MaxOffset = 0\<rparr>"

definition zeroBounds :: Bounds where
  "zeroBounds =
     \<lparr>b_MaxRequestBytes = 0, b_MaxFields = 0, b_MaxIncludes = 0, b_MaxIncludeDepth = 0,
      b_MaxFilterDepth = 0, b_MaxFilterNodes = 0, b_MaxValues = 0, b_MaxMembership = 0,
      b_MaxStringBytes = 0, b_MaxSorts = 0, b_MaxPageSize = 0, b_MaxCursorBytes = 0,
      b_MaxCanonicalBytes = 0, b_MaxErrors = 0, b_MaxCost = 0\<rparr>"

record SchemaBuilder =
  sb_config :: SchemaConfig

definition newSchemaBuilder :: "string \<Rightarrow> string \<Rightarrow> SchemaBuilder" where
  "newSchemaBuilder resource revision =
     \<lparr>sb_config = \<lparr>cf_Resource = resource, cf_Revision = revision, cf_Fields = [], cf_Filters = [],
        cf_Sorts = [], cf_Relationships = [], cf_DefaultSort = [], cf_AllowedLogic = [],
        cf_Pagination = zeroPagination, cf_Bounds = zeroBounds\<rparr>\<rparr>"

definition sb_Field :: "FieldDefinition \<Rightarrow> SchemaBuilder \<Rightarrow> SchemaBuilder" where
  "sb_Field field b = b\<lparr>sb_config := (sb_config b)\<lparr>cf_Fields := cf_Fields (sb_config b) @ [field]\<rparr>\<rparr>"

definition sb_Filter :: "FilterDefinition \<Rightarrow> SchemaBuilder \<Rightarrow> SchemaBuilder" where
  "sb_Filter f b = b\<lparr>sb_config := (sb_config b)\<lparr>cf_Filters := cf_Filters (sb_config b) @ [f]\<rparr>\<rparr>"

definition sb_Sort :: "SortDefinition \<Rightarrow> SchemaBuilder \<Rightarrow> SchemaBuilder" where
  "sb_Sort d b = b\<lparr>sb_config := (sb_config b)\<lparr>cf_Sorts := cf_Sorts (sb_config b) @ [d]\<rparr>\<rparr>"

definition sb_Relationship :: "RelationshipDefinition \<Rightarrow> SchemaBuilder \<Rightarrow> SchemaBuilder" where
  "sb_Relationship d b =
     b\<lparr>sb_config := (sb_config b)\<lparr>cf_Relationships := cf_Relationships (sb_config b) @ [d]\<rparr>\<rparr>"

definition sb_Pagination :: "PaginationDefinition \<Rightarrow> SchemaBuilder \<Rightarrow> SchemaBuilder" where
  "sb_Pagination d b = b\<lparr>sb_config := (sb_config b)\<lparr>cf_Pagination := d\<rparr>\<rparr>"

definition sb_Bounds :: "Bounds \<Rightarrow> SchemaBuilder \<Rightarrow> SchemaBuilder" where
  "sb_Bounds bounds b = b\<lparr>sb_config := (sb_config b)\<lparr>cf_Bounds := bounds\<rparr>\<rparr>"

definition sb_MustBuild :: "SchemaBuilder \<Rightarrow> Schema option" where
  "sb_MustBuild b = (case NewSchema (sb_config b) of Inl _ \<Rightarrow> None | Inr schema \<Rightarrow> Some schema)"

record RequestBuilder =
  rb_request :: Request

definition newRequestBuilder :: RequestBuilder where
  "newRequestBuilder = \<lparr>rb_request = zeroRequest\<rparr>"

definition rb_Fields :: "string list \<Rightarrow> RequestBuilder \<Rightarrow> RequestBuilder" where
  "rb_Fields names b = b\<lparr>rb_request := (rb_request b)\<lparr>rq_Fields := Some names\<rparr>\<rparr>"

definition rb_Includes :: "string list \<Rightarrow> RequestBuilder \<Rightarrow> RequestBuilder" where
  "rb_Includes paths b = b\<lparr>rb_request := (rb_request b)\<lparr>rq_Includes := Some paths\<rparr>\<rparr>"

definition rb_Where :: "string \<Rightarrow> Operator \<Rightarrow> Value list \<Rightarrow> RequestBuilder \<Rightarrow> RequestBuilder" where
  "rb_Where name operator values' b = b\<lparr>rb_request := (rb_request b)
     \<lparr>rq_Filter := Some (FilterExpr
        (Some \<lparr>pr_Name = name, pr_Operator = operator, pr_Values = values'\<rparr>) [] [])\<rparr>\<rparr>"

definition rb_Sorts :: "SortTerm list \<Rightarrow> RequestBuilder \<Rightarrow> RequestBuilder" where
  "rb_Sorts sorts b = b\<lparr>rb_request := (rb_request b)\<lparr>rq_Sorts := Some sorts\<rparr>\<rparr>"

definition rb_Page :: "PageRequest \<Rightarrow> RequestBuilder \<Rightarrow> RequestBuilder" where
  "rb_Page page b = b\<lparr>rb_request := (rb_request b)\<lparr>rq_Page := page\<rparr>\<rparr>"

fun cloneFilter_test :: "FilterExpr \<Rightarrow> FilterExpr" where
  "cloneFilter_test (FilterExpr predicate logic children) =
     FilterExpr
       (map_option
         (\<lambda>p. \<lparr>pr_Name = pr_Name p, pr_Operator = pr_Operator p, pr_Values = pr_Values p\<rparr>)
         predicate)
       logic (map cloneFilter_test children)"

definition rb_Build :: "RequestBuilder \<Rightarrow> Request" where
  "rb_Build b =
     (let request = rb_request b;
          request = (case rq_Fields request of None \<Rightarrow> request
            | Some names \<Rightarrow> request\<lparr>rq_Fields := Some names\<rparr>);
          request = (case rq_Includes request of None \<Rightarrow> request
            | Some paths \<Rightarrow> request\<lparr>rq_Includes := Some paths\<rparr>);
          request = (case rq_Sorts request of None \<Rightarrow> request
            | Some sorts \<Rightarrow> request\<lparr>rq_Sorts := Some sorts\<rparr>)
      in request\<lparr>rq_Filter := map_option cloneFilter_test (rq_Filter request)\<rparr>)"

definition OrderSchema :: "Schema option" where
  "OrderSchema =
     sb_MustBuild
       (sb_Field \<lparr>fd_Name = ''status'', fd_Type = TypeString, fd_Default = True, fd_Required = False,
          fd_Deprecated = False, fd_Cost = 0\<rparr>
         (sb_Field \<lparr>fd_Name = ''id'', fd_Type = TypeString, fd_Default = False, fd_Required = True,
            fd_Deprecated = False, fd_Cost = 0\<rparr>
           (newSchemaBuilder ''orders'' ''v1'')))"

section \<open>Assertions\<close>

definition MustCompile ::
  "Schema option \<Rightarrow> Request \<Rightarrow> 'w CompileOptions \<Rightarrow> 'w \<Rightarrow> Plan option \<times> 'w" where
  "MustCompile schema request options w =
     (case ApiCompile.Compile schema request options w of
        (Inl _, w, _) \<Rightarrow> (None, w)
      | (Inr plan, w, _) \<Rightarrow> (Some plan, w))"

definition AssertViolation :: "go_error option \<Rightarrow> ErrorCode \<Rightarrow> string \<Rightarrow> bool" where
  "AssertViolation err code path =
     (case err of
        Some (QueryViolations items) \<Rightarrow>
          list_ex (\<lambda>violation. vi_Code violation = code \<and> vi_Path violation = path)
            (Violations_Items (Some items))
      | _ \<Rightarrow> False)"

definition AssertCanonicalEqual :: "(string \<Rightarrow> string) \<Rightarrow> Plan \<Rightarrow> Plan \<Rightarrow> bool" where
  "AssertCanonicalEqual sha left right =
     (case (Plan_Canonical sha left, Plan_Canonical sha right) of
        (Inr l, Inr r) \<Rightarrow> l = r
      | _ \<Rightarrow> False)"

type_synonym 'w RequestDecoder = "'w \<Rightarrow> (string + Request) \<times> 'w"

text \<open>The loop over the sorted names; \<open>baseline\<close> is the first plan.\<close>

fun conformance_loop ::
  "(string \<Rightarrow> string) \<Rightarrow> Schema option \<Rightarrow> 'w CompileOptions \<Rightarrow> (string \<Rightarrow> 'w RequestDecoder option) \<Rightarrow>
   string list \<Rightarrow> Plan option \<Rightarrow> 'w \<Rightarrow> bool \<times> 'w" where
  "conformance_loop sha schema options decoders [] baseline w = (True, w)"
| "conformance_loop sha schema options decoders (name # names) baseline w =
     (case decoders name of
        None \<Rightarrow> (False, w)
      | Some decode \<Rightarrow>
          (case decode w of
             (Inl _, w) \<Rightarrow> (False, w)
           | (Inr request, w) \<Rightarrow>
               (case MustCompile schema request options w of
                  (None, w) \<Rightarrow> (False, w)
                | (Some plan, w) \<Rightarrow>
                    (case baseline of
                       None \<Rightarrow> conformance_loop sha schema options decoders names (Some plan) w
                     | Some base \<Rightarrow>
                         if AssertCanonicalEqual sha base plan
                         then conformance_loop sha schema options decoders names baseline w
                         else (False, w)))))"

definition RunCanonicalConformance ::
  "(string \<Rightarrow> string) \<Rightarrow> Schema option \<Rightarrow> 'w CompileOptions \<Rightarrow> (string \<times> 'w RequestDecoder) list \<Rightarrow>
   'w \<Rightarrow> bool \<times> 'w" where
  "RunCanonicalConformance sha schema options decoders w =
     conformance_loop sha schema options (map_of decoders) (sort (map fst decoders)) None w"

section \<open>Correctness\<close>

text \<open>The plans of a sequence of decoders, each run in the world its predecessor left.\<close>

fun decoded_plans ::
  "Schema option \<Rightarrow> 'w CompileOptions \<Rightarrow> 'w RequestDecoder list \<Rightarrow> 'w \<Rightarrow> (Plan list \<times> 'w) option" where
  "decoded_plans schema options [] w = Some ([], w)"
| "decoded_plans schema options (decode # ds) w =
     (case decode w of
        (Inl _, w) \<Rightarrow> None
      | (Inr request, w) \<Rightarrow>
          (case ApiCompile.Compile schema request options w of
             (Inl _, w, _) \<Rightarrow> None
           | (Inr plan, w, _) \<Rightarrow>
               map_option (\<lambda>(plans, w). (plan # plans, w)) (decoded_plans schema options ds w)))"

lemma AssertCanonicalEqual_iff:
  "AssertCanonicalEqual sha p q \<longleftrightarrow> (\<exists>t. Plan_Canonical sha p = Inr t \<and> Plan_Canonical sha q = Inr t)"
  by (auto simp: AssertCanonicalEqual_def split: sum.splits)

lemma conformance_loop_result:
  "\<forall>n \<in> set names. decoders n \<noteq> None \<Longrightarrow>
   conformance_loop sha schema options decoders names baseline w = (True, w') \<longleftrightarrow>
     (\<exists>plans. decoded_plans schema options (map (\<lambda>n. the (decoders n)) names) w = Some (plans, w') \<and>
        (case baseline of
           None \<Rightarrow> (\<forall>q \<in> set (tl plans). AssertCanonicalEqual sha (hd plans) q)
         | Some p \<Rightarrow> (\<forall>q \<in> set plans. AssertCanonicalEqual sha p q)))"
proof (induction names arbitrary: baseline w)
  case Nil
  then show ?case by (auto split: option.splits)
next
  case (Cons name names)
  obtain decode where decode: "decoders name = Some decode" using Cons.prems by auto
  obtain res w1 where dec: "decode w = (res, w1)" by fastforce
  show ?case
  proof (cases res)
    case (Inl e)
    with decode dec show ?thesis by simp
  next
    case (Inr request)
    obtain res2 w2 trace where comp: "ApiCompile.Compile schema request options w1 = (res2, w2, trace)"
      by (metis surj_pair)
    show ?thesis
    proof (cases res2)
      case (Inl e)
      with decode dec Inr comp show ?thesis by (simp add: MustCompile_def)
    next
      case plan: (Inr plan)
      note run = decode dec Inr comp plan
      have IH: "conformance_loop sha schema options decoders names base w2 = (True, w') \<longleftrightarrow>
          (\<exists>plans. decoded_plans schema options (map (\<lambda>n. the (decoders n)) names) w2 =
             Some (plans, w') \<and>
             (case base of None \<Rightarrow> (\<forall>q \<in> set (tl plans). AssertCanonicalEqual sha (hd plans) q)
              | Some p \<Rightarrow> (\<forall>q \<in> set plans. AssertCanonicalEqual sha p q)))" for base
        using Cons by simp
      have plans: "decoded_plans schema options (map (\<lambda>n. the (decoders n)) (name # names)) w =
          Some (ps, w') \<longleftrightarrow> (\<exists>qs. ps = plan # qs \<and>
            decoded_plans schema options (map (\<lambda>n. the (decoders n)) names) w2 = Some (qs, w'))" for ps
        by (auto simp: run)
      show ?thesis
      proof (cases baseline)
        case None
        have first: "conformance_loop sha schema options decoders (name # names) baseline w =
            conformance_loop sha schema options decoders names (Some plan) w2"
          by (simp add: run MustCompile_def None)
        show ?thesis
          unfolding None first [unfolded None] plans IH option.case by force
      next
        case (Some base)
        have later: "conformance_loop sha schema options decoders (name # names) baseline w =
            (if AssertCanonicalEqual sha base plan
             then conformance_loop sha schema options decoders names baseline w2 else (False, w2))"
          by (simp add: run MustCompile_def Some)
        show ?thesis
        proof (cases "AssertCanonicalEqual sha base plan")
          case True
          then have same: "conformance_loop sha schema options decoders (name # names) (Some base) w =
              conformance_loop sha schema options decoders names (Some base) w2"
            using later Some by simp
          show ?thesis
            unfolding Some same plans option.case IH [of "Some base", unfolded option.case]
            using True by force
        next
          case False
          then have stop: "conformance_loop sha schema options decoders (name # names) (Some base) w =
              (False, w2)"
            using later Some by simp
          show ?thesis unfolding Some stop plans option.case using False by force
        qed
      qed
    qed
  qed
qed

lemma cloneFilter_test_id [simp]: "cloneFilter_test f = f"
proof (induction f)
  case (FilterExpr predicate logic children)
  then have "map cloneFilter_test children = children" by (simp add: map_idI)
  then show ?case by (cases predicate) simp_all
qed

lemma rb_Build_snapshot: "rb_Build b = rb_request b"
proof -
  have "map_option cloneFilter_test x = x" for x by (cases x) simp_all
  then show ?thesis by (cases "rb_request b") (simp add: rb_Build_def Let_def split: option.split)
qed

end
