(* ===== verification/JsonApiAdapter.thy ===== *)
theory JsonApiAdapter
  imports ApiPlan "HOL-Library.AList"
begin

text \<open>
  \<open>adapters/jsonapi/jsonapi.go\<close>: the bridge from a query that \<open>go-jsonapi\<close> has already parsed. The
  fields of that query which the bridge reads are a record here; the two decoders of the application
  are functions that may change the world \<open>'w\<close>.
\<close>

type_synonym ParameterFamily = "(string \<times> string list) list"

record jsonapi_sort =
  js_Name :: string
  js_Descending :: bool

record jsonapi_query =
  jq_Fields :: "(string \<times> string list) list"
  jq_IncludePresent :: bool
  jq_Include :: "string list"
  jq_SortPresent :: bool
  jq_Sort :: "jsonapi_sort list"
  jq_Filter :: ParameterFamily
  jq_Page :: ParameterFamily

type_synonym 'w FilterDecoder = "ParameterFamily \<Rightarrow> 'w \<Rightarrow> (string + FilterExpr option) \<times> 'w"
type_synonym 'w PageDecoder = "ParameterFamily \<Rightarrow> 'w \<Rightarrow> (string + PageRequest) \<times> 'w"

record 'w JsonApiConfig =
  jc_Resource :: string
  jc_DecodeFilter :: "'w FilterDecoder option"
  jc_DecodePage :: "'w PageDecoder option"

datatype jsonapi_error = JsonApi_ErrInvalid | JsonApi_ErrUnsupported

definition cloneFamily :: "ParameterFamily \<Rightarrow> ParameterFamily" where
  "cloneFamily family = fold (\<lambda>(name, values') result. AList.update name values' result) family []"

definition bridge_sort :: "jsonapi_sort \<Rightarrow> SortTerm" where
  "bridge_sort s =
     \<lparr>st_Name = js_Name s, st_Direction = (if js_Descending s then Descending else Ascending),
      st_Nulls = []\<rparr>"

text \<open>The three selections, then the two families.\<close>

definition bridgeSelections :: "jsonapi_query \<Rightarrow> 'w JsonApiConfig \<Rightarrow> Request" where
  "bridgeSelections query config =
     (let request = zeroRequest;
          request = (case map_of (jq_Fields query) (jc_Resource config) of
              None \<Rightarrow> request | Some names \<Rightarrow> request\<lparr>rq_Fields := Some names\<rparr>);
          request = (if jq_IncludePresent query
              then request\<lparr>rq_Includes := Some (jq_Include query)\<rparr> else request)
      in if jq_SortPresent query
         then request\<lparr>rq_Sorts := Some (map bridge_sort (jq_Sort query))\<rparr> else request)"

definition bridgeFilter ::
  "ParameterFamily \<Rightarrow> 'w JsonApiConfig \<Rightarrow> Request \<Rightarrow> 'w \<Rightarrow> (jsonapi_error + Request) \<times> 'w" where
  "bridgeFilter family config request w =
     (if length family > 0 then
        (case jc_DecodeFilter config of
           None \<Rightarrow> (Inl JsonApi_ErrUnsupported, w)
         | Some decode \<Rightarrow>
             (case decode (cloneFamily family) w of
                (Inr (Some f), w) \<Rightarrow> (Inr (request\<lparr>rq_Filter := Some f\<rparr>), w)
              | (_, w) \<Rightarrow> (Inl JsonApi_ErrInvalid, w)))
      else (Inr request, w))"

definition bridgePage ::
  "ParameterFamily \<Rightarrow> 'w JsonApiConfig \<Rightarrow> Request \<Rightarrow> 'w \<Rightarrow> (jsonapi_error + Request) \<times> 'w" where
  "bridgePage family config request w =
     (if length family > 0 then
        (case jc_DecodePage config of
           None \<Rightarrow> (Inl JsonApi_ErrUnsupported, w)
         | Some decode \<Rightarrow>
             (case decode (cloneFamily family) w of
                (Inr page, w) \<Rightarrow> (Inr (request\<lparr>rq_Page := page\<rparr>), w)
              | (Inl _, w) \<Rightarrow> (Inl JsonApi_ErrInvalid, w)))
      else (Inr request, w))"

definition FromQuery ::
  "jsonapi_query \<Rightarrow> 'w JsonApiConfig \<Rightarrow> 'w \<Rightarrow> (jsonapi_error + Request) \<times> 'w" where
  "FromQuery query config w =
     (if jc_Resource config = [] then (Inl JsonApi_ErrInvalid, w)
      else
        (case bridgeFilter (jq_Filter query) config (bridgeSelections query config) w of
           (Inl e, w) \<Rightarrow> (Inl e, w)
         | (Inr request, w) \<Rightarrow> bridgePage (jq_Page query) config request w))"

section \<open>Correctness\<close>

lemma cloneFamily_id:
  assumes "distinct (map fst family)"
  shows "cloneFamily family = family"
proof -
  have new: "AList.update k v al = al @ [(k, v)]" if "k \<notin> fst ` set al" for k v and al :: ParameterFamily
    using that by (induction al) auto
  have "fold (\<lambda>(k, v) r. AList.update k v r) rest done' = done' @ rest"
    if "distinct (map fst (done' @ rest))" for rest done' :: ParameterFamily
    using that
  proof (induction rest arbitrary: done')
    case (Cons e rest)
    obtain k v where e: "e = (k, v)" by fastforce
    have "k \<notin> fst ` set done'" using Cons.prems e by auto
    then show ?case using Cons.IH [of "done' @ [e]"] Cons.prems by (simp add: e new)
  qed simp
  from this [of "[]" family] assms show ?thesis by (simp add: cloneFamily_def)
qed

text \<open>What a family contributes: nothing when it is absent, else what its own decoder makes of it.\<close>

definition bridged_filter :: "'w JsonApiConfig \<Rightarrow> ParameterFamily \<Rightarrow> 'w \<Rightarrow> FilterExpr option \<Rightarrow> 'w \<Rightarrow> bool" where
  "bridged_filter config family w f w' \<longleftrightarrow>
     (if family = [] then f = None \<and> w' = w
      else f \<noteq> None \<and> (case jc_DecodeFilter config of
        None \<Rightarrow> False | Some decode \<Rightarrow> decode family w = (Inr f, w')))"

definition bridged_page :: "'w JsonApiConfig \<Rightarrow> ParameterFamily \<Rightarrow> 'w \<Rightarrow> PageRequest \<Rightarrow> 'w \<Rightarrow> bool" where
  "bridged_page config family w page w' \<longleftrightarrow>
     (if family = [] then page = zeroPage \<and> w' = w
      else (case jc_DecodePage config of
        None \<Rightarrow> False | Some decode \<Rightarrow> decode family w = (Inr page, w')))"

lemma bridgeSelections_fields:
  "rq_SchemaRevision (bridgeSelections query config) = None"
  "rq_Fields (bridgeSelections query config) = map_of (jq_Fields query) (jc_Resource config)"
  "rq_Includes (bridgeSelections query config) =
     (if jq_IncludePresent query then Some (jq_Include query) else None)"
  "rq_Sorts (bridgeSelections query config) =
     (if jq_SortPresent query then Some (map bridge_sort (jq_Sort query)) else None)"
  "rq_Filter (bridgeSelections query config) = None"
  "rq_Page (bridgeSelections query config) = zeroPage"
  by (simp_all add: bridgeSelections_def zeroRequest_def Let_def split: option.split)

lemma bridgeFilter_result:
  assumes "distinct (map fst family)" and "rq_Filter request = None"
  shows "bridgeFilter family config request w = (Inr r, w') \<longleftrightarrow>
    (\<exists>f. r = request\<lparr>rq_Filter := f\<rparr> \<and> bridged_filter config family w f w')"
proof -
  have "request\<lparr>rq_Filter := None\<rparr> = request" using assms(2) by (cases request) simp
  then show ?thesis
    by (auto simp: bridgeFilter_def bridged_filter_def cloneFamily_id [OF assms(1)]
        split: option.splits prod.splits sum.splits)
qed

lemma bridgePage_result:
  assumes "distinct (map fst family)" and "rq_Page request = zeroPage"
  shows "bridgePage family config request w = (Inr r, w') \<longleftrightarrow>
    (\<exists>p. r = request\<lparr>rq_Page := p\<rparr> \<and> bridged_page config family w p w')"
proof -
  have "request\<lparr>rq_Page := zeroPage\<rparr> = request" using assms(2) by (cases request) simp
  then show ?thesis
    by (auto simp: bridgePage_def bridged_page_def cloneFamily_id [OF assms(1)]
        split: option.splits prod.splits sum.splits)
qed

lemma FromQuery_result:
  assumes "distinct (map fst (jq_Filter query))" and "distinct (map fst (jq_Page query))"
  shows "FromQuery query config w = (Inr r, w') \<longleftrightarrow>
    jc_Resource config \<noteq> [] \<and> rq_SchemaRevision r = None \<and>
    rq_Fields r = map_of (jq_Fields query) (jc_Resource config) \<and>
    rq_Includes r = (if jq_IncludePresent query then Some (jq_Include query) else None) \<and>
    rq_Sorts r =
      (if jq_SortPresent query then Some (map bridge_sort (jq_Sort query)) else None) \<and>
    (\<exists>w1. bridged_filter config (jq_Filter query) w (rq_Filter r) w1 \<and>
       bridged_page config (jq_Page query) w1 (rq_Page r) w')"
proof -
  let ?base = "bridgeSelections query config"
  have step: "FromQuery query config w = (Inr r, w') \<longleftrightarrow> jc_Resource config \<noteq> [] \<and>
      (\<exists>r1 w1. bridgeFilter (jq_Filter query) config ?base w = (Inr r1, w1) \<and>
         bridgePage (jq_Page query) config r1 w1 = (Inr r, w'))"
    by (auto simp: FromQuery_def split: prod.splits sum.splits)
  have page: "bridgePage (jq_Page query) config (?base\<lparr>rq_Filter := f\<rparr>) w1 = (Inr r, w') \<longleftrightarrow>
      (\<exists>p. r = ?base\<lparr>rq_Filter := f, rq_Page := p\<rparr> \<and> bridged_page config (jq_Page query) w1 p w')"
    for f w1
    using bridgePage_result [OF assms(2), of "?base\<lparr>rq_Filter := f\<rparr>"] by (simp add: bridgeSelections_fields)
  have request: "r = ?base\<lparr>rq_Filter := f, rq_Page := p\<rparr> \<longleftrightarrow>
      rq_SchemaRevision r = rq_SchemaRevision ?base \<and> rq_Fields r = rq_Fields ?base \<and>
      rq_Includes r = rq_Includes ?base \<and> rq_Sorts r = rq_Sorts ?base \<and> rq_Filter r = f \<and> rq_Page r = p"
    for f p
    by (cases r; cases ?base) auto
  have "FromQuery query config w = (Inr r, w') \<longleftrightarrow> jc_Resource config \<noteq> [] \<and>
      (\<exists>f w1. bridged_filter config (jq_Filter query) w f w1 \<and>
         bridgePage (jq_Page query) config (?base\<lparr>rq_Filter := f\<rparr>) w1 = (Inr r, w'))"
    unfolding step bridgeFilter_result [OF assms(1) bridgeSelections_fields(5)] by blast
  then show ?thesis
    unfolding page request bridgeSelections_fields by blast
qed

end
