(* ===== verification/AdapterProperties.thy ===== *)
theory AdapterProperties
  imports CompileReport ConformanceSupport JsonApiAdapter Sample
begin

text \<open>
  The properties of the adapters that carry no syntax of their own: the JSON:API bridge, the
  validation report, and the conformance run of the test support.
\<close>

section \<open>JSON:API\<close>


definition sampleJsonApi :: jsonapi_query where
  "sampleJsonApi =
     \<lparr>jq_Fields = [(''people'', [''name'']), (''articles'', [''title''])],
      jq_IncludePresent = True, jq_Include = [], jq_SortPresent = True,
      jq_Sort = [\<lparr>js_Name = ''created'', js_Descending = True\<rparr>], jq_Filter = [],
      jq_Page = [(''page[size]'', [''5''])]\<rparr>"

definition sampleBridge :: "nat JsonApiConfig" where
  "sampleBridge =
     \<lparr>jc_Resource = ''articles'', jc_DecodeFilter = None,
      jc_DecodePage = Some (\<lambda>family n. (Inr (zeroPage\<lparr>pg_Size := int (length family)\<rparr>), Suc n))\<rparr>"


section \<open>Validation reports\<close>

text \<open>
  C13: every violation of a rejected compilation points at something that is there: a
  part of the request, an existing element of its fields, includes, sorts or of the mandatory
  constraints, a member of its page, or an existing node of its filter. So the validation report of
  the error has, in the same order and with the same codes, one violation for each, located by the
  segments that lead to it: no path text is lost or misread on the way.
\<close>

theorem Compile_report:
  assumes "wf_schema schema" and "request_slices schema request (co_MandatoryConstraints options)"
    and "fst (Compile (Some schema) request options w) = Inl items"
  shows "\<exists>segments.
    (\<forall>v \<in> set items. locates schema request (co_MandatoryConstraints options) (segments v) \<and>
       vi_Path v = path_text True (segments v)) \<and>
    Report lib (Some (QueryViolations items)) limits =
      foldl (vl_Add lib) (vl_NewReport lib limits)
        (map (\<lambda>v. vl_NewViolation lib
           (foldl (vl_Append lib) (vl_RootPath lib) (segments v)) (vi_Code v)) items)"
proof -
  have "\<forall>v \<in> set items. located schema request (co_MandatoryConstraints options) (vi_Path v)"
    by (rule Compile_paths [OF assms(1) reports_located assms(3)])
  then obtain segments where segments: "\<forall>v \<in> set items.
      locates schema request (co_MandatoryConstraints options) (segments v) \<and>
      vi_Path v = path_text True (segments v)"
    unfolding located_def by metis
  with locates_ok [OF _ assms(2)] have "\<forall>v \<in> set items. (\<forall>s \<in> set (segments v). segment_ok s) \<and>
      vi_Path v = path_text True (segments v)" by blast
  from Report_violations [OF this, of lib limits] segments show ?thesis by blast
qed

text \<open>A \<open>go-validation\<close> in which everything is recorded.\<close>

definition sampleLib ::
  "(path_segment list, path_segment list \<times> string, (path_segment list \<times> string) list, nat) validation_lib"
where
  "sampleLib =
     \<lparr>vl_RootPath = [], vl_Append = (\<lambda>p s. p @ [s]), vl_NewViolation = Pair,
      vl_NewReport = (\<lambda>_. []), vl_Add = (\<lambda>r v. r @ [v])\<rparr>"

text \<open>A request with an unknown filter below the root and a field that is asked for twice.\<close>

definition unknownFilter :: FilterExpr where
  "unknownFilter =
     FilterExpr None LogicNot
       [FilterExpr (Some \<lparr>pr_Name = ''salary'', pr_Operator = OpEqual, pr_Values = []\<rparr>) [] []]"

definition rejectedRequest :: Request where
  "rejectedRequest = sampleRequest\<lparr>rq_Fields := Some [''id'', ''id''], rq_Filter := Some unknownFilter\<rparr>"

lemma rejectedRequest_paths:
  "(case fst (Compile (Some sampleSchema) rejectedRequest sampleOptions 0) of
      Inl items \<Rightarrow> map vi_Path items | Inr _ \<Rightarrow> []) = [''fields[1]'', ''filter.children[0]'']"
  by code_simp

lemma sampleSchema_sorts: "length (requested_sorts sampleSchema None) = 1"
  by code_simp

lemma rejectedRequest_slices:
  "request_slices sampleSchema rejectedRequest (co_MandatoryConstraints sampleOptions)"
  by (simp add: request_slices_def slice_ok_def maxInt_def sampleOptions_def rejectedRequest_def
      unknownFilter_def sampleRequest_def selected_fields_def
      sampleSchema_sorts)

lemma foldl_record: "foldl (\<lambda>r v. r @ [v]) r vs = r @ vs"
  by (induction vs arbitrary: r) simp_all

theorem Compile_report_witness:
  "\<exists>items report.
     fst (Compile (Some sampleSchema) rejectedRequest sampleOptions 0) = Inl items \<and>
     report = Report sampleLib (Some (QueryViolations items)) 5 \<and>
     map (\<lambda>v. path_text True (fst v)) report = [''fields[1]'', ''filter.children[0]'']"
proof -
  obtain items where run: "fst (Compile (Some sampleSchema) rejectedRequest sampleOptions 0) = Inl items"
    and paths: "map vi_Path items = [''fields[1]'', ''filter.children[0]'']"
    using rejectedRequest_paths by (auto split: sum.splits)
  from Compile_report [OF sampleSchema_wf rejectedRequest_slices run, of sampleLib 5]
  obtain segments where "\<forall>v \<in> set items. vi_Path v = path_text True (segments v)"
    and report: "Report sampleLib (Some (QueryViolations items)) 5 =
      map (\<lambda>v. (segments v, vi_Code v)) items"
    by (auto simp: sampleLib_def foldl_record)
  then have "map (\<lambda>v. path_text True (fst v)) (Report sampleLib (Some (QueryViolations items)) 5) =
      map vi_Path items"
    by (simp add: report)
  with run paths show ?thesis by auto
qed

section \<open>Conformance runs\<close>

text \<open>
  A conformance run passes exactly when every named decoder, in the order of the
  names and each in the world the previous one left, gives a request that compiles, and every plan
  after the first has a canonical document that is byte for byte that of the first.
\<close>

theorem Conformance_run:
  "RunCanonicalConformance sha schema options decoders w = (True, w') \<longleftrightarrow>
     (\<exists>plans. decoded_plans schema options
         (map (\<lambda>n. the (map_of decoders n)) (sort (map fst decoders))) w = Some (plans, w') \<and>
       (\<forall>q \<in> set (tl plans). \<exists>text. Plan_Canonical sha (hd plans) = Inr text \<and>
          Plan_Canonical sha q = Inr text))"
proof -
  have "\<forall>n \<in> set (sort (map fst decoders)). map_of decoders n \<noteq> None"
    by (simp add: map_of_eq_None_iff)
  from conformance_loop_result [OF this] show ?thesis
    by (simp add: RunCanonicalConformance_def AssertCanonicalEqual_iff)
qed

definition orderConfig :: SchemaConfig where
  "orderConfig =
     \<lparr>cf_Resource = ''orders'', cf_Revision = ''v1'',
      cf_Fields =
        [\<lparr>fd_Name = ''id'', fd_Type = TypeString, fd_Default = False, fd_Required = True,
          fd_Deprecated = False, fd_Cost = 0\<rparr>,
         \<lparr>fd_Name = ''status'', fd_Type = TypeString, fd_Default = True, fd_Required = False,
          fd_Deprecated = False, fd_Cost = 0\<rparr>],
      cf_Filters = [], cf_Sorts = [], cf_Relationships = [], cf_DefaultSort = [],
      cf_AllowedLogic = [], cf_Pagination = zeroPagination, cf_Bounds = zeroBounds\<rparr>"

lemma OrderSchema_built: "OrderSchema = Some (built_schema orderConfig)"
proof -
  have header: "header_ok (cf_Resource orderConfig) (cf_Revision orderConfig)"
    by (simp add: orderConfig_def header_ok_def validName_iff name_char_def in_bytes_def byte_def
        valid_utf8_ascii)
  have "valid_config orderConfig"
    unfolding valid_config_def Let_def by (intro conjI header; code_simp)
  then have "NewSchema orderConfig = Inr (built_schema orderConfig)" by (simp add: NewSchema_result)
  moreover have "OrderSchema = sb_MustBuild \<lparr>sb_config = orderConfig\<rparr>"
    by (simp add: OrderSchema_def newSchemaBuilder_def sb_Field_def orderConfig_def)
  ultimately show ?thesis by (simp add: sb_MustBuild_def)
qed

definition orderRequest :: Request where
  "orderRequest = rb_Build (rb_Fields [''status''] newRequestBuilder)"

definition orderOptions :: "unit CompileOptions" where
  "orderOptions = \<lparr>co_Authorize = None, co_MandatoryConstraints = [], co_CursorDecoder = None\<rparr>"

definition orderPlan :: Plan where
  "orderPlan = spec_plan (built_schema orderConfig) [] orderRequest None"

definition orderDecoders :: "(string \<times> unit RequestDecoder) list" where
  "orderDecoders = [(''rpc'', \<lambda>w. (Inr orderRequest, w)), (''http'', \<lambda>w. (Inr orderRequest, w))]"

theorem Conformance_run_witness:
  "RunCanonicalConformance (\<lambda>_. []) OrderSchema orderOptions orderDecoders () = (True, ())"
proof -
  let ?schema = "built_schema orderConfig"
  have wf: "wf_schema ?schema"
    using OrderSchema_built
    by (auto simp: OrderSchema_def sb_MustBuild_def split: sum.splits intro: NewSchema_wf_schema)
  have facts: "b_MaxCost (sc_bounds ?schema) \<le> maxInt" "accepts ?schema orderRequest orderOptions ()"
    "fst (decoded_env ?schema orderRequest orderOptions ()) = None"
    by code_simp+
  obtain trace where run: "ApiCompile.Compile OrderSchema orderRequest orderOptions () = (Inr orderPlan, (), trace)"
    using facts Compile_Inr [OF wf facts(1), of orderRequest orderOptions "()"]
    by (simp add: OrderSchema_built orderPlan_def orderOptions_def)
  have "sort (map fst orderDecoders) = [''http'', ''rpc'']" by code_simp
  then have plans: "decoded_plans OrderSchema orderOptions
      (map (\<lambda>n. the (map_of orderDecoders n)) (sort (map fst orderDecoders))) () =
      Some ([orderPlan, orderPlan], ())"
    by (simp add: orderDecoders_def run)
  have "int (length (render (plan_json (\<lambda>_. []) orderPlan))) \<le> pl_maxCanonical orderPlan" by code_simp
  then have "Plan_Canonical (\<lambda>_. []) orderPlan = Inr (render (plan_json (\<lambda>_. []) orderPlan))"
    by (simp add: Plan_Canonical_def Let_def)
  then have same: "\<forall>q \<in> set (tl [orderPlan, orderPlan]). \<exists>text.
      Plan_Canonical (\<lambda>_. []) (hd [orderPlan, orderPlan]) = Inr text \<and> Plan_Canonical (\<lambda>_. []) q = Inr text"
    by simp
  show ?thesis
    unfolding Conformance_run
    by (rule exI [of _ "[orderPlan, orderPlan]"]) (intro conjI plans same)
qed

end
