(* ===== verification/EvidencePaths.thy ===== *)
theory EvidencePaths
  imports GoText "HOL-Library.Sublist"
begin

text \<open>
  The file access of \<open>.verification/cohesion/api-query-v1-oracle/verify.go\<close>: \<open>localPath\<close> turns the
  relative path of an evidence file into a path below the repository. The lexical functions of
  \<open>path/filepath\<close> (on a system whose separator is the slash) are modelled here, the file system is
  the function \<open>lstat\<close> and the contents of its files. A panic of the tool is the value \<open>Inl\<close>.
\<close>

datatype panic = Label string | Failed    \<comment> \<open>\<open>require\<close> with its label, \<open>must\<close> with an error\<close>

definition require :: "bool \<Rightarrow> string \<Rightarrow> panic + unit" where
  "require condition label = (if condition then Inr () else Inl (Label label))"

text \<open>The next statement, which is reached only without a panic.\<close>

definition next' :: "panic + 'a \<Rightarrow> ('a \<Rightarrow> panic + 'b) \<Rightarrow> panic + 'b" where
  "next' x f = (case x of Inl e \<Rightarrow> Inl e | Inr y \<Rightarrow> f y)"

lemma next'_Inr: "next' x f = Inr z \<longleftrightarrow> (\<exists>y. x = Inr y \<and> f y = Inr z)"
  by (cases x) (simp_all add: next'_def)

lemma require_Inr [simp]: "require c l = Inr u \<longleftrightarrow> c"
  by (simp add: require_def)

section \<open>path/filepath\<close>

definition slash :: char where "slash = CHR ''/''"

definition IsAbs :: "string \<Rightarrow> bool" where
  "IsAbs path = (case path of [] \<Rightarrow> False | c # _ \<Rightarrow> c = slash)"

text \<open>
  \<open>Clean\<close>: empty elements and \<open>.\<close> vanish, \<open>..\<close> removes the element before it, and at the root of
  an absolute path it vanishes. The stack has the last element on top.
\<close>

definition clean_step :: "bool \<Rightarrow> string \<Rightarrow> string list \<Rightarrow> string list" where
  "clean_step rooted part stack =
     (if part = [] \<or> part = ''.'' then stack
      else if part = ''..'' then
        (case stack of
           [] \<Rightarrow> if rooted then [] else [part]
         | upper # below \<Rightarrow> if upper = ''..'' then part # stack else below)
      else part # stack)"

definition clean_parts :: "bool \<Rightarrow> string \<Rightarrow> string list" where
  "clean_parts rooted path = rev (fold (clean_step rooted) (split_on slash path) [])"

definition Clean :: "string \<Rightarrow> string" where
  "Clean path =
     (let text' = join_with [slash] (clean_parts (IsAbs path) path)
      in if IsAbs path then slash # text' else if text' = [] then ''.'' else text')"

definition Join :: "string list \<Rightarrow> string" where
  "Join elems =
     (case dropWhile (\<lambda>e. e = []) elems of
        [] \<Rightarrow> []
      | rest \<Rightarrow> Clean (join_with [slash] rest))"

section \<open>localPath\<close>

datatype file_kind = Regular | Directory | Symlink | Special

record file_system =
  fs_lstat :: "string \<Rightarrow> file_kind option"     \<comment> \<open>\<open>None\<close> is an error\<close>
  fs_content :: "string \<Rightarrow> string option"       \<comment> \<open>what opening and reading the file gives\<close>

fun walk_parts :: "file_system \<Rightarrow> string \<Rightarrow> string list \<Rightarrow> panic + string" where
  "walk_parts fs current [] = Inr current"
| "walk_parts fs current (part # rest) =
     (let current = Join [current, part] in
      case fs_lstat fs current of
        None \<Rightarrow> Inl Failed
      | Some kind \<Rightarrow>
          next' (require (kind \<noteq> Symlink) ''artifact symlink'') (\<lambda>_.
            if rest \<noteq> []
            then next' (require (kind = Directory) ''artifact parent directory'')
              (\<lambda>_. walk_parts fs current rest)
            else next' (require (kind = Regular) ''artifact regular file'')
              (\<lambda>_. walk_parts fs current rest)))"

definition localPath :: "file_system \<Rightarrow> string \<Rightarrow> string \<Rightarrow> panic + string" where
  "localPath fs root relative =
     next' (require (\<not> IsAbs relative) ''absolute artifact path'') (\<lambda>_.
     let clean = Clean relative in
     next' (require (clean \<noteq> ''.'' \<and> clean \<noteq> ''..'' \<and> \<not> prefix ''../'' clean)
       ''artifact path traversal'') (\<lambda>_.
     walk_parts fs root (split_on slash clean)))"

section \<open>Correctness\<close>

definition plain_name :: "string \<Rightarrow> bool" where
  "plain_name p \<longleftrightarrow> p \<notin> {[], ''.'', ''..''} \<and> slash \<notin> set p"

text \<open>The path of a chain of names below the root of the file system.\<close>

definition abs_path :: "string list \<Rightarrow> string" where
  "abs_path ps = slash # join_with [slash] ps"

text \<open>A cleaned path is a number of \<open>..\<close>, none when it is absolute, before plain names.\<close>

definition clean_stack :: "bool \<Rightarrow> string list \<Rightarrow> bool" where
  "clean_stack rooted stack \<longleftrightarrow>
     (\<exists>k ps. stack = rev ps @ replicate k ''..'' \<and> (rooted \<longrightarrow> k = 0) \<and> (\<forall>p \<in> set ps. plain_name p))"

lemma clean_step_stack:
  assumes "clean_stack rooted stack" and "slash \<notin> set part"
  shows "clean_stack rooted (clean_step rooted part stack)"
proof -
  obtain k ps where stack: "stack = rev ps @ replicate k ''..''" "rooted \<longrightarrow> k = 0"
    "\<forall>p \<in> set ps. plain_name p"
    using assms(1) by (auto simp: clean_stack_def)
  consider "part = [] \<or> part = ''.''" | "part = ''..''" | "plain_name part"
    using assms(2) by (auto simp: plain_name_def)
  then show ?thesis
  proof cases
    case 1
    then show ?thesis using assms(1) by (simp add: clean_step_def)
  next
    case 2
    show ?thesis
    proof (cases ps rule: rev_cases)
      case Nil
      then have "clean_step rooted part stack = replicate (if rooted then 0 else Suc k) ''..''"
        using 2 stack by (cases k) (simp_all add: clean_step_def)
      then show ?thesis
        unfolding clean_stack_def by (intro exI [of _ "if rooted then 0 else Suc k"] exI [of _ "[]"]) auto
    next
      case (snoc qs q)
      then have "clean_step rooted part stack = rev qs @ replicate k ''..''"
        using 2 stack by (auto simp: clean_step_def plain_name_def)
      then show ?thesis
        unfolding clean_stack_def using stack snoc by (intro exI [of _ k] exI [of _ qs]) auto
    qed
  next
    case 3
    then have "clean_step rooted part stack = rev (ps @ [part]) @ replicate k ''..''"
      using stack by (simp add: clean_step_def plain_name_def)
    then show ?thesis
      unfolding clean_stack_def using stack 3 by (intro exI [of _ k] exI [of _ "ps @ [part]"]) auto
  qed
qed

lemma clean_parts_form:
  "\<exists>k ps. clean_parts rooted path = replicate k ''..'' @ ps \<and> (rooted \<longrightarrow> k = 0) \<and>
     (\<forall>p \<in> set ps. plain_name p)"
proof -
  have "clean_stack rooted (fold (clean_step rooted) parts stack)"
    if "clean_stack rooted stack" "\<forall>p \<in> set parts. slash \<notin> set p" for parts stack
    using that by (induction parts arbitrary: stack) (simp_all add: clean_step_stack)
  moreover have "clean_stack rooted []" by (auto simp: clean_stack_def)
  moreover have "\<forall>p \<in> set (split_on slash path). slash \<notin> set p" using split_on_parts by blast
  ultimately have "clean_stack rooted (fold (clean_step rooted) (split_on slash path) [])" by blast
  then obtain k ps where "fold (clean_step rooted) (split_on slash path) [] = rev ps @ replicate k ''..''"
    "rooted \<longrightarrow> k = 0" "\<forall>p \<in> set ps. plain_name p"
    unfolding clean_stack_def by blast
  then show ?thesis
    by (intro exI [of _ k] exI [of _ ps]) (simp add: clean_parts_def)
qed

lemma fold_plain:
  "\<forall>p \<in> set ps. plain_name p \<Longrightarrow> fold (clean_step rooted) ps stack = rev ps @ stack"
  by (induction ps arbitrary: stack) (simp_all add: clean_step_def plain_name_def)

lemma plain_no_slash: "plain_name p \<Longrightarrow> slash \<notin> set p"
  by (simp add: plain_name_def)

lemma plain_nonempty: "plain_name p \<Longrightarrow> p \<noteq> []" "plain_name p \<Longrightarrow> p \<noteq> ''..''"
  by (simp_all add: plain_name_def)

lemma split_abs_path:
  assumes "\<forall>p \<in> set ps. plain_name p" and "ps \<noteq> []"
  shows "split_on slash (abs_path ps) = [] # ps"
  using assms by (simp add: abs_path_def split_join plain_no_slash)

lemma Clean_abs_path:
  assumes "\<forall>p \<in> set ps. plain_name p"
  shows "Clean (abs_path ps) = abs_path ps"
proof -
  have "clean_parts True (abs_path ps) = ps"
  proof (cases "ps = []")
    case True
    then show ?thesis by (simp add: clean_parts_def abs_path_def slash_def clean_step_def)
  next
    case False
    then show ?thesis
      using assms by (simp add: clean_parts_def split_abs_path fold_plain clean_step_def)
  qed
  moreover have "IsAbs (abs_path ps)" by (simp add: IsAbs_def abs_path_def)
  ultimately show ?thesis by (simp add: Clean_def abs_path_def)
qed

lemma Join_abs_path:
  assumes "\<forall>p \<in> set ps. plain_name p" and "plain_name p"
  shows "Join [abs_path ps, p] = abs_path (ps @ [p])"
proof (cases "ps = []")
  case True
  have parts: "clean_parts True (slash # slash # p) = [p]"
    using assms(2) by (simp add: clean_parts_def split_on_no_sep plain_no_slash clean_step_def plain_name_def)
  have "IsAbs (slash # slash # p)" by (simp add: IsAbs_def)
  with True assms(2) parts show ?thesis
    by (simp add: Join_def abs_path_def Clean_def plain_name_def)
next
  case False
  have "join_with [slash] [abs_path ps, p] = abs_path (ps @ [p])"
    using False by (simp add: abs_path_def join_with_snoc)
  then show ?thesis
    using Clean_abs_path [of "ps @ [p]"] assms by (simp add: Join_def abs_path_def)
qed

text \<open>The kinds of file a chain of names must meet: directories, and a regular file at its end.\<close>

definition chain_ok :: "file_system \<Rightarrow> string list \<Rightarrow> string list \<Rightarrow> bool" where
  "chain_ok fs rs ps \<longleftrightarrow>
     (\<forall>i < length ps. fs_lstat fs (abs_path (rs @ take (Suc i) ps)) =
        Some (if Suc i < length ps then Directory else Regular))"

lemma chain_ok_Nil [simp]: "chain_ok fs rs []"
  by (simp add: chain_ok_def)

lemma chain_ok_Cons:
  "chain_ok fs rs (p # ps) \<longleftrightarrow>
     fs_lstat fs (abs_path (rs @ [p])) = Some (if ps \<noteq> [] then Directory else Regular) \<and>
     chain_ok fs (rs @ [p]) ps"
proof -
  have "chain_ok fs rs (p # ps) \<longleftrightarrow>
      fs_lstat fs (abs_path (rs @ take 1 (p # ps))) =
        Some (if 1 < length (p # ps) then Directory else Regular) \<and>
      (\<forall>i < length ps. fs_lstat fs (abs_path (rs @ take (Suc (Suc i)) (p # ps))) =
        Some (if Suc (Suc i) < length (p # ps) then Directory else Regular))"
    unfolding chain_ok_def length_Cons All_less_Suc2 by simp
  then show ?thesis by (simp add: chain_ok_def)
qed

lemma chain_ok_code [code]:
  "chain_ok fs rs [] \<longleftrightarrow> True"
  "chain_ok fs rs (p # ps) \<longleftrightarrow>
     fs_lstat fs (abs_path (rs @ [p])) = Some (if ps \<noteq> [] then Directory else Regular) \<and>
     chain_ok fs (rs @ [p]) ps"
  by (simp_all add: chain_ok_Cons)

lemma walk_parts_Inr:
  assumes "\<forall>p \<in> set rs. plain_name p" and "\<forall>p \<in> set ps. plain_name p"
  shows "walk_parts fs (abs_path rs) ps = Inr path \<longleftrightarrow> chain_ok fs rs ps \<and> path = abs_path (rs @ ps)"
  using assms
proof (induction ps arbitrary: rs)
  case Nil
  then show ?case by (auto simp: chain_ok_def)
next
  case (Cons p ps)
  have join: "Join [abs_path rs, p] = abs_path (rs @ [p])"
    using Cons.prems by (intro Join_abs_path) auto
  have IH: "walk_parts fs (abs_path (rs @ [p])) ps = Inr path \<longleftrightarrow>
      chain_ok fs (rs @ [p]) ps \<and> path = abs_path ((rs @ [p]) @ ps)"
    using Cons.prems by (intro Cons.IH) auto
  show ?case
    unfolding chain_ok_Cons
    by (auto simp: join IH next'_Inr Let_def split: option.splits)
qed

text \<open>\<open>localPath\<close> as a whole: what it accepts, and where its result lies.\<close>

lemma localPath_result:
  assumes "\<forall>p \<in> set rs. plain_name p"
  shows "localPath fs (abs_path rs) relative = Inr path \<longleftrightarrow>
    \<not> IsAbs relative \<and> (\<exists>ps. clean_parts False relative = ps \<and> ps \<noteq> [] \<and> (\<forall>p \<in> set ps. plain_name p) \<and>
      chain_ok fs rs ps \<and> path = abs_path (rs @ ps))"
proof (cases "IsAbs relative")
  case True
  then show ?thesis by (simp add: localPath_def next'_Inr)
next
  case False
  obtain k qs where form: "clean_parts False relative = replicate k ''..'' @ qs"
    "\<forall>p \<in> set qs. plain_name p"
    using clean_parts_form by blast
  let ?ps = "clean_parts False relative"
  let ?clean = "Clean relative"
  have clean: "?clean = (if ?ps = [] then ''.'' else join_with [slash] ?ps)"
  proof -
    have "join_with [slash] ?ps \<noteq> []" if some: "?ps \<noteq> []"
    proof -
      obtain p rest where p: "?ps = p # rest" using some by (meson neq_Nil_conv)
      have "p \<in> set (replicate k ''..'' @ qs)" using p form(1) by (metis list.set_intros(1))
      then have "p = ''..'' \<or> plain_name p" using form(2) by (auto simp: set_replicate_conv_if split: if_splits)
      then have "p \<noteq> []" using plain_nonempty(1) [of p] by (elim disjE) simp_all
      then show ?thesis unfolding p by (cases rest) simp_all
    qed
    then show ?thesis using False by (auto simp: Clean_def Let_def)
  qed
  show ?thesis
  proof (cases "k = 0 \<and> qs \<noteq> []")
    case True
    then have ps: "?ps = qs" "?clean = join_with [slash] qs" using form clean by simp_all
    have split: "split_on slash ?clean = qs"
      unfolding ps(2) using True form by (intro split_join) (auto simp: plain_name_def)
    have first: "hd (split_on slash ?clean) \<notin> {''.'', ''..''}"
      unfolding split using True form by (auto simp: plain_name_def)
    have "?clean \<noteq> ''.''" "?clean \<noteq> ''..''" "\<not> prefix ''../'' ?clean"
      using first by (auto simp: slash_def prefix_def)
    then have "localPath fs (abs_path rs) relative = walk_parts fs (abs_path rs) qs"
      using False by (simp add: localPath_def next'_def require_def split Let_def)
    then show ?thesis
      using walk_parts_Inr [OF assms, of qs fs path] form True False by (auto simp: ps)
  next
    case False': False
    then consider "?ps = []" | "k \<noteq> 0" using form by auto
    then have "?clean = ''.'' \<or> ?clean = ''..'' \<or> prefix ''../'' ?clean"
    proof cases
      case 1
      then show ?thesis by (simp add: clean)
    next
      case 2
      then obtain rest where "?ps = ''..'' # rest" using form by (cases k) auto
      then show ?thesis by (cases rest) (simp_all add: clean slash_def)
    qed
    then have "localPath fs (abs_path rs) relative \<noteq> Inr path"
      by (auto simp: localPath_def next'_Inr Let_def)
    moreover have "\<not> (\<forall>p \<in> set ?ps. plain_name p) \<or> ?ps = []"
      using False' form by (cases k) (auto simp: plain_name_def)
    ultimately show ?thesis by auto
  qed
qed

end
