(* ===== verification/EvidenceJson.thy ===== *)
theory EvidenceJson
  imports StrictEntry EvidencePaths
begin

text \<open>
  The closed JSON decoding of the release tools: \<open>scanJSONValue\<close> and its callers in
  \<open>.verification/cohesion/api-query-v1-oracle/verify.go\<close>, which also stand, with other error texts,
  in \<open>harness.go\<close> beside it and in \<open>api-query-v1-final-replay/verify.go\<close>. They are the strict
  validation of the library with one more level of nesting and with the type assertion guarded; the
  refinement \<open>scan_validate\<close> carries over what is known of it.
\<close>

datatype scan_error =
  ScanDepth | ScanToken | ScanMember | ScanDuplicate | ScanDelimiter | ScanTrailing

definition maxJSONDepth :: nat where
  "maxJSONDepth = 64"

partial_function (option) scanJSONValue ::
  "walk \<Rightarrow> nat \<Rightarrow> token_decoder \<Rightarrow> (scan_error option \<times> token_decoder) option" where
  "scanJSONValue walk depth decoder =
     (case walk of
        WValue \<Rightarrow>
          if depth > maxJSONDepth then Some (Some ScanDepth, decoder)
          else
            (case Decoder_Token decoder of
               (Inl e, decoder) \<Rightarrow> Some (Some ScanToken, decoder)
             | (Inr (GoScalar x), decoder) \<Rightarrow> Some (None, decoder)
             | (Inr (GoDelim c), decoder) \<Rightarrow>
                 if c = CHR ''{'' then scanJSONValue (WMembers {}) depth decoder
                 else if c = CHR ''['' then scanJSONValue WElements depth decoder
                 else Some (Some ScanDelimiter, decoder))
      | WMembers seen \<Rightarrow>
          if Decoder_More decoder then
            (case Decoder_Token decoder of
               (Inl e, decoder) \<Rightarrow> Some (Some ScanToken, decoder)
             | (Inr (GoScalar (SStr name)), decoder) \<Rightarrow>
                 if name \<in> seen then Some (Some ScanDuplicate, decoder)
                 else Option.bind (scanJSONValue WValue (depth + 1) decoder)
                   (\<lambda>(err, decoder).
                     case err of Some e \<Rightarrow> Some (Some e, decoder)
                     | None \<Rightarrow> scanJSONValue (WMembers (insert name seen)) depth decoder)
             | (Inr token, decoder) \<Rightarrow> Some (Some ScanMember, decoder))
          else
            (case Decoder_Token decoder of
               (Inl e, decoder) \<Rightarrow> Some (Some ScanToken, decoder)
             | (Inr token, decoder) \<Rightarrow> Some (None, decoder))
      | WElements \<Rightarrow>
          if Decoder_More decoder then
            Option.bind (scanJSONValue WValue (depth + 1) decoder)
              (\<lambda>(err, decoder).
                case err of Some e \<Rightarrow> Some (Some e, decoder)
                | None \<Rightarrow> scanJSONValue WElements depth decoder)
          else
            (case Decoder_Token decoder of
               (Inl e, decoder) \<Rightarrow> Some (Some ScanToken, decoder)
             | (Inr token, decoder) \<Rightarrow> Some (None, decoder)))"

text \<open>\<open>rejectDuplicateJSONMembers\<close>; the outer \<open>None\<close> would be a run that does not return.\<close>

definition rejectDuplicateJSONMembers :: "string \<Rightarrow> scan_error option option" where
  "rejectDuplicateJSONMembers data =
     map_option (\<lambda>(err, decoder).
       case err of
         Some e \<Rightarrow> Some e
       | None \<Rightarrow> if fst (Decoder_Token decoder) \<noteq> Inl IoEOF then Some ScanTrailing else None)
     (scanJSONValue WValue 0 (NewDecoder data))"

text \<open>\<open>Decoder.Decode\<close> once more at the end of a document: \<open>io.EOF\<close> when only white space is left.\<close>

definition decode_end :: "token_decoder \<Rightarrow> bool" where
  "decode_end d \<longleftrightarrow> skip_space (td_rest d) = []"

text \<open>The bytes of a document into a target, or an error.\<close>

definition decodeClosed :: "'a decoder \<Rightarrow> 'a \<Rightarrow> string \<Rightarrow> 'a option option" where
  "decodeClosed target old data =
     map_option (\<lambda>err.
       case err of
         Some _ \<Rightarrow> None
       | None \<Rightarrow>
           (case decode_value target (NewDecoder data) old of
              (None, decoder) \<Rightarrow> None
            | (Some result, decoder) \<Rightarrow> if decode_end decoder then Some result else None))
     (rejectDuplicateJSONMembers data)"

definition maxEvidenceBytes :: nat where "maxEvidenceBytes = 8 * 2 ^ 20"

definition readBoundedFile :: "file_system \<Rightarrow> string \<Rightarrow> nat \<Rightarrow> string option" where
  "readBoundedFile fs path maximum =
     (case fs_content fs path of
        None \<Rightarrow> None
      | Some content \<Rightarrow>
          let data = take (maximum + 1) content
          in if length data > maximum then None else Some data)"

definition decodeClosedFile :: "file_system \<Rightarrow> string \<Rightarrow> 'a decoder \<Rightarrow> 'a \<Rightarrow> 'a option option" where
  "decodeClosedFile fs path target old =
     (case readBoundedFile fs path maxEvidenceBytes of
        None \<Rightarrow> Some None
      | Some data \<Rightarrow> decodeClosed target old data)"

section \<open>Refinement of the strict validation\<close>

fun scan_of :: "strict_error \<Rightarrow> scan_error" where
  "scan_of StrictDepth = ScanDepth"
| "scan_of StrictDuplicate = ScanDuplicate"
| "scan_of StrictPanic = ScanMember"
| "scan_of _ = ScanToken"

definition twin :: "walk \<Rightarrow> nat \<Rightarrow> token_decoder \<Rightarrow> bool" where
  "twin walk depth d \<longleftrightarrow> (ready walk d \<longrightarrow>
     scanJSONValue walk depth d =
       map_option (map_prod (map_option scan_of) id) (validateValue walk depth d))"

lemma twinD:
  "twin walk depth d \<Longrightarrow> ready walk d \<Longrightarrow>
   scanJSONValue walk depth d =
     map_option (map_prod (map_option scan_of) id) (validateValue walk depth d)"
  by (simp add: twin_def)

lemma maxJSONDepth_eq: "maxJSONDepth = maxDepth"
  by (simp add: maxJSONDepth_def maxDepth_def)

lemma twin_value:
  assumes IH: "\<And>walk depth d'. length (td_rest d') < length (td_rest d) \<Longrightarrow> twin walk depth d'"
  shows "twin WValue depth d"
  unfolding twin_def
proof
  assume ready: "ready WValue d"
  show "scanJSONValue WValue depth d =
      map_option (map_prod (map_option scan_of) id) (validateValue WValue depth d)"
  proof (cases "depth > maxDepth \<or> (\<exists>e d'. Decoder_Token d = (Inl e, d'))")
    case True
    then show ?thesis
      by (subst scanJSONValue.simps, subst validateValue.simps) (auto simp: maxJSONDepth_eq)
  next
    case False
    then obtain tok d' where tok: "Decoder_Token d = (Inr tok, d')" "\<not> depth > maxDepth"
      by (metis old.prod.exhaust old.sum.exhaust)
    obtain t r where t: "starting t" "(tok, d') = opened t d r"
      using value_token_sound [OF _ _ tok(1)] ready by (auto simp: ready_def)
    note short = IH [OF Token_shorter [OF tok(1)]]
    from t(1) consider x where "t = TScalar x" | "t = TArrOpen" | "t = TObjOpen"
      by (auto simp: starting_def)
    then show ?thesis
    proof cases
      case 1
      then show ?thesis
        using t(2) tok by (subst scanJSONValue.simps, subst validateValue.simps)
          (auto simp: maxJSONDepth_eq opened_def Let_def)
    next
      case 2
      then have "tok = GoDelim (CHR ''['')" "ready WElements d'"
        using t(2) by (auto simp: opened_def Let_def ready_def)
      with tok short [of WElements depth] show ?thesis
        by (subst scanJSONValue.simps, subst validateValue.simps)
          (simp add: maxJSONDepth_eq twin_def)
    next
      case 3
      then have "tok = GoDelim (CHR ''{'')" "ready (WMembers {}) d'"
        using t(2) by (auto simp: opened_def Let_def ready_def)
      with tok short [of "WMembers {}" depth] show ?thesis
        by (subst scanJSONValue.simps, subst validateValue.simps)
          (simp add: maxJSONDepth_eq twin_def)
    qed
  qed
qed

text \<open>A value that was read leaves a loop ready to go on.\<close>

lemma read_ready:
  assumes "validateValue WValue depth d = Some (None, d')" and "ready WValue d" and "td_stack d \<noteq> []"
  shows "td_state d \<in> {ArrayStart, ArrayComma} \<Longrightarrow> ready WElements d'"
    and "td_state d = ObjectColon \<Longrightarrow> ready (WMembers seen) d'"
proof -
  have "walked WValue depth d d'"
    using validateValue_sound [OF assms(1)] assms(2) by (simp add: sound_run_def)
  then obtain r where "d' = moved d r (value_end (inner (td_state d))) (td_stack d)"
    by (auto simp: walked_def)
  with assms(3) show "td_state d \<in> {ArrayStart, ArrayComma} \<Longrightarrow> ready WElements d'"
    "td_state d = ObjectColon \<Longrightarrow> ready (WMembers seen) d'"
    by (auto simp: ready_def inner_def)
qed

lemma twin_elements:
  assumes IH: "\<And>walk depth d'. length (td_rest d') < length (td_rest d) \<Longrightarrow> twin walk depth d'"
  shows "twin WElements depth d"
  unfolding twin_def
proof
  assume ready: "ready WElements d"
  show "scanJSONValue WElements depth d =
      map_option (map_prod (map_option scan_of) id) (validateValue WElements depth d)"
  proof (cases "Decoder_More d")
    case False
    then show ?thesis
      by (subst scanJSONValue.simps, subst validateValue.simps) (auto split: prod.split sum.split)
  next
    case True
    then have value': "ready WValue d" using ready by (auto simp: ready_def value_position_def)
    obtain err d' where run: "validateValue WValue (depth + 1) d = Some (err, d')"
      and short: "err = None \<Longrightarrow> length (td_rest d') < length (td_rest d)"
      using validateValue_returns [of WValue "depth + 1" d] by (auto simp: returns_def)
    have scan: "scanJSONValue WValue (depth + 1) d = Some (map_option scan_of err, d')"
      using twinD [OF twin_value [OF IH] value', of "depth + 1"] run by simp
    show ?thesis
    proof (cases err)
      case (Some e)
      then show ?thesis
        using True run scan
        by (subst scanJSONValue.simps, subst validateValue.simps) simp
    next
      case None
      have "ready WElements d'"
        using read_ready(1) [of "depth + 1" d d'] run None value' ready by (auto simp: ready_def)
      with IH [OF short [OF None], of WElements depth] have "scanJSONValue WElements depth d' =
          map_option (map_prod (map_option scan_of) id) (validateValue WElements depth d')"
        by (simp add: twin_def)
      then show ?thesis
        using True run scan None
        by (subst scanJSONValue.simps, subst validateValue.simps) simp
    qed
  qed
qed

lemma twin_members:
  assumes IH: "\<And>walk depth d'. length (td_rest d') < length (td_rest d) \<Longrightarrow> twin walk depth d'"
  shows "twin (WMembers seen) depth d"
  unfolding twin_def
proof
  assume ready: "ready (WMembers seen) d"
  have st: "td_state d = ObjectStart \<or> td_state d = ObjectComma" "td_stack d \<noteq> []"
    using ready by (auto simp: ready_def)
  show "scanJSONValue (WMembers seen) depth d =
      map_option (map_prod (map_option scan_of) id) (validateValue (WMembers seen) depth d)"
  proof (cases "Decoder_More d \<and> (\<exists>tok d'. Decoder_Token d = (Inr tok, d'))")
    case False
    then show ?thesis
      by (subst scanJSONValue.simps, subst validateValue.simps) (auto split: prod.split sum.split)
  next
    case True
    then obtain tok d0 where more: "Decoder_More d" and tok: "Decoder_Token d = (Inr tok, d0)" by auto
    obtain name r where name: "tok = GoScalar (SStr name)" "d0 = named name d r"
      using name_token_sound [OF st(1) more tok] by blast
    have shorter: "length (td_rest d0) < length (td_rest d)" by (rule Token_shorter [OF tok])
    have value': "ready WValue d0" "td_state d0 = ObjectColon" "td_stack d0 \<noteq> []"
      using st(2) by (auto simp: name(2) named_def ready_def value_position_def)
    show ?thesis
    proof (cases "name \<in> seen")
      case True
      then show ?thesis
        using more tok name(1) by (subst scanJSONValue.simps, subst validateValue.simps) simp
    next
      case False
      obtain err d' where run: "validateValue WValue (depth + 1) d0 = Some (err, d')"
        and short: "err = None \<Longrightarrow> length (td_rest d') < length (td_rest d0)"
        using validateValue_returns [of WValue "depth + 1" d0] by (auto simp: returns_def)
      have scan: "scanJSONValue WValue (depth + 1) d0 = Some (map_option scan_of err, d')"
        using twinD [OF IH [OF shorter] value'(1), of "depth + 1"] run by simp
      show ?thesis
      proof (cases err)
        case (Some e)
        then show ?thesis
          using more tok name(1) False run scan
          by (subst scanJSONValue.simps, subst validateValue.simps) simp
      next
        case None
        let ?walk = "WMembers (insert name seen)"
        have "ready ?walk d'"
          using read_ready(2) [of "depth + 1" d0 d'] run None value' by simp
        with IH [OF less_trans [OF short [OF None] shorter], of ?walk depth]
        have "scanJSONValue ?walk depth d' =
            map_option (map_prod (map_option scan_of) id) (validateValue ?walk depth d')"
          by (simp add: twin_def)
        then show ?thesis
          using more tok name(1) False run scan None
          by (subst scanJSONValue.simps, subst validateValue.simps) simp
      qed
    qed
  qed
qed

lemma scan_validate: "twin walk depth d"
proof (induction "length (td_rest d)" arbitrary: walk depth d rule: less_induct)
  case less
  then show ?case
    by (cases walk) (simp_all add: twin_value twin_elements twin_members)
qed

section \<open>What is accepted\<close>

lemma rejectDuplicate_result:
  "\<exists>err. rejectDuplicateJSONMembers data = Some err \<and>
     (err = None \<longleftrightarrow> (\<exists>v. json_parse data = Some v \<and> unique_names v \<and> json_depth v \<le> Suc maxJSONDepth))"
proof -
  obtain err d' where run: "validateValue WValue 0 (NewDecoder data) = Some (err, d')"
    using validation_returns [of 0 data] by blast
  have ready: "ready WValue (NewDecoder data)"
    by (simp add: ready_def NewDecoder_def value_position_def)
  have scan: "scanJSONValue WValue 0 (NewDecoder data) = Some (map_option scan_of err, d')"
    using twinD [OF scan_validate ready] run by simp
  have "requireEnd d' = None \<longleftrightarrow> fst (Decoder_Token d') = Inl IoEOF"
    by (auto simp: requireEnd_def split: sum.splits token_error.splits)
  then have "err = None \<and> fst (Decoder_Token d') = Inl IoEOF \<longleftrightarrow>
      (\<exists>v. json_parse data = Some v \<and> unique_names v \<and> json_depth v \<le> Suc maxJSONDepth)"
    using validation_iff [of 0 data] run by (auto simp: maxJSONDepth_eq)
  then show ?thesis
    by (auto simp: rejectDuplicateJSONMembers_def scan split: option.split)
qed

lemma decode_end_lex: "lex (td_rest d) = Some [] \<longleftrightarrow> decode_end d"
  by (auto simp: decode_end_def lex_Nil next_token_def split: list.splits)

lemma decode_top:
  assumes "json_parse data = Some v"
  shows "\<exists>d. decode_value target (NewDecoder data) old = (target v old, d) \<and> decode_end d"
proof -
  obtain d where d: "decode_value target (NewDecoder data) old = (target v old, d)" "requireEnd d = None"
    using decode_document [OF assms, of target old] by blast
  then have "td_state d = TopValue"
    by (auto simp: decode_value_def NewDecoder_def split: option.splits prod.splits)
  with d show ?thesis by (auto simp: requireEnd_top decode_end_lex)
qed

lemma decodeClosed_result:
  "decodeClosed target old data =
     Some (case json_parse data of
       None \<Rightarrow> None
     | Some v \<Rightarrow> if unique_names v \<and> json_depth v \<le> Suc maxJSONDepth then target v old else None)"
proof -
  obtain err where err: "rejectDuplicateJSONMembers data = Some err"
    "err = None \<longleftrightarrow> (\<exists>v. json_parse data = Some v \<and> unique_names v \<and> json_depth v \<le> Suc maxJSONDepth)"
    using rejectDuplicate_result by blast
  show ?thesis
  proof (cases err)
    case (Some e)
    with err(2) have "\<not> (unique_names v \<and> json_depth v \<le> Suc maxJSONDepth)"
      if "json_parse data = Some v" for v
      using that by blast
    then show ?thesis
      using Some err(1) by (auto simp: decodeClosed_def split: option.split)
  next
    case None
    with err(2) obtain v where v: "json_parse data = Some v" "unique_names v"
      "json_depth v \<le> Suc maxJSONDepth" by blast
    with decode_top [OF v(1), of target old] None err(1) show ?thesis
      by (auto simp: decodeClosed_def split: option.split)
  qed
qed

text \<open>So it is a closed reader of its own: no size bound here, and one level more.\<close>

interpretation closed: document_reader "\<lambda>_. True" "Suc maxJSONDepth"
  "\<lambda>data target old. the (decodeClosed target old data)"
  by unfold_locales (auto simp: decodeClosed_result maxJSONDepth_def maxNesting_def
      split: option.splits if_splits)

end
