(* ===== verification/EvidenceFiles.thy ===== *)
theory EvidenceFiles
  imports EvidenceJson PlanCanonical "HOL-Library.List_Lexorder" "HOL-Library.Char_ord"
begin

text \<open>
  The artifact checks of \<open>.verification/cohesion/api-query-v1-oracle/verify.go\<close>: a file of the
  evidence packet is named by a path and pinned by a digest, and the packet must pin exactly the
  expected files. SHA-256 is a parameter.
\<close>

record artifact =
  af_Path :: string
  af_SHA256 :: string

definition maxBinaryBytes :: nat where "maxBinaryBytes = 128 * 2 ^ 20"

definition digestBytes :: "(string \<Rightarrow> string) \<Rightarrow> string \<Rightarrow> string" where
  "digestBytes sha data = hexEncode (sha data)"

definition digestFile :: "(string \<Rightarrow> string) \<Rightarrow> file_system \<Rightarrow> string \<Rightarrow> panic + string" where
  "digestFile sha fs path =
     (case readBoundedFile fs path maxBinaryBytes of
        None \<Rightarrow> Inl Failed
      | Some data \<Rightarrow> Inr (digestBytes sha data))"

text \<open>\<open>hex.DecodeString\<close>.\<close>

fun hexDecode :: "string \<Rightarrow> string option" where
  "hexDecode [] = Some []"
| "hexDecode [c] = None"
| "hexDecode (a # b # rest) =
     (case (hex_value a, hex_value b) of
        (Some x, Some y) \<Rightarrow> map_option ((#) (char_of (16 * x + y))) (hexDecode rest)
      | _ \<Rightarrow> None)"

text \<open>\<open>strings.ToLower\<close> of a text of hexadecimal digits.\<close>

definition hex_lower :: "string \<Rightarrow> string" where
  "hex_lower = map (\<lambda>c. if in_bytes 65 90 c then char_of (byte c + 32) else c)"

definition validDigest :: "string \<Rightarrow> bool" where
  "validDigest value \<longleftrightarrow>
     (case hexDecode value of
        None \<Rightarrow> False
      | Some decoded \<Rightarrow> length decoded = 32 \<and> value = hex_lower value)"

definition equalStrings :: "string list \<Rightarrow> string list \<Rightarrow> bool" where
  "equalStrings left right \<longleftrightarrow> join_with [CHR 0x0A] left = join_with [CHR 0x0A] right"

definition validateArtifact ::
  "(string \<Rightarrow> string) \<Rightarrow> file_system \<Rightarrow> string \<Rightarrow> artifact \<Rightarrow> panic + unit" where
  "validateArtifact sha fs root item =
     next' (require (af_Path item \<noteq> [] \<and> validDigest (af_SHA256 item)) ''artifact identity'') (\<lambda>_.
     next' (localPath fs root (af_Path item)) (\<lambda>path.
     next' (digestFile sha fs path) (\<lambda>digest.
     require (digest = af_SHA256 item) (''artifact digest '' @ af_Path item))))"

definition evidence :: "string \<Rightarrow> string" where
  "evidence name = ''.verification/cohesion/api-query-v1-oracle/'' @ name"

definition package_names :: "string list" where
  "package_names =
     [''root'', ''root__apiqueryhttp'', ''root__apiqueryjsonapi'', ''root__apiquerypgx'',
      ''root__apiqueryrpc'', ''root__apiquerytest'', ''root__apiqueryvalidation'', ''root__cursor'',
      ''root__internal__strictjson'']"

definition expectedPaths :: "string list" where
  "expectedPaths =
     map (\<lambda>n. evidence (''checkpoints/'' @ n @ ''.json'')) package_names @
     map evidence
       [''decision-freeze.json'', ''execution-result.json'', ''external-go.mod'', ''external-go.sum'',
        ''generate-contract.go'', ''harness.go'', ''input.json'', ''module-graph.txt'',
        ''output-contract.json'', ''output.json'', ''postgres-container-inspect.json'',
        ''postgres-image-inspect.json'', ''published-module-download.json'', ''published-module.zip'',
        ''release-allowed-signers'', ''shared-test-input.json''] @
     map (\<lambda>n. evidence (''test-logs/'' @ n @ ''.jsonl'')) package_names @
     [evidence ''verify.go'']"

fun artifact_loop ::
  "(string \<Rightarrow> string) \<Rightarrow> file_system \<Rightarrow> string \<Rightarrow> artifact list \<Rightarrow> string set \<Rightarrow> string list \<Rightarrow>
   panic + string list" where
  "artifact_loop sha fs root [] seen paths = Inr paths"
| "artifact_loop sha fs root (item # rest) seen paths =
     next' (validateArtifact sha fs root item) (\<lambda>_.
     next' (require (af_Path item \<notin> seen) (''duplicate artifact '' @ af_Path item)) (\<lambda>_.
     artifact_loop sha fs root rest (insert (af_Path item) seen) (paths @ [af_Path item])))"

definition validateArtifactSet ::
  "(string \<Rightarrow> string) \<Rightarrow> file_system \<Rightarrow> string \<Rightarrow> artifact list \<Rightarrow> panic + unit" where
  "validateArtifactSet sha fs root artifacts =
     next' (require (length artifacts = length expectedPaths) ''artifact cardinality'') (\<lambda>_.
     next' (artifact_loop sha fs root artifacts {} []) (\<lambda>paths.
     next' (require (equalStrings paths (sort paths)) ''artifact ordering'') (\<lambda>_.
     require (equalStrings paths expectedPaths) ''artifact path contract'')))"

section \<open>Correctness\<close>

text \<open>
  \<open>equalStrings\<close> compares joined texts, so lists of different lengths may pass; for lists of one
  length it is equality, as long as one of them has no line feed in it.
\<close>

lemma equalStrings_one_text: "equalStrings [join_with [CHR 0x0A] texts] texts"
  by (simp add: equalStrings_def)

lemma count_join_with:
  "ps \<noteq> [] \<Longrightarrow> count_list (join_with [sep] ps) sep + 1 =
     length ps + sum_list (map (\<lambda>p. count_list p sep) ps)"
  by (induction "[sep]" ps rule: join_with.induct) auto

lemma equalStrings_eq:
  assumes "length left = length right" and "\<forall>r \<in> set right. CHR 0x0A \<notin> set r"
  shows "equalStrings left right \<longleftrightarrow> left = right"
proof
  assume "equalStrings left right"
  then have join: "join_with [CHR 0x0A] left = join_with [CHR 0x0A] right" by (simp add: equalStrings_def)
  show "left = right"
  proof (cases "right = []")
    case True
    then show ?thesis using assms(1) by simp
  next
    case False
    then have "left \<noteq> []" using assms(1) by auto
    have "sum_list (map (\<lambda>p. count_list p (CHR 0x0A)) right) = 0"
      using assms(2) by (simp add: sum_list_eq_0_iff count_list_0_iff)
    then have "sum_list (map (\<lambda>p. count_list p (CHR 0x0A)) left) = 0"
      using count_join_with [OF False, of "CHR 0x0A"]
        count_join_with [OF \<open>left \<noteq> []\<close>, of "CHR 0x0A", unfolded join] assms(1) by linarith
    then have none: "\<forall>p \<in> set left. CHR 0x0A \<notin> set p"
      by (simp add: sum_list_eq_0_iff count_list_0_iff)
    have "split_on (CHR 0x0A) (join_with [CHR 0x0A] left) = left"
      by (rule split_join [OF \<open>left \<noteq> []\<close>]) (use none in blast)
    moreover have "split_on (CHR 0x0A) (join_with [CHR 0x0A] right) = right"
      by (rule split_join [OF False]) (use assms(2) in blast)
    ultimately show ?thesis unfolding join by (rule trans [OF sym])
  qed
qed (simp add: equalStrings_def)

lemma readBoundedFile_Some:
  "readBoundedFile fs path maximum = Some data \<longleftrightarrow>
     fs_content fs path = Some data \<and> length data \<le> maximum"
  by (auto simp: readBoundedFile_def Let_def split: option.split)

lemma digestFile_Inr:
  "digestFile sha fs path = Inr d \<longleftrightarrow>
     (\<exists>data. readBoundedFile fs path maxBinaryBytes = Some data \<and> d = hexEncode (sha data))"
  by (cases "readBoundedFile fs path maxBinaryBytes") (auto simp: digestFile_def digestBytes_def)

text \<open>Hexadecimal digits and digests.\<close>

lemma hexDecode_hexEncode: "hexDecode (hexEncode s) = Some s"
proof (induction s)
  case (Cons c s)
  have "hex_value (hex_char (byte c div 16)) = Some (byte c div 16)"
    "hex_value (hex_char (byte c mod 16)) = Some (byte c mod 16)"
    using hex_value_char byte_less [of c] by (simp_all add: less_mult_imp_div_less)
  moreover have "char_of (16 * (byte c div 16) + byte c mod 16) = c" by (simp add: byte_def)
  ultimately show ?case using Cons by (simp add: hexEncode_def)
qed (simp add: hexEncode_def)

lemma hex_char_lower: "n < 16 \<Longrightarrow> \<not> in_bytes 65 90 (hex_char n) \<and> byte (hex_char n) < 128"
  by (auto simp: hex_char_def in_bytes_def byte_char_of)

lemma validDigest_hexEncode: "length s = 32 \<Longrightarrow> validDigest (hexEncode s)"
proof -
  have "hex_lower (hexEncode s) = hexEncode s" for s
  proof (induction s)
    case (Cons c s)
    have "byte c div 16 < 16" "byte c mod 16 < 16" using byte_less [of c] by simp_all
    with Cons hex_char_lower show ?case by (simp add: hexEncode_def hex_lower_def)
  qed (simp add: hexEncode_def hex_lower_def)
  then show "length s = 32 \<Longrightarrow> ?thesis" by (simp add: validDigest_def hexDecode_hexEncode)
qed

lemma hexEncode_clean: "sanitize (hexEncode s) = hexEncode s"
proof (rule sanitize_valid, rule valid_utf8_ascii)
  have "byte c div 16 < 16" "byte c mod 16 < 16" for c using byte_less [of c] by simp_all
  then show "\<forall>c \<in> set (hexEncode s). byte c < 128"
    using hex_char_lower by (auto simp: hexEncode_def)
qed

lemma hexEncode_length: "length (hexEncode s) = 2 * length s"
  by (induction s) (simp_all add: hexEncode_def)

text \<open>A path of plain names is resolved below the root, name by name.\<close>

lemma localPath_plain:
  assumes "\<forall>p \<in> set rs. plain_name p" and "clean_parts False relative = ps" and "ps \<noteq> []"
    and "\<forall>p \<in> set ps. plain_name p" and "\<not> IsAbs relative"
  shows "localPath fs (abs_path rs) relative = Inr path \<longleftrightarrow>
    chain_ok fs rs ps \<and> path = abs_path (rs @ ps)"
  using localPath_result [OF assms(1), of fs relative path] assms(2-5) by auto

definition artifact_holds ::
  "(string \<Rightarrow> string) \<Rightarrow> file_system \<Rightarrow> string list \<Rightarrow> string list \<Rightarrow> string \<Rightarrow> bool" where
  "artifact_holds sha fs rs ps digest \<longleftrightarrow>
     validDigest digest \<and> chain_ok fs rs ps \<and>
     (\<exists>content. fs_content fs (abs_path (rs @ ps)) = Some content \<and>
        length content \<le> maxBinaryBytes \<and> hexEncode (sha content) = digest)"

lemma validateArtifact_plain:
  assumes "\<forall>p \<in> set rs. plain_name p" and "clean_parts False (af_Path item) = ps" and "ps \<noteq> []"
    and "\<forall>p \<in> set ps. plain_name p" and "\<not> IsAbs (af_Path item)"
  shows "validateArtifact sha fs (abs_path rs) item = Inr () \<longleftrightarrow>
    artifact_holds sha fs rs ps (af_SHA256 item)"
proof -
  have "af_Path item \<noteq> []"
    using assms(2,3) by (auto simp: clean_parts_def clean_step_def)
  moreover have digest: "digestFile sha fs path = Inr d \<longleftrightarrow>
      (\<exists>content. fs_content fs path = Some content \<and> length content \<le> maxBinaryBytes \<and>
        d = hexEncode (sha content))" for path d
    unfolding digestFile_Inr readBoundedFile_Some by auto
  ultimately show ?thesis
    by (auto simp: validateArtifact_def next'_Inr localPath_plain [OF assms] artifact_holds_def)
qed

lemma artifact_loop_Inr:
  "artifact_loop sha fs root items seen paths = Inr r \<longleftrightarrow>
     (\<forall>item \<in> set items. validateArtifact sha fs root item = Inr ()) \<and>
     distinct (map af_Path items) \<and> af_Path ` set items \<inter> seen = {} \<and> r = paths @ map af_Path items"
proof (induction items arbitrary: seen paths)
  case (Cons item items)
  then show ?case by (auto simp: next'_Inr)
qed auto

fun ascending :: "string list \<Rightarrow> bool" where
  "ascending (p # q # ps) \<longleftrightarrow> p < q \<and> ascending (q # ps)"
| "ascending _ \<longleftrightarrow> True"

lemma ascending_sorted: "ascending ps \<Longrightarrow> sorted ps \<and> distinct ps"
proof -
  have "sorted_wrt (<) ps" if "ascending ps"
    using that by (induction ps rule: ascending.induct) (auto intro: less_trans)
  then show "ascending ps \<Longrightarrow> sorted ps \<and> distinct ps" by (simp add: strict_sorted_iff)
qed

lemma expectedPaths_sorted: "distinct expectedPaths" "sort expectedPaths = expectedPaths"
proof -
  have "ascending expectedPaths" by code_simp
  then show "distinct expectedPaths" "sort expectedPaths = expectedPaths"
    by (simp_all add: ascending_sorted sorted_sort_id)
qed

lemma expectedPaths_plain:
  "list_all (\<lambda>p. CHR 0x0A \<notin> set p \<and> clean_parts False p = split_on slash p \<and>
     list_all (\<lambda>q. q \<notin> {[], ''.'', ''..''}) (split_on slash p) \<and> \<not> IsAbs p) expectedPaths"
  by code_simp

lemma validateArtifactSet_Inr:
  assumes "\<forall>p \<in> set rs. plain_name p"
  shows "validateArtifactSet sha fs (abs_path rs) artifacts = Inr () \<longleftrightarrow>
    map af_Path artifacts = expectedPaths \<and>
    (\<forall>item \<in> set artifacts.
       artifact_holds sha fs rs (split_on slash (af_Path item)) (af_SHA256 item))"
proof -
  have expected: "CHR 0x0A \<notin> set p" "clean_parts False p = split_on slash p" "\<not> IsAbs p"
    "\<forall>q \<in> set (split_on slash p). plain_name q" if "p \<in> set expectedPaths" for p
    using expectedPaths_plain that split_on_parts [of _ slash p]
    by (auto simp: list_all_iff plain_name_def)
  have artifact: "validateArtifact sha fs (abs_path rs) item = Inr () \<longleftrightarrow>
      artifact_holds sha fs rs (split_on slash (af_Path item)) (af_SHA256 item)"
    if "af_Path item \<in> set expectedPaths" for item
    using validateArtifact_plain [OF assms expected(2) [OF that]] expected [OF that] by simp
  have order: "equalStrings paths (sort paths) \<and> equalStrings paths expectedPaths \<longleftrightarrow>
      paths = expectedPaths" if "length paths = length expectedPaths" for paths
    using equalStrings_eq [OF that] expected(1) expectedPaths_sorted(2)
    by (auto simp: equalStrings_def)
  have "validateArtifactSet sha fs (abs_path rs) artifacts = Inr () \<longleftrightarrow>
      length artifacts = length expectedPaths \<and>
      (\<forall>item \<in> set artifacts. validateArtifact sha fs (abs_path rs) item = Inr ()) \<and>
      distinct (map af_Path artifacts) \<and>
      equalStrings (map af_Path artifacts) (sort (map af_Path artifacts)) \<and>
      equalStrings (map af_Path artifacts) expectedPaths"
    by (auto simp: validateArtifactSet_def next'_Inr artifact_loop_Inr)
  also have "\<dots> \<longleftrightarrow> map af_Path artifacts = expectedPaths \<and>
      (\<forall>item \<in> set artifacts. validateArtifact sha fs (abs_path rs) item = Inr ())"
  proof (cases "length artifacts = length expectedPaths")
    case True
    then show ?thesis using order [of "map af_Path artifacts"] expectedPaths_sorted(1) by auto
  next
    case False
    then have "map af_Path artifacts \<noteq> expectedPaths" by (metis length_map)
    with False show ?thesis by simp
  qed
  also have "\<dots> \<longleftrightarrow> map af_Path artifacts = expectedPaths \<and>
      (\<forall>item \<in> set artifacts.
         artifact_holds sha fs rs (split_on slash (af_Path item)) (af_SHA256 item))"
    using artifact by (metis (no_types, lifting) image_eqI set_map)
  finally show ?thesis .
qed

end
