(* ===== verification/ReplayArchive.thy ===== *)
theory ReplayArchive
  imports EvidencePaths "HOL-Library.Multiset" "HOL-Library.List_Lexorder" "HOL-Library.Char_ord"
begin

unbundle bit_operations_syntax

text \<open>
  \<open>writeDeterministicModuleZip\<close> of \<open>.verification/cohesion/api-query-v1-final-replay/verify.go\<close>: the
  module zip of the replay is built from the source archive of a commit. What \<open>archive/tar\<close> reads
  from the bytes is a list of items (a header with its content, or an error, after which nothing is
  read); the zip file is a sink in a world \<open>'w\<close>, each of whose operations may fail.
\<close>

datatype tar_type = TarXGlobalHeader | TarReg | TarRegA | TarDir | TarOther

record file_mode =
  fm_dir :: bool
  fm_perm :: nat

record tar_header =
  th_Name :: string
  th_Size :: int
  th_Typeflag :: tar_type
  th_Mode :: file_mode

text \<open>An entry comes with the bytes that can be read of it, fewer than its size in a cut archive.\<close>

datatype tar_item = TarError | TarEntry tar_header string

definition ReadFull :: "int \<Rightarrow> string \<Rightarrow> string option" where
  "ReadFull n content =
     (if int (length content) < n then None else Some (take (nat n) content))"

record archiveEntry =
  ae_name :: string
  ae_mode :: file_mode
  ae_data :: string

datatype archive_error =
  ArchiveBound | ArchivePath | ArchiveType | ArchiveRead | ArchiveDuplicate | ArchiveWrite

definition maximumBytes :: int where "maximumBytes = 8 * 2 ^ 20"

definition normalizedArchiveMode :: "file_mode \<Rightarrow> file_mode" where
  "normalizedArchiveMode mode =
     (if fm_dir mode then \<lparr>fm_dir = True, fm_perm = 0x1ED\<rparr>
      else if fm_perm mode AND 0x49 \<noteq> 0 then \<lparr>fm_dir = False, fm_perm = 0x1ED\<rparr>
      else \<lparr>fm_dir = False, fm_perm = 0x1A4\<rparr>)"

definition bad_name :: "string \<Rightarrow> bool" where
  "bad_name name \<longleftrightarrow>
     name = [] \<or> IsAbs name \<or> CHR 0x5C \<in> set name \<or> sublist ''/../'' (slash # name @ [slash])"

fun archive_loop ::
  "tar_item list \<Rightarrow> nat \<Rightarrow> int \<Rightarrow> archiveEntry list \<Rightarrow> archive_error + archiveEntry list" where
  "archive_loop [] entryCount totalBytes entries = Inr entries"
| "archive_loop (TarError # items) entryCount totalBytes entries = Inl ArchiveRead"
| "archive_loop (TarEntry header content # items) entryCount totalBytes entries =
     (let entryCount = entryCount + 1 in
      if entryCount > 4096 \<or> th_Size header < 0 \<or> th_Size header > maximumBytes \<or>
         totalBytes > maximumBytes - th_Size header
      then Inl ArchiveBound
      else if th_Typeflag header = TarXGlobalHeader then
        (case ReadFull (th_Size header) content of
           None \<Rightarrow> Inl ArchiveRead
         | Some _ \<Rightarrow> archive_loop items entryCount (totalBytes + th_Size header) entries)
      else if bad_name (th_Name header) then Inl ArchivePath
      else if th_Typeflag header \<noteq> TarReg \<and> th_Typeflag header \<noteq> TarRegA \<and>
         th_Typeflag header \<noteq> TarDir
      then Inl ArchiveType
      else
        (case ReadFull (th_Size header) content of
           None \<Rightarrow> Inl ArchiveRead
         | Some data \<Rightarrow>
             archive_loop items entryCount (totalBytes + int (length data))
               (entries @ [\<lparr>ae_name = th_Name header,
                  ae_mode = normalizedArchiveMode (th_Mode header), ae_data = data\<rparr>])))"

text \<open>Entries of one name are next to each other once they are sorted, in whichever order.\<close>

fun repeated :: "archiveEntry list \<Rightarrow> bool" where
  "repeated (e # f # rest) \<longleftrightarrow> ae_name e = ae_name f \<or> repeated (f # rest)"
| "repeated _ \<longleftrightarrow> False"

definition collectEntries :: "tar_item list \<Rightarrow> archive_error + archiveEntry list" where
  "collectEntries items =
     (case archive_loop items 0 0 [] of
        Inl e \<Rightarrow> Inl e
      | Inr entries \<Rightarrow>
          let entries = sort_key ae_name entries
          in if repeated entries then Inl ArchiveDuplicate else Inr entries)"

section \<open>The zip file\<close>

datatype zip_method = Store | Deflate

record zip_header =
  zh_Name :: string
  zh_Method :: zip_method
  zh_Mode :: file_mode
  zh_Modified :: int

text \<open>The operations of the output file and its zip writer: success, and the world after it.\<close>

record 'w zip_sink =
  zs_OpenFile :: "'w \<Rightarrow> bool \<times> 'w"
  zs_CreateHeader :: "zip_header \<Rightarrow> 'w \<Rightarrow> bool \<times> 'w"
  zs_Write :: "string \<Rightarrow> 'w \<Rightarrow> bool \<times> 'w"
  zs_CloseZip :: "'w \<Rightarrow> bool \<times> 'w"
  zs_CloseFile :: "'w \<Rightarrow> bool \<times> 'w"

definition zip_header_of :: "string \<Rightarrow> int \<Rightarrow> archiveEntry \<Rightarrow> zip_header" where
  "zip_header_of prefix' modified entry =
     (let name = prefix' @ ae_name entry;
          (method, name) =
            (if fm_dir (ae_mode entry)
             then (Store, if suffix [slash] name then name else name @ [slash])
             else (Deflate, name))
      in \<lparr>zh_Name = name, zh_Method = method, zh_Mode = ae_mode entry, zh_Modified = modified\<rparr>)"

fun zip_loop ::
  "'w zip_sink \<Rightarrow> string \<Rightarrow> int \<Rightarrow> archiveEntry list \<Rightarrow> 'w \<Rightarrow> (archive_error + unit) \<times> 'w" where
  "zip_loop sink prefix' modified [] w =
     (let (closed, w) = zs_CloseZip sink w in
      if \<not> closed then (Inl ArchiveWrite, snd (zs_CloseFile sink w))
      else
        let (closed, w) = zs_CloseFile sink w
        in (if closed then Inr () else Inl ArchiveWrite, w))"
| "zip_loop sink prefix' modified (entry # entries) w =
     (let (created, w) = zs_CreateHeader sink (zip_header_of prefix' modified entry) w in
      if \<not> created
      then (Inl ArchiveWrite, snd (zs_CloseFile sink (snd (zs_CloseZip sink w))))
      else
        let (written, w) = zs_Write sink (ae_data entry) w in
        if \<not> written
        then (Inl ArchiveWrite, snd (zs_CloseFile sink (snd (zs_CloseZip sink w))))
        else zip_loop sink prefix' modified entries w)"

definition writeDeterministicModuleZip ::
  "(string \<Rightarrow> tar_item list) \<Rightarrow> 'w zip_sink \<Rightarrow> string \<Rightarrow> int \<Rightarrow> string \<Rightarrow> 'w \<Rightarrow>
   (archive_error + unit) \<times> 'w" where
  "writeDeterministicModuleZip tar sink prefix' modified tarBytes w =
     (if int (length tarBytes) > maximumBytes then (Inl ArchiveBound, w)
      else
        (case collectEntries (tar tarBytes) of
           Inl e \<Rightarrow> (Inl e, w)
         | Inr entries \<Rightarrow>
             let (opened, w) = zs_OpenFile sink w in
             if \<not> opened then (Inl ArchiveWrite, w)
             else zip_loop sink prefix' modified entries w))"

section \<open>Correctness\<close>

text \<open>The modes of the zip are those of git: two for files and one for directories.\<close>

lemma normalizedArchiveMode_cases:
  "normalizedArchiveMode mode \<in>
     {\<lparr>fm_dir = True, fm_perm = 0x1ED\<rparr>, \<lparr>fm_dir = False, fm_perm = 0x1ED\<rparr>,
      \<lparr>fm_dir = False, fm_perm = 0x1A4\<rparr>}"
  by (simp add: normalizedArchiveMode_def)

text \<open>The test for \<open>/../\<close> finds exactly the names with an element \<open>..\<close>.\<close>

lemma dots_first:
  assumes "slash \<notin> set p"
  shows "sublist ''/../'' (slash # p @ slash # s) \<longleftrightarrow> p = ''..'' \<or> sublist ''/../'' (slash # s)"
proof -
  have dots: "''/../'' = slash # ''../''" by (simp add: slash_def)
  have "sublist ''/../'' (p @ slash # s) \<longleftrightarrow> sublist ''/../'' (slash # s)"
    using assms
  proof (induction p)
    case (Cons c p)
    then show ?case by (simp add: dots sublist_Cons_right)
  qed simp
  moreover have "prefix ''../'' (p @ slash # s) \<longleftrightarrow> p = ''..''"
  proof (cases "length p \<le> 2")
    case True
    then obtain a b where "p = [] \<or> p = [a] \<or> p = [a, b]"
      by (cases p; cases "tl p"; cases "tl (tl p)") auto
    then show ?thesis by (auto simp: slash_def)
  next
    case False
    then obtain a b c q where p: "p = a # b # c # q"
      by (cases p; cases "tl p"; cases "tl (tl p)") auto
    with assms show ?thesis by (auto simp: slash_def)
  qed
  ultimately show ?thesis
    by (simp add: sublist_Cons_right [of _ slash "p @ slash # s"] dots)
qed

lemma dots_element:
  "sublist ''/../'' (slash # name @ [slash]) \<longleftrightarrow> ''..'' \<in> set (split_on slash name)"
proof -
  have dots: "sublist ''/../'' (slash # concat (map (\<lambda>p. p @ [slash]) ps)) \<longleftrightarrow> ''..'' \<in> set ps"
    if "\<forall>p \<in> set ps. slash \<notin> set p" for ps
    using that
  proof (induction ps)
    case Nil
    show ?case by (simp add: slash_def sublist_Cons_right)
  next
    case (Cons p ps)
    then show ?case by (auto simp: dots_first)
  qed
  have "join_with [slash] ps @ [slash] = concat (map (\<lambda>p. p @ [slash]) ps)" if "ps \<noteq> []" for ps
    using that by (induction "[slash]" ps rule: join_with.induct) simp_all
  from this [of "split_on slash name"] show ?thesis
    using dots [of "split_on slash name"] split_on_parts by (simp add: join_split)
qed

fun item_size :: "tar_item \<Rightarrow> int" where
  "item_size TarError = 0"
| "item_size (TarEntry header content) = th_Size header"

fun item_ok :: "tar_item \<Rightarrow> bool" where
  "item_ok TarError \<longleftrightarrow> False"
| "item_ok (TarEntry header content) \<longleftrightarrow>
     0 \<le> th_Size header \<and> th_Size header \<le> int (length content) \<and>
     (th_Typeflag header = TarXGlobalHeader \<or>
      \<not> bad_name (th_Name header) \<and> th_Typeflag header \<in> {TarReg, TarRegA, TarDir})"

fun item_entries :: "tar_item \<Rightarrow> archiveEntry list" where
  "item_entries TarError = []"
| "item_entries (TarEntry header content) =
     (if th_Typeflag header = TarXGlobalHeader then []
      else [\<lparr>ae_name = th_Name header, ae_mode = normalizedArchiveMode (th_Mode header),
             ae_data = take (nat (th_Size header)) content\<rparr>])"

lemma item_size_nonneg: "\<forall>item \<in> set items. item_ok item \<Longrightarrow> 0 \<le> sum_list (map item_size items)"
proof (induction items)
  case (Cons item items)
  then show ?case by (cases item) auto
qed simp

lemma archive_loop_Inr:
  assumes "n \<le> 4096" and "0 \<le> read" and "read \<le> maximumBytes"
  shows "archive_loop items n read entries = Inr es \<longleftrightarrow>
    (\<forall>item \<in> set items. item_ok item) \<and> n + length items \<le> 4096 \<and>
    read + sum_list (map item_size items) \<le> maximumBytes \<and>
    es = entries @ concat (map item_entries items)"
  using assms
proof (induction items arbitrary: n read entries)
  case (Cons item items)
  show ?case
  proof (cases item)
    case (TarEntry header content)
    let ?size = "th_Size header"
    let ?global = "th_Typeflag header = TarXGlobalHeader"
    show ?thesis
    proof (cases "0 \<le> ?size \<and> read + ?size \<le> maximumBytes \<and> n + 1 \<le> 4096")
      case False
      then have "archive_loop (item # items) n read entries = Inl ArchiveBound"
        using TarEntry by auto
      moreover have "\<not> ((\<forall>item \<in> set (item # items). item_ok item) \<and>
          n + length (item # items) \<le> 4096 \<and>
          read + sum_list (map item_size (item # items)) \<le> maximumBytes)"
        using False item_size_nonneg [of items] TarEntry by fastforce
      ultimately show ?thesis by auto
    next
      case True
      then have first: "archive_loop (item # items) n read entries = Inr es \<longleftrightarrow>
          ?size \<le> int (length content) \<and>
          (?global \<and> archive_loop items (n + 1) (read + ?size) entries = Inr es \<or>
           \<not> ?global \<and> \<not> bad_name (th_Name header) \<and> th_Typeflag header \<in> {TarReg, TarRegA, TarDir} \<and>
             archive_loop items (n + 1) (read + ?size) (entries @ item_entries item) = Inr es)"
        using Cons.prems TarEntry by (auto simp: ReadFull_def Let_def split: option.splits if_splits)
      have IH: "archive_loop items (n + 1) (read + ?size) entries' = Inr es \<longleftrightarrow>
          (\<forall>item \<in> set items. item_ok item) \<and> n + 1 + length items \<le> 4096 \<and>
          read + ?size + sum_list (map item_size items) \<le> maximumBytes \<and>
          es = entries' @ concat (map item_entries items)" for entries'
        using True Cons.prems by (intro Cons.IH) auto
      show ?thesis
        unfolding first IH using True unfolding TarEntry by (cases ?global) (auto simp: add.assoc)
    qed
  qed simp
qed auto

text \<open>What the source archive comes to: it depends on the items, but not on their order.\<close>

definition archive_entries :: "tar_item list \<Rightarrow> archiveEntry list" where
  "archive_entries items = concat (map item_entries items)"

definition archive_ok :: "tar_item list \<Rightarrow> bool" where
  "archive_ok items \<longleftrightarrow>
     (\<forall>item \<in> set items. item_ok item) \<and> length items \<le> 4096 \<and>
     sum_list (map item_size items) \<le> maximumBytes \<and> distinct (map ae_name (archive_entries items))"

lemma repeated_sorted: "sorted (map ae_name es) \<Longrightarrow> repeated es \<longleftrightarrow> \<not> distinct (map ae_name es)"
proof (induction es rule: repeated.induct)
  case (1 e f rest)
  then have IH: "repeated (f # rest) \<longleftrightarrow> \<not> distinct (map ae_name (f # rest))" by simp
  have "ae_name e \<notin> ae_name ` set (f # rest)" if "ae_name e \<noteq> ae_name f"
  proof -
    have "ae_name e < ae_name f" "\<forall>g \<in> set (f # rest). ae_name f \<le> ae_name g"
      using that 1(2) by auto
    then show ?thesis by fastforce
  qed
  with IH show ?case by auto
qed simp_all

lemma collectEntries_Inr:
  "collectEntries items = Inr es \<longleftrightarrow>
     archive_ok items \<and> es = sort_key ae_name (archive_entries items)"
proof -
  let ?entries = "archive_entries items"
  have "repeated (sort_key ae_name ?entries) \<longleftrightarrow> \<not> distinct (map ae_name ?entries)"
    using repeated_sorted [of "sort_key ae_name ?entries"]
    by (simp add: distinct_map)
  moreover have "collectEntries items = Inr es \<longleftrightarrow> (\<exists>raw. archive_loop items 0 0 [] = Inr raw \<and>
      \<not> repeated (sort_key ae_name raw) \<and> es = sort_key ae_name raw)"
    by (auto simp: collectEntries_def Let_def split: sum.splits)
  moreover have "archive_loop items 0 0 [] = Inr raw \<longleftrightarrow> (\<forall>item \<in> set items. item_ok item) \<and>
      length items \<le> 4096 \<and> sum_list (map item_size items) \<le> maximumBytes \<and> raw = ?entries" for raw
    using archive_loop_Inr [of 0 0 items "[]" raw]
    by (simp add: maximumBytes_def archive_entries_def)
  ultimately show ?thesis by (auto simp: archive_ok_def)
qed

lemma collectEntries_mset:
  assumes "mset items = mset items'"
  shows "collectEntries items = Inr es \<longleftrightarrow> collectEntries items' = Inr es"
proof -
  have entries: "mset (archive_entries items) = mset (archive_entries items')"
    using arg_cong [OF assms, of "\<lambda>M. sum_mset (image_mset (mset \<circ> item_entries) M)"]
    by (simp add: archive_entries_def mset_concat comp_def flip: sum_mset_sum_list mset_map)
  then have names: "distinct (map ae_name (archive_entries items)) \<longleftrightarrow>
      distinct (map ae_name (archive_entries items'))"
    by (metis mset_eq_imp_distinct_iff mset_map)
  have sizes: "sum_list (map item_size items) = sum_list (map item_size items')"
    using assms by (metis mset_map sum_mset_sum_list)
  have ok: "archive_ok items \<longleftrightarrow> archive_ok items'"
    using names mset_eq_setD [OF assms] mset_eq_length [OF assms] sizes by (simp add: archive_ok_def)
  have "sort_key ae_name (archive_entries items) = sort_key ae_name (archive_entries items')"
    if "archive_ok items"
  proof (rule sort_key_inj_key_eq)
    show "inj_on ae_name (set (archive_entries items))"
      using that by (simp add: archive_ok_def distinct_map)
  qed (simp_all add: entries)
  with ok show ?thesis by (auto simp: collectEntries_Inr)
qed

end
