(* ===== verification/ReplayTools.thy ===== *)
theory ReplayTools
  imports EvidenceFiles ReplayArchive
begin

text \<open>
  The self-contained functions of \<open>.verification/cohesion/api-query-v1-final-replay/verify.go\<close>: the
  environment of the commands it runs, the bounded capture of their output, the patch of the frozen
  harness, and the tests on the isolation of its database and of the commit range.
\<close>

section \<open>withEnv\<close>

text \<open>\<open>strings.Cut\<close>: what stands before and after the first separator, and whether there is one.\<close>

definition cut_at :: "char \<Rightarrow> string \<Rightarrow> string \<times> string \<times> bool" where
  "cut_at sep s =
     (case dropWhile (\<lambda>c. c \<noteq> sep) s of
        [] \<Rightarrow> (s, [], False)
      | _ # rest \<Rightarrow> (takeWhile (\<lambda>c. c \<noteq> sep) s, rest, True))"

definition env_key :: "string \<Rightarrow> string" where
  "env_key item = fst (cut_at (CHR ''='') item)"

definition withEnv :: "string list \<Rightarrow> string list \<Rightarrow> string list" where
  "withEnv base overrides =
     (let keys = set (map env_key overrides)
      in filter (\<lambda>item. env_key item \<notin> keys) base @ overrides)"

text \<open>
  An environment gives a variable the value of its last entry (\<open>os/exec\<close> keeps that one).
\<close>

definition env_value :: "string list \<Rightarrow> string \<Rightarrow> string option" where
  "env_value env key =
     (case filter (\<lambda>item. env_key item = key) env of
        [] \<Rightarrow> None
      | items \<Rightarrow> Some (fst (snd (cut_at (CHR ''='') (last items)))))"

lemma withEnv_value:
  "env_value (withEnv base overrides) key =
     (if key \<in> set (map env_key overrides) then env_value overrides key else env_value base key)"
proof (cases "key \<in> set (map env_key overrides)")
  case True
  have "filter (\<lambda>item. env_key item = key) (withEnv base overrides) =
      filter (\<lambda>item. env_key item = key) overrides"
    using True by (auto simp: withEnv_def Let_def filter_empty_conv)
  with True show ?thesis by (simp add: env_value_def)
next
  case False
  then have "filter (\<lambda>item. env_key item = key) overrides = []"
    by (auto simp: filter_empty_conv)
  moreover have "filter (\<lambda>item. env_key item = key)
      (filter (\<lambda>item. env_key item \<notin> set (map env_key overrides)) base) =
      filter (\<lambda>item. env_key item = key) base"
    unfolding filter_filter using False by (intro filter_cong) auto
  ultimately have "filter (\<lambda>item. env_key item = key) (withEnv base overrides) =
      filter (\<lambda>item. env_key item = key) base"
    by (simp add: withEnv_def Let_def)
  with False show ?thesis by (simp add: env_value_def)
qed

section \<open>limitedWriter\<close>

record limitedWriter =
  lw_target :: string
  lw_remaining :: int

text \<open>A write is taken whole or refused; a \<open>bytes.Buffer\<close> never fails.\<close>

definition lw_Write :: "string \<Rightarrow> limitedWriter \<Rightarrow> (unit + nat) \<times> limitedWriter" where
  "lw_Write data writer =
     (let original = length data in
      if int original > lw_remaining writer then (Inl (), writer)
      else
        (Inr original,
         writer\<lparr>lw_remaining := lw_remaining writer - int original,
                lw_target := lw_target writer @ data\<rparr>))"

lemma lw_Write_bound:
  assumes "lw_Write data writer = (r, writer')"
  shows "int (length (lw_target writer')) + lw_remaining writer' =
      int (length (lw_target writer)) + lw_remaining writer"
    and "0 \<le> lw_remaining writer \<Longrightarrow> 0 \<le> lw_remaining writer'"
  using assms by (auto simp: lw_Write_def Let_def split: if_splits)

section \<open>portableReplayHarness\<close>

text \<open>\<open>bytes.Count\<close> and \<open>bytes.Replace\<close> (once) of a text that is not empty.\<close>

function count_text :: "string \<Rightarrow> string \<Rightarrow> nat" where
  "count_text old s =
     (if s = [] \<or> old = [] then 0
      else if prefix old s then Suc (count_text old (drop (length old) s))
      else count_text old (tl s))"
  by pat_completeness auto

termination
  by (relation "measure (\<lambda>(old, s). length s)") (auto simp: neq_Nil_conv)

declare count_text.simps [simp del]

fun replace_first :: "string \<Rightarrow> string \<Rightarrow> string \<Rightarrow> string" where
  "replace_first old new [] = []"
| "replace_first old new (c # s) =
     (if prefix old (c # s) then new @ drop (length old) (c # s)
      else c # replace_first old new s)"

definition portableReplayHarness :: "string \<Rightarrow> string \<Rightarrow> string option" where
  "portableReplayHarness source goos =
     (if goos = ''darwin'' then Some source
      else if goos \<noteq> ''linux'' then None
      else
        let legacyPath = CHR 0x22 # ''/usr/sbin/lsof'' @ [CHR 0x22]
        in if count_text legacyPath source \<noteq> 1 then None
           else Some (replace_first legacyPath (CHR 0x22 # ''lsof'' @ [CHR 0x22]) source))"

lemma replace_first_once:
  assumes "old \<noteq> []" and "count_text old s = 1"
  shows "\<exists>before after. s = before @ old @ after \<and> replace_first old new s = before @ new @ after \<and>
    count_text old after = 0"
  using assms(2)
proof (induction s)
  case Nil
  then show ?case by (simp add: count_text.simps)
next
  case (Cons c s)
  show ?case
  proof (cases "prefix old (c # s)")
    case True
    then obtain after where after: "c # s = old @ after" by (auto simp: prefix_def)
    then have "count_text old after = 0"
      using Cons.prems assms(1) by (simp add: count_text.simps [of old "old @ after"])
    moreover have "replace_first old new (c # s) = new @ drop (length old) (c # s)"
      using True by simp
    then have "replace_first old new (c # s) = new @ after" unfolding after by simp
    ultimately show ?thesis
      using after by (intro exI [of _ "[]"] exI [of _ after]) simp
  next
    case False
    then have "count_text old s = 1" using Cons.prems assms(1) by (simp add: count_text.simps [of old "c # s"])
    with Cons.IH obtain before after where "s = before @ old @ after"
      "replace_first old new s = before @ new @ after" "count_text old after = 0" by blast
    with False show ?thesis by (intro exI [of _ "c # before"] exI [of _ after]) simp
  qed
qed

section \<open>Isolation\<close>

definition hasOption :: "string \<Rightarrow> string \<Rightarrow> bool" where
  "hasOption options expected \<longleftrightarrow> list_ex (\<lambda>option. option = expected) (split_on (CHR '','') options)"

record dockerMount =
  dm_Type :: string
  dm_Name :: string
  dm_Source :: string
  dm_Destination :: string
  dm_Driver :: string
  dm_Mode :: string
  dm_RW :: bool
  dm_Propagation :: string

record dockerStorage =
  ds_Mounts :: "dockerMount list"
  ds_Tmpfs :: "(string \<times> string) list"

definition isolatedPostgresStorage :: "dockerStorage \<Rightarrow> bool" where
  "isolatedPostgresStorage storage =
     (case map_of (ds_Tmpfs storage) ''/var/lib/postgresql'' of
        None \<Rightarrow> False
      | Some options \<Rightarrow>
          if length (ds_Tmpfs storage) \<noteq> 1 \<or> length (ds_Mounts storage) > 1 \<or>
             \<not> hasOption options ''rw'' \<or> \<not> hasOption options ''nosuid''
          then False
          else list_all (\<lambda>mount. \<not> (dm_Type mount \<noteq> ''tmpfs'' \<or>
            dm_Destination mount \<noteq> ''/var/lib/postgresql'')) (ds_Mounts storage))"

definition isHex :: "string \<Rightarrow> nat \<Rightarrow> bool" where
  "isHex value n \<longleftrightarrow> length value = n \<and> hexDecode value \<noteq> None"

definition receiptPath :: string where
  "receiptPath = ''.verification/cohesion/api-query-v1-final-replay.json''"

definition receiptOnlyDiff :: "string \<Rightarrow> bool" where
  "receiptOnlyDiff diff \<longleftrightarrow> diff = receiptPath @ [CHR 0x00]"

text \<open>
  \<open>start\<close> may panic (\<open>Inl\<close>); the cleanup target is then the name, otherwise the identifier it gave.
\<close>

definition startOwnedContainer ::
  "string \<Rightarrow> ('w \<Rightarrow> (panic + string) \<times> 'w) \<Rightarrow> string \<times> 'w \<Rightarrow> (panic + string) \<times> string \<times> 'w" where
  "startOwnedContainer name start = (\<lambda>(cleanupTarget, w).
     let cleanupTarget = name in
     case start w of
       (Inl e, w) \<Rightarrow> (Inl e, cleanupTarget, w)
     | (Inr containerID, w) \<Rightarrow> (Inr containerID, containerID, w))"

lemma hexDecode_length: "hexDecode s = Some t \<Longrightarrow> length s = 2 * length t"
  by (induction s arbitrary: t rule: hexDecode.induct) (auto split: option.splits)

lemma hexDecode_digits: "hexDecode s \<noteq> None \<longleftrightarrow> even (length s) \<and> (\<forall>c \<in> set s. hex_value c \<noteq> None)"
  by (induction s rule: hexDecode.induct) (auto split: option.splits)

end
