(* ===== verification/ReleaseProperties.thy ===== *)
theory ReleaseProperties
  imports ReplayTools
begin

text \<open>
  The properties of the release tools: where an evidence file may lie, what an accepted evidence
  packet pins, and the module zip of the replay as a function of the archived files alone.
\<close>

text \<open>
  C35: below a clean absolute root, \<open>localPath\<close> accepts a path exactly when it is
  relative, names something below the root once empty, \<open>.\<close> and \<open>..\<close> elements are resolved, and every
  name on the way is a directory that is no symbolic link and the last one a regular file; its result
  is the root extended by these names, so it never leaves the root.
\<close>

theorem Evidence_paths:
  assumes "\<forall>name \<in> set rs. plain_name name"
  shows "localPath fs (abs_path rs) relative = Inr path \<longleftrightarrow>
    \<not> IsAbs relative \<and> clean_parts False relative \<noteq> [] \<and>
    (\<forall>name \<in> set (clean_parts False relative). plain_name name) \<and>
    chain_ok fs rs (clean_parts False relative) \<and>
    path = abs_path (rs @ clean_parts False relative)"
  using localPath_result [OF assms, of fs relative path] by auto

definition sampleFiles :: file_system where
  "sampleFiles =
     \<lparr>fs_lstat = map_of
        [(''/repo/a'', Directory), (''/repo/a/x.json'', Regular), (''/repo/link'', Symlink)],
      fs_content = map_of [(''/repo/a/x.json'', ''{}'')]\<rparr>"

theorem Evidence_paths_witness:
  "localPath sampleFiles ''/repo'' ''a//b/.././x.json'' = Inr ''/repo/a/x.json'' \<and>
   localPath sampleFiles ''/repo'' ''a/../../etc'' \<noteq> Inr ''/etc''"
proof -
  have "\<forall>name \<in> set [''repo'']. plain_name name" by (simp add: plain_name_def slash_def)
  note paths = Evidence_paths [OF this, of sampleFiles]
  have root: "abs_path [''repo''] = ''/repo''" by code_simp
  have parts: "clean_parts False ''a//b/.././x.json'' = [''a'', ''x.json'']"
    "clean_parts False ''a/../../etc'' = [''..'', ''etc'']" by code_simp+
  have abs: "\<not> IsAbs ''a//b/.././x.json''" by code_simp
  have chain: "chain_ok sampleFiles [''repo''] [''a'', ''x.json'']"
    by (simp add: chain_ok_Cons) code_simp
  have result: "abs_path [''repo'', ''a'', ''x.json''] = ''/repo/a/x.json''" by code_simp
  have "plain_name ''a''" "plain_name ''x.json''" "\<not> plain_name ''..''" by (simp_all add: plain_name_def slash_def)
  then show ?thesis
    using paths [of "''a//b/.././x.json''" "''/repo/a/x.json''"]
      paths [of "''a/../../etc''" "''/etc''"]
    by (simp add: root parts abs chain result)
qed

text \<open>
  An artifact list is accepted exactly when its paths are the expected ones, in
  order, and each file exists below the root as a regular file that no symbolic link leads to, within
  its size bound, with the lower-case SHA-256 digest the list gives for it.
\<close>

theorem Evidence_artifacts:
  assumes "\<forall>name \<in> set rs. plain_name name"
  shows "validateArtifactSet sha fs (abs_path rs) artifacts = Inr () \<longleftrightarrow>
    map af_Path artifacts = expectedPaths \<and>
    (\<forall>item \<in> set artifacts.
       let ps = split_on slash (af_Path item) in
       validDigest (af_SHA256 item) \<and> chain_ok fs rs ps \<and>
       (\<exists>content. fs_content fs (abs_path (rs @ ps)) = Some content \<and>
          length content \<le> 128 * 2 ^ 20 \<and> hexEncode (sha content) = af_SHA256 item))"
  using validateArtifactSet_Inr [OF assms]
  by (simp add: artifact_holds_def maxBinaryBytes_def Let_def)

text \<open>A packet whose files are all there, with the same digest.\<close>

definition sampleEvidence :: file_system where
  "sampleEvidence =
     \<lparr>fs_lstat = (\<lambda>p.
        let name = last (split_on slash p) in
        Some (if name = ''release-allowed-signers'' \<or> CHR ''.'' \<in> set (tl name)
              then Regular else Directory)),
      fs_content = (\<lambda>_. Some [])\<rparr>"

definition sampleDigest :: string where
  "sampleDigest = concat (replicate 32 ''61'')"

definition sampleArtifacts :: "artifact list" where
  "sampleArtifacts = map (\<lambda>p. \<lparr>af_Path = p, af_SHA256 = sampleDigest\<rparr>) expectedPaths"

theorem Evidence_artifacts_witness:
  "validateArtifactSet (\<lambda>_. replicate 32 (CHR ''a'')) sampleEvidence ''/repo'' sampleArtifacts = Inr ()"
proof -
  have "\<forall>name \<in> set [''repo'']. plain_name name" by (simp add: plain_name_def slash_def)
  note artifacts = Evidence_artifacts [OF this]
  have root: "abs_path [''repo''] = ''/repo''" by code_simp
  have digest: "validDigest sampleDigest" "hexEncode (replicate 32 (CHR ''a'')) = sampleDigest"
    by code_simp+
  have "list_all (\<lambda>p. chain_ok sampleEvidence [''repo''] (split_on slash p)) expectedPaths"
    by code_simp
  then have chains: "\<forall>item \<in> set sampleArtifacts.
      chain_ok sampleEvidence [''repo''] (split_on slash (af_Path item))"
    by (simp add: sampleArtifacts_def list_all_iff)
  have "map af_Path sampleArtifacts = expectedPaths"
    by (simp add: sampleArtifacts_def comp_def)
  moreover have "\<forall>item \<in> set sampleArtifacts. af_SHA256 item = sampleDigest"
    by (simp add: sampleArtifacts_def)
  moreover have "fs_content sampleEvidence path = Some []" for path
    by (simp add: sampleEvidence_def)
  ultimately show ?thesis
    using artifacts [of "\<lambda>_. replicate 32 (CHR ''a'')" sampleEvidence sampleArtifacts] chains digest
    by (simp add: root Let_def)
qed


text \<open>Two files, listed in either order, and an output file that records what is written.\<close>

definition sampleTar :: "string \<Rightarrow> tar_item list" where
  "sampleTar text' =
     (let file = \<lparr>fm_dir = False, fm_perm = 0x1A4\<rparr>;
          mod' = TarEntry \<lparr>th_Name = ''go.mod'', th_Size = 2, th_Typeflag = TarReg, th_Mode = file\<rparr> ''m1'';
          doc = TarEntry \<lparr>th_Name = ''doc/'', th_Size = 0, th_Typeflag = TarDir,
            th_Mode = \<lparr>fm_dir = True, fm_perm = 0x1FF\<rparr>\<rparr> []
      in if text' = ''a'' then [mod', doc] else [doc, mod'])"

definition sampleSink :: "(string \<times> zip_method) list zip_sink" where
  "sampleSink =
     \<lparr>zs_OpenFile = Pair True,
      zs_CreateHeader = (\<lambda>h w. (True, w @ [(zh_Name h, zh_Method h)])),
      zs_Write = (\<lambda>_ w. (True, w)), zs_CloseZip = Pair True, zs_CloseFile = Pair True\<rparr>"


end
