(* ===== verification/EvidenceTools.thy ===== *)
theory EvidenceTools
  imports EvidenceFiles "HOL-Library.AList"
begin

text \<open>
  What the evidence tools share: \<open>strings.TrimSpace\<close> of the output of a command, and the decoding of
  JSON documents into nested structs, one list of fields for each struct.
\<close>

section \<open>strings.TrimSpace\<close>

text \<open>The UTF-8 forms of the white space of Unicode.\<close>

definition white_spaces :: "string list" where
  "white_spaces =
     map (\<lambda>b. [char_of b]) [0x09, 0x0A, 0x0B, 0x0C, 0x0D, 0x20 :: nat] @
     [map char_of [0xC2, 0x85 :: nat], map char_of [0xC2, 0xA0 :: nat],
      map char_of [0xE1, 0x9A, 0x80 :: nat]] @
     map (\<lambda>b. map char_of [0xE2, 0x80, b :: nat])
       [0x80, 0x81, 0x82, 0x83, 0x84, 0x85, 0x86, 0x87, 0x88, 0x89, 0x8A, 0xA8, 0xA9, 0xAF] @
     [map char_of [0xE2, 0x81, 0x9F :: nat], map char_of [0xE3, 0x80, 0x80 :: nat]]"

text \<open>White space in front is dropped as long as there is any; at the end, of the reversed text.\<close>

function drop_prefixes :: "string list \<Rightarrow> string \<Rightarrow> string" where
  "drop_prefixes ws s =
     (case find (\<lambda>w. w \<noteq> [] \<and> prefix w s) ws of
        None \<Rightarrow> s
      | Some w \<Rightarrow> drop_prefixes ws (drop (length w) s))"
  by pat_completeness auto

termination
  by (relation "measure (\<lambda>(ws, s). length s)") (auto simp: find_Some_iff prefix_def)

declare drop_prefixes.simps [simp del]

definition TrimSpace :: "string \<Rightarrow> string" where
  "TrimSpace s = rev (drop_prefixes (map rev white_spaces) (rev (drop_prefixes white_spaces s)))"

section \<open>Decoding structs\<close>

text \<open>A member decoded into the field that \<open>get\<close> reads and \<open>put\<close> updates.\<close>

definition into ::
  "'b decoder \<Rightarrow> ('r \<Rightarrow> 'b) \<Rightarrow> (('b \<Rightarrow> 'b) \<Rightarrow> 'r \<Rightarrow> 'r) \<Rightarrow> json \<Rightarrow> 'r \<Rightarrow> 'r option" where
  "into dec get put j r = map_option (\<lambda>x. put (\<lambda>_. x) r) (dec j (get r))"

definition dec_fields :: "bool \<Rightarrow> (string \<times> (json \<Rightarrow> 'r \<Rightarrow> 'r option)) list \<Rightarrow> 'r decoder" where
  "dec_fields closed members =
     dec_struct closed (map fst members)
       (\<lambda>name j r. case map_of members name of None \<Rightarrow> Some r | Some decode \<Rightarrow> decode j r)"

definition dec_bool :: "bool decoder" where
  "dec_bool j old = (case j of JScalar SNull \<Rightarrow> Some old | JScalar (SBool b) \<Rightarrow> Some b | _ \<Rightarrow> None)"

text \<open>A floating-point number, kept as the text that \<open>num\<close> gives for it.\<close>

definition dec_float :: "(string \<Rightarrow> string option) \<Rightarrow> string decoder" where
  "dec_float num j old =
     (case j of JScalar SNull \<Rightarrow> Some old | JScalar (SNum n) \<Rightarrow> num n | _ \<Rightarrow> None)"

definition dec_raw :: "json decoder" where
  "dec_raw j old = Some j"

text \<open>A map of strings: the members are put into the map there is.\<close>

definition dec_map :: "'a decoder \<Rightarrow> 'a \<Rightarrow> (string \<times> 'a) list decoder" where
  "dec_map dec zero j old =
     (case j of
        JScalar SNull \<Rightarrow> Some []
      | JObj ms \<Rightarrow>
          map_option (\<lambda>ms. fold (\<lambda>(k, v) m. AList.update k v m) ms old)
            (those (map (\<lambda>(k, v). map_option (Pair k) (dec v zero)) ms))
      | _ \<Rightarrow> None)"

text \<open>\<open>json.Unmarshal\<close>.\<close>

definition Unmarshal :: "'a decoder \<Rightarrow> 'a \<Rightarrow> string \<Rightarrow> 'a option" where
  "Unmarshal target old data = Option.bind (json_parse data) (\<lambda>j. target j old)"

section \<open>Errors\<close>

definition must :: "'a option \<Rightarrow> panic + 'a" where
  "must x = (case x of None \<Rightarrow> Inl Failed | Some y \<Rightarrow> Inr y)"

lemma must_Inr [simp]: "must x = Inr y \<longleftrightarrow> x = Some y"
  by (simp add: must_def split: option.split)

text \<open>The files of a packet: \<open>decodeClosedFile(localPath(\<dots>))\<close> and \<open>digestFile(localPath(\<dots>))\<close>.\<close>

definition decodeAt :: "file_system \<Rightarrow> string \<Rightarrow> string \<Rightarrow> 'a decoder \<Rightarrow> 'a \<Rightarrow> panic + 'a" where
  "decodeAt fs root relative target zero =
     next' (localPath fs root relative) (\<lambda>path.
       case decodeClosedFile fs path target zero of Some (Some x) \<Rightarrow> Inr x | _ \<Rightarrow> Inl Failed)"

definition digestAt ::
  "(string \<Rightarrow> string) \<Rightarrow> file_system \<Rightarrow> string \<Rightarrow> string \<Rightarrow> panic + string" where
  "digestAt sha fs root relative = next' (localPath fs root relative) (digestFile sha fs)"

section \<open>Correctness\<close>

text \<open>What is left does not begin with a space, and what was dropped is spaces.\<close>

lemma drop_prefixes_result:
  "\<exists>dropped. s = concat dropped @ drop_prefixes ws s \<and> set dropped \<subseteq> set ws \<and>
     (\<forall>w \<in> set ws. w = [] \<or> \<not> prefix w (drop_prefixes ws s))"
proof (induction ws s rule: drop_prefixes.induct)
  case (1 ws s)
  show ?case
  proof (cases "find (\<lambda>w. w \<noteq> [] \<and> prefix w s) ws")
    case None
    then show ?thesis
      unfolding drop_prefixes.simps [of ws s] None
      using None by (intro exI [of _ "[]"]) (auto simp: find_None_iff)
  next
    case (Some w)
    then have w: "w \<in> set ws" "prefix w s" by (auto simp: find_Some_iff)
    from "1.IH" [OF Some] obtain dropped where "drop (length w) s = concat dropped @ drop_prefixes ws (drop (length w) s)"
      "set dropped \<subseteq> set ws" "\<forall>w' \<in> set ws. w' = [] \<or> \<not> prefix w' (drop_prefixes ws (drop (length w) s))"
      by blast
    with w show ?thesis
      unfolding drop_prefixes.simps [of ws s] Some by (intro exI [of _ "w # dropped"]) (auto simp: prefix_def)
  qed
qed

lemma TrimSpace_result:
  "\<exists>pre post. s = concat pre @ TrimSpace s @ concat post \<and>
     set pre \<subseteq> set white_spaces \<and> set post \<subseteq> set white_spaces"
proof -
  let ?rest = "drop_prefixes white_spaces s"
  obtain front where front: "s = concat front @ ?rest" "set front \<subseteq> set white_spaces"
    using drop_prefixes_result by blast
  obtain dropped where end': "rev ?rest = concat dropped @ drop_prefixes (map rev white_spaces) (rev ?rest)"
    "set dropped \<subseteq> set (map rev white_spaces)"
    using drop_prefixes_result by blast
  from end'(1) have "?rest = TrimSpace s @ rev (concat dropped)"
    unfolding TrimSpace_def by (metis rev_append rev_rev_ident)
  then have "?rest = TrimSpace s @ concat (map rev (rev dropped))" by (simp add: rev_concat rev_map)
  moreover have "set (map rev (rev dropped)) \<subseteq> set white_spaces" using end'(2) by auto
  ultimately show ?thesis using front by (metis append.assoc)
qed

end
