(* ===== verification/EvidenceContract.thy ===== *)
theory EvidenceContract
  imports EvidenceTools
begin

text \<open>
  The output contract of the oracle: \<open>.verification/cohesion/api-query-v1-oracle/generate-contract.go\<close>
  writes it, \<open>validateOutput\<close> of \<open>verify.go\<close> beside it checks an output against it. Both reduce the
  value of a record to a canonical text and that to a digest. SHA-256 is a parameter, and so is the
  text in which \<open>encoding/json\<close> writes the floating-point value of a number literal (\<open>None\<close> when it
  is out of range).
\<close>

section \<open>encoding/json without HTML escapes\<close>

definition escape_plain :: "char \<Rightarrow> string" where
  "escape_plain c = (if c \<in> set ''<>&'' then [c] else escape_ascii c)"

definition plain_text :: "token \<Rightarrow> string" where
  "plain_text t =
     (case t of
        TScalar (SStr s) \<Rightarrow> CHR 0x22 # quote_with escape_plain s @ [CHR 0x22]
      | _ \<Rightarrow> token_text t)"

definition render_plain :: "json \<Rightarrow> string" where
  "render_plain v = concat (map plain_text (tokens_of v))"

text \<open>
  \<open>json.Indent\<close> with two spaces, on the tokens of a compact document: \<open>need\<close> after an opening bracket
  whose first element has not been seen.
\<close>

definition new_line :: "nat \<Rightarrow> string" where
  "new_line depth = CHR 0x0A # replicate (2 * depth) (CHR '' '')"

fun indented :: "bool \<Rightarrow> nat \<Rightarrow> token list \<Rightarrow> string" where
  "indented need depth [] = []"
| "indented need depth (t # ts) =
     (if t = TArrClose \<or> t = TObjClose then
        (if need then plain_text t @ indented False depth ts
         else new_line (depth - 1) @ plain_text t @ indented False (depth - 1) ts)
      else
        let depth = (if need then depth + 1 else depth) in
        (if need then new_line depth else []) @ plain_text t @
        (if t = TComma then new_line depth else if t = TColon then '' '' else []) @
        indented (t = TArrOpen \<or> t = TObjOpen) depth ts)"

text \<open>
  A value decoded into \<open>any\<close> and encoded again: numbers are written anew, the last member of a name
  wins, and the members of a map are written in the order of their names.
\<close>

definition last_wins :: "(string \<times> json) list \<Rightarrow> (string \<times> json) list" where
  "last_wins ms = fold (\<lambda>(k, v) m. AList.update k v m) ms []"

fun any_json :: "(string \<Rightarrow> string option) \<Rightarrow> json \<Rightarrow> json option" where
  "any_json num (JScalar s) =
     (case s of SNum n \<Rightarrow> map_option JNum (num n) | _ \<Rightarrow> Some (JScalar s))"
| "any_json num (JArr vs) = map_option JArr (those (map (any_json num) vs))"
| "any_json num (JObj ms) =
     map_option (\<lambda>ms. JObj (sort_key fst (last_wins ms)))
       (those (map (\<lambda>(k, v). map_option (Pair k) (any_json num v)) ms))"

section \<open>Outputs and contracts\<close>

text \<open>A \<open>json.RawMessage\<close> is the value it was read from; \<open>None\<close> when its member is absent.\<close>

record output_record =
  or_Name :: string
  or_Value :: "json option"

record oracleOutput =
  oo_Schema :: string
  oo_Records :: "output_record list"

record contract_record =
  co_Name :: string
  co_ValueSHA256 :: string

record outputContract =
  oc_Schema :: string
  oc_Records :: "contract_record list"

definition zeroOutput :: oracleOutput where
  "zeroOutput = \<lparr>oo_Schema = [], oo_Records = []\<rparr>"

definition zeroContract :: outputContract where
  "zeroContract = \<lparr>oc_Schema = [], oc_Records = []\<rparr>"

definition output_record_field :: "string \<Rightarrow> json \<Rightarrow> output_record \<Rightarrow> output_record option" where
  "output_record_field n j r =
     (if n = ''name'' then map_option (\<lambda>x. r\<lparr>or_Name := x\<rparr>) (dec_string j (or_Name r))
      else Some (r\<lparr>or_Value := Some j\<rparr>))"

definition output_field :: "string \<Rightarrow> json \<Rightarrow> oracleOutput \<Rightarrow> oracleOutput option" where
  "output_field n j r =
     (if n = ''schema'' then map_option (\<lambda>x. r\<lparr>oo_Schema := x\<rparr>) (dec_string j (oo_Schema r))
      else map_option (\<lambda>x. r\<lparr>oo_Records := x\<rparr>)
        (dec_list (dec_struct True [''name'', ''value''] output_record_field)
          \<lparr>or_Name = [], or_Value = None\<rparr> j (oo_Records r)))"

definition dec_output :: "oracleOutput decoder" where
  "dec_output = dec_struct True [''schema'', ''records''] output_field"

definition contract_record_field :: "string \<Rightarrow> json \<Rightarrow> contract_record \<Rightarrow> contract_record option" where
  "contract_record_field n j r =
     (if n = ''name'' then map_option (\<lambda>x. r\<lparr>co_Name := x\<rparr>) (dec_string j (co_Name r))
      else map_option (\<lambda>x. r\<lparr>co_ValueSHA256 := x\<rparr>) (dec_string j (co_ValueSHA256 r)))"

definition contract_field :: "string \<Rightarrow> json \<Rightarrow> outputContract \<Rightarrow> outputContract option" where
  "contract_field n j r =
     (if n = ''schema'' then map_option (\<lambda>x. r\<lparr>oc_Schema := x\<rparr>) (dec_string j (oc_Schema r))
      else map_option (\<lambda>x. r\<lparr>oc_Records := x\<rparr>)
        (dec_list (dec_struct True [''name'', ''value_sha256''] contract_record_field)
          \<lparr>co_Name = [], co_ValueSHA256 = []\<rparr> j (oc_Records r)))"

definition dec_contract :: "outputContract decoder" where
  "dec_contract = dec_struct True [''schema'', ''records''] contract_field"

text \<open>What \<open>encoding/json\<close> writes for a contract, before it is indented.\<close>

definition contract_record_json :: "contract_record \<Rightarrow> json" where
  "contract_record_json r =
     JObj [(''name'', JStr (co_Name r)), (''value_sha256'', JStr (co_ValueSHA256 r))]"

definition contract_json :: "outputContract \<Rightarrow> json" where
  "contract_json c =
     JObj [(''schema'', JStr (oc_Schema c)),
           (''records'', JArr (map contract_record_json (oc_Records c)))]"

section \<open>The generator\<close>

definition maximumOutputBytes :: nat where "maximumOutputBytes = 8 * 2 ^ 20"

definition readFile :: "file_system \<Rightarrow> string \<Rightarrow> panic + string" where
  "readFile fs path =
     (case readBoundedFile fs path maximumOutputBytes of None \<Rightarrow> Inl Failed | Some data \<Rightarrow> Inr data)"

definition decodeOutput :: "string \<Rightarrow> panic + oracleOutput" where
  "decodeOutput data =
     (case decode_value dec_output (NewDecoder data) zeroOutput of
        (Some output, decoder) \<Rightarrow> if decode_end decoder then Inr output else Inl Failed
      | (None, _) \<Rightarrow> Inl Failed)"

definition canonicalDigest ::
  "(string \<Rightarrow> string) \<Rightarrow> (string \<Rightarrow> string option) \<Rightarrow> json option \<Rightarrow> panic + string" where
  "canonicalDigest sha num raw =
     (case Option.bind raw (any_json num) of
        None \<Rightarrow> Inl Failed
      | Some value \<Rightarrow> Inr (hexEncode (sha (render_plain value @ [CHR 0x0A]))))"

fun contract_loop ::
  "(string \<Rightarrow> string) \<Rightarrow> (string \<Rightarrow> string option) \<Rightarrow> output_record list \<Rightarrow> string set \<Rightarrow>
   panic + contract_record list" where
  "contract_loop sha num [] seen = Inr []"
| "contract_loop sha num (item # items) seen =
     next' (require (or_Name item \<noteq> []) ''empty record name'') (\<lambda>_.
     next' (require (or_Name item \<notin> seen) ''duplicate record name'') (\<lambda>_.
     next' (canonicalDigest sha num (or_Value item)) (\<lambda>digest.
     next' (contract_loop sha num items (insert (or_Name item) seen)) (\<lambda>records.
     Inr (\<lparr>co_Name = or_Name item, co_ValueSHA256 = digest\<rparr> # records)))))"

definition outputSchema :: string where "outputSchema = ''api-query-v1-oracle-output-v1''"
definition contractSchema :: string where "contractSchema = ''api-query-v1-oracle-output-contract-v1''"

text \<open>The program: the text that it writes to its standard output, or a panic.\<close>

definition generateContract ::
  "(string \<Rightarrow> string) \<Rightarrow> (string \<Rightarrow> string option) \<Rightarrow> file_system \<Rightarrow> string \<Rightarrow> panic + string" where
  "generateContract sha num fs path =
     next' (readFile fs path) (\<lambda>data.
     next' (decodeOutput data) (\<lambda>output.
     next' (require (\<not> (oo_Schema output \<noteq> outputSchema \<or> length (oo_Records output) > 256))
       ''unexpected oracle output'') (\<lambda>_.
     next' (contract_loop sha num (oo_Records output) {}) (\<lambda>records.
     Inr (indented False 0
            (tokens_of (contract_json \<lparr>oc_Schema = contractSchema, oc_Records = records\<rparr>)) @
          [CHR 0x0A])))))"

definition contract_main ::
  "(string \<Rightarrow> string) \<Rightarrow> (string \<Rightarrow> string option) \<Rightarrow> file_system \<Rightarrow> string list \<Rightarrow> panic + string" where
  "contract_main sha num fs args =
     next' (require (length args = 2) ''usage: generate-contract OUTPUT'') (\<lambda>_.
     generateContract sha num fs (args ! 1))"

section \<open>The check\<close>

definition expectedRecordNames :: "string list" where
  "expectedRecordNames =
     [''input-schema'', ''sentinel-http'', ''sentinel-jsonapi-invalid'',
      ''sentinel-jsonapi-unsupported'', ''sentinel-postgres'', ''sentinel-jsonrpc'',
      ''named-types'', ''cursor-sentinel-invalid'', ''cursor-sentinel-expired'',
      ''cursor-sentinel-version'', ''cursor-sentinel-schema'', ''cursor-sentinel-sort'',
      ''cursor-sentinel-replay''] @
     map (\<lambda>n. ''http/'' @ n)
       [''complete'', ''explicit-empty'', ''empty'', ''exact-byte-limit'', ''disabled-limit'',
        ''excess-bytes'', ''invalid-raw-utf8'', ''malformed-encoding'', ''semicolon'',
        ''unknown'', ''duplicate'', ''invalid-decoded-utf8'', ''empty-field-member'',
        ''empty-include-member'', ''invalid-filter'', ''empty-sort-name'', ''invalid-page-size'',
        ''invalid-page-offset''] @
     map (\<lambda>n. ''jsonapi/'' @ n)
       [''complete-copy-order'', ''absent-families'', ''missing-resource'',
        ''missing-filter-decoder'', ''missing-page-decoder'', ''filter-nil'', ''filter-error'',
        ''page-error'', ''callback-panic''] @
     map (\<lambda>n. ''postgres/operator/'' @ n)
       [''eq'', ''neq'', ''lt'', ''lte'', ''gt'', ''gte'', ''in'', ''not_in'', ''between'',
        ''is_null'', ''contains'', ''starts_with'', ''ends_with'', ''and'', ''or'', ''not''] @
     map (\<lambda>n. ''postgres/invalid-identifier/'' @ n)
       ['''', ''.id'', ''a.b.c.d'', ''1table.id'', ''table.bad-name'', ''table.id;drop''] @
     map (\<lambda>n. ''postgres/'' @ n)
       [''empty-capability'', ''nil-compiler'', ''nil-plan'',
        ''mapping-snapshot-and-constraint-precedence'', ''missing-field'', ''missing-filter'',
        ''missing-sort'', ''missing-constraint'', ''real-database''] @
     map (\<lambda>n. ''jsonrpc/'' @ n)
       [''absent'', ''complete-copy'', ''exact-byte-limit'', ''explicit-empty''] @
     map (\<lambda>n. ''jsonrpc/invalid/'' @ n)
       [''array'', ''disabled-bound'', ''duplicate'', ''excess-bound'', ''excess-depth'',
        ''invalid-utf8'', ''nested-duplicate'', ''nil'', ''trailing'', ''unknown''] @
     map (\<lambda>n. ''jsonrpc/'' @ n)
       [''descriptor-copy''] @
     map (\<lambda>n. ''validation/'' @ n)
       [''nil'', ''generic'', ''structured-copy'', ''nested-path'', ''truncated''] @
     map (\<lambda>n. ''resources/'' @ n)
       [''observed-stateless'']"

fun record_loop ::
  "(string \<Rightarrow> string) \<Rightarrow> (string \<Rightarrow> string option) \<Rightarrow> (output_record \<times> contract_record \<times> string) list \<Rightarrow>
   string set \<Rightarrow> panic + unit" where
  "record_loop sha num [] seen = Inr ()"
| "record_loop sha num ((item, expected, name) # rest) seen =
     next' (require (or_Name item = name \<and> or_Name item = co_Name expected \<and>
         validDigest (co_ValueSHA256 expected)) ''output record identity'') (\<lambda>_.
     next' (require (or_Name item \<notin> seen) ''duplicate output record'') (\<lambda>_.
     next' (canonicalDigest sha num (or_Value item)) (\<lambda>digest.
     next' (require (digest = co_ValueSHA256 expected) (''output exact value '' @ or_Name item)) (\<lambda>_.
     record_loop sha num rest (insert (or_Name item) seen)))))"

text \<open>The part of \<open>validateOutput\<close> that compares an output and a contract, both decoded.\<close>

definition checkRecords ::
  "(string \<Rightarrow> string) \<Rightarrow> (string \<Rightarrow> string option) \<Rightarrow> oracleOutput \<Rightarrow> outputContract \<Rightarrow> panic + unit" where
  "checkRecords sha num output contract =
     next' (require (oo_Schema output = outputSchema \<and> oc_Schema contract = contractSchema \<and>
         length (oo_Records output) = 92 \<and>
         length (oc_Records contract) = length (oo_Records output)) ''output contract'') (\<lambda>_.
     record_loop sha num
       (zip (oo_Records output) (zip (oc_Records contract) expectedRecordNames)) {})"

text \<open>\<open>validateOutput\<close> as a whole.\<close>

record http_case =
  hc_Name :: string
  hc_Raw :: string
  hc_MaxBytes :: int

record oracleInput =
  oi_Schema :: string
  oi_HTTP :: "http_case list"
  oi_PostgresOperators :: "string list"

definition zeroInput :: oracleInput where
  "zeroInput = \<lparr>oi_Schema = [], oi_HTTP = [], oi_PostgresOperators = []\<rparr>"

definition http_case_field :: "string \<Rightarrow> json \<Rightarrow> http_case \<Rightarrow> http_case option" where
  "http_case_field n j r =
     (if n = ''name'' then map_option (\<lambda>x. r\<lparr>hc_Name := x\<rparr>) (dec_string j (hc_Name r))
      else if n = ''raw'' then map_option (\<lambda>x. r\<lparr>hc_Raw := x\<rparr>) (dec_string j (hc_Raw r))
      else map_option (\<lambda>x. r\<lparr>hc_MaxBytes := x\<rparr>) (dec_int j (hc_MaxBytes r)))"

definition input_field :: "string \<Rightarrow> json \<Rightarrow> oracleInput \<Rightarrow> oracleInput option" where
  "input_field n j r =
     (if n = ''schema'' then map_option (\<lambda>x. r\<lparr>oi_Schema := x\<rparr>) (dec_string j (oi_Schema r))
      else if n = ''http'' then map_option (\<lambda>x. r\<lparr>oi_HTTP := x\<rparr>)
        (dec_list (dec_struct True [''name'', ''raw'', ''max_bytes''] http_case_field)
          \<lparr>hc_Name = [], hc_Raw = [], hc_MaxBytes = 0\<rparr> j (oi_HTTP r))
      else map_option (\<lambda>x. r\<lparr>oi_PostgresOperators := x\<rparr>)
        (dec_list dec_string [] j (oi_PostgresOperators r)))"

definition dec_input :: "oracleInput decoder" where
  "dec_input = dec_struct True [''schema'', ''http'', ''postgres_operators''] input_field"

definition expectedInputSHA :: string where
  "expectedInputSHA = ''7287d53d7afffbe8f158081f20cc6dffe4a2d06da771285036d6b467e6bc67d8''"

definition expectedOutputSHA :: string where
  "expectedOutputSHA = ''9da16adc97f2074c3e890a290a8b7028938803fdc702d4f2689cfd8c9cd3816b''"

definition expectedContractSHA :: string where
  "expectedContractSHA = ''29265bc97313b2905e4858ce127471e1e24b58ece720b1e26cb7bc86ca48c516''"

definition expectedHTTPNames :: "string list" where
  "expectedHTTPNames =
     [''complete'', ''explicit-empty'', ''empty'', ''exact-byte-limit'', ''disabled-limit'',
      ''excess-bytes'', ''invalid-raw-utf8'', ''malformed-encoding'', ''semicolon'', ''unknown'',
      ''duplicate'', ''invalid-decoded-utf8'', ''empty-field-member'', ''empty-include-member'',
      ''invalid-filter'', ''empty-sort-name'', ''invalid-page-size'', ''invalid-page-offset'']"

definition expectedOperators :: "string list" where
  "expectedOperators =
     [''eq'', ''neq'', ''lt'', ''lte'', ''gt'', ''gte'', ''in'', ''not_in'', ''between'',
      ''is_null'', ''contains'', ''starts_with'', ''ends_with'', ''and'', ''or'', ''not'']"

fun http_loop :: "(http_case \<times> string) list \<Rightarrow> string set \<Rightarrow> panic + unit" where
  "http_loop [] seen = Inr ()"
| "http_loop ((item, name) # rest) seen =
     next' (require (hc_Name item = name \<and> hc_MaxBytes item \<ge> 0 \<and> hc_MaxBytes item \<le> 2048)
       ''HTTP oracle input contract'') (\<lambda>_.
     next' (require (hc_Name item \<notin> seen) ''duplicate HTTP oracle case'') (\<lambda>_.
     http_loop rest (insert (hc_Name item) seen)))"

definition maxOracleRecords :: nat where "maxOracleRecords = 256"

definition validateOutput ::
  "(string \<Rightarrow> string) \<Rightarrow> (string \<Rightarrow> string option) \<Rightarrow> file_system \<Rightarrow> string \<Rightarrow> artifact \<Rightarrow> artifact \<Rightarrow>
   panic + unit" where
  "validateOutput sha num fs root outputArtifact contractArtifact =
     next' (decodeAt fs root (evidence ''input.json'') dec_input zeroInput) (\<lambda>input.
     next' (digestAt sha fs root (evidence ''input.json'')) (\<lambda>digest.
     next' (require (digest = expectedInputSHA) ''oracle canonical input bytes'') (\<lambda>_.
     next' (require (oi_Schema input = ''api-query-v1-oracle-input-v1'' \<and>
         length (oi_HTTP input) = 18 \<and> length (oi_PostgresOperators input) = 16)
       ''oracle input matrix'') (\<lambda>_.
     next' (http_loop (zip (oi_HTTP input) expectedHTTPNames) {}) (\<lambda>_.
     next' (require (equalStrings (oi_PostgresOperators input) expectedOperators)
       ''PostgreSQL operator matrix'') (\<lambda>_.
     next' (decodeAt fs root (af_Path outputArtifact) dec_output zeroOutput) (\<lambda>output.
     next' (decodeAt fs root (af_Path contractArtifact) dec_contract zeroContract) (\<lambda>contract.
     next' (require (length (oo_Records output) \<le> maxOracleRecords \<and>
         length (oc_Records contract) \<le> maxOracleRecords) ''output collection bounds'') (\<lambda>_.
     next' (digestAt sha fs root (af_Path outputArtifact)) (\<lambda>digest.
     next' (require (digest = expectedOutputSHA) ''oracle canonical output bytes'') (\<lambda>_.
     next' (digestAt sha fs root (af_Path contractArtifact)) (\<lambda>digest.
     next' (require (digest = expectedContractSHA) ''oracle canonical output bytes'') (\<lambda>_.
     checkRecords sha num output contract)))))))))))))"

section \<open>Correctness\<close>

text \<open>The contract that fits an output.\<close>

definition contract_of ::
  "(string \<Rightarrow> string) \<Rightarrow> (string \<Rightarrow> string option) \<Rightarrow> oracleOutput \<Rightarrow> outputContract" where
  "contract_of sha num output =
     \<lparr>oc_Schema = contractSchema,
      oc_Records = map (\<lambda>item. \<lparr>co_Name = or_Name item,
        co_ValueSHA256 = (case canonicalDigest sha num (or_Value item) of Inl _ \<Rightarrow> [] | Inr d \<Rightarrow> d)\<rparr>)
        (oo_Records output)\<rparr>"

lemma canonicalDigest_Inr:
  "Option.bind raw (any_json num) \<noteq> None \<Longrightarrow> \<exists>x. canonicalDigest sha num raw = Inr (hexEncode (sha x))"
  by (auto simp: canonicalDigest_def split: option.split)

lemma contract_loop_run:
  assumes "distinct (map or_Name items)" and "or_Name ` set items \<inter> seen = {}"
    and "\<forall>item \<in> set items. or_Name item \<noteq> [] \<and> Option.bind (or_Value item) (any_json num) \<noteq> None"
  shows "contract_loop sha num items seen = Inr (map (\<lambda>item. \<lparr>co_Name = or_Name item,
    co_ValueSHA256 = (case canonicalDigest sha num (or_Value item) of Inl _ \<Rightarrow> [] | Inr d \<Rightarrow> d)\<rparr>) items)"
  using assms
proof (induction items arbitrary: seen)
  case (Cons item items)
  obtain x where "canonicalDigest sha num (or_Value item) = Inr (hexEncode (sha x))"
    using canonicalDigest_Inr Cons.prems(3) by (metis list.set_intros(1))
  moreover have "contract_loop sha num items (insert (or_Name item) seen) =
      Inr (map (\<lambda>item. \<lparr>co_Name = or_Name item,
        co_ValueSHA256 = (case canonicalDigest sha num (or_Value item) of Inl _ \<Rightarrow> [] | Inr d \<Rightarrow> d)\<rparr>) items)"
    using Cons.prems by (intro Cons.IH) auto
  ultimately show ?case using Cons.prems by (simp add: next'_def require_def)
qed simp

lemma record_loop_Inr:
  assumes "length items = length names" and "length rs = length names"
  shows "record_loop sha num (zip items (zip rs names)) seen = Inr () \<longleftrightarrow>
    map or_Name items = names \<and> map co_Name rs = names \<and> distinct names \<and> set names \<inter> seen = {} \<and>
    list_all2 (\<lambda>item r. validDigest (co_ValueSHA256 r) \<and>
      canonicalDigest sha num (or_Value item) = Inr (co_ValueSHA256 r)) items rs"
  using assms
proof (induction items arbitrary: rs names seen)
  case (Cons item items)
  then obtain r rs' name names' where lists: "rs = r # rs'" "names = name # names'"
    by (metis Suc_length_conv list.size(4) add.commute plus_1_eq_Suc length_Cons)
  have IH: "record_loop sha num (zip items (zip rs' names')) (insert (or_Name item) seen) = Inr () \<longleftrightarrow>
      map or_Name items = names' \<and> map co_Name rs' = names' \<and> distinct names' \<and>
      set names' \<inter> insert (or_Name item) seen = {} \<and>
      list_all2 (\<lambda>item r. validDigest (co_ValueSHA256 r) \<and>
        canonicalDigest sha num (or_Value item) = Inr (co_ValueSHA256 r)) items rs'"
    using Cons.prems lists by (intro Cons.IH) simp_all
  show ?case unfolding lists by (auto simp: next'_Inr IH)
qed simp

section \<open>Reading back an indented document\<close>

lemma lex_spaces: "\<forall>c \<in> set ws. is_space c \<Longrightarrow> lex (ws @ s) = lex s"
  by (induction ws) (simp_all add: lex.simps(2))

lemma lex_new_line: "lex (new_line depth @ s) = lex s"
  by (rule lex_spaces) (auto simp: new_line_def is_space_def)

lemma lex_string_plain_escape:
  "byte c < 128 \<Longrightarrow> lex_string (escape_plain c @ s) = after_bytes [c] (lex_string s)"
proof (cases "c \<in> set ''<>&''")
  case True
  then have "\<not> byte c < 32" "c \<noteq> CHR 0x22" "c \<noteq> CHR 0x5C" by (auto simp: byte_def)
  moreover assume "byte c < 128"
  ultimately show ?thesis using True by (simp add: escape_plain_def lex_string_plain)
qed (simp add: escape_plain_def lex_string_escaped)

lemma lex_plain_text:
  assumes "token_ok t" and "is_scalar t \<Longrightarrow> number_end rest"
  shows "lex (plain_text t @ rest) = map_option ((#) (clean_token t)) (lex rest)"
proof (cases "\<exists>x. t = TScalar (SStr x)")
  case True
  then obtain x where t: "t = TScalar (SStr x)" by blast
  have "lex_token (plain_text t @ rest) = Some (clean_token t, rest)"
    by (simp add: t plain_text_def lex_token_def lex_delim_def
        lex_string_quote_with [OF lex_string_plain_escape])
  then show ?thesis by (simp add: t plain_text_def lex.simps(2) is_space_def)
next
  case False
  then have "plain_text t = token_text t"
    by (auto simp: plain_text_def split: token.split scalar.split)
  with lex_text [OF assms] show ?thesis by simp
qed

lemma number_end_new_line: "number_end (new_line depth @ s)"
  by (simp add: number_end_def new_line_def is_digit_char_def in_bytes_def byte_def)

lemma number_end_plain: "\<not> is_scalar t \<Longrightarrow> number_end (plain_text t @ rest)"
  using number_end_token [of t rest] by (cases t) (simp_all add: plain_text_def is_scalar_def)

lemma lex_indented:
  assumes "spaced ts" and "\<forall>t \<in> set ts. token_ok t"
  shows "lex (indented need depth ts @ [CHR 0x0A]) = Some (map clean_token ts)"
  using assms
proof (induction ts arbitrary: need depth)
  case Nil
  then show ?case by (simp add: lex.simps(2) is_space_def)
next
  case (Cons t ts)
  have rest: "lex (indented need' depth' ts @ [CHR 0x0A]) = Some (map clean_token ts)"
    for need' depth' using Cons by (cases ts) auto
  have text': "lex (plain_text t @ rest') = map_option ((#) (clean_token t)) (lex rest')"
    if "is_scalar t \<Longrightarrow> number_end rest'" for rest'
    using lex_plain_text that Cons.prems(2) by simp
  have space: "lex (CHR '' '' # s) = lex s" for s by (simp add: lex.simps(2) is_space_def)
  show ?case
  proof (cases "is_scalar t")
    case True
    have "number_end (indented False depth' ts @ [CHR 0x0A])" for depth'
    proof (cases ts)
      case Nil
      then show ?thesis using number_end_new_line [of 0 "[]"] by (simp add: new_line_def)
    next
      case (Cons u us)
      then have "\<not> is_scalar u" using Cons.prems(1) True by simp
      then show ?thesis
        unfolding Cons by (auto simp: number_end_new_line number_end_plain)
    qed
    moreover have "t \<noteq> TComma" "t \<noteq> TColon" "t \<noteq> TArrOpen" "t \<noteq> TObjOpen" "t \<noteq> TArrClose" "t \<noteq> TObjClose"
      using True by (auto simp: is_scalar_def)
    ultimately show ?thesis by (simp add: Let_def lex_new_line text' rest)
  next
    case False
    then have "lex (plain_text t @ rest') = map_option ((#) (clean_token t)) (lex rest')" for rest'
      using text' by blast
    then show ?thesis
      using rest space by (auto simp: Let_def lex_new_line)
  qed
qed

lemma parse_indented:
  assumes "numbers_ok v" and "nesting v \<le> maxNesting"
  shows "json_parse (indented False 0 (tokens_of v) @ [CHR 0x0A]) = Some (clean_json v)"
proof -
  have "spaced (tokens_of v)" using spaced_tokens_of [of "[]" v] by (simp add: after_value_def)
  from lex_indented [OF this token_ok_tokens_of [OF assms(1)]] show ?thesis
    by (simp add: json_parse_def clean_tokens_of parse_tokens_of nesting_clean assms(2))
qed

lemma clean_contract:
  assumes "sanitize (oc_Schema c) = oc_Schema c"
    and "\<forall>r \<in> set (oc_Records c). sanitize (co_Name r) = co_Name r \<and>
      sanitize (co_ValueSHA256 r) = co_ValueSHA256 r"
  shows "clean_json (contract_json c) = contract_json c"
proof -
  have ascii: "sanitize s = s" if "\<forall>c \<in> set s. byte c < 128" for s
    using that by (intro sanitize_valid valid_utf8_ascii)
  have "sanitize ''schema'' = ''schema''" "sanitize ''records'' = ''records''"
    "sanitize ''name'' = ''name''" "sanitize ''value_sha256'' = ''value_sha256''"
    by (rule ascii, simp add: byte_def)+
  with assms show ?thesis
    by (simp add: contract_json_def contract_record_json_def)
qed

lemma dec_contract_json: "dec_contract (contract_json c) zeroContract = Some c"
proof -
  have field: "dec_struct True [''name'', ''value_sha256''] contract_record_field
      (contract_record_json r) \<lparr>co_Name = [], co_ValueSHA256 = []\<rparr> = Some r" for r
    by (simp add: dec_struct_def contract_record_json_def match_exact contract_record_field_def)
  have "those (map (\<lambda>v. dec_struct True [''name'', ''value_sha256''] contract_record_field v
      \<lparr>co_Name = [], co_ValueSHA256 = []\<rparr>) (map contract_record_json rs)) = Some rs" for rs
    by (induction rs) (simp_all add: field)
  then show ?thesis
    by (simp add: dec_contract_def dec_struct_def contract_json_def match_exact contract_field_def
        dec_list_def zeroContract_def comp_def)
qed

lemma contract_document: "numbers_ok (contract_json c)" "nesting (contract_json c) \<le> 3"
  "unique_names (contract_json c)" "json_depth (contract_json c) \<le> 4"
proof -
  have fold: "fold max (map (\<lambda>_. k) xs) k' \<le> max k k'" for k k' :: nat and xs :: "'x list"
    by (induction xs arbitrary: k') (simp_all, metis max.left_idem)
  show "numbers_ok (contract_json c)"
    by (auto simp: contract_json_def contract_record_json_def token_ok_def)
  have "nesting (contract_record_json r) = 1" for r by (simp add: contract_record_json_def)
  then show "nesting (contract_json c) \<le> 3"
    using fold [of 1 "oc_Records c" 0] by (simp add: contract_json_def comp_def)
  show "unique_names (contract_json c)"
    by (auto simp: contract_json_def contract_record_json_def)
  show "json_depth (contract_json c) \<le> 4"
    unfolding contract_json_def json_depth_obj
    by (auto simp: json_depth_arr contract_record_json_def json_depth_obj json_depth.simps(1)
        simp del: json_depth.simps(2,3))
qed

lemma decode_contract:
  assumes "sanitize (oc_Schema c) = oc_Schema c"
    and "\<forall>r \<in> set (oc_Records c). sanitize (co_Name r) = co_Name r \<and>
      sanitize (co_ValueSHA256 r) = co_ValueSHA256 r"
  shows "decodeClosed dec_contract zeroContract
    (indented False 0 (tokens_of (contract_json c)) @ [CHR 0x0A]) = Some (Some c)"
proof -
  have "nesting (contract_json c) \<le> maxNesting"
    using contract_document(2) [of c] by (simp add: maxNesting_def)
  from parse_indented [OF contract_document(1) this] clean_contract [OF assms]
    contract_document(3,4) [of c]
  show ?thesis by (simp add: decodeClosed_result maxJSONDepth_def dec_contract_json)
qed

section \<open>The generator and the check together\<close>

lemma expectedRecordNames_ok:
  "length expectedRecordNames = 92" "distinct expectedRecordNames"
  "list_all (\<lambda>n. n \<noteq> [] \<and> list_all (\<lambda>c. byte c < 128) n) expectedRecordNames"
proof -
  show "length expectedRecordNames = 92" by (simp add: expectedRecordNames_def)
  show "list_all (\<lambda>n. n \<noteq> [] \<and> list_all (\<lambda>c. byte c < 128) n) expectedRecordNames"
    by (simp add: expectedRecordNames_def byte_def)
  show "distinct expectedRecordNames" by (simp add: expectedRecordNames_def)
qed

lemma checkRecords_contract:
  assumes sha: "\<forall>x. length (sha x) = 32" and "oo_Schema output = outputSchema"
    and names: "map or_Name (oo_Records output) = expectedRecordNames"
    and "\<forall>r \<in> set (oo_Records output). Option.bind (or_Value r) (any_json num) \<noteq> None"
  shows "checkRecords sha num output c = Inr () \<longleftrightarrow> c = contract_of sha num output"
proof -
  let ?digest = "\<lambda>r. canonicalDigest sha num (or_Value r)"
  have len: "length (oo_Records output) = 92"
    using names expectedRecordNames_ok(1) by (metis length_map)
  have digest: "\<exists>x. ?digest r = Inr (hexEncode (sha x))" if "r \<in> set (oo_Records output)" for r
    using assms(4) that canonicalDigest_Inr by blast
  have loop: "record_loop sha num (zip (oo_Records output) (zip rs expectedRecordNames)) {} = Inr () \<longleftrightarrow>
      map co_Name rs = expectedRecordNames \<and> list_all2 (\<lambda>item r. validDigest (co_ValueSHA256 r) \<and>
        ?digest item = Inr (co_ValueSHA256 r)) (oo_Records output) rs"
    if "length rs = 92" for rs
    using record_loop_Inr [of "oo_Records output" expectedRecordNames rs sha num "{}"] that
    by (simp add: len expectedRecordNames_ok(1,2) names)
  have same: "map co_Name rs = expectedRecordNames \<and> list_all2 (\<lambda>item r. validDigest (co_ValueSHA256 r) \<and>
        ?digest item = Inr (co_ValueSHA256 r)) (oo_Records output) rs \<longleftrightarrow>
      rs = oc_Records (contract_of sha num output)" (is "?L \<longleftrightarrow> ?R") if "length rs = 92" for rs
  proof
    assume L: ?L
    show ?R
    proof (rule nth_equalityI)
      show "length rs = length (oc_Records (contract_of sha num output))"
        using that len by (simp add: contract_of_def)
      fix i assume i: "i < length rs"
      then have "co_Name (rs ! i) = or_Name (oo_Records output ! i)"
        using L names that len by (metis nth_map)
      moreover have "?digest (oo_Records output ! i) = Inr (co_ValueSHA256 (rs ! i))"
        using L i by (auto simp: list_all2_conv_all_nth)
      ultimately show "rs ! i = oc_Records (contract_of sha num output) ! i"
        using i that len by (simp add: contract_of_def)
    qed
  next
    assume R: ?R
    have "validDigest (case ?digest r of Inl _ \<Rightarrow> [] | Inr d \<Rightarrow> d) \<and>
        ?digest r = Inr (case ?digest r of Inl _ \<Rightarrow> [] | Inr d \<Rightarrow> d)"
      if "r \<in> set (oo_Records output)" for r
      using digest [OF that] validDigest_hexEncode sha by auto
    then show ?L
      using names by (auto simp: R contract_of_def list_all2_conv_all_nth comp_def)
  qed
  have "checkRecords sha num output c = Inr () \<longleftrightarrow> oc_Schema c = contractSchema \<and>
      length (oc_Records c) = 92 \<and>
      record_loop sha num (zip (oo_Records output) (zip (oc_Records c) expectedRecordNames)) {} = Inr ()"
    using len assms(2) by (auto simp: checkRecords_def next'_Inr)
  also have "\<dots> \<longleftrightarrow> oc_Schema c = contractSchema \<and> oc_Records c = oc_Records (contract_of sha num output)"
    using loop [of "oc_Records c"] same [of "oc_Records c"] len by (auto simp: contract_of_def)
  also have "\<dots> \<longleftrightarrow> c = contract_of sha num output"
    by (cases c) (auto simp: contract_of_def)
  finally show ?thesis .
qed

lemma generateContract_run:
  assumes sha: "\<forall>x. length (sha x) = 32"
    and input: "readFile fs path = Inr data" "decodeOutput data = Inr output"
    and schema: "oo_Schema output = outputSchema"
    and names: "map or_Name (oo_Records output) = expectedRecordNames"
    and vals: "\<forall>r \<in> set (oo_Records output). Option.bind (or_Value r) (any_json num) \<noteq> None"
  shows "\<exists>text'. generateContract sha num fs path = Inr text' \<and>
    decodeClosed dec_contract zeroContract text' = Some (Some (contract_of sha num output))"
proof -
  let ?records = "oc_Records (contract_of sha num output)"
  have named: "or_Name r \<noteq> [] \<and> sanitize (or_Name r) = or_Name r" if "r \<in> set (oo_Records output)" for r
  proof -
    have "or_Name r \<in> set expectedRecordNames" using names that by (metis image_eqI set_map)
    then show ?thesis
      using expectedRecordNames_ok(3) sanitize_valid valid_utf8_ascii by (fastforce simp: list_all_iff)
  qed
  have "contract_loop sha num (oo_Records output) {} = Inr ?records"
    using contract_loop_run [of "oo_Records output" "{}" num sha] expectedRecordNames_ok(2) named vals names
    by (simp add: contract_of_def)
  moreover have "length (oo_Records output) = 92"
    using names expectedRecordNames_ok(1) by (metis length_map)
  moreover have "contract_of sha num output = \<lparr>oc_Schema = contractSchema, oc_Records = ?records\<rparr>"
    by (simp add: contract_of_def)
  ultimately have "generateContract sha num fs path =
      Inr (indented False 0 (tokens_of (contract_json (contract_of sha num output))) @ [CHR 0x0A])"
    by (simp add: generateContract_def input next'_def require_def schema)
  moreover have "sanitize contractSchema = contractSchema"
    by (rule sanitize_valid, rule valid_utf8_ascii) (simp add: contractSchema_def byte_def)
  moreover have "sanitize (co_ValueSHA256 r) = co_ValueSHA256 r \<and> sanitize (co_Name r) = co_Name r"
    if "r \<in> set ?records" for r
  proof -
    have "r \<in> (\<lambda>item. \<lparr>co_Name = or_Name item, co_ValueSHA256 =
        (case canonicalDigest sha num (or_Value item) of Inl _ \<Rightarrow> [] | Inr d \<Rightarrow> d)\<rparr>) ` set (oo_Records output)"
      using that unfolding contract_of_def by (simp only: outputContract.simps set_map)
    then obtain item where item: "item \<in> set (oo_Records output)" "r = \<lparr>co_Name = or_Name item,
        co_ValueSHA256 = (case canonicalDigest sha num (or_Value item) of Inl _ \<Rightarrow> [] | Inr d \<Rightarrow> d)\<rparr>"
      by (rule imageE)
    obtain x where "canonicalDigest sha num (or_Value item) = Inr (hexEncode (sha x))"
      using vals item(1) canonicalDigest_Inr by blast
    then show ?thesis using named [OF item(1)] by (simp add: item(2) hexEncode_clean)
  qed
  ultimately show ?thesis
    using decode_contract [of "contract_of sha num output"] by (simp add: contract_of_def)
qed

end
