(* ===== verification/EvidenceModule.thy ===== *)
theory EvidenceModule
  imports EvidenceFiles GoBase64 "HOL-Library.Multiset" "HOL-Library.Word"
begin

text \<open>
  \<open>moduleZipSum\<close> of \<open>.verification/cohesion/api-query-v1-oracle/verify.go\<close>: the checksum of a module
  zip as \<open>go.sum\<close> has it, over the digests and the names of its entries in the order of their names.
  SHA-256 is a parameter; so is what \<open>archive/zip\<close> finds in the bytes of a file, and \<open>sort.Slice\<close>,
  which leaves open how entries of one name are ordered.
\<close>

record zip_file =
  zf_Name :: string
  zf_UncompressedSize64 :: "64 word"
  zf_Content :: "string option"    \<comment> \<open>what can be read of the entry, unless it cannot be opened\<close>
  zf_Closes :: bool                \<comment> \<open>whether closing it succeeds\<close>

datatype zip_error = ZipOpen | ZipEntries | ZipNewline | ZipBytes | ZipRead

definition maxModuleZipEntries :: nat where "maxModuleZipEntries = 4096"
definition maxModuleZipBytes :: "64 word" where "maxModuleZipBytes = 64 * 2 ^ 20"

text \<open>\<open>io.CopyN\<close>: a negative number copies nothing and succeeds.\<close>

definition CopyN :: "string \<Rightarrow> int \<Rightarrow> string option" where
  "CopyN content n = (if int (length content) < n then None else Some (take (nat n) content))"

definition listing_line :: "string \<Rightarrow> string \<Rightarrow> string" where
  "listing_line digest name = hexEncode digest @ ''  '' @ name @ [CHR 0x0A]"

fun zip_sum_loop ::
  "(string \<Rightarrow> string) \<Rightarrow> zip_file list \<Rightarrow> 64 word \<Rightarrow> string \<Rightarrow> zip_error + string" where
  "zip_sum_loop sha [] total' digest = Inr digest"
| "zip_sum_loop sha (item # files) total' digest =
     (if CHR 0x0A \<in> set (zf_Name item) then Inl ZipNewline
      else
        let total' = total' + zf_UncompressedSize64 item in
        if total' > maxModuleZipBytes then Inl ZipBytes
        else
          (case zf_Content item of
             None \<Rightarrow> Inl ZipRead
           | Some content \<Rightarrow>
               (case CopyN content (sint (zf_UncompressedSize64 item)) of
                  None \<Rightarrow> Inl ZipRead
                | Some copied \<Rightarrow>
                    if \<not> zf_Closes item then Inl ZipRead
                    else zip_sum_loop sha files total'
                      (digest @ listing_line (sha copied) (zf_Name item)))))"

text \<open>\<open>base64.StdEncoding.EncodeToString\<close>.\<close>

definition std_char :: "nat \<Rightarrow> char" where
  "std_char n = (if n = 62 then CHR ''+'' else if n = 63 then CHR ''/'' else sextet_char n)"

definition base64_std :: "string \<Rightarrow> string" where
  "base64_std bs =
     map std_char (encode_groups (map byte bs)) @
     replicate ((3 - length bs mod 3) mod 3) (CHR ''='')"

definition moduleZipSum ::
  "(string \<Rightarrow> string) \<Rightarrow> (zip_file list \<Rightarrow> zip_file list) \<Rightarrow> (string \<Rightarrow> zip_file list option) \<Rightarrow>
   file_system \<Rightarrow> string \<Rightarrow> zip_error + string" where
  "moduleZipSum sha order zip' fs path =
     (case Option.bind (fs_content fs path) zip' of
        None \<Rightarrow> Inl ZipOpen
      | Some files \<Rightarrow>
          if length files > maxModuleZipEntries then Inl ZipEntries
          else
            (case zip_sum_loop sha (order files) 0 [] of
               Inl e \<Rightarrow> Inl e
             | Inr digest \<Rightarrow> Inr (''h1:'' @ base64_std (sha digest))))"

section \<open>Correctness\<close>

text \<open>What \<open>sort.Slice\<close> promises.\<close>

definition sorts_names :: "(zip_file list \<Rightarrow> zip_file list) \<Rightarrow> bool" where
  "sorts_names order \<longleftrightarrow> (\<forall>files. mset (order files) = mset files \<and> sorted (map zf_Name (order files)))"

lemma sorts_names_key: "sorts_names (sort_key zf_Name)"
  by (simp add: sorts_names_def)

lemma sorted_names_unique:
  assumes "mset xs = mset ys" and "sorted (map zf_Name xs)" and "sorted (map zf_Name ys)"
    and "distinct (map zf_Name xs)"
  shows "xs = ys"
proof -
  have "set xs = set ys" using assms(1) by (rule mset_eq_setD)
  then have "inj_on zf_Name (set xs \<union> set ys)"
    using assms(4) by (simp add: distinct_map)
  moreover have "map zf_Name xs = map zf_Name ys"
  proof (rule sorted_distinct_set_unique)
    show "distinct (map zf_Name ys)"
      using assms(1,4) by (metis mset_eq_imp_distinct_iff mset_map)
    show "set (map zf_Name xs) = set (map zf_Name ys)"
      using assms(1) by (metis list.set_map set_mset_mset)
  qed (use assms in simp_all)
  ultimately show ?thesis by (metis map_inj_on)
qed

text \<open>The entries that a run has gone through, each with the bytes that went into its digest.\<close>

definition entry_bytes :: "zip_file \<Rightarrow> string \<times> string" where
  "entry_bytes item =
     (zf_Name item,
      take (nat (sint (zf_UncompressedSize64 item))) (case zf_Content item of None \<Rightarrow> [] | Some c \<Rightarrow> c))"

definition listing :: "(string \<Rightarrow> string) \<Rightarrow> (string \<times> string) list \<Rightarrow> string" where
  "listing sha entries = concat (map (\<lambda>(name, copied). listing_line (sha copied) name) entries)"

lemma listing_Cons: "listing sha (e # es) = listing_line (sha (snd e)) (fst e) @ listing sha es"
  by (simp add: listing_def case_prod_beta)

lemma zip_sum_loop_Inr:
  "zip_sum_loop sha files n digest = Inr result \<Longrightarrow>
   result = digest @ listing sha (map entry_bytes files) \<and> (\<forall>item \<in> set files. CHR 0x0A \<notin> set (zf_Name item))"
proof (induction files arbitrary: n digest)
  case Nil
  then show ?case by (simp add: listing_def)
next
  case (Cons item files)
  from Cons.prems obtain n' content where run: "CHR 0x0A \<notin> set (zf_Name item)"
    "zf_Content item = Some content"
    "zip_sum_loop sha files n' (digest @ listing_line
      (sha (take (nat (sint (zf_UncompressedSize64 item))) content)) (zf_Name item)) = Inr result"
    by (auto simp: Let_def CopyN_def split: if_splits option.splits)
  with Cons.IH [OF run(3)] show ?case
    by (simp add: listing_Cons entry_bytes_def)
qed

text \<open>A listing is read back line by line.\<close>

lemma line_split:
  assumes "name @ sep # rest = name' @ sep # rest'" and "sep \<notin> set name" and "sep \<notin> set name'"
  shows "name = name'" and "rest = rest'"
proof -
  have "takeWhile (\<lambda>c. c \<noteq> sep) (name @ sep # rest) = name" "takeWhile (\<lambda>c. c \<noteq> sep) (name' @ sep # rest') = name'"
    using assms(2,3) by (auto simp: takeWhile_append)
  then show "name = name'" using assms(1) by metis
  then show "rest = rest'" using assms(1) by simp
qed

lemma listing_inj:
  assumes "\<forall>x. length (sha x) = 32" and "listing sha es = listing sha es'"
    and "\<forall>e \<in> set es \<union> set es'. CHR 0x0A \<notin> set (fst e)"
  shows "map (\<lambda>e. (fst e, sha (snd e))) es = map (\<lambda>e. (fst e, sha (snd e))) es'"
  using assms(2,3)
proof (induction es arbitrary: es')
  case Nil
  then show ?case by (cases es') (auto simp: listing_def listing_line_def)
next
  case (Cons e es)
  obtain name copied where e: "e = (name, copied)" by fastforce
  obtain name' copied' es'' where es': "es' = (name', copied') # es''"
    using Cons.prems(1) by (cases es') (auto simp: listing_def listing_line_def e)
  have text': "hexEncode (sha copied) @ ''  '' @ name @ CHR 0x0A # listing sha es =
      hexEncode (sha copied') @ ''  '' @ name' @ CHR 0x0A # listing sha es''"
    using Cons.prems(1) by (simp add: listing_def listing_line_def e es')
  have "length (hexEncode (sha copied)) = length (hexEncode (sha copied'))"
    using assms(1) by (simp add: hexEncode_length)
  with text' have digest: "sha copied = sha copied'"
    and rest: "name @ CHR 0x0A # listing sha es = name' @ CHR 0x0A # listing sha es''"
    by (simp_all add: hexEncode_inj)
  have "CHR 0x0A \<notin> set name" "CHR 0x0A \<notin> set name'" using Cons.prems(2) by (simp_all add: e es')
  with rest have "name = name'" "listing sha es = listing sha es''"
    by (metis line_split)+
  moreover have "map (\<lambda>e. (fst e, sha (snd e))) es = map (\<lambda>e. (fst e, sha (snd e))) es''"
    using Cons.IH [of es''] Cons.prems(2) calculation(2) by (simp add: es')
  ultimately show ?case using digest by (simp add: e es')
qed

lemma std_char_inj: "inj_on std_char {..<64}"
proof -
  have "byte (std_char n) = (if n < 26 then 65 + n else if n < 52 then 71 + n else if n < 62 then n - 4
      else if n = 62 then 43 else 47)" if "n < 64" for n
    using that sextet_char_byte [of n] by (auto simp: std_char_def byte_def)
  then show ?thesis by (intro inj_onI) (drule arg_cong [of _ _ byte], simp split: if_splits)
qed

lemma base64_std_inj:
  assumes "length s = length t"
  shows "base64_std s = base64_std t \<longleftrightarrow> s = t"
proof
  assume "base64_std s = base64_std t"
  then have "map std_char (encode_groups (map byte s)) = map std_char (encode_groups (map byte t))"
    using assms by (simp add: base64_std_def)
  moreover have "\<forall>v \<in> set (encode_groups (map byte x)). v < 64" for x
    by (rule encode_groups_less) (simp add: byte_less)
  then have "set (encode_groups (map byte s)) \<union> set (encode_groups (map byte t)) \<subseteq> {..<64}" by auto
  ultimately have "encode_groups (map byte s) = encode_groups (map byte t)"
    using std_char_inj by (metis inj_on_subset map_inj_on)
  moreover have "decode_groups (encode_groups (map byte x)) = Some (map byte x)" for x
    by (rule decode_encode_groups) (simp add: byte_less)
  ultimately have "map byte s = map byte t" by (metis option.inject)
  then have "map char_of (map byte s) = map char_of (map byte t)" by (rule arg_cong)
  then show "s = t" by (simp add: comp_def)
qed simp

lemma moduleZipSum_Inr:
  assumes "moduleZipSum sha order zip' fs path = Inr s"
    and "Option.bind (fs_content fs path) zip' = Some files" and "sorts_names order"
  shows "s = ''h1:'' @ base64_std (sha (listing sha (map entry_bytes (order files))))"
    and "\<forall>item \<in> set files. CHR 0x0A \<notin> set (zf_Name item)"
proof -
  obtain digest where run: "zip_sum_loop sha (order files) 0 [] = Inr digest"
    "s = ''h1:'' @ base64_std (sha digest)"
    using assms(1,2) by (auto simp: moduleZipSum_def split: if_splits sum.splits)
  have "set (order files) = set files"
    using assms(3) unfolding sorts_names_def by (metis mset_eq_setD)
  then show "s = ''h1:'' @ base64_std (sha (listing sha (map entry_bytes (order files))))"
    "\<forall>item \<in> set files. CHR 0x0A \<notin> set (zf_Name item)"
    using zip_sum_loop_Inr [OF run(1)] run(2) by simp_all
qed

text \<open>The texts that are hashed.\<close>

definition hashed :: "(string \<Rightarrow> string) \<Rightarrow> (zip_file list \<Rightarrow> zip_file list) \<Rightarrow> zip_file list \<Rightarrow> string set"
  where
  "hashed sha order files =
     insert (listing sha (map entry_bytes (order files))) (snd ` entry_bytes ` set files)"

lemma moduleZipSum_order:
  assumes "sorts_names order" and "mset files = mset files'" and "distinct (map zf_Name files)"
  shows "order files = order files'"
proof (rule sorted_names_unique)
  have order: "mset (order xs) = mset xs" "sorted (map zf_Name (order xs))" for xs
    using assms(1) by (simp_all add: sorts_names_def)
  then show "mset (order files) = mset (order files')" "sorted (map zf_Name (order files))"
    "sorted (map zf_Name (order files'))"
    using assms(2) by simp_all
  show "distinct (map zf_Name (order files))"
    using order(1) [of files] assms(3) by (metis mset_eq_imp_distinct_iff mset_map)
qed

lemma moduleZipSum_binds:
  assumes order: "sorts_names order" and "\<forall>x. length (sha x) = 32"
    and files: "Option.bind (fs_content fs path) zip' = Some files"
      "Option.bind (fs_content fs' path') zip' = Some files'"
    and sums: "moduleZipSum sha order zip' fs path = Inr s" "moduleZipSum sha order zip' fs' path' = Inr s"
    and inj: "inj_on sha (hashed sha order files \<union> hashed sha order files')"
  shows "mset (map entry_bytes files) = mset (map entry_bytes files')"
proof -
  let ?es = "map entry_bytes (order files)" and ?es' = "map entry_bytes (order files')"
  have sets: "set (order xs) = set xs" for xs
    using order unfolding sorts_names_def by (metis mset_eq_setD)
  note first = moduleZipSum_Inr [OF sums(1) files(1) order]
  note second = moduleZipSum_Inr [OF sums(2) files(2) order]
  have "sha (listing sha ?es) = sha (listing sha ?es')"
    using first(1) second(1) base64_std_inj assms(2) by simp
  then have listings: "listing sha ?es = listing sha ?es'"
    by (rule inj_onD [OF inj]) (simp_all add: hashed_def)
  have names: "\<forall>e \<in> set ?es \<union> set ?es'. CHR 0x0A \<notin> set (fst e)"
    using first(2) second(2) by (auto simp: sets entry_bytes_def)
  have "inj_on (\<lambda>e. (fst e, sha (snd e))) (set ?es \<union> set ?es')"
  proof (rule inj_onI)
    fix e f assume in_sets: "e \<in> set ?es \<union> set ?es'" "f \<in> set ?es \<union> set ?es'"
      and same: "(fst e, sha (snd e)) = (fst f, sha (snd f))"
    have "snd e \<in> hashed sha order files \<union> hashed sha order files'"
      "snd f \<in> hashed sha order files \<union> hashed sha order files'"
      using in_sets by (auto simp: hashed_def sets)
    with same show "e = f" using inj_onD [OF inj, of "snd e" "snd f"] by (simp add: prod_eq_iff)
  qed
  then have "?es = ?es'"
    using listing_inj [OF assms(2) listings names] by (metis map_inj_on)
  then have "mset (map entry_bytes (order files)) = mset (map entry_bytes (order files'))" by simp
  then show ?thesis using order unfolding sorts_names_def mset_map by simp
qed

text \<open>
  The sizes are added up in 64 bits: an entry whose declared size reaches past the end of that range
  passes the bound, and nothing of its content is hashed.
\<close>

lemma moduleZipSum_wrap:
  assumes "zf_Name a < zf_Name b" and "CHR 0x0A \<notin> set (zf_Name a) \<union> set (zf_Name b)"
    and "zf_UncompressedSize64 a = 1" and "zf_Content a = Some ''x''" and "zf_Closes a"
    and "zf_UncompressedSize64 b = - 1" and "zf_Content b = Some content" and "zf_Closes b"
  shows "zip_sum_loop sha (sort_key zf_Name [b, a]) 0 [] =
    Inr (listing sha [(zf_Name a, ''x''), (zf_Name b, [])])"
proof -
  have "sort_key zf_Name [b, a] = [a, b]" using assms(1) by simp
  then show ?thesis
    using assms by (simp add: CopyN_def listing_def maxModuleZipBytes_def Let_def)
qed

end
