(* ===== verification/EvidencePacket.thy ===== *)
theory EvidencePacket
  imports EvidenceContract EvidenceModule
begin

text \<open>
  The documents of the oracle evidence packet of
  \<open>.verification/cohesion/api-query-v1-oracle/verify.go\<close>, and how its decoder reads them: a record
  for each struct, its zero value, and the list of its members.
\<close>

section \<open>The manifest\<close>

record releaseArtifact =
  ra_Path :: string
  ra_Blob :: string
  ra_Bytes :: int
  ra_SHA256 :: string

record release_part =
  rp_Version :: string
  rp_TagKind :: string
  rp_TagObject :: string
  rp_PeeledCommit :: string
  rp_Tree :: string
  rp_ModuleSum :: string
  rp_GoModSum :: string
  rp_AllowedSigners :: artifact
  rp_APIBaseline :: releaseArtifact
  rp_LegacySources :: "releaseArtifact list"

record execution_part =
  ep_Input :: artifact
  ep_Result :: artifact
  ep_Outcome :: string

record manifest =
  mf_Schema :: string
  mf_Module :: string
  mf_Decision :: artifact
  mf_DecisionFreeze :: artifact
  mf_Release :: release_part
  mf_Artifacts :: "artifact list"
  mf_Execution :: execution_part
  mf_Coverage :: "string list"

definition zeroArtifact :: artifact where
  "zeroArtifact = \<lparr>af_Path = [], af_SHA256 = []\<rparr>"

definition zeroReleaseArtifact :: releaseArtifact where
  "zeroReleaseArtifact = \<lparr>ra_Path = [], ra_Blob = [], ra_Bytes = 0, ra_SHA256 = []\<rparr>"

definition zeroManifest :: manifest where
  "zeroManifest =
     \<lparr>mf_Schema = [], mf_Module = [], mf_Decision = zeroArtifact, mf_DecisionFreeze = zeroArtifact,
      mf_Release = \<lparr>rp_Version = [], rp_TagKind = [], rp_TagObject = [], rp_PeeledCommit = [],
        rp_Tree = [], rp_ModuleSum = [], rp_GoModSum = [], rp_AllowedSigners = zeroArtifact,
        rp_APIBaseline = zeroReleaseArtifact, rp_LegacySources = []\<rparr>,
      mf_Artifacts = [],
      mf_Execution = \<lparr>ep_Input = zeroArtifact, ep_Result = zeroArtifact, ep_Outcome = []\<rparr>,
      mf_Coverage = []\<rparr>"

definition dec_artifact :: "artifact decoder" where
  "dec_artifact = dec_fields True
     [(''path'', into dec_string af_Path af_Path_update),
      (''sha256'', into dec_string af_SHA256 af_SHA256_update)]"

definition dec_releaseArtifact :: "releaseArtifact decoder" where
  "dec_releaseArtifact = dec_fields True
     [(''path'', into dec_string ra_Path ra_Path_update),
      (''blob'', into dec_string ra_Blob ra_Blob_update),
      (''bytes'', into dec_int ra_Bytes ra_Bytes_update),
      (''sha256'', into dec_string ra_SHA256 ra_SHA256_update)]"

definition dec_release :: "release_part decoder" where
  "dec_release = dec_fields True
     [(''version'', into dec_string rp_Version rp_Version_update),
      (''tag_kind'', into dec_string rp_TagKind rp_TagKind_update),
      (''tag_object'', into dec_string rp_TagObject rp_TagObject_update),
      (''peeled_commit'', into dec_string rp_PeeledCommit rp_PeeledCommit_update),
      (''tree'', into dec_string rp_Tree rp_Tree_update),
      (''module_sum'', into dec_string rp_ModuleSum rp_ModuleSum_update),
      (''go_mod_sum'', into dec_string rp_GoModSum rp_GoModSum_update),
      (''allowed_signers'', into dec_artifact rp_AllowedSigners rp_AllowedSigners_update),
      (''api_baseline'', into dec_releaseArtifact rp_APIBaseline rp_APIBaseline_update),
      (''legacy_sources'',
        into (dec_list dec_releaseArtifact zeroReleaseArtifact) rp_LegacySources rp_LegacySources_update)]"

definition dec_execution :: "execution_part decoder" where
  "dec_execution = dec_fields True
     [(''input'', into dec_artifact ep_Input ep_Input_update),
      (''result'', into dec_artifact ep_Result ep_Result_update),
      (''outcome'', into dec_string ep_Outcome ep_Outcome_update)]"

definition dec_manifest :: "manifest decoder" where
  "dec_manifest = dec_fields True
     [(''schema'', into dec_string mf_Schema mf_Schema_update),
      (''module'', into dec_string mf_Module mf_Module_update),
      (''decision'', into dec_artifact mf_Decision mf_Decision_update),
      (''decision_freeze'', into dec_artifact mf_DecisionFreeze mf_DecisionFreeze_update),
      (''release'', into dec_release mf_Release mf_Release_update),
      (''artifacts'', into (dec_list dec_artifact zeroArtifact) mf_Artifacts mf_Artifacts_update),
      (''execution'', into dec_execution mf_Execution mf_Execution_update),
      (''coverage'', into (dec_list dec_string []) mf_Coverage mf_Coverage_update)]"

section \<open>The shared input\<close>

record source_part =
  sp_Module :: string
  sp_Version :: string
  sp_ModuleSum :: string
  sp_GoModSum :: string
  sp_ModuleZipSHA256 :: string
  sp_DownloadReceipt :: artifact

record external_part =
  xp_GoMod :: artifact
  xp_GoSum :: artifact
  xp_ReplaceDirectives :: int
  xp_WorkspaceDirectives :: int

record toolchain_part =
  tp_Identity :: string
  tp_ExecutableSHA256 :: string

record resolution_part =
  pr_Command :: string
  pr_Outcome :: string
  pr_GOPROXY :: string
  pr_GOSUMDB :: string
  pr_GONOSUMDB :: string
  pr_GOPRIVATE :: string

record environment_part =
  ev_GOOS :: string
  ev_GOARCH :: string
  ev_CGOEnabled :: string
  ev_GOFLAGS :: string
  ev_GOWORK :: string
  ev_GOCACHE :: string
  ev_GOMODCACHE :: string
  ev_GOTMPDIR :: string
  ev_TMPDIR :: string

record postgres_part =
  pp_RepositoryDigest :: string
  pp_ImageID :: string
  pp_ImageInspect :: artifact
  pp_ContainerID :: string
  pp_ContainerInspect :: artifact
  pp_Database :: string
  pp_User :: string
  pp_DSN :: string

record command_part =
  cp_Oracle :: string
  cp_PackageTestPrefix :: string

text \<open>\<open>Environment\<close>, which the decoder leaves alone and nothing reads, is left out.\<close>

record sharedInput =
  si_Schema :: string
  si_Source :: source_part
  si_DependencyGraph :: artifact
  si_ExternalModule :: external_part
  si_Toolchain :: toolchain_part
  si_PublicResolution :: resolution_part
  si_RawEnvironment :: environment_part
  si_Postgres :: postgres_part
  si_CommandContract :: command_part

definition zeroShared :: sharedInput where
  "zeroShared =
     \<lparr>si_Schema = [],
      si_Source = \<lparr>sp_Module = [], sp_Version = [], sp_ModuleSum = [], sp_GoModSum = [],
        sp_ModuleZipSHA256 = [], sp_DownloadReceipt = zeroArtifact\<rparr>,
      si_DependencyGraph = zeroArtifact,
      si_ExternalModule = \<lparr>xp_GoMod = zeroArtifact, xp_GoSum = zeroArtifact,
        xp_ReplaceDirectives = 0, xp_WorkspaceDirectives = 0\<rparr>,
      si_Toolchain = \<lparr>tp_Identity = [], tp_ExecutableSHA256 = []\<rparr>,
      si_PublicResolution = \<lparr>pr_Command = [], pr_Outcome = [], pr_GOPROXY = [], pr_GOSUMDB = [],
        pr_GONOSUMDB = [], pr_GOPRIVATE = []\<rparr>,
      si_RawEnvironment = \<lparr>ev_GOOS = [], ev_GOARCH = [], ev_CGOEnabled = [], ev_GOFLAGS = [],
        ev_GOWORK = [], ev_GOCACHE = [], ev_GOMODCACHE = [], ev_GOTMPDIR = [], ev_TMPDIR = []\<rparr>,
      si_Postgres = \<lparr>pp_RepositoryDigest = [], pp_ImageID = [], pp_ImageInspect = zeroArtifact,
        pp_ContainerID = [], pp_ContainerInspect = zeroArtifact, pp_Database = [], pp_User = [],
        pp_DSN = []\<rparr>,
      si_CommandContract = \<lparr>cp_Oracle = [], cp_PackageTestPrefix = []\<rparr>\<rparr>"

definition dec_source :: "source_part decoder" where
  "dec_source = dec_fields True
     [(''module'', into dec_string sp_Module sp_Module_update),
      (''version'', into dec_string sp_Version sp_Version_update),
      (''module_sum'', into dec_string sp_ModuleSum sp_ModuleSum_update),
      (''go_mod_sum'', into dec_string sp_GoModSum sp_GoModSum_update),
      (''module_zip_sha256'', into dec_string sp_ModuleZipSHA256 sp_ModuleZipSHA256_update),
      (''download_receipt'', into dec_artifact sp_DownloadReceipt sp_DownloadReceipt_update)]"

definition dec_external :: "external_part decoder" where
  "dec_external = dec_fields True
     [(''go_mod'', into dec_artifact xp_GoMod xp_GoMod_update),
      (''go_sum'', into dec_artifact xp_GoSum xp_GoSum_update),
      (''replace_directives'', into dec_int xp_ReplaceDirectives xp_ReplaceDirectives_update),
      (''workspace_directives'', into dec_int xp_WorkspaceDirectives xp_WorkspaceDirectives_update)]"

definition dec_toolchain :: "toolchain_part decoder" where
  "dec_toolchain = dec_fields True
     [(''identity'', into dec_string tp_Identity tp_Identity_update),
      (''executable_sha256'', into dec_string tp_ExecutableSHA256 tp_ExecutableSHA256_update)]"

definition dec_resolution :: "resolution_part decoder" where
  "dec_resolution = dec_fields True
     [(''command'', into dec_string pr_Command pr_Command_update),
      (''outcome'', into dec_string pr_Outcome pr_Outcome_update),
      (''goproxy'', into dec_string pr_GOPROXY pr_GOPROXY_update),
      (''gosumdb'', into dec_string pr_GOSUMDB pr_GOSUMDB_update),
      (''gonosumdb'', into dec_string pr_GONOSUMDB pr_GONOSUMDB_update),
      (''goprivate'', into dec_string pr_GOPRIVATE pr_GOPRIVATE_update)]"

definition dec_environment :: "environment_part decoder" where
  "dec_environment = dec_fields True
     [(''goos'', into dec_string ev_GOOS ev_GOOS_update),
      (''goarch'', into dec_string ev_GOARCH ev_GOARCH_update),
      (''cgo_enabled'', into dec_string ev_CGOEnabled ev_CGOEnabled_update),
      (''goflags'', into dec_string ev_GOFLAGS ev_GOFLAGS_update),
      (''gowork'', into dec_string ev_GOWORK ev_GOWORK_update),
      (''gocache'', into dec_string ev_GOCACHE ev_GOCACHE_update),
      (''gomodcache'', into dec_string ev_GOMODCACHE ev_GOMODCACHE_update),
      (''gotmpdir'', into dec_string ev_GOTMPDIR ev_GOTMPDIR_update),
      (''tmpdir'', into dec_string ev_TMPDIR ev_TMPDIR_update)]"

definition dec_postgres :: "postgres_part decoder" where
  "dec_postgres = dec_fields True
     [(''repository_digest'', into dec_string pp_RepositoryDigest pp_RepositoryDigest_update),
      (''image_id'', into dec_string pp_ImageID pp_ImageID_update),
      (''image_inspect'', into dec_artifact pp_ImageInspect pp_ImageInspect_update),
      (''container_id'', into dec_string pp_ContainerID pp_ContainerID_update),
      (''container_inspect'', into dec_artifact pp_ContainerInspect pp_ContainerInspect_update),
      (''database'', into dec_string pp_Database pp_Database_update),
      (''user'', into dec_string pp_User pp_User_update),
      (''dsn'', into dec_string pp_DSN pp_DSN_update)]"

definition dec_command :: "command_part decoder" where
  "dec_command = dec_fields True
     [(''oracle'', into dec_string cp_Oracle cp_Oracle_update),
      (''package_test_prefix'', into dec_string cp_PackageTestPrefix cp_PackageTestPrefix_update)]"

definition dec_shared :: "sharedInput decoder" where
  "dec_shared = dec_fields True
     [(''schema'', into dec_string si_Schema si_Schema_update),
      (''source'', into dec_source si_Source si_Source_update),
      (''dependency_graph'', into dec_artifact si_DependencyGraph si_DependencyGraph_update),
      (''external_module'', into dec_external si_ExternalModule si_ExternalModule_update),
      (''toolchain'', into dec_toolchain si_Toolchain si_Toolchain_update),
      (''public_resolution'', into dec_resolution si_PublicResolution si_PublicResolution_update),
      (''environment'', into dec_environment si_RawEnvironment si_RawEnvironment_update),
      (''postgres'', into dec_postgres si_Postgres si_Postgres_update),
      (''command_contract'', into dec_command si_CommandContract si_CommandContract_update)]"

section \<open>The execution result and its checkpoints\<close>

record checkpointSummary =
  cs_Path :: string
  cs_SHA256 :: string
  cs_Package :: string
  cs_Command :: string
  cs_InputFingerprintSHA256 :: string
  cs_Outcome :: string

record package_tests =
  pt_Outcome :: string
  pt_PackageCount :: int
  pt_Passed :: int
  pt_Failed :: int
  pt_PostgresIntegrationExecuted :: bool
  pt_Checkpoints :: "checkpointSummary list"

record oracle_part =
  op_Command :: string
  op_Source :: artifact
  op_Input :: artifact
  op_Outcome :: string
  op_Output :: artifact
  op_Contract :: artifact

record executionResult =
  er_Schema :: string
  er_SharedInput :: artifact
  er_Oracle :: oracle_part
  er_PublishedPackageTests :: package_tests

record checkpoint =
  ck_Schema :: string
  ck_Package :: string
  ck_Command :: string
  ck_ExecutionRevision :: string
  ck_SharedInput :: artifact
  ck_Algorithm :: string          \<comment> \<open>\<open>InputFingerprint.Algorithm\<close>\<close>
  ck_Fingerprint :: string        \<comment> \<open>\<open>InputFingerprint.SHA256\<close>\<close>
  ck_Outcome :: string            \<comment> \<open>\<open>Result.Outcome\<close>\<close>
  ck_Log :: artifact              \<comment> \<open>\<open>Result.Log\<close>\<close>

definition zeroResult :: executionResult where
  "zeroResult =
     \<lparr>er_Schema = [], er_SharedInput = zeroArtifact,
      er_Oracle = \<lparr>op_Command = [], op_Source = zeroArtifact, op_Input = zeroArtifact,
        op_Outcome = [], op_Output = zeroArtifact, op_Contract = zeroArtifact\<rparr>,
      er_PublishedPackageTests = \<lparr>pt_Outcome = [], pt_PackageCount = 0, pt_Passed = 0, pt_Failed = 0,
        pt_PostgresIntegrationExecuted = False, pt_Checkpoints = []\<rparr>\<rparr>"

definition zeroCheckpoint :: checkpoint where
  "zeroCheckpoint =
     \<lparr>ck_Schema = [], ck_Package = [], ck_Command = [], ck_ExecutionRevision = [],
      ck_SharedInput = zeroArtifact, ck_Algorithm = [], ck_Fingerprint = [], ck_Outcome = [],
      ck_Log = zeroArtifact\<rparr>"

definition dec_summary :: "checkpointSummary decoder" where
  "dec_summary = dec_fields True
     [(''path'', into dec_string cs_Path cs_Path_update),
      (''sha256'', into dec_string cs_SHA256 cs_SHA256_update),
      (''package'', into dec_string cs_Package cs_Package_update),
      (''command'', into dec_string cs_Command cs_Command_update),
      (''input_fingerprint_sha256'',
        into dec_string cs_InputFingerprintSHA256 cs_InputFingerprintSHA256_update),
      (''outcome'', into dec_string cs_Outcome cs_Outcome_update)]"

definition dec_tests :: "package_tests decoder" where
  "dec_tests = dec_fields True
     [(''outcome'', into dec_string pt_Outcome pt_Outcome_update),
      (''package_count'', into dec_int pt_PackageCount pt_PackageCount_update),
      (''passed'', into dec_int pt_Passed pt_Passed_update),
      (''failed'', into dec_int pt_Failed pt_Failed_update),
      (''postgres_integration_executed'',
        into dec_bool pt_PostgresIntegrationExecuted pt_PostgresIntegrationExecuted_update),
      (''checkpoints'',
        into (dec_list dec_summary
            \<lparr>cs_Path = [], cs_SHA256 = [], cs_Package = [], cs_Command = [],
             cs_InputFingerprintSHA256 = [], cs_Outcome = []\<rparr>)
          pt_Checkpoints pt_Checkpoints_update)]"

definition dec_oracle :: "oracle_part decoder" where
  "dec_oracle = dec_fields True
     [(''command'', into dec_string op_Command op_Command_update),
      (''source'', into dec_artifact op_Source op_Source_update),
      (''input'', into dec_artifact op_Input op_Input_update),
      (''outcome'', into dec_string op_Outcome op_Outcome_update),
      (''output'', into dec_artifact op_Output op_Output_update),
      (''contract'', into dec_artifact op_Contract op_Contract_update)]"

definition dec_result :: "executionResult decoder" where
  "dec_result = dec_fields True
     [(''schema'', into dec_string er_Schema er_Schema_update),
      (''shared_input'', into dec_artifact er_SharedInput er_SharedInput_update),
      (''oracle'', into dec_oracle er_Oracle er_Oracle_update),
      (''published_package_tests'',
        into dec_tests er_PublishedPackageTests er_PublishedPackageTests_update)]"

text \<open>The two nested structs of a checkpoint are decoded into the checkpoint itself.\<close>

definition dec_fingerprint :: "checkpoint decoder" where
  "dec_fingerprint = dec_fields True
     [(''algorithm'', into dec_string ck_Algorithm ck_Algorithm_update),
      (''sha256'', into dec_string ck_Fingerprint ck_Fingerprint_update)]"

definition dec_test_result :: "checkpoint decoder" where
  "dec_test_result = dec_fields True
     [(''outcome'', into dec_string ck_Outcome ck_Outcome_update),
      (''log'', into dec_artifact ck_Log ck_Log_update)]"

definition dec_checkpoint :: "checkpoint decoder" where
  "dec_checkpoint = dec_fields True
     [(''schema'', into dec_string ck_Schema ck_Schema_update),
      (''package'', into dec_string ck_Package ck_Package_update),
      (''command'', into dec_string ck_Command ck_Command_update),
      (''execution_revision'', into dec_string ck_ExecutionRevision ck_ExecutionRevision_update),
      (''shared_input'', into dec_artifact ck_SharedInput ck_SharedInput_update),
      (''input_fingerprint'', dec_fingerprint),
      (''result'', dec_test_result)]"

section \<open>Receipts of other tools\<close>

record downloadReceipt =
  dr_Path :: string
  dr_Version :: string
  dr_Sum :: string
  dr_GoModSum :: string
  dr_VCS :: string       \<comment> \<open>\<open>Origin.VCS\<close>, and so on\<close>
  dr_URL :: string
  dr_Hash :: string
  dr_Ref :: string

definition zeroReceipt :: downloadReceipt where
  "zeroReceipt = \<lparr>dr_Path = [], dr_Version = [], dr_Sum = [], dr_GoModSum = [], dr_VCS = [],
     dr_URL = [], dr_Hash = [], dr_Ref = []\<rparr>"

definition dec_origin :: "downloadReceipt decoder" where
  "dec_origin = dec_fields True
     [(''VCS'', into dec_string dr_VCS dr_VCS_update),
      (''URL'', into dec_string dr_URL dr_URL_update),
      (''Hash'', into dec_string dr_Hash dr_Hash_update),
      (''Ref'', into dec_string dr_Ref dr_Ref_update)]"

definition dec_receipt :: "downloadReceipt decoder" where
  "dec_receipt = dec_fields True
     [(''Path'', into dec_string dr_Path dr_Path_update),
      (''Version'', into dec_string dr_Version dr_Version_update),
      (''Sum'', into dec_string dr_Sum dr_Sum_update),
      (''GoModSum'', into dec_string dr_GoModSum dr_GoModSum_update),
      (''Origin'', dec_origin)]"

record dockerContainer =
  dc_ID :: string
  dc_Image :: string
  dc_ConfigImage :: string
  dc_Env :: "string list"
  dc_Status :: string
  dc_Ports :: "(string \<times> string list) list"    \<comment> \<open>the \<open>HostPort\<close> of every binding of a port\<close>

definition zeroContainer :: dockerContainer where
  "zeroContainer = \<lparr>dc_ID = [], dc_Image = [], dc_ConfigImage = [], dc_Env = [], dc_Status = [],
     dc_Ports = []\<rparr>"

definition dec_binding :: "string decoder" where
  "dec_binding = dec_fields True [(''HostPort'', dec_string)]"

definition dec_container :: "dockerContainer decoder" where
  "dec_container = dec_fields True
     [(''Id'', into dec_string dc_ID dc_ID_update),
      (''Image'', into dec_string dc_Image dc_Image_update),
      (''Config'', dec_fields True
        [(''Image'', into dec_string dc_ConfigImage dc_ConfigImage_update),
         (''Env'', into (dec_list dec_string []) dc_Env dc_Env_update)]),
      (''State'', dec_fields True [(''Status'', into dec_string dc_Status dc_Status_update)]),
      (''NetworkSettings'', dec_fields True
        [(''Ports'', into (dec_map (dec_list dec_binding []) []) dc_Ports dc_Ports_update)])]"

record dockerImage =
  di_ID :: string
  di_RepoDigests :: "string list"
  di_Architecture :: string
  di_OS :: string

definition zeroImage :: dockerImage where
  "zeroImage = \<lparr>di_ID = [], di_RepoDigests = [], di_Architecture = [], di_OS = []\<rparr>"

definition dec_image :: "dockerImage decoder" where
  "dec_image = dec_fields True
     [(''Id'', into dec_string di_ID di_ID_update),
      (''RepoDigests'', into (dec_list dec_string []) di_RepoDigests di_RepoDigests_update),
      (''Architecture'', into dec_string di_Architecture di_Architecture_update),
      (''Os'', into dec_string di_OS di_OS_update)]"

text \<open>The output of \<open>go mod edit -json\<close>; members that are not asked for are skipped.\<close>

record module_edit =
  me_ModulePath :: string
  me_Go :: string
  me_Require :: "(string \<times> string) list"
  me_Replace :: "json list"

definition zeroModuleEdit :: module_edit where
  "zeroModuleEdit = \<lparr>me_ModulePath = [], me_Go = [], me_Require = [], me_Replace = []\<rparr>"

definition dec_require :: "(string \<times> string) decoder" where
  "dec_require = dec_fields False
     [(''Path'', into dec_string fst apfst),
      (''Version'', into dec_string snd apsnd)]"

definition dec_module_edit :: "module_edit decoder" where
  "dec_module_edit = dec_fields False
     [(''Module'', dec_fields False
        [(''Path'', into dec_string me_ModulePath me_ModulePath_update)]),
      (''Go'', into dec_string me_Go me_Go_update),
      (''Require'', into (dec_list dec_require ([], [])) me_Require me_Require_update),
      (''Replace'', into (dec_list dec_raw (JScalar SNull)) me_Replace me_Replace_update)]"

text \<open>An event of \<open>go test -json\<close>.\<close>

record test_event =
  te_Time :: string
  te_Action :: string
  te_Package :: string
  te_Test :: string
  te_Output :: string
  te_Elapsed :: string

definition zeroEvent :: test_event where
  "zeroEvent = \<lparr>te_Time = [], te_Action = [], te_Package = [], te_Test = [], te_Output = [],
     te_Elapsed = ''0''\<rparr>"

definition dec_event :: "(string \<Rightarrow> string option) \<Rightarrow> test_event decoder" where
  "dec_event num = dec_fields False
     [(''Time'', into dec_string te_Time te_Time_update),
      (''Action'', into dec_string te_Action te_Action_update),
      (''Package'', into dec_string te_Package te_Package_update),
      (''Test'', into dec_string te_Test te_Test_update),
      (''Output'', into dec_string te_Output te_Output_update),
      (''Elapsed'', into (dec_float num) te_Elapsed te_Elapsed_update)]"

end
