(* ===== verification/EvidenceVerify.thy ===== *)
theory EvidenceVerify
  imports EvidencePacket
begin

text \<open>
  The checks of the oracle evidence packet in
  \<open>.verification/cohesion/api-query-v1-oracle/verify.go\<close>, from the commands \<open>git\<close> and \<open>go\<close> to
  \<open>validateManifest\<close> and \<open>main\<close>. What the checks use of the system is a record of functions: the file
  system and the answers of the two commands, which do not change while the tool runs (a command that
  fails, or is cut off by the time limit, has no answer), SHA-256, the text of floating-point numbers,
  the zip reader, the sort of the zip entries, and the parts of a URL.
\<close>

record url =
  ur_Scheme :: string
  ur_Opaque :: string
  ur_User :: "(string \<times> string option) option"    \<comment> \<open>the name, and the password if one was set\<close>
  ur_Hostname :: string
  ur_Port :: string
  ur_EscapedPath :: string
  ur_RawQuery :: string
  ur_Fragment :: string

record oracle_std =
  os_sha :: "string \<Rightarrow> string"
  os_num :: "string \<Rightarrow> string option"
  os_order :: "zip_file list \<Rightarrow> zip_file list"
  os_zip :: "string \<Rightarrow> zip_file list option"
  os_url :: "string \<Rightarrow> url option"
  os_git :: "string \<Rightarrow> string list \<Rightarrow> string option"    \<comment> \<open>the directory and the arguments\<close>
  os_go :: "string \<Rightarrow> string list \<Rightarrow> string option"
  os_fs :: file_system

definition modulePath :: string where "modulePath = ''github.com/faustbrian/go-api-query''"
definition release :: string where "release = ''v1.0.0''"
definition releaseCommit :: string where "releaseCommit = ''b69acc7edf26bafbca4496132715b2b71cc753b2''"
definition sharedPath :: string where "sharedPath = evidence ''shared-test-input.json''"
definition maxArtifactCount :: nat where "maxArtifactCount = 64"
definition maxCoverageItems :: nat where "maxCoverageItems = 16"
definition maxCheckpointCount :: nat where "maxCheckpointCount = 32"
definition expectedHarnessSHA :: string where
  "expectedHarnessSHA = ''08ef180f1531be0b038b40d9adf6a69489890ed45b11d4987b4f976001d8153e''"

section \<open>The release\<close>

definition gitOutput :: "oracle_std \<Rightarrow> string \<Rightarrow> string list \<Rightarrow> panic + string" where
  "gitOutput S root arguments = next' (must (os_git S root arguments)) (\<lambda>output. Inr (TrimSpace output))"

definition validateReleaseArtifact ::
  "oracle_std \<Rightarrow> string \<Rightarrow> string \<Rightarrow> releaseArtifact \<Rightarrow> string \<Rightarrow> int \<Rightarrow> string \<Rightarrow> panic + unit" where
  "validateReleaseArtifact S root commit item expectedBlob expectedBytes expectedSHA =
     next' (require (ra_Blob item = expectedBlob \<and> ra_SHA256 item = expectedSHA \<and>
         (expectedBytes = 0 \<or> ra_Bytes item = expectedBytes))
       (''release artifact declaration '' @ ra_Path item)) (\<lambda>_.
     next' (must (os_git S root [''show'', commit @ '':'' @ ra_Path item])) (\<lambda>content.
     next' (require (digestBytes (os_sha S) content = ra_SHA256 item \<and>
         (expectedBytes = 0 \<or> int (length content) = ra_Bytes item))
       (''release artifact content '' @ ra_Path item)) (\<lambda>_.
     next' (must (os_git S root [''rev-parse'', commit @ '':'' @ ra_Path item])) (\<lambda>blob.
     require (TrimSpace blob = ra_Blob item) (''release artifact blob '' @ ra_Path item)))))"

definition validateReleaseObjects :: "oracle_std \<Rightarrow> string \<Rightarrow> release_part \<Rightarrow> panic + unit" where
  "validateReleaseObjects S root r =
     next' (gitOutput S root [''cat-file'', ''-t'', rp_TagObject r]) (\<lambda>kind.
     next' (require (kind = ''tag'') ''release tag object type'') (\<lambda>_.
     next' (gitOutput S root [''rev-parse'', ''refs/tags/'' @ release]) (\<lambda>tag.
     next' (require (tag = rp_TagObject r) ''release tag reference'') (\<lambda>_.
     next' (gitOutput S root [''rev-parse'', rp_TagObject r @ ''^{}'']) (\<lambda>commit.
     next' (require (commit = rp_PeeledCommit r) ''release peeled commit'') (\<lambda>_.
     next' (gitOutput S root [''rev-parse'', rp_PeeledCommit r @ ''^{tree}'']) (\<lambda>tree.
     next' (require (tree = rp_Tree r) ''release commit tree'') (\<lambda>_.
     next' (localPath (os_fs S) root (af_Path (rp_AllowedSigners r))) (\<lambda>allowedSigners.
     require (os_git S root [''-c'', ''gpg.ssh.allowedSignersFile='' @ allowedSigners, ''verify-tag'',
         rp_TagObject r] \<noteq> None) ''release tag SSH signature'')))))))))"

definition expectedSources :: "(string \<times> string) list" where
  "expectedSources =
     [(''apiqueryhttp/http.go'', ''255f760cec857433c4162de8d56351f545a7f4f4''),
      (''apiqueryjsonapi/jsonapi.go'', ''95e925c60cde7c77aecd9e4223badd73a83c182e''),
      (''apiquerypgx/pgx.go'', ''0d5e99de7cba55f7a47c4ad07ac2f150b9a9e271''),
      (''apiqueryrpc/rpc.go'', ''e481cbf1e37d888b98694eb6f46f5b8880566ca7''),
      (''apiqueryvalidation/validation.go'', ''04d7a29f84fb32cb84b45bccc6dfa2b1b2673edb'')]"

fun sources_loop :: "oracle_std \<Rightarrow> string \<Rightarrow> releaseArtifact list \<Rightarrow> panic + unit" where
  "sources_loop S root [] = Inr ()"
| "sources_loop S root (source # rest) =
     (case map_of expectedSources (ra_Path source) of
        None \<Rightarrow> Inl (Label ''legacy source path'')
      | Some blob \<Rightarrow>
          next' (validateReleaseArtifact S root releaseCommit source blob 0 (ra_SHA256 source))
            (\<lambda>_. sources_loop S root rest))"

section \<open>The toolchain, the module and the database\<close>

definition validateDownloadReceipt :: "oracle_std \<Rightarrow> string \<Rightarrow> sharedInput \<Rightarrow> panic + unit" where
  "validateDownloadReceipt S root input =
     next' (decodeAt (os_fs S) root (af_Path (sp_DownloadReceipt (si_Source input))) dec_receipt
       zeroReceipt) (\<lambda>receipt.
     next' (require (dr_Path receipt = modulePath \<and> dr_Version receipt = release \<and>
         dr_Sum receipt = sp_ModuleSum (si_Source input) \<and>
         dr_GoModSum receipt = sp_GoModSum (si_Source input)) ''download receipt module'') (\<lambda>_.
     require (dr_VCS receipt = ''git'' \<and>
         dr_URL receipt = ''https://github.com/faustbrian/go-api-query'' \<and>
         dr_Hash receipt = releaseCommit \<and> dr_Ref receipt = ''refs/tags/v1.0.0'')
       ''download receipt origin''))"

definition validateToolchain :: "sharedInput \<Rightarrow> panic + unit" where
  "validateToolchain input =
     require (tp_Identity (si_Toolchain input) = ''go version go1.26.6 darwin/arm64'' \<and>
         tp_ExecutableSHA256 (si_Toolchain input) =
           ''a1c83801d1756c3eca78366c6b585f2c21c20694fb1c7eb92c446a0580420412'')
       ''toolchain receipt''"

definition validateExternalModule ::
  "oracle_std \<Rightarrow> string \<Rightarrow> sharedInput \<Rightarrow> string \<Rightarrow> panic + unit" where
  "validateExternalModule S root input goMod =
     (let external = si_ExternalModule input in
      next' (require (digestBytes (os_sha S) goMod =
          ''2112850e1bb1ca072fe8a7c0b9b3a87e1add3a9d1d666127046e655ab7d7bf97'')
        ''external go.mod identity'') (\<lambda>_.
      next' (digestAt (os_sha S) (os_fs S) root (af_Path (xp_GoSum external))) (\<lambda>digest.
      next' (require (digest = ''4746caa1433eba170248f21207f427ca0df6d20ed04960af7d3ff5ff67a88b70'')
        ''external go.sum identity'') (\<lambda>_.
      next' (localPath (os_fs S) root (af_Path (xp_GoMod external))) (\<lambda>path.
      next' (must (os_go S root [''mod'', ''edit'', ''-json'', ''-modfile='' @ path])) (\<lambda>output.
      next' (must (Unmarshal dec_module_edit zeroModuleEdit output)) (\<lambda>parsed.
      next' (require (me_ModulePath parsed = ''oracle.invalid/api-query-v1'' \<and>
          me_Go parsed = ''1.26.6'' \<and> length (me_Replace parsed) = 0) ''external go.mod structure'') (\<lambda>_.
      next' (digestAt (os_sha S) (os_fs S) root (af_Path (si_DependencyGraph input))) (\<lambda>digest.
      require (digest = ''0aee4c263acc2aa052bc56df4e169cf95f73557d00303212b064640ebd17ed31'')
        ''executed dependency graph identity'')))))))))"

definition validatePostgres :: "oracle_std \<Rightarrow> string \<Rightarrow> sharedInput \<Rightarrow> panic + unit" where
  "validatePostgres S root input =
     (let postgres = si_Postgres input in
      next' (require (pp_RepositoryDigest postgres =
            ''postgres@sha256:9a8afca54e7861fd90fab5fdf4c42477a6b1cb7d293595148e674e0a3181de15'' \<and>
          pp_ImageID postgres =
            ''sha256:9a8afca54e7861fd90fab5fdf4c42477a6b1cb7d293595148e674e0a3181de15'')
        ''PostgreSQL image identity'') (\<lambda>_.
      next' (validateArtifact (os_sha S) (os_fs S) root (pp_ImageInspect postgres)) (\<lambda>_.
      next' (validateArtifact (os_sha S) (os_fs S) root (pp_ContainerInspect postgres)) (\<lambda>_.
      next' (decodeAt (os_fs S) root (af_Path (pp_ImageInspect postgres))
        (dec_list dec_image zeroImage) []) (\<lambda>images.
      next' (require (case images of
          [img] \<Rightarrow> di_ID img = pp_ImageID postgres \<and>
            di_RepoDigests img = [pp_RepositoryDigest postgres] \<and>
            di_Architecture img = ''arm64'' \<and> di_OS img = ''linux''
        | _ \<Rightarrow> False) ''image inspect binding'') (\<lambda>_.
      next' (decodeAt (os_fs S) root (af_Path (pp_ContainerInspect postgres))
        (dec_list dec_container zeroContainer) []) (\<lambda>containers.
      next' (require (case containers of
          [container] \<Rightarrow> dc_ID container = pp_ContainerID postgres \<and>
            dc_Image container = pp_ImageID postgres \<and>
            dc_ConfigImage container = pp_RepositoryDigest postgres \<and>
            dc_Status container = ''running''
        | _ \<Rightarrow> False) ''container inspect binding'') (\<lambda>_.
      let container = hd containers in
      next' (require (equalStrings (dc_Env container)
          [''POSTGRES_PASSWORD=<redacted>'', ''POSTGRES_DB='' @ pp_Database postgres,
           ''POSTGRES_USER='' @ pp_User postgres]) ''container environment projection'') (\<lambda>_.
      next' (must (os_url S (pp_DSN postgres))) (\<lambda>parsed.
      next' (require (length (dc_Ports container) = 1) ''container port projection'') (\<lambda>_.
      let bindings = (case map_of (dc_Ports container) ''5432/tcp'' of None \<Rightarrow> [] | Some bs \<Rightarrow> bs);
          username = (case ur_User parsed of None \<Rightarrow> [] | Some (name, _) \<Rightarrow> name);
          password = (case ur_User parsed of None \<Rightarrow> None | Some (_, word) \<Rightarrow> word)
      in
      next' (require (case atoi (ur_Port parsed) of None \<Rightarrow> False | Some port \<Rightarrow> port > 0 \<and> port \<le> 65535)
        ''DSN port bound'') (\<lambda>_.
      require (ur_Scheme parsed = ''postgres'' \<and> ur_Hostname parsed = ''127.0.0.1'' \<and>
          bindings = [ur_Port parsed] \<and>
          ur_EscapedPath parsed = ''/'' @ pp_Database postgres \<and>
          username = pp_User postgres \<and> password = Some ''<redacted>'' \<and>
          ur_RawQuery parsed = ''sslmode=disable'' \<and> ur_Fragment parsed = [] \<and> ur_Opaque parsed = [])
        ''DSN container binding''))))))))))))"

section \<open>The package tests\<close>

text \<open>
  \<open>bufio.Scanner\<close>: the lines of a text, each without a carriage return at its end; a line that does
  not fit the buffer of 65536 bytes with its line feed stops the scan with an error.
\<close>

definition scan_lines :: "string \<Rightarrow> string list" where
  "scan_lines content =
     (let lines = split_on (CHR 0x0A) content in if last lines = [] then butlast lines else lines)"

definition drop_return :: "string \<Rightarrow> string" where
  "drop_return line = (if line \<noteq> [] \<and> last line = CHR 0x0D then butlast line else line)"

definition maxScanTokenSize :: nat where "maxScanTokenSize = 65536"

fun log_loop ::
  "(string \<Rightarrow> string option) \<Rightarrow> string \<Rightarrow> string list \<Rightarrow> bool \<Rightarrow> bool \<Rightarrow> panic + bool \<times> bool" where
  "log_loop num packageName [] packagePassed postgresPassed = Inr (packagePassed, postgresPassed)"
| "log_loop num packageName (line # lines) packagePassed postgresPassed =
     (if length line \<ge> maxScanTokenSize then Inl Failed
      else
        next' (must (Unmarshal (dec_event num) zeroEvent (drop_return line))) (\<lambda>event.
        let passed = te_Package event = packageName \<and> te_Action event = ''pass'';
            packagePassed = packagePassed \<or> (passed \<and> te_Test event = []);
            postgresPassed = postgresPassed \<or>
              (passed \<and> te_Test event = ''TestPostgresInjectionResistanceAndStableCursorOrder'')
        in log_loop num packageName lines packagePassed postgresPassed))"

definition validateTestLog ::
  "oracle_std \<Rightarrow> string \<Rightarrow> string \<Rightarrow> string \<Rightarrow> bool \<Rightarrow> panic + unit" where
  "validateTestLog S root packageName logPath requirePostgres =
     next' (localPath (os_fs S) root logPath) (\<lambda>path.
     next' (must (fs_content (os_fs S) path)) (\<lambda>content.
     next' (log_loop (os_num S) packageName (scan_lines content) False False)
       (\<lambda>(packagePassed, postgresPassed).
     require (packagePassed \<and> (\<not> requirePostgres \<or> postgresPassed))
       (''test log outcome '' @ packageName))))"

definition expectedPackages :: "string list" where
  "expectedPackages =
     modulePath # map (\<lambda>n. modulePath @ ''/'' @ n)
       [''apiqueryhttp'', ''apiqueryjsonapi'', ''apiquerypgx'', ''apiqueryrpc'', ''apiquerytest'',
        ''apiqueryvalidation'', ''cursor'', ''internal/strictjson'']"

definition expectedCheckpointPaths :: "string list" where
  "expectedCheckpointPaths = map (\<lambda>n. evidence (''checkpoints/'' @ n @ ''.json'')) package_names"

definition expectedLogPaths :: "string list" where
  "expectedLogPaths = map (\<lambda>n. evidence (''test-logs/'' @ n @ ''.jsonl'')) package_names"

definition fingerprint_payload :: "checkpoint \<Rightarrow> string" where
  "fingerprint_payload item =
     concat (map (\<lambda>line. line @ [CHR 0x0A])
       [''api-query-v1-package-test-fingerprint-v1'', ck_Package item, ck_Command item,
        ck_ExecutionRevision item, af_SHA256 (ck_SharedInput item)])"

definition checkpointSchema :: string where
  "checkpointSchema = ''api-query-v1-package-test-checkpoint-v1''"

definition fingerprintAlgorithm :: string where
  "fingerprintAlgorithm =
     ''sha256(lines:schema,package,command,execution_revision,shared_input_sha256)''"

definition testCommand :: "sharedInput \<Rightarrow> string \<Rightarrow> string" where
  "testCommand input package = cp_PackageTestPrefix (si_CommandContract input) @ '' '' @ package"

definition postgresPackage :: string where "postgresPackage = modulePath @ ''/apiquerypgx''"

text \<open>One round of the loop of \<open>validateCheckpoints\<close>, with the expected strings of its index.\<close>

definition validateCheckpoint ::
  "oracle_std \<Rightarrow> string \<Rightarrow> sharedInput \<Rightarrow> checkpointSummary \<times> string \<times> string \<times> string \<Rightarrow> panic + unit"
where
  "validateCheckpoint S root input = (\<lambda>(summary, package, checkpointPath, logPath).
     next' (require (cs_Package summary = package \<and> cs_Path summary = checkpointPath \<and>
         cs_Outcome summary = ''pass'') ''checkpoint summary order'') (\<lambda>_.
     next' (validateArtifact (os_sha S) (os_fs S) root
         \<lparr>af_Path = cs_Path summary, af_SHA256 = cs_SHA256 summary\<rparr>) (\<lambda>_.
     next' (decodeAt (os_fs S) root (cs_Path summary) dec_checkpoint zeroCheckpoint) (\<lambda>item.
     next' (require (ck_Schema item = checkpointSchema \<and>
         ck_Package item = cs_Package summary \<and> ck_Command item = cs_Command summary \<and>
         ck_ExecutionRevision item = releaseCommit \<and>
         af_Path (ck_SharedInput item) = sharedPath) ''checkpoint identity'') (\<lambda>_.
     next' (digestAt (os_sha S) (os_fs S) root sharedPath) (\<lambda>digest.
     next' (require (af_SHA256 (ck_SharedInput item) = digest) ''checkpoint identity'') (\<lambda>_.
     next' (require (ck_Algorithm item = fingerprintAlgorithm) ''fingerprint algorithm'') (\<lambda>_.
     next' (require (digestBytes (os_sha S) (fingerprint_payload item) = ck_Fingerprint item \<and>
         ck_Fingerprint item = cs_InputFingerprintSHA256 summary)
       ''recomputed package fingerprint'') (\<lambda>_.
     next' (require (ck_Command item = testCommand input (ck_Package item) \<and>
         ck_Outcome item = ''pass'') ''checkpoint result'') (\<lambda>_.
     next' (require (af_Path (ck_Log item) = logPath) ''checkpoint log path'') (\<lambda>_.
     next' (validateArtifact (os_sha S) (os_fs S) root (ck_Log item)) (\<lambda>_.
     validateTestLog S root (ck_Package item) (af_Path (ck_Log item))
       (ck_Package item = postgresPackage)))))))))))))"

fun checkpoint_loop ::
  "oracle_std \<Rightarrow> string \<Rightarrow> sharedInput \<Rightarrow>
   (checkpointSummary \<times> string \<times> string \<times> string) list \<Rightarrow> panic + unit" where
  "checkpoint_loop S root input [] = Inr ()"
| "checkpoint_loop S root input (entry # rest) =
     next' (validateCheckpoint S root input entry) (\<lambda>_. checkpoint_loop S root input rest)"

definition validateCheckpoints ::
  "oracle_std \<Rightarrow> string \<Rightarrow> sharedInput \<Rightarrow> package_tests \<Rightarrow> panic + unit" where
  "validateCheckpoints S root input tests =
     next' (require (length (pt_Checkpoints tests) \<le> maxCheckpointCount)
       ''checkpoint collection bound'') (\<lambda>_.
     next' (require (pt_Outcome tests = ''passed'' \<and> pt_PackageCount tests = 9 \<and>
         pt_Passed tests = 9 \<and> pt_Failed tests = 0 \<and> pt_PostgresIntegrationExecuted tests \<and>
         length (pt_Checkpoints tests) = 9) ''package aggregate'') (\<lambda>_.
     checkpoint_loop S root input
       (zip (pt_Checkpoints tests)
         (zip expectedPackages (zip expectedCheckpointPaths expectedLogPaths)))))"

end
