(* ===== verification/EvidenceMain.thy ===== *)
theory EvidenceMain
  imports EvidenceVerify
begin

text \<open>
  \<open>validateExecution\<close>, \<open>validateManifest\<close> and \<open>main\<close> of
  \<open>.verification/cohesion/api-query-v1-oracle/verify.go\<close>, and what an accepted packet shows.
\<close>

section \<open>validateExecution\<close>

definition validateExecution :: "oracle_std \<Rightarrow> string \<Rightarrow> manifest \<Rightarrow> panic + unit" where
  "validateExecution S root packet =
     (let artifact = validateArtifact (os_sha S) (os_fs S) root in
      next' (decodeAt (os_fs S) root (af_Path (ep_Input (mf_Execution packet))) dec_shared zeroShared)
        (\<lambda>input.
      let source = si_Source input; external = si_ExternalModule input;
          resolution = si_PublicResolution input; env = si_RawEnvironment input in
      next' (require (si_Schema input = ''api-query-v1-package-test-shared-input-v1'')
        ''shared input schema'') (\<lambda>_.
      next' (require (sp_Module source = modulePath \<and> sp_Version source = release \<and>
          sp_ModuleSum source = rp_ModuleSum (mf_Release packet) \<and>
          sp_GoModSum source = rp_GoModSum (mf_Release packet)) ''shared source identity'') (\<lambda>_.
      next' (localPath (os_fs S) root (evidence ''published-module.zip'')) (\<lambda>moduleZip.
      next' (digestFile (os_sha S) (os_fs S) moduleZip) (\<lambda>digest.
      next' (require (sp_ModuleZipSHA256 source = digest) ''published module zip'') (\<lambda>_.
      next' (case moduleZipSum (os_sha S) (os_order S) (os_zip S) (os_fs S) moduleZip of
          Inl _ \<Rightarrow> Inl Failed | Inr s \<Rightarrow> Inr s) (\<lambda>moduleSum.
      next' (require (moduleSum = sp_ModuleSum source) ''published module canonical checksum'') (\<lambda>_.
      next' (artifact (sp_DownloadReceipt source)) (\<lambda>_.
      next' (artifact (si_DependencyGraph input)) (\<lambda>_.
      next' (artifact (xp_GoMod external)) (\<lambda>_.
      next' (artifact (xp_GoSum external)) (\<lambda>_.
      next' (require (xp_ReplaceDirectives external = 0 \<and> xp_WorkspaceDirectives external = 0)
        ''external module isolation'') (\<lambda>_.
      next' (localPath (os_fs S) root (af_Path (xp_GoMod external))) (\<lambda>goModPath.
      next' (must (readBoundedFile (os_fs S) goModPath maxEvidenceBytes)) (\<lambda>goMod.
      next' (validateExternalModule S root input goMod) (\<lambda>_.
      next' (validateDownloadReceipt S root input) (\<lambda>_.
      next' (validateToolchain input) (\<lambda>_.
      next' (require (pr_Command resolution =
            ''go mod download -json github.com/faustbrian/go-api-query@v1.0.0'' \<and>
          pr_Outcome resolution = ''passed'') ''public module download command'') (\<lambda>_.
      next' (require (pr_GOPROXY resolution = ''https://proxy.golang.org'' \<and>
          pr_GOSUMDB resolution = ''sum.golang.org'' \<and> pr_GONOSUMDB resolution = [] \<and>
          pr_GOPRIVATE resolution = []) ''public module trust configuration'') (\<lambda>_.
      next' (require (ev_GOOS env = ''darwin'' \<and> ev_GOARCH env = ''arm64'' \<and> ev_CGOEnabled env = ''1'' \<and>
          ev_GOFLAGS env = [] \<and> ev_GOWORK env = ''off'') ''execution environment'') (\<lambda>_.
      next' (require (ev_GOCACHE env = ''task-owned-disposable'' \<and>
          ev_GOMODCACHE env = ''task-owned-disposable'' \<and> ev_GOTMPDIR env = ''task-owned-disposable'' \<and>
          ev_TMPDIR env = ''task-owned-disposable'') ''disposable environment'') (\<lambda>_.
      next' (validatePostgres S root input) (\<lambda>_.
      next' (require (cp_Oracle (si_CommandContract input) = ''go run ./harness.go ./input.json'' \<and>
          cp_PackageTestPrefix (si_CommandContract input) = ''go test -count=1 -json'')
        ''command contract'') (\<lambda>_.
      next' (decodeAt (os_fs S) root (af_Path (ep_Result (mf_Execution packet))) dec_result zeroResult)
        (\<lambda>result.
      let oracle = er_Oracle result in
      next' (require (er_Schema result = ''api-query-v1-oracle-execution-result-v2'')
        ''execution result schema'') (\<lambda>_.
      next' (require (er_SharedInput result = ep_Input (mf_Execution packet))
        ''execution input binding'') (\<lambda>_.
      next' (require (op_Command oracle = cp_Oracle (si_CommandContract input) \<and>
          op_Outcome oracle = ''passed'') ''oracle execution'') (\<lambda>_.
      next' (require (op_Source oracle =
          \<lparr>af_Path = evidence ''harness.go'', af_SHA256 = expectedHarnessSHA\<rparr>)
        ''oracle source identity'') (\<lambda>_.
      next' (require (op_Input oracle =
          \<lparr>af_Path = evidence ''input.json'', af_SHA256 = expectedInputSHA\<rparr>)
        ''oracle input identity'') (\<lambda>_.
      next' (require (op_Output oracle =
          \<lparr>af_Path = evidence ''output.json'', af_SHA256 = expectedOutputSHA\<rparr>)
        ''oracle output identity'') (\<lambda>_.
      next' (require (op_Contract oracle =
          \<lparr>af_Path = evidence ''output-contract.json'', af_SHA256 = expectedContractSHA\<rparr>)
        ''oracle contract identity'') (\<lambda>_.
      next' (artifact (op_Source oracle)) (\<lambda>_.
      next' (artifact (op_Input oracle)) (\<lambda>_.
      next' (artifact (op_Output oracle)) (\<lambda>_.
      next' (artifact (op_Contract oracle)) (\<lambda>_.
      next' (validateOutput (os_sha S) (os_num S) (os_fs S) root (op_Output oracle)
        (op_Contract oracle)) (\<lambda>_.
      validateCheckpoints S root input (er_PublishedPackageTests result)
      ))))))))))))))))))))))))))))))))))))))"

section \<open>validateManifest\<close>

definition expectedCoverage :: "string list" where
  "expectedCoverage =
     [''HTTP success, invalid classes, exact byte limit, and sentinel equality'',
      ''JSON:API family presence, callback order, nil and panic outcomes, and copy isolation'',
      ''PostgreSQL mapping copy, all operators, constraint precedence, fragments, arguments, and real outcomes'',
      ''JSON-RPC strict decode, bounds, empty and absent forms, request conversion, and nested descriptor copy'',
      ''Validation nil, structured and bounded generic errors, nested paths, and immutable returned values'',
      ''released source, API baseline, dependency, module graph, toolchain, and execution-input binding'',
      ''observed stateless execution, goroutine stability, file-descriptor stability, and no returned resource owners'']"

definition validateManifest :: "oracle_std \<Rightarrow> string \<Rightarrow> manifest \<Rightarrow> panic + unit" where
  "validateManifest S root packet =
     (let artifact = validateArtifact (os_sha S) (os_fs S) root;
          r = mf_Release packet; execution = mf_Execution packet in
      next' (require (mf_Schema packet = ''api-query-v1-oracle-manifest-v2'' \<and>
          mf_Module packet = modulePath) ''manifest identity'') (\<lambda>_.
      next' (require (length (mf_Artifacts packet) \<le> maxArtifactCount \<and>
          length (mf_Coverage packet) \<le> maxCoverageItems) ''manifest collection bounds'') (\<lambda>_.
      next' (require (mf_Decision packet =
          \<lparr>af_Path = evidence ''decision.md'',
           af_SHA256 = ''2b966f479b4953a2b3457c518110e5280f6a10ec267ae468eb472ed1bf08bca5''\<rparr>)
        ''decision identity'') (\<lambda>_.
      next' (artifact (mf_Decision packet)) (\<lambda>_.
      next' (require (mf_DecisionFreeze packet =
          \<lparr>af_Path = evidence ''decision-freeze.json'',
           af_SHA256 = ''500758defec6f4747e55469f380278fda3a27a8b1d8a7dbb84c7b0ec28ac9feb''\<rparr>)
        ''decision freeze identity'') (\<lambda>_.
      next' (artifact (mf_DecisionFreeze packet)) (\<lambda>_.
      next' (require (rp_Version r = release \<and> rp_TagKind r = ''annotated'') ''release identity'') (\<lambda>_.
      next' (require (rp_TagObject r = ''ba85d7bc2a4d18e5f3a1b224c1d342a84b4c9b20'' \<and>
          rp_PeeledCommit r = releaseCommit \<and>
          rp_Tree r = ''9a8c5f253649757afbf13f42b0c7c05171d8972a'') ''release objects'') (\<lambda>_.
      next' (validateReleaseObjects S root r) (\<lambda>_.
      next' (require (rp_ModuleSum r = ''h1:rXR1zo1cbIETTx5y+Rp+zyDp0fMWphYIz8gKTwEQETg='' \<and>
          rp_GoModSum r = ''h1:mPb20YI2uLgkJ8DGdfAYmWa1zSH+dZt6I9AP2P4Er2s='')
        ''release module sums'') (\<lambda>_.
      next' (require (rp_AllowedSigners r =
          \<lparr>af_Path = evidence ''release-allowed-signers'',
           af_SHA256 = ''333c9ce49cbc4f726189cc0d86adba997e3a8b36d80dca2e2d48cbcc91a83f96''\<rparr>)
        ''release signer identity'') (\<lambda>_.
      next' (artifact (rp_AllowedSigners r)) (\<lambda>_.
      next' (validateReleaseArtifact S root releaseCommit (rp_APIBaseline r)
        ''ec28983aeaa00eedbfa61d2a6c5eeb67fc6c3185'' 25021
        ''b8eac531590599de50da2ed042591db7edf07c6a438e900085aca53ed6354fc5'') (\<lambda>_.
      next' (require (length (rp_LegacySources r) = length expectedSources)
        ''legacy source cardinality'') (\<lambda>_.
      next' (sources_loop S root (rp_LegacySources r)) (\<lambda>_.
      next' (validateArtifactSet (os_sha S) (os_fs S) root (mf_Artifacts packet)) (\<lambda>_.
      next' (require (ep_Outcome execution = ''passed'' \<and> af_Path (ep_Input execution) = sharedPath)
        ''execution identity'') (\<lambda>_.
      next' (artifact (ep_Input execution)) (\<lambda>_.
      next' (artifact (ep_Result execution)) (\<lambda>_.
      next' (validateExecution S root packet) (\<lambda>_.
      require (equalStrings (mf_Coverage packet) expectedCoverage) ''coverage contract''
      )))))))))))))))))))))"

section \<open>main\<close>

definition Dir :: "string \<Rightarrow> string" where
  "Dir path = Clean (rev (dropWhile (\<lambda>c. c \<noteq> slash) (rev path)))"

definition Abs :: "string \<Rightarrow> string \<Rightarrow> string" where
  "Abs cwd path = (if IsAbs path then Clean path else Join [cwd, path])"

text \<open>
  The program with its arguments, the working directory and \<open>filepath.EvalSymlinks\<close>: what it prints,
  or a panic.
\<close>

definition verify_main ::
  "oracle_std \<Rightarrow> string \<Rightarrow> (string \<Rightarrow> string option) \<Rightarrow> string list \<Rightarrow> panic + string" where
  "verify_main S cwd eval args =
     next' (require (length args = 2) ''usage: verify MANIFEST'') (\<lambda>_.
     next' (must (eval (Abs cwd (args ! 1)))) (\<lambda>manifestPath.
     next' (must (eval (Clean (Join [Dir manifestPath, ''..'', ''..'', ''..''])))) (\<lambda>root.
     next' (gitOutput S root [''rev-parse'', ''--show-toplevel'']) (\<lambda>toplevel.
     next' (must (eval toplevel)) (\<lambda>repositoryTop.
     next' (require (repositoryTop = root) ''repository root identity'') (\<lambda>_.
     next' (localPath (os_fs S) root (evidence ''manifest.json'')) (\<lambda>canonical.
     next' (require (manifestPath = canonical) ''canonical manifest path'') (\<lambda>_.
     next' (case decodeClosedFile (os_fs S) manifestPath dec_manifest zeroManifest of
         Some (Some packet) \<Rightarrow> Inr packet | _ \<Rightarrow> Inl Failed) (\<lambda>packet.
     next' (validateManifest S root packet) (\<lambda>_.
     Inr (''api-query v1 oracle packet is valid'' @ [CHR 0x0A])))))))))))"

section \<open>Test logs\<close>

definition log_event :: "(string \<Rightarrow> string option) \<Rightarrow> string \<Rightarrow> test_event \<Rightarrow> bool" where
  "log_event num line event \<longleftrightarrow>
     length line < maxScanTokenSize \<and>
     Unmarshal (dec_event num) zeroEvent (drop_return line) = Some event"

definition passes :: "string \<Rightarrow> string \<Rightarrow> test_event \<Rightarrow> bool" where
  "passes package test' event \<longleftrightarrow>
     te_Package event = package \<and> te_Action event = ''pass'' \<and> te_Test event = test'"

definition injection_test :: string where
  "injection_test = ''TestPostgresInjectionResistanceAndStableCursorOrder''"

text \<open>What a log must show of a package.\<close>

definition log_shows :: "(string \<Rightarrow> string option) \<Rightarrow> string \<Rightarrow> string \<Rightarrow> bool" where
  "log_shows num package content \<longleftrightarrow>
     (\<exists>events. list_all2 (log_event num) (scan_lines content) events \<and>
        (\<exists>event \<in> set events. passes package [] event) \<and>
        (package = postgresPackage \<longrightarrow>
          (\<exists>event \<in> set events. passes package injection_test event)))"

lemma log_loop_Inr:
  "log_loop num package lines p q = Inr r \<longleftrightarrow>
     (\<exists>events. list_all2 (log_event num) lines events \<and>
        r = (p \<or> (\<exists>event \<in> set events. passes package [] event),
             q \<or> (\<exists>event \<in> set events. passes package injection_test event)))"
proof (induction lines arbitrary: p q)
  case Nil
  then show ?case by auto
next
  case (Cons line lines)
  have "log_loop num package (line # lines) p q = Inr r \<longleftrightarrow>
      (\<exists>event. log_event num line event \<and>
         log_loop num package lines (p \<or> passes package [] event)
           (q \<or> passes package injection_test event) = Inr r)"
    by (auto simp: next'_Inr Let_def log_event_def passes_def injection_test_def conj_assoc)
  also have "\<dots> \<longleftrightarrow> (\<exists>event events. log_event num line event \<and> list_all2 (log_event num) lines events \<and>
      r = (p \<or> (\<exists>e \<in> set (event # events). passes package [] e),
           q \<or> (\<exists>e \<in> set (event # events). passes package injection_test e)))"
    by (simp add: Cons.IH disj_assoc)
  also have "\<dots> \<longleftrightarrow> (\<exists>events. list_all2 (log_event num) (line # lines) events \<and>
      r = (p \<or> (\<exists>event \<in> set events. passes package [] event),
           q \<or> (\<exists>event \<in> set events. passes package injection_test event)))"
    unfolding list_all2_Cons1 by blast
  finally show ?case .
qed

text \<open>Every path that the code names is one of the expected paths, and made of plain names.\<close>

lemma expected_path:
  assumes "p \<in> set expectedPaths"
  shows "clean_parts False p = split_on slash p" and "split_on slash p \<noteq> []" and "\<not> IsAbs p"
    and "\<forall>q \<in> set (split_on slash p). plain_name q"
  using expectedPaths_plain assms split_on_parts [of _ slash p]
  by (auto simp: list_all_iff plain_name_def)

lemma packet_paths:
  "set expectedCheckpointPaths \<subseteq> set expectedPaths" "set expectedLogPaths \<subseteq> set expectedPaths"
  "sharedPath \<in> set expectedPaths"
  by (auto simp: expectedCheckpointPaths_def expectedLogPaths_def sharedPath_def expectedPaths_def)

text \<open>A file of the packet: below the root it is reached without symbolic links, and its content.\<close>

definition holds_file :: "file_system \<Rightarrow> string list \<Rightarrow> string \<Rightarrow> string \<Rightarrow> bool" where
  "holds_file fs rs path content \<longleftrightarrow>
     chain_ok fs rs (split_on slash path) \<and>
     fs_content fs (abs_path (rs @ split_on slash path)) = Some content"

lemma localPath_expected:
  assumes "\<forall>name \<in> set rs. plain_name name" and "p \<in> set expectedPaths"
  shows "localPath fs (abs_path rs) p = Inr path \<longleftrightarrow>
    chain_ok fs rs (split_on slash p) \<and> path = abs_path (rs @ split_on slash p)"
  using localPath_plain [OF assms(1)] expected_path [OF assms(2)] by metis

lemma validateArtifact_expected:
  assumes "\<forall>name \<in> set rs. plain_name name" and "af_Path item \<in> set expectedPaths"
  shows "validateArtifact sha fs (abs_path rs) item = Inr () \<longleftrightarrow>
    validDigest (af_SHA256 item) \<and>
    (\<exists>content. holds_file fs rs (af_Path item) content \<and> length content \<le> maxBinaryBytes \<and>
       hexEncode (sha content) = af_SHA256 item)"
  using validateArtifact_plain [OF assms(1), of item] expected_path [OF assms(2)]
  by (auto simp: artifact_holds_def holds_file_def)

lemma digestAt_expected:
  assumes "\<forall>name \<in> set rs. plain_name name" and "p \<in> set expectedPaths"
  shows "digestAt sha fs (abs_path rs) p = Inr d \<longleftrightarrow>
    (\<exists>content. holds_file fs rs p content \<and> length content \<le> maxBinaryBytes \<and> d = hexEncode (sha content))"
  by (auto simp: digestAt_def next'_Inr localPath_expected [OF assms] digestFile_Inr
      readBoundedFile_Some holds_file_def)

lemma decodeAt_expected:
  assumes "\<forall>name \<in> set rs. plain_name name" and "p \<in> set expectedPaths"
  shows "decodeAt fs (abs_path rs) p target zero = Inr x \<longleftrightarrow>
    (\<exists>content. holds_file fs rs p content \<and> length content \<le> maxEvidenceBytes \<and>
       decodeClosed target zero content = Some (Some x))"
proof -
  have "(case decodeClosedFile fs path target zero of Some (Some x) \<Rightarrow> Inr x | _ \<Rightarrow> Inl Failed) = Inr x \<longleftrightarrow>
      (\<exists>content. readBoundedFile fs path maxEvidenceBytes = Some content \<and>
         decodeClosed target zero content = Some (Some x))" for path
    by (auto simp: decodeClosedFile_def split: option.splits)
  then show ?thesis
    by (auto simp: decodeAt_def next'_Inr localPath_expected [OF assms] readBoundedFile_Some holds_file_def)
qed

lemma validateTestLog_expected:
  assumes "\<forall>name \<in> set rs. plain_name name" and "p \<in> set expectedPaths"
  shows "validateTestLog S (abs_path rs) package p (package = postgresPackage) = Inr () \<longleftrightarrow>
    (\<exists>content. holds_file (os_fs S) rs p content \<and> log_shows (os_num S) package content)"
proof -
  have "validateTestLog S (abs_path rs) package p required = Inr () \<longleftrightarrow>
      (\<exists>content events. holds_file (os_fs S) rs p content \<and>
         list_all2 (log_event (os_num S)) (scan_lines content) events \<and>
         (\<exists>event \<in> set events. passes package [] event) \<and>
         (required \<longrightarrow> (\<exists>event \<in> set events. passes package injection_test event)))" for required
  proof -
    have "validateTestLog S (abs_path rs) package p required = Inr () \<longleftrightarrow>
        (\<exists>content q. holds_file (os_fs S) rs p content \<and>
           log_loop (os_num S) package (scan_lines content) False False = Inr (True, q) \<and> (\<not> required \<or> q))"
      unfolding validateTestLog_def next'_Inr localPath_expected [OF assms] holds_file_def
      by (simp, metis (full_types))
    also have "\<dots> \<longleftrightarrow> (\<exists>content events. holds_file (os_fs S) rs p content \<and>
         list_all2 (log_event (os_num S)) (scan_lines content) events \<and>
         (\<exists>event \<in> set events. passes package [] event) \<and>
         (required \<longrightarrow> (\<exists>event \<in> set events. passes package injection_test event)))"
      by (simp add: log_loop_Inr) blast
    finally show ?thesis .
  qed
  from this [of "package = postgresPackage"] show ?thesis
    unfolding log_shows_def by (simp only: ex_simps)
qed

text \<open>
  The checkpoint that a package must have, given the digests of the shared input and of its log: the
  summary in the execution result and the document itself are determined by them.
\<close>

definition expectedCheckpoint ::
  "(string \<Rightarrow> string) \<Rightarrow> string \<Rightarrow> string \<Rightarrow> string \<Rightarrow> string \<Rightarrow> string \<Rightarrow> checkpoint" where
  "expectedCheckpoint sha command package sharedDigest logPath logDigest =
     (let fingerprint = (\<lambda>digest. \<lparr>ck_Schema = checkpointSchema,
        ck_Package = package, ck_Command = command, ck_ExecutionRevision = releaseCommit,
        ck_SharedInput = \<lparr>af_Path = sharedPath, af_SHA256 = sharedDigest\<rparr>,
        ck_Algorithm = fingerprintAlgorithm,
        ck_Fingerprint = digest, ck_Outcome = ''pass'',
        ck_Log = \<lparr>af_Path = logPath, af_SHA256 = logDigest\<rparr>\<rparr>)
      in fingerprint (hexEncode (sha (fingerprint_payload (fingerprint [])))))"

definition checkpoint_holds ::
  "oracle_std \<Rightarrow> string list \<Rightarrow> sharedInput \<Rightarrow> checkpointSummary \<times> string \<times> string \<times> string \<Rightarrow> bool"
where
  "checkpoint_holds S rs input = (\<lambda>(summary, package, checkpointPath, logPath).
     \<exists>shared log' document sharedDigest.
       holds_file (os_fs S) rs sharedPath shared \<and> length shared \<le> maxBinaryBytes \<and>
       holds_file (os_fs S) rs logPath log' \<and> length log' \<le> maxBinaryBytes \<and>
       holds_file (os_fs S) rs checkpointPath document \<and> length document \<le> maxEvidenceBytes \<and>
       sharedDigest = hexEncode (os_sha S shared) \<and>
       log_shows (os_num S) package log' \<and> validDigest (hexEncode (os_sha S log')) \<and>
       (let command = testCommand input package;
            item = expectedCheckpoint (os_sha S) command package sharedDigest logPath
              (hexEncode (os_sha S log'))
        in decodeClosed dec_checkpoint zeroCheckpoint document = Some (Some item) \<and>
           validDigest (hexEncode (os_sha S document)) \<and>
           summary = \<lparr>cs_Path = checkpointPath, cs_SHA256 = hexEncode (os_sha S document),
             cs_Package = package, cs_Command = command,
             cs_InputFingerprintSHA256 = ck_Fingerprint item, cs_Outcome = ''pass''\<rparr>))"

lemma holds_file_unique: "holds_file fs rs p c \<Longrightarrow> holds_file fs rs p d \<Longrightarrow> c = d"
  by (simp add: holds_file_def)

lemma expectedCheckpoint_simps [simp]:
  "ck_Package (expectedCheckpoint sha command package sharedDigest logPath logDigest) = package"
  "ck_Log (expectedCheckpoint sha command package sharedDigest logPath logDigest) =
     \<lparr>af_Path = logPath, af_SHA256 = logDigest\<rparr>"
  by (simp_all add: expectedCheckpoint_def Let_def)

lemma next'_require: "next' (require c l) f = Inr z \<longleftrightarrow> c \<and> f () = Inr z"
  by (simp add: next'_def require_def)

lemma next'_unit: "next' x f = Inr z \<longleftrightarrow> x = Inr () \<and> f () = Inr z" for x :: "panic + unit"
  by (simp add: next'_Inr)

lemma validateCheckpoint_run:
  "validateCheckpoint S root input (summary, package, checkpointPath, logPath) = Inr () \<longleftrightarrow>
    (cs_Package summary = package \<and> cs_Path summary = checkpointPath \<and> cs_Outcome summary = ''pass'') \<and>
    validateArtifact (os_sha S) (os_fs S) root
      \<lparr>af_Path = cs_Path summary, af_SHA256 = cs_SHA256 summary\<rparr> = Inr () \<and>
    (\<exists>item. decodeAt (os_fs S) root (cs_Path summary) dec_checkpoint zeroCheckpoint = Inr item \<and>
      (ck_Schema item = checkpointSchema \<and> ck_Package item = cs_Package summary \<and>
       ck_Command item = cs_Command summary \<and> ck_ExecutionRevision item = releaseCommit \<and>
       af_Path (ck_SharedInput item) = sharedPath) \<and>
      (\<exists>digest. digestAt (os_sha S) (os_fs S) root sharedPath = Inr digest \<and>
        af_SHA256 (ck_SharedInput item) = digest \<and>
        ck_Algorithm item = fingerprintAlgorithm \<and>
        (digestBytes (os_sha S) (fingerprint_payload item) = ck_Fingerprint item \<and>
         ck_Fingerprint item = cs_InputFingerprintSHA256 summary) \<and>
        (ck_Command item = testCommand input (ck_Package item) \<and> ck_Outcome item = ''pass'') \<and>
        af_Path (ck_Log item) = logPath \<and>
        validateArtifact (os_sha S) (os_fs S) root (ck_Log item) = Inr () \<and>
        validateTestLog S root (ck_Package item) (af_Path (ck_Log item))
          (ck_Package item = postgresPackage) = Inr ()))"
  by (simp only: validateCheckpoint_def prod.case next'_unit next'_Inr require_Inr)

text \<open>The comparisons of a checkpoint with its summary leave one document.\<close>

lemma validateCheckpoint_fields:
  "validateCheckpoint S root input (summary, package, checkpointPath, logPath) = Inr () \<longleftrightarrow>
    (\<exists>digest logDigest.
      let command = testCommand input package;
          item = expectedCheckpoint (os_sha S) command package digest logPath logDigest in
      summary = \<lparr>cs_Path = checkpointPath, cs_SHA256 = cs_SHA256 summary, cs_Package = package,
        cs_Command = command, cs_InputFingerprintSHA256 = ck_Fingerprint item, cs_Outcome = ''pass''\<rparr> \<and>
      validateArtifact (os_sha S) (os_fs S) root
        \<lparr>af_Path = checkpointPath, af_SHA256 = cs_SHA256 summary\<rparr> = Inr () \<and>
      decodeAt (os_fs S) root checkpointPath dec_checkpoint zeroCheckpoint = Inr item \<and>
      digestAt (os_sha S) (os_fs S) root sharedPath = Inr digest \<and>
      validateArtifact (os_sha S) (os_fs S) root \<lparr>af_Path = logPath, af_SHA256 = logDigest\<rparr> = Inr () \<and>
      validateTestLog S root package logPath (package = postgresPackage) = Inr ())"
  (is "?L \<longleftrightarrow> (\<exists>digest logDigest. ?R digest logDigest)")
proof
  assume ?L
  then obtain item digest where run:
    "cs_Package summary = package" "cs_Path summary = checkpointPath" "cs_Outcome summary = ''pass''"
    "validateArtifact (os_sha S) (os_fs S) root
        \<lparr>af_Path = checkpointPath, af_SHA256 = cs_SHA256 summary\<rparr> = Inr ()"
    "decodeAt (os_fs S) root checkpointPath dec_checkpoint zeroCheckpoint = Inr item"
    "ck_Schema item = checkpointSchema"
    "ck_Package item = package" "ck_Command item = cs_Command summary"
    "ck_ExecutionRevision item = releaseCommit" "af_Path (ck_SharedInput item) = sharedPath"
    "digestAt (os_sha S) (os_fs S) root sharedPath = Inr digest"
    "af_SHA256 (ck_SharedInput item) = digest"
    "ck_Algorithm item = fingerprintAlgorithm"
    "digestBytes (os_sha S) (fingerprint_payload item) = ck_Fingerprint item"
    "ck_Fingerprint item = cs_InputFingerprintSHA256 summary"
    "ck_Command item = testCommand input package"
    "ck_Outcome item = ''pass''" "af_Path (ck_Log item) = logPath"
    "validateArtifact (os_sha S) (os_fs S) root (ck_Log item) = Inr ()"
    "validateTestLog S root package logPath (package = postgresPackage) = Inr ()"
    unfolding validateCheckpoint_run by (elim exE conjE) (simp only:)
  have log': "ck_Log item = \<lparr>af_Path = logPath, af_SHA256 = af_SHA256 (ck_Log item)\<rparr>"
    "ck_SharedInput item = \<lparr>af_Path = sharedPath, af_SHA256 = digest\<rparr>"
    using run(10,12,18) by simp_all
  have item: "item = expectedCheckpoint (os_sha S)
      (testCommand input package) package digest logPath
      (af_SHA256 (ck_Log item))"
    using run(6,7,9,13,14,16,17) log'
    by (simp add: checkpoint.equality expectedCheckpoint_def fingerprint_payload_def digestBytes_def Let_def)
  moreover have "validateArtifact (os_sha S) (os_fs S) root
      \<lparr>af_Path = logPath, af_SHA256 = af_SHA256 (ck_Log item)\<rparr> = Inr ()"
    using run(19) by (simp only: log'(1) [symmetric])
  ultimately have "?R digest (af_SHA256 (ck_Log item))"
    using run(1-5,8,11,15,16,20) run(7)
    by (simp add: Let_def checkpointSummary.equality)
  then show "\<exists>digest logDigest. ?R digest logDigest" by blast
next
  assume "\<exists>digest logDigest. ?R digest logDigest"
  then obtain digest logDigest where R: "?R digest logDigest" by blast
  let ?item = "expectedCheckpoint (os_sha S) (testCommand input package) package digest logPath logDigest"
  have summary: "cs_Package summary = package" "cs_Path summary = checkpointPath"
    "cs_Outcome summary = ''pass''" "cs_Command summary = testCommand input package"
    "cs_InputFingerprintSHA256 summary = ck_Fingerprint ?item"
    using R by (metis (no_types, lifting) checkpointSummary.simps)+
  have item: "ck_Schema ?item = checkpointSchema" "ck_Command ?item = testCommand input package"
    "ck_ExecutionRevision ?item = releaseCommit" "af_Path (ck_SharedInput ?item) = sharedPath"
    "af_SHA256 (ck_SharedInput ?item) = digest" "ck_Algorithm ?item = fingerprintAlgorithm"
    "digestBytes (os_sha S) (fingerprint_payload ?item) = ck_Fingerprint ?item"
    "ck_Outcome ?item = ''pass''"
    by (simp_all add: expectedCheckpoint_def fingerprint_payload_def digestBytes_def Let_def)
  show ?L
    unfolding validateCheckpoint_run
    using R summary item by (intro conjI exI [of _ ?item] exI [of _ digest]) (simp_all add: Let_def)
qed

lemma validateCheckpoint_expected:
  assumes root: "\<forall>name \<in> set rs. plain_name name"
    and paths: "checkpointPath \<in> set expectedPaths" "logPath \<in> set expectedPaths"
  shows "validateCheckpoint S (abs_path rs) input (summary, package, checkpointPath, logPath) = Inr () \<longleftrightarrow>
    checkpoint_holds S rs input (summary, package, checkpointPath, logPath)"
proof
  note expected = digestAt_expected [OF root packet_paths(3)]
    decodeAt_expected [OF root paths(1)] validateTestLog_expected [OF root paths(2)]
    validateArtifact_expected [OF root, of "\<lparr>af_Path = checkpointPath, af_SHA256 = d\<rparr>" for d, simplified, OF paths(1)]
    validateArtifact_expected [OF root, of "\<lparr>af_Path = logPath, af_SHA256 = d\<rparr>" for d, simplified, OF paths(2)]
  {
    assume "validateCheckpoint S (abs_path rs) input (summary, package, checkpointPath, logPath) = Inr ()"
    then obtain digest logDigest where run: "let command = testCommand input package;
          item = expectedCheckpoint (os_sha S) command package digest logPath logDigest in
      summary = \<lparr>cs_Path = checkpointPath, cs_SHA256 = cs_SHA256 summary, cs_Package = package,
        cs_Command = command, cs_InputFingerprintSHA256 = ck_Fingerprint item, cs_Outcome = ''pass''\<rparr> \<and>
      validDigest (cs_SHA256 summary) \<and>
      (\<exists>content. holds_file (os_fs S) rs checkpointPath content \<and> length content \<le> maxBinaryBytes \<and>
        hexEncode (os_sha S content) = cs_SHA256 summary) \<and>
      (\<exists>content. holds_file (os_fs S) rs checkpointPath content \<and> length content \<le> maxEvidenceBytes \<and>
        decodeClosed dec_checkpoint zeroCheckpoint content = Some (Some item)) \<and>
      (\<exists>content. holds_file (os_fs S) rs sharedPath content \<and> length content \<le> maxBinaryBytes \<and>
        digest = hexEncode (os_sha S content)) \<and>
      validDigest logDigest \<and>
      (\<exists>content. holds_file (os_fs S) rs logPath content \<and> length content \<le> maxBinaryBytes \<and>
        hexEncode (os_sha S content) = logDigest) \<and>
      (\<exists>content. holds_file (os_fs S) rs logPath content \<and> log_shows (os_num S) package content)"
      unfolding validateCheckpoint_fields expected by (auto simp: Let_def)
    then show "checkpoint_holds S rs input (summary, package, checkpointPath, logPath)"
      unfolding checkpoint_holds_def prod.case Let_def by (metis holds_file_unique)
  }
  assume "checkpoint_holds S rs input (summary, package, checkpointPath, logPath)"
  then obtain shared log' document where run:
    "holds_file (os_fs S) rs sharedPath shared" "length shared \<le> maxBinaryBytes"
    "holds_file (os_fs S) rs logPath log'" "length log' \<le> maxBinaryBytes"
    "holds_file (os_fs S) rs checkpointPath document" "length document \<le> maxEvidenceBytes"
    "log_shows (os_num S) package log'" "validDigest (hexEncode (os_sha S log'))"
    "let command = testCommand input package;
         item = expectedCheckpoint (os_sha S) command package (hexEncode (os_sha S shared)) logPath
           (hexEncode (os_sha S log'))
     in decodeClosed dec_checkpoint zeroCheckpoint document = Some (Some item) \<and>
        validDigest (hexEncode (os_sha S document)) \<and>
        summary = \<lparr>cs_Path = checkpointPath, cs_SHA256 = hexEncode (os_sha S document),
          cs_Package = package, cs_Command = command,
          cs_InputFingerprintSHA256 = ck_Fingerprint item, cs_Outcome = ''pass''\<rparr>"
    unfolding checkpoint_holds_def prod.case by (auto simp: Let_def)
  have "length document \<le> maxBinaryBytes" using run(6) by (simp add: maxBinaryBytes_def maxEvidenceBytes_def)
  then show "validateCheckpoint S (abs_path rs) input (summary, package, checkpointPath, logPath) = Inr ()"
    unfolding validateCheckpoint_fields expected
    using run by (intro exI [of _ "hexEncode (os_sha S shared)"] exI [of _ "hexEncode (os_sha S log')"])
      (auto simp: Let_def)
qed

lemma checkpoint_loop_Inr:
  "checkpoint_loop S root input entries = Inr () \<longleftrightarrow>
     (\<forall>entry \<in> set entries. validateCheckpoint S root input entry = Inr ())"
  by (induction entries) (simp_all add: next'_unit)

text \<open>
  So the package tests are accepted exactly when there are nine summaries that report a pass, and for
  each package in its turn the checkpoint and the log hold what they must.
\<close>

lemma validateCheckpoints_Inr:
  assumes root: "\<forall>name \<in> set rs. plain_name name"
  shows "validateCheckpoints S (abs_path rs) input tests = Inr () \<longleftrightarrow>
    tests = \<lparr>pt_Outcome = ''passed'', pt_PackageCount = 9, pt_Passed = 9, pt_Failed = 0,
      pt_PostgresIntegrationExecuted = True, pt_Checkpoints = pt_Checkpoints tests\<rparr> \<and>
    list_all2 (\<lambda>summary expected. checkpoint_holds S rs input (summary, expected))
      (pt_Checkpoints tests) (zip expectedPackages (zip expectedCheckpointPaths expectedLogPaths))"
proof -
  let ?expected = "zip expectedPackages (zip expectedCheckpointPaths expectedLogPaths)"
  have len: "length ?expected = 9"
    by (simp add: expectedPackages_def expectedCheckpointPaths_def expectedLogPaths_def package_names_def)
  have each: "validateCheckpoint S (abs_path rs) input (summary, expected) = Inr () \<longleftrightarrow>
      checkpoint_holds S rs input (summary, expected)" if "expected \<in> set ?expected" for summary expected
  proof -
    obtain package checkpointPath logPath where "expected = (package, checkpointPath, logPath)"
      by (cases expected)
    moreover from this that have "(checkpointPath, logPath) \<in> set (zip expectedCheckpointPaths expectedLogPaths)"
      by (auto dest: set_zip_rightD)
    then have "checkpointPath \<in> set expectedPaths" "logPath \<in> set expectedPaths"
      using packet_paths by (auto dest: set_zip_leftD set_zip_rightD)
    ultimately show ?thesis using validateCheckpoint_expected [OF root] by simp
  qed
  have "checkpoint_loop S (abs_path rs) input (zip summaries ?expected) = Inr () \<longleftrightarrow>
      list_all2 (\<lambda>summary expected. checkpoint_holds S rs input (summary, expected)) summaries ?expected"
    if "length summaries = 9" for summaries
  proof -
    have "validateCheckpoint S (abs_path rs) input entry = Inr () \<longleftrightarrow> checkpoint_holds S rs input entry"
      if "entry \<in> set (zip summaries ?expected)" for entry
      using each [of "snd entry" "fst entry"] that by (cases entry) (auto dest: set_zip_rightD)
    then show ?thesis
      unfolding checkpoint_loop_Inr list_all2_iff len by (simp add: that case_prod_unfold)
  qed
  moreover have "validateCheckpoints S (abs_path rs) input tests = Inr () \<longleftrightarrow>
      (pt_Outcome tests = ''passed'' \<and> pt_PackageCount tests = 9 \<and> pt_Passed tests = 9 \<and>
       pt_Failed tests = 0 \<and> pt_PostgresIntegrationExecuted tests) \<and>
      length (pt_Checkpoints tests) = 9 \<and>
      checkpoint_loop S (abs_path rs) input (zip (pt_Checkpoints tests) ?expected) = Inr ()"
    by (auto simp: validateCheckpoints_def next'_unit maxCheckpointCount_def)
  moreover have "tests = \<lparr>pt_Outcome = ''passed'', pt_PackageCount = 9, pt_Passed = 9, pt_Failed = 0,
      pt_PostgresIntegrationExecuted = True, pt_Checkpoints = pt_Checkpoints tests\<rparr> \<longleftrightarrow>
      pt_Outcome tests = ''passed'' \<and> pt_PackageCount tests = 9 \<and> pt_Passed tests = 9 \<and>
      pt_Failed tests = 0 \<and> pt_PostgresIntegrationExecuted tests"
    by (cases tests) auto
  ultimately show ?thesis using len by (metis list_all2_lengthD)
qed

end
