(* ===== verification/EvidenceSample.thy ===== *)
theory EvidenceSample
  imports EvidenceMain
begin

text \<open>
  Checkpoints and test logs as the tools write them, which the verifier reads back, and a packet of
  nine of them for the applications of the properties.
\<close>

section \<open>Documents\<close>

definition artifact_json :: "artifact \<Rightarrow> json" where
  "artifact_json item = JObj [(''path'', JStr (af_Path item)), (''sha256'', JStr (af_SHA256 item))]"

definition checkpoint_json :: "checkpoint \<Rightarrow> json" where
  "checkpoint_json item =
     JObj [(''schema'', JStr (ck_Schema item)), (''package'', JStr (ck_Package item)),
       (''command'', JStr (ck_Command item)), (''execution_revision'', JStr (ck_ExecutionRevision item)),
       (''shared_input'', artifact_json (ck_SharedInput item)),
       (''input_fingerprint'', JObj [(''algorithm'', JStr (ck_Algorithm item)),
          (''sha256'', JStr (ck_Fingerprint item))]),
       (''result'', JObj [(''outcome'', JStr (ck_Outcome item)),
          (''log'', artifact_json (ck_Log item))])]"

definition event_json :: "string \<Rightarrow> string \<Rightarrow> json" where
  "event_json package test' =
     JObj [(''Action'', JStr ''pass''), (''Package'', JStr package), (''Test'', JStr test')]"

definition ascii_text :: "string \<Rightarrow> bool" where
  "ascii_text s \<longleftrightarrow> list_all (\<lambda>c. byte c < 128) s"

lemma ascii_text_clean: "ascii_text s \<Longrightarrow> sanitize s = s"
  by (rule sanitize_valid, rule valid_utf8_ascii) (simp add: ascii_text_def list_all_iff)

lemma escape_ascii_small: "length (escape_ascii c) \<le> 6 \<and> CHR 0x0A \<notin> set (escape_ascii c)"
proof -
  have "48 \<le> byte (hex_char n)" if "n < 16" for n
    using that by (simp add: hex_char_def byte_char_of)
  moreover have "byte (CHR 0x0A) = 10" by (simp add: byte_def)
  ultimately have "hex_char n \<noteq> CHR 0x0A" if "n < 16" for n
    using that by fastforce
  then have "hex_char (byte c div 16) \<noteq> CHR 0x0A" "hex_char (byte c mod 16) \<noteq> CHR 0x0A"
    using byte_hex [of c] by blast+
  then show ?thesis by (auto simp: escape_ascii_def)
qed

lemma quote_small:
  "ascii_text s \<Longrightarrow> length (quote_body s) \<le> 6 * length s \<and> CHR 0x0A \<notin> set (quote_body s)"
proof (induction s)
  case (Cons c s)
  then show ?case
    using escape_ascii_small [of c] by (auto simp: ascii_text_def quote_with.simps(2))
qed simp

lemma dec_artifact_json: "dec_artifact (artifact_json item) old = Some item"
  by (simp add: dec_artifact_def dec_fields_def dec_struct_def artifact_json_def match_exact into_def)

lemma dec_checkpoint_json: "dec_checkpoint (checkpoint_json item) zeroCheckpoint = Some item"
  by (simp add: dec_checkpoint_def dec_fields_def dec_struct_def checkpoint_json_def match_exact into_def
      dec_fingerprint_def dec_test_result_def dec_artifact_json zeroCheckpoint_def)

definition checkpoint_texts :: "checkpoint \<Rightarrow> string list" where
  "checkpoint_texts item =
     [ck_Schema item, ck_Package item, ck_Command item, ck_ExecutionRevision item,
      af_Path (ck_SharedInput item), af_SHA256 (ck_SharedInput item), ck_Algorithm item,
      ck_Fingerprint item, ck_Outcome item, af_Path (ck_Log item), af_SHA256 (ck_Log item)]"

definition checkpoint_keys :: "string list" where
  "checkpoint_keys = [''schema'', ''package'', ''command'', ''execution_revision'', ''shared_input'',
     ''input_fingerprint'', ''result'', ''path'', ''sha256'', ''algorithm'', ''outcome'', ''log'']"

lemma checkpoint_document:
  assumes "\<forall>s \<in> set (checkpoint_texts item). ascii_text s \<and> length s \<le> 200"
  shows "decodeClosed dec_checkpoint zeroCheckpoint (render (checkpoint_json item)) = Some (Some item)"
    and "length (render (checkpoint_json item)) \<le> maxEvidenceBytes"
proof -
  have keys: "sanitize k = k" if "k \<in> set checkpoint_keys" for k
    by (rule ascii_text_clean) (use that in \<open>auto simp: checkpoint_keys_def ascii_text_def byte_def\<close>)
  have clean: "clean_json (checkpoint_json item) = checkpoint_json item"
    using assms by (simp add: checkpoint_json_def artifact_json_def checkpoint_texts_def ascii_text_clean
        keys [unfolded checkpoint_keys_def])
  have "numbers_ok (checkpoint_json item)" "nesting (checkpoint_json item) \<le> maxNesting"
    "unique_names (checkpoint_json item)" "json_depth (checkpoint_json item) \<le> Suc maxJSONDepth"
    by (simp_all add: checkpoint_json_def artifact_json_def token_ok_def maxNesting_def maxJSONDepth_def)
  then show "decodeClosed dec_checkpoint zeroCheckpoint (render (checkpoint_json item)) = Some (Some item)"
    using json_parse_render [of "checkpoint_json item"] clean
    by (simp add: decodeClosed_result dec_checkpoint_json)
  have "length (quote_body s) \<le> 1298" if "ascii_text s \<and> length s \<le> 200" for s
    using quote_small [of s] that by simp
  moreover have "ascii_text k \<and> length k \<le> 200" if "k \<in> set checkpoint_keys" for k
    using that by (auto simp: checkpoint_keys_def ascii_text_def byte_def)
  ultimately have small: "length (quote_body s) \<le> 1298"
    if "s \<in> set (checkpoint_texts item @ checkpoint_keys)" for s
    using assms that by auto
  then have "\<forall>t \<in> set (tokens_of (checkpoint_json item)). length (token_text t) \<le> 1300"
    by (simp add: checkpoint_json_def artifact_json_def checkpoint_texts_def checkpoint_keys_def member_tokens_def)
  then have "length (concat (map token_text ts)) \<le> 1300 * length ts"
    if "set ts \<subseteq> set (tokens_of (checkpoint_json item))" for ts
    using that by (induction ts) auto
  from this [OF subset_refl] show "length (render (checkpoint_json item)) \<le> maxEvidenceBytes"
    by (simp add: render_def maxEvidenceBytes_def)
      (simp add: checkpoint_json_def artifact_json_def member_tokens_def)
qed

text \<open>The log of a package: that the package passed, and that the injection test did.\<close>

definition log_text :: "string \<Rightarrow> string" where
  "log_text package =
     concat (map (\<lambda>test'. render (event_json package test') @ [CHR 0x0A]) [[], injection_test])"

lemma drop_return_brace: "drop_return (s @ ''}'') = s @ ''}''"
  by (simp add: drop_return_def)

lemma event_document:
  assumes "ascii_text package" and "ascii_text test'" and "length package \<le> 200" and "length test' \<le> 200"
  shows "log_event num (render (event_json package test'))
      (zeroEvent\<lparr>te_Action := ''pass'', te_Package := package, te_Test := test'\<rparr>)"
    and "CHR 0x0A \<notin> set (render (event_json package test'))"
proof -
  have keys: "ascii_text k \<and> length k \<le> 200" if "k \<in> set [''Action'', ''Package'', ''Test'', ''pass'']" for k
    using that by (auto simp: ascii_text_def byte_def)
  have clean: "clean_json (event_json package test') = event_json package test'"
    using assms keys by (simp add: event_json_def ascii_text_clean)
  have "numbers_ok (event_json package test')" "nesting (event_json package test') \<le> maxNesting"
    by (simp_all add: event_json_def token_ok_def maxNesting_def)
  then have parse: "json_parse (render (event_json package test')) = Some (event_json package test')"
    using json_parse_render clean by simp
  have "length (quote_body s) \<le> 1200 \<and> CHR 0x0A \<notin> set (quote_body s)"
    if "s \<in> set [''Action'', ''Package'', ''Test'', ''pass'', package, test']" for s
    using that keys [of s] assms quote_small [of s] by fastforce
  then have quote: "\<forall>s \<in> set [''Action'', ''Package'', ''Test'', ''pass'', package, test'].
      length (quote_body s) \<le> 1200 \<and> CHR 0x0A \<notin> set (quote_body s)"
    by blast
  have text': "render (event_json package test') =
      butlast (render (event_json package test')) @ ''}''"
    by (simp add: render_def event_json_def member_tokens_def butlast_append)
  then have "drop_return (render (event_json package test')) = render (event_json package test')"
    by (metis drop_return_brace)
  moreover have "length (render (event_json package test')) < maxScanTokenSize"
    using quote by (simp add: render_def event_json_def member_tokens_def maxScanTokenSize_def)
  moreover have "dec_event num (event_json package test') zeroEvent =
      Some (zeroEvent\<lparr>te_Action := ''pass'', te_Package := package, te_Test := test'\<rparr>)"
    by (simp add: dec_event_def dec_fields_def dec_struct_def event_json_def match_exact into_def)
  ultimately show "log_event num (render (event_json package test'))
      (zeroEvent\<lparr>te_Action := ''pass'', te_Package := package, te_Test := test'\<rparr>)"
    by (simp add: log_event_def Unmarshal_def parse)
  show "CHR 0x0A \<notin> set (render (event_json package test'))"
    using quote by (simp add: render_def event_json_def member_tokens_def)
qed

lemma log_text_shows:
  assumes "ascii_text package" and "length package \<le> 200"
  shows "log_shows num package (log_text package)"
proof -
  have test': "ascii_text injection_test" "length injection_test \<le> 200" "ascii_text []"
    by (simp_all add: injection_test_def ascii_text_def byte_def)
  note first = event_document [OF assms(1) test'(3) assms(2), simplified]
  note second = event_document [OF assms(1) test'(1) assms(2) test'(2)]
  have "log_text package =
      join_with [CHR 0x0A] [render (event_json package []), render (event_json package injection_test), []]"
    by (simp add: log_text_def)
  moreover have "split_on (CHR 0x0A) (join_with [CHR 0x0A]
        [render (event_json package []), render (event_json package injection_test), []]) =
      [render (event_json package []), render (event_json package injection_test), []]"
    by (rule split_join) (use first(2) second(2) in auto)
  ultimately have "scan_lines (log_text package) =
      [render (event_json package []), render (event_json package injection_test)]"
    by (simp add: scan_lines_def)
  with first(1) second(1) show ?thesis
    unfolding log_shows_def
    by (intro exI [of _ "[zeroEvent\<lparr>te_Action := ''pass'', te_Package := package, te_Test := []\<rparr>,
        zeroEvent\<lparr>te_Action := ''pass'', te_Package := package, te_Test := injection_test\<rparr>]"])
      (simp add: passes_def)
qed

lemma log_text_length:
  assumes "ascii_text package" and "length package \<le> 200"
  shows "length (log_text package) \<le> 2 * maxScanTokenSize"
proof -
  have test': "ascii_text injection_test" "length injection_test \<le> 200" "ascii_text []"
    by (simp_all add: injection_test_def ascii_text_def byte_def)
  note first = event_document(1) [OF assms(1) test'(3) assms(2), simplified, of Some]
  note second = event_document(1) [OF assms(1) test'(1) assms(2) test'(2), of Some]
  from first second show ?thesis by (simp add: log_text_def log_event_def)
qed

text \<open>An output of the oracle: a record of each name, with the value \<open>null\<close>.\<close>

definition output_json :: "string list \<Rightarrow> json" where
  "output_json names =
     JObj [(''schema'', JStr outputSchema),
       (''records'', JArr (map (\<lambda>n. JObj [(''name'', JStr n), (''value'', JNull)]) names))]"

definition null_output :: "string list \<Rightarrow> oracleOutput" where
  "null_output names =
     \<lparr>oo_Schema = outputSchema, oo_Records = map (\<lambda>n. \<lparr>or_Name = n, or_Value = Some JNull\<rparr>) names\<rparr>"

lemma join_with_bound:
  "\<forall>p \<in> set ps. length p \<le> k \<Longrightarrow> length (join_with [c] ps) \<le> (k + 1) * length ps"
  by (induction "[c]" ps rule: join_with.induct) auto

lemma set_join: "set (join_with [c] ps) \<subseteq> insert c (\<Union>(set ` set ps))"
  by (induction "[c]" ps rule: join_with.induct) auto

lemma length_concat_bound:
  "\<forall>t \<in> set ts. length (f t) \<le> k \<Longrightarrow> length (concat (map f ts)) \<le> k * length ts"
  by (induction ts) auto

lemma dec_output_json: "dec_output (output_json names) zeroOutput = Some (null_output names)"
proof -
  have "dec_struct True [''name'', ''value''] output_record_field
      (JObj [(''name'', JStr n), (''value'', JNull)]) \<lparr>or_Name = [], or_Value = None\<rparr> =
      Some \<lparr>or_Name = n, or_Value = Some JNull\<rparr>" for n
    by (simp add: dec_struct_def match_exact output_record_field_def)
  then have "those (map (\<lambda>v. dec_struct True [''name'', ''value''] output_record_field v
      \<lparr>or_Name = [], or_Value = None\<rparr>) (map (\<lambda>n. JObj [(''name'', JStr n), (''value'', JNull)]) names)) =
      Some (map (\<lambda>n. \<lparr>or_Name = n, or_Value = Some JNull\<rparr>) names)"
    by (induction names) simp_all
  then show ?thesis
    by (simp add: dec_output_def dec_struct_def output_json_def match_exact output_field_def
        dec_list_def zeroOutput_def null_output_def comp_def)
qed

lemma output_document:
  assumes "\<forall>n \<in> set names. ascii_text n \<and> length n \<le> 200" and "length names \<le> 256"
  shows "decodeOutput (render (output_json names)) = Inr (null_output names)"
    and "length (render (output_json names)) \<le> maximumOutputBytes"
proof -
  let ?doc = "\<lambda>n. JObj [(''name'', JStr n), (''value'', JNull)]"
  have texts: "ascii_text k \<and> length k \<le> 200"
    if "k \<in> set [''schema'', ''records'', ''name'', ''value'', outputSchema]" for k
    using that by (auto simp: ascii_text_def byte_def outputSchema_def)
  have clean: "clean_json (output_json names) = output_json names"
    using assms(1) texts by (simp add: output_json_def ascii_text_clean)
  have fold: "fold max (map (\<lambda>_. k) xs) k' \<le> max k k'" for k k' :: nat and xs :: "'x list"
    by (induction xs arbitrary: k') (simp_all, metis max.left_idem)
  have "numbers_ok (output_json names)" by (auto simp: output_json_def token_ok_def)
  moreover have "nesting (output_json names) \<le> maxNesting"
    using fold [of 1 names 0] by (simp add: output_json_def maxNesting_def comp_def)
  ultimately have "json_parse (render (output_json names)) = Some (output_json names)"
    using json_parse_render clean by simp
  from decode_top [OF this, of dec_output zeroOutput]
  show "decodeOutput (render (output_json names)) = Inr (null_output names)"
    by (auto simp: decodeOutput_def dec_output_json)
  have quote: "length (quote_body s) \<le> 1200" if "ascii_text s \<and> length s \<le> 200" for s
    using quote_small [of s] that by simp
  have quotes: "length (quote_body k) \<le> 1200"
    if "k \<in> set ([''schema'', ''records'', ''name'', ''value'', outputSchema] @ names)" for k
    using quote texts assms(1) that by auto
  then have keys: "length (quote_body ''schema'') \<le> 1200" "length (quote_body ''records'') \<le> 1200"
    "length (quote_body ''name'') \<le> 1200" "length (quote_body ''value'') \<le> 1200"
    "length (quote_body outputSchema) \<le> 1200"
    by simp_all
  have "length (quote_body n) \<le> 1200" if "n \<in> set names" for n
    using quotes that by simp
  then have "\<forall>t \<in> set (tokens_of (?doc n)). length (token_text t) \<le> 1300" if "n \<in> set names" for n
    using keys that by (fastforce simp: member_tokens_def)
  then have "\<forall>t \<in> set (array_tokens (map ?doc names)). length (token_text t) \<le> 1300"
    using set_join [of TComma "map tokens_of (map ?doc names)"] by fastforce
  then have "\<forall>t \<in> set (tokens_of (output_json names)). length (token_text t) \<le> 1300"
    using keys by (simp add: output_json_def member_tokens_def)
  then have bound: "length (render (output_json names)) \<le> 1300 * length (tokens_of (output_json names))"
    unfolding render_def by (rule length_concat_bound)
  have "length (array_tokens (map ?doc names)) \<le> (9 + 1) * length (map tokens_of (map ?doc names))"
    by (rule join_with_bound) (simp add: member_tokens_def)
  then have "length (tokens_of (output_json names)) \<le> 2600"
    using assms(2) by (simp add: output_json_def member_tokens_def)
  then show "length (render (output_json names)) \<le> maximumOutputBytes"
    using bound by (simp add: maximumOutputBytes_def)
qed

end
