(* ===== verification/EvidenceProperties.thy ===== *)
theory EvidenceProperties
  imports ReleaseProperties EvidenceSample
begin

text \<open>
  The properties of the oracle evidence packet: which test results are accepted, that the output
  contract of the generator is the one the verifier accepts, and what the checksum of the module zip
  says of its entries.
\<close>

section \<open>Package tests\<close>

text \<open>
  C36: \<open>validateCheckpoints\<close> accepts the test results of a packet exactly when they
  report nine passed packages with the database test executed, and for each package in its turn the
  three files are reached below the root without symbolic links: the checkpoint is the JSON document
  of the one expected record, bound to the package, its command, the released commit and the bytes of
  the shared input by a recomputed fingerprint, and the test log is a list of JSON lines with the pass
  of the package (and, for the PostgreSQL adapter, the pass of its injection test), each with the
  digest that pins it.
\<close>

theorem Evidence_tests:
  assumes "\<forall>name \<in> set rs. plain_name name"
  shows "validateCheckpoints S (abs_path rs) input tests = Inr () \<longleftrightarrow>
    tests = \<lparr>pt_Outcome = ''passed'', pt_PackageCount = 9, pt_Passed = 9, pt_Failed = 0,
      pt_PostgresIntegrationExecuted = True, pt_Checkpoints = pt_Checkpoints tests\<rparr> \<and>
    list_all2
      (\<lambda>summary (package, checkpointPath, logPath).
        \<exists>shared log' document item.
          holds_file (os_fs S) rs sharedPath shared \<and> length shared \<le> 128 * 2 ^ 20 \<and>
          holds_file (os_fs S) rs logPath log' \<and> length log' \<le> 128 * 2 ^ 20 \<and>
          holds_file (os_fs S) rs checkpointPath document \<and> length document \<le> 8 * 2 ^ 20 \<and>
          item = expectedCheckpoint (os_sha S) (testCommand input package) package
            (hexEncode (os_sha S shared)) logPath (hexEncode (os_sha S log')) \<and>
          decodeClosed dec_checkpoint zeroCheckpoint document = Some (Some item) \<and>
          validDigest (hexEncode (os_sha S document)) \<and> validDigest (hexEncode (os_sha S log')) \<and>
          log_shows (os_num S) package log' \<and>
          summary = \<lparr>cs_Path = checkpointPath, cs_SHA256 = hexEncode (os_sha S document),
            cs_Package = package, cs_Command = testCommand input package,
            cs_InputFingerprintSHA256 = ck_Fingerprint item, cs_Outcome = ''pass''\<rparr>)
      (pt_Checkpoints tests) (zip expectedPackages (zip expectedCheckpointPaths expectedLogPaths))"
  (is "_ \<longleftrightarrow> ?counts \<and> list_all2 ?holds _ _")
proof -
  have "checkpoint_holds S rs input (summary, expected) \<longleftrightarrow> ?holds summary expected" for summary expected
    by (cases expected)
      (simp add: checkpoint_holds_def maxBinaryBytes_def maxEvidenceBytes_def Let_def, blast)
  then show ?thesis using validateCheckpoints_Inr [OF assms] by simp
qed

text \<open>A packet of nine packages that passed, under a digest that is the same for all texts.\<close>

definition sampleSHA :: "string \<Rightarrow> string" where
  "sampleSHA = (\<lambda>_. replicate 32 (CHR ''a''))"

definition sampleShared :: sharedInput where
  "sampleShared =
     zeroShared\<lparr>si_CommandContract := \<lparr>cp_Oracle = [], cp_PackageTestPrefix = ''go test''\<rparr>\<rparr>"

definition sampleCheckpoint :: "string \<Rightarrow> string \<Rightarrow> checkpoint" where
  "sampleCheckpoint package logPath =
     expectedCheckpoint sampleSHA (testCommand sampleShared package) package
       (hexEncode (sampleSHA [])) logPath (hexEncode (sampleSHA []))"

definition sampleTable :: "(string \<times> string) list" where
  "sampleTable =
     zip (map (\<lambda>n. n @ ''.json'') package_names)
       (map (\<lambda>(package, logPath). render (checkpoint_json (sampleCheckpoint package logPath)))
         (zip expectedPackages expectedLogPaths)) @
     zip (map (\<lambda>n. n @ ''.jsonl'') package_names) (map log_text expectedPackages)"

definition samplePacket :: oracle_std where
  "samplePacket =
     \<lparr>os_sha = sampleSHA, os_num = Some, os_order = id, os_zip = (\<lambda>_. None), os_url = (\<lambda>_. None),
      os_git = (\<lambda>_ _. None), os_go = (\<lambda>_ _. None),
      os_fs = sampleEvidence\<lparr>fs_content := (\<lambda>p. Some
        (case map_of sampleTable (last (split_on slash p)) of None \<Rightarrow> [] | Some t \<Rightarrow> t))\<rparr>\<rparr>"

definition sampleTests :: package_tests where
  "sampleTests =
     \<lparr>pt_Outcome = ''passed'', pt_PackageCount = 9, pt_Passed = 9, pt_Failed = 0,
      pt_PostgresIntegrationExecuted = True,
      pt_Checkpoints = map (\<lambda>(package, checkpointPath, logPath).
        \<lparr>cs_Path = checkpointPath, cs_SHA256 = hexEncode (sampleSHA []), cs_Package = package,
         cs_Command = testCommand sampleShared package,
         cs_InputFingerprintSHA256 = ck_Fingerprint (sampleCheckpoint package logPath),
         cs_Outcome = ''pass''\<rparr>)
        (zip expectedPackages (zip expectedCheckpointPaths expectedLogPaths))\<rparr>"

lemma sample_chain:
  assumes "p \<in> set expectedPaths"
  shows "chain_ok (os_fs samplePacket) [''repo''] (split_on slash p)"
proof -
  have "list_all (\<lambda>p. chain_ok sampleEvidence [''repo''] (split_on slash p)) expectedPaths"
    by code_simp
  then show ?thesis
    using assms by (simp add: list_all_iff samplePacket_def chain_ok_def)
qed

lemma sample_content:
  assumes "p \<in> set expectedPaths"
  shows "holds_file (os_fs samplePacket) [''repo''] p
    (case map_of sampleTable (last (split_on slash p)) of None \<Rightarrow> [] | Some t \<Rightarrow> t)"
proof -
  have "\<forall>q \<in> set ([''repo''] @ split_on slash p). plain_name q"
    using expected_path(4) [OF assms] by (auto simp: plain_name_def slash_def)
  then have "split_on slash (abs_path ([''repo''] @ split_on slash p)) = [] # [''repo''] @ split_on slash p"
    by (rule split_abs_path) simp
  then have "last (split_on slash (abs_path ([''repo''] @ split_on slash p))) = last (split_on slash p)"
    using expected_path(2) [OF assms] by simp
  then show ?thesis
    using sample_chain [OF assms] by (simp add: holds_file_def samplePacket_def)
qed

lemma map_of_zip_first:
  "i < length ks \<Longrightarrow> length vs = length ks \<Longrightarrow> distinct ks \<Longrightarrow>
   map_of (zip ks vs @ rest) (ks ! i) = Some (vs ! i)"
  by (simp add: map_add_def map_of_zip_nth)

lemma map_of_zip_later: "k \<notin> set ks \<Longrightarrow> map_of (zip ks vs @ rest) k = map_of rest k"
proof -
  assume "k \<notin> set ks"
  then have "map_of (zip ks vs) k = None"
    by (auto simp: map_of_eq_None_iff dest: set_zip_leftD)
  then show ?thesis by (simp add: map_add_def)
qed

lemma sample_names:
  "map (\<lambda>p. last (split_on slash p)) expectedCheckpointPaths = map (\<lambda>n. n @ ''.json'') package_names"
  "map (\<lambda>p. last (split_on slash p)) expectedLogPaths = map (\<lambda>n. n @ ''.jsonl'') package_names"
  "distinct (map (\<lambda>n. n @ ''.json'') package_names)" "distinct (map (\<lambda>n. n @ ''.jsonl'') package_names)"
  "set (map (\<lambda>n. n @ ''.jsonl'') package_names) \<inter> set (map (\<lambda>n. n @ ''.json'') package_names) = {}"
  "map_of sampleTable (last (split_on slash sharedPath)) = None"
proof -
  show "map (\<lambda>p. last (split_on slash p)) expectedCheckpointPaths = map (\<lambda>n. n @ ''.json'') package_names"
    "map (\<lambda>p. last (split_on slash p)) expectedLogPaths = map (\<lambda>n. n @ ''.jsonl'') package_names"
    "distinct (map (\<lambda>n. n @ ''.json'') package_names)" "distinct (map (\<lambda>n. n @ ''.jsonl'') package_names)"
    "set (map (\<lambda>n. n @ ''.jsonl'') package_names) \<inter> set (map (\<lambda>n. n @ ''.json'') package_names) = {}"
    by code_simp+
  have "last (split_on slash sharedPath) = ''shared-test-input.json''" by code_simp
  then show "map_of sampleTable (last (split_on slash sharedPath)) = None"
    unfolding sampleTable_def
    by (simp add: map_of_eq_None_iff) (auto dest!: set_zip_leftD simp: package_names_def)
qed

lemma sample_table:
  assumes "i < 9"
  shows "map_of sampleTable (last (split_on slash (expectedCheckpointPaths ! i))) =
      Some (render (checkpoint_json (sampleCheckpoint (expectedPackages ! i) (expectedLogPaths ! i))))"
    and "map_of sampleTable (last (split_on slash (expectedLogPaths ! i))) =
      Some (log_text (expectedPackages ! i))"
proof -
  have len: "length package_names = 9" "length expectedPackages = 9" "length expectedLogPaths = 9"
    "length expectedCheckpointPaths = 9"
    by (simp_all add: package_names_def expectedPackages_def expectedLogPaths_def expectedCheckpointPaths_def)
  have names: "last (split_on slash (expectedCheckpointPaths ! i)) = map (\<lambda>n. n @ ''.json'') package_names ! i"
    "last (split_on slash (expectedLogPaths ! i)) = map (\<lambda>n. n @ ''.jsonl'') package_names ! i"
    using sample_names(1,2) assms len by (metis nth_map)+
  have "map (\<lambda>n. n @ ''.jsonl'') package_names ! i \<notin> set (map (\<lambda>n. n @ ''.json'') package_names)"
    using sample_names(5) assms len by (metis disjoint_iff length_map nth_mem)
  note later = map_of_zip_later [OF this]
  show "map_of sampleTable (last (split_on slash (expectedLogPaths ! i))) =
      Some (log_text (expectedPackages ! i))"
    unfolding names sampleTable_def later
    by (subst map_of_zip_first [OF _ _ sample_names(4), of _ _ "[]", simplified]) (simp_all add: len assms)
  show "map_of sampleTable (last (split_on slash (expectedCheckpointPaths ! i))) =
      Some (render (checkpoint_json (sampleCheckpoint (expectedPackages ! i) (expectedLogPaths ! i))))"
    unfolding names sampleTable_def
    by (subst map_of_zip_first [OF _ _ sample_names(3)]) (simp_all add: len assms)
qed

lemma sample_digest:
  "hexEncode (sampleSHA x) = hexEncode (sampleSHA [])" "validDigest (hexEncode (sampleSHA x))"
  "ascii_text (hexEncode (sampleSHA x))" "length (hexEncode (sampleSHA x)) = 64"
proof -
  show "hexEncode (sampleSHA x) = hexEncode (sampleSHA [])" by (simp add: sampleSHA_def)
  show "validDigest (hexEncode (sampleSHA x))" "length (hexEncode (sampleSHA x)) = 64"
    by (simp_all add: validDigest_hexEncode hexEncode_length sampleSHA_def)
  have "ascii_text (hexEncode (replicate 32 (CHR ''a'')))" by code_simp
  then show "ascii_text (hexEncode (sampleSHA x))" by (simp add: sampleSHA_def)
qed

lemma sample_texts:
  assumes "i < 9"
  shows "ascii_text (expectedPackages ! i) \<and> length (expectedPackages ! i) \<le> 150"
    and "ascii_text (expectedLogPaths ! i) \<and> length (expectedLogPaths ! i) \<le> 150"
proof -
  have "list_all (\<lambda>s. list_all (\<lambda>c. byte c < 128) s \<and> length s \<le> 150) (expectedPackages @ expectedLogPaths)"
    by (simp add: expectedPackages_def expectedLogPaths_def package_names_def modulePath_def
        evidence_def byte_def)
  moreover have "expectedPackages ! i \<in> set expectedPackages" "expectedLogPaths ! i \<in> set expectedLogPaths"
    using assms by (intro nth_mem, simp add: expectedPackages_def expectedLogPaths_def package_names_def)+
  ultimately show "ascii_text (expectedPackages ! i) \<and> length (expectedPackages ! i) \<le> 150"
    "ascii_text (expectedLogPaths ! i) \<and> length (expectedLogPaths ! i) \<le> 150"
    unfolding ascii_text_def list_all_iff set_append by blast+
qed

lemma sample_checkpoint:
  assumes "i < 9"
  shows "decodeClosed dec_checkpoint zeroCheckpoint
      (render (checkpoint_json (sampleCheckpoint (expectedPackages ! i) (expectedLogPaths ! i)))) =
      Some (Some (sampleCheckpoint (expectedPackages ! i) (expectedLogPaths ! i)))"
    and "length (render (checkpoint_json (sampleCheckpoint (expectedPackages ! i) (expectedLogPaths ! i))))
      \<le> 8 * 2 ^ 20"
proof -
  have texts: "ascii_text s \<and> length s \<le> 200"
    if "s \<in> {checkpointSchema, fingerprintAlgorithm, releaseCommit, sharedPath, ''pass''}" for s
  proof -
    have "list_all (\<lambda>s. list_all (\<lambda>c. byte c < 128) s \<and> length s \<le> 200)
        [checkpointSchema, fingerprintAlgorithm, releaseCommit, sharedPath, ''pass'']"
      by code_simp
    then show ?thesis using that by (auto simp: ascii_text_def list_all_iff)
  qed
  have "ascii_text (testCommand sampleShared (expectedPackages ! i)) \<and>
      length (testCommand sampleShared (expectedPackages ! i)) \<le> 200"
    using sample_texts(1) [OF assms]
    by (simp add: testCommand_def sampleShared_def ascii_text_def byte_def)
  then have "\<forall>s \<in> set (checkpoint_texts (sampleCheckpoint (expectedPackages ! i) (expectedLogPaths ! i))).
      ascii_text s \<and> length s \<le> 200"
    using texts sample_texts [OF assms] sample_digest(3,4)
    by (simp add: checkpoint_texts_def sampleCheckpoint_def expectedCheckpoint_def Let_def)
  from checkpoint_document [OF this] show "decodeClosed dec_checkpoint zeroCheckpoint
      (render (checkpoint_json (sampleCheckpoint (expectedPackages ! i) (expectedLogPaths ! i)))) =
      Some (Some (sampleCheckpoint (expectedPackages ! i) (expectedLogPaths ! i)))"
    "length (render (checkpoint_json (sampleCheckpoint (expectedPackages ! i) (expectedLogPaths ! i))))
      \<le> 8 * 2 ^ 20"
    by (simp_all add: maxEvidenceBytes_def)
qed

theorem Evidence_tests_witness:
  "validateCheckpoints samplePacket ''/repo'' sampleShared sampleTests = Inr ()"
proof -
  have root: "\<forall>name \<in> set [''repo'']. plain_name name" "abs_path [''repo''] = ''/repo''"
    by (simp_all add: plain_name_def slash_def abs_path_def)
  let ?expected = "zip expectedPackages (zip expectedCheckpointPaths expectedLogPaths)"
  have len: "length expectedPackages = 9" "length expectedLogPaths = 9" "length expectedCheckpointPaths = 9"
    by (simp_all add: expectedPackages_def expectedLogPaths_def expectedCheckpointPaths_def package_names_def)
  have std: "os_sha samplePacket = sampleSHA" "os_num samplePacket = Some"
    by (simp_all add: samplePacket_def)
  have "\<exists>shared log' document item.
      holds_file (os_fs samplePacket) [''repo''] sharedPath shared \<and> length shared \<le> 128 * 2 ^ 20 \<and>
      holds_file (os_fs samplePacket) [''repo''] (expectedLogPaths ! i) log' \<and> length log' \<le> 128 * 2 ^ 20 \<and>
      holds_file (os_fs samplePacket) [''repo''] (expectedCheckpointPaths ! i) document \<and>
      length document \<le> 8 * 2 ^ 20 \<and>
      item = expectedCheckpoint sampleSHA (testCommand sampleShared (expectedPackages ! i))
        (expectedPackages ! i) (hexEncode (sampleSHA shared)) (expectedLogPaths ! i)
        (hexEncode (sampleSHA log')) \<and>
      decodeClosed dec_checkpoint zeroCheckpoint document = Some (Some item) \<and>
      validDigest (hexEncode (sampleSHA document)) \<and> validDigest (hexEncode (sampleSHA log')) \<and>
      log_shows Some (expectedPackages ! i) log' \<and>
      pt_Checkpoints sampleTests ! i = \<lparr>cs_Path = expectedCheckpointPaths ! i,
        cs_SHA256 = hexEncode (sampleSHA document), cs_Package = expectedPackages ! i,
        cs_Command = testCommand sampleShared (expectedPackages ! i),
        cs_InputFingerprintSHA256 = ck_Fingerprint item, cs_Outcome = ''pass''\<rparr>"
    if i: "i < 9" for i
  proof -
    have paths: "expectedCheckpointPaths ! i \<in> set expectedPaths" "expectedLogPaths ! i \<in> set expectedPaths"
      using packet_paths(1,2) nth_mem i len by (metis subsetD)+
    show ?thesis
    proof (intro exI conjI)
      show "holds_file (os_fs samplePacket) [''repo''] sharedPath []"
        using sample_content [OF packet_paths(3)] by (simp add: sample_names(6))
      show "holds_file (os_fs samplePacket) [''repo''] (expectedLogPaths ! i) (log_text (expectedPackages ! i))"
        using sample_content [OF paths(2)] by (simp add: sample_table [OF i])
      show "holds_file (os_fs samplePacket) [''repo''] (expectedCheckpointPaths ! i)
          (render (checkpoint_json (sampleCheckpoint (expectedPackages ! i) (expectedLogPaths ! i))))"
        using sample_content [OF paths(1)] by (simp add: sample_table [OF i])
      show "sampleCheckpoint (expectedPackages ! i) (expectedLogPaths ! i) =
          expectedCheckpoint sampleSHA (testCommand sampleShared (expectedPackages ! i))
            (expectedPackages ! i) (hexEncode (sampleSHA [])) (expectedLogPaths ! i)
            (hexEncode (sampleSHA (log_text (expectedPackages ! i))))"
        by (simp add: sampleCheckpoint_def sample_digest(1) [of "log_text (expectedPackages ! i)"])
      show "log_shows Some (expectedPackages ! i) (log_text (expectedPackages ! i))"
        using log_text_shows sample_texts(1) [OF i] by simp
      show "length (log_text (expectedPackages ! i)) \<le> 128 * 2 ^ 20"
        using log_text_length [of "expectedPackages ! i"] sample_texts(1) [OF i]
        by (simp add: maxScanTokenSize_def)
      show "pt_Checkpoints sampleTests ! i = \<lparr>cs_Path = expectedCheckpointPaths ! i,
          cs_SHA256 = hexEncode (sampleSHA (render (checkpoint_json
            (sampleCheckpoint (expectedPackages ! i) (expectedLogPaths ! i))))),
          cs_Package = expectedPackages ! i, cs_Command = testCommand sampleShared (expectedPackages ! i),
          cs_InputFingerprintSHA256 =
            ck_Fingerprint (sampleCheckpoint (expectedPackages ! i) (expectedLogPaths ! i)),
          cs_Outcome = ''pass''\<rparr>"
        using i len by (simp add: sampleTests_def sample_digest(1) [of "render _"])
    qed (use sample_checkpoint [OF i] sample_digest(2) in simp_all)
  qed
  moreover have "length (pt_Checkpoints sampleTests) = 9"
    "sampleTests = \<lparr>pt_Outcome = ''passed'', pt_PackageCount = 9, pt_Passed = 9, pt_Failed = 0,
      pt_PostgresIntegrationExecuted = True, pt_Checkpoints = pt_Checkpoints sampleTests\<rparr>"
    by (simp_all add: sampleTests_def len)
  ultimately show ?thesis
    using Evidence_tests [OF root(1), of samplePacket sampleShared sampleTests]
    by (simp add: root(2) list_all2_conv_all_nth len std)
qed

section \<open>The output contract\<close>


definition sampleOutputFile :: file_system where
  "sampleOutputFile =
     \<lparr>fs_lstat = (\<lambda>_. Some Regular),
      fs_content = (\<lambda>_. Some (render (output_json expectedRecordNames)))\<rparr>"


section \<open>The checksum of the module zip\<close>


definition sampleZip :: "string \<Rightarrow> zip_file list option" where
  "sampleZip bytes =
     (let a = \<lparr>zf_Name = ''go.mod'', zf_UncompressedSize64 = 1, zf_Content = Some ''x'', zf_Closes = True\<rparr>;
          b = \<lparr>zf_Name = ''doc'', zf_UncompressedSize64 = 1, zf_Content = Some ''y'', zf_Closes = True\<rparr>
      in Some (if bytes = ''1'' then [a, b] else [b, a]))"

definition sampleZips :: file_system where
  "sampleZips = \<lparr>fs_lstat = (\<lambda>_. Some Regular), fs_content = Some\<rparr>"

definition sampleHash :: "string \<Rightarrow> string" where
  "sampleHash s = take 32 (s @ replicate 32 (CHR 0x00))"


end
