(* ===== verification/ReplayReceipt.thy ===== *)
theory ReplayReceipt
  imports EvidenceTools ReplayTools CursorCodec
begin

text \<open>
  The receipt of the final replay (\<open>.verification/cohesion/api-query-v1-final-replay/verify.go\<close>) and
  the JSON documents that the replay reads: the structs, their decoding, and \<open>decodeClosed\<close> with a
  walk of its own for repeated members, which converts every number to a \<open>float64\<close>. The text of a
  number, \<open>None\<close> when it is out of range, is the parameter \<open>num\<close>; the calendar text of instants is the
  parameter \<open>tm\<close>.
\<close>

section \<open>The receipt\<close>

record source_identity =
  sc_Commit :: string
  sc_Tree :: string

record candidate =
  cd_Module :: string
  cd_Version :: string
  cd_ProxyZipSHA256 :: string
  cd_ProxyModSHA256 :: string
  cd_ModuleSum :: string
  cd_GoModSum :: string

record consumer =
  xc_ReplaceDirectives :: int
  xc_WorkspaceFile :: bool
  xc_SelectedVersion :: string
  xc_SelectedFromTaskOwnedModCache :: bool
  xc_GOPROXY :: string
  xc_GOSUMDB :: string
  xc_GONOSUMDB :: string
  xc_GOPRIVATE :: string
  xc_GOWORK :: string

record executable =
  tx_Identity :: string
  tx_ExecutableSHA256 :: string

record toolchains =
  tl_ExecutionIdentity :: string
  tl_AcceptedExecutables :: "executable list"

record oracle_replay =
  or_HarnessPath :: string
  or_HarnessSHA256 :: string
  or_InputPath :: string
  or_InputSHA256 :: string
  or_ReleasedOutputPath :: string
  or_ReleasedOutputSHA256 :: string
  or_ReplayOutputSHA256 :: string
  or_ByteComparison :: string
  or_Outcome :: string

record postgres_projection =
  pg_RepositoryDigest :: string
  pg_Database :: string
  pg_User :: string
  pg_DSN :: string

record cleanup =
  cl_TaskRootRemoved :: bool
  cl_ContainerRemoved :: bool
  cl_VolumeCreated :: bool

record receipt =
  rc_Schema :: string
  rc_CapturedAt :: string
  rc_Source :: source_identity
  rc_Candidate :: candidate
  rc_ExternalConsumer :: consumer
  rc_Toolchain :: toolchains
  rc_Oracle :: oracle_replay
  rc_Postgres :: postgres_projection
  rc_Cleanup :: cleanup

definition emptyReceipt :: receipt where
  "emptyReceipt =
     \<lparr>rc_Schema = [], rc_CapturedAt = [], rc_Source = \<lparr>sc_Commit = [], sc_Tree = []\<rparr>,
      rc_Candidate = \<lparr>cd_Module = [], cd_Version = [], cd_ProxyZipSHA256 = [],
        cd_ProxyModSHA256 = [], cd_ModuleSum = [], cd_GoModSum = []\<rparr>,
      rc_ExternalConsumer = \<lparr>xc_ReplaceDirectives = 0, xc_WorkspaceFile = False,
        xc_SelectedVersion = [], xc_SelectedFromTaskOwnedModCache = False, xc_GOPROXY = [],
        xc_GOSUMDB = [], xc_GONOSUMDB = [], xc_GOPRIVATE = [], xc_GOWORK = []\<rparr>,
      rc_Toolchain = \<lparr>tl_ExecutionIdentity = [], tl_AcceptedExecutables = []\<rparr>,
      rc_Oracle = \<lparr>or_HarnessPath = [], or_HarnessSHA256 = [], or_InputPath = [],
        or_InputSHA256 = [], or_ReleasedOutputPath = [], or_ReleasedOutputSHA256 = [],
        or_ReplayOutputSHA256 = [], or_ByteComparison = [], or_Outcome = []\<rparr>,
      rc_Postgres = \<lparr>pg_RepositoryDigest = [], pg_Database = [], pg_User = [], pg_DSN = []\<rparr>,
      rc_Cleanup = \<lparr>cl_TaskRootRemoved = False, cl_ContainerRemoved = False,
        cl_VolumeCreated = False\<rparr>\<rparr>"

definition dec_source_identity :: "source_identity decoder" where
  "dec_source_identity = dec_fields True
     [(''commit'', into dec_string sc_Commit sc_Commit_update),
      (''tree'', into dec_string sc_Tree sc_Tree_update)]"

definition dec_candidate :: "candidate decoder" where
  "dec_candidate = dec_fields True
     [(''module'', into dec_string cd_Module cd_Module_update),
      (''version'', into dec_string cd_Version cd_Version_update),
      (''proxy_zip_sha256'', into dec_string cd_ProxyZipSHA256 cd_ProxyZipSHA256_update),
      (''proxy_mod_sha256'', into dec_string cd_ProxyModSHA256 cd_ProxyModSHA256_update),
      (''module_sum'', into dec_string cd_ModuleSum cd_ModuleSum_update),
      (''go_mod_sum'', into dec_string cd_GoModSum cd_GoModSum_update)]"

definition dec_consumer :: "consumer decoder" where
  "dec_consumer = dec_fields True
     [(''replace_directives'', into dec_int xc_ReplaceDirectives xc_ReplaceDirectives_update),
      (''workspace_file'', into dec_bool xc_WorkspaceFile xc_WorkspaceFile_update),
      (''selected_version'', into dec_string xc_SelectedVersion xc_SelectedVersion_update),
      (''selected_from_task_owned_module_cache'',
        into dec_bool xc_SelectedFromTaskOwnedModCache xc_SelectedFromTaskOwnedModCache_update),
      (''goproxy'', into dec_string xc_GOPROXY xc_GOPROXY_update),
      (''gosumdb'', into dec_string xc_GOSUMDB xc_GOSUMDB_update),
      (''gonosumdb'', into dec_string xc_GONOSUMDB xc_GONOSUMDB_update),
      (''goprivate'', into dec_string xc_GOPRIVATE xc_GOPRIVATE_update),
      (''gowork'', into dec_string xc_GOWORK xc_GOWORK_update)]"

definition dec_executable :: "executable decoder" where
  "dec_executable = dec_fields True
     [(''identity'', into dec_string tx_Identity tx_Identity_update),
      (''executable_sha256'', into dec_string tx_ExecutableSHA256 tx_ExecutableSHA256_update)]"

definition dec_toolchains :: "toolchains decoder" where
  "dec_toolchains = dec_fields True
     [(''execution_identity'', into dec_string tl_ExecutionIdentity tl_ExecutionIdentity_update),
      (''accepted_executables'',
        into (dec_list dec_executable \<lparr>tx_Identity = [], tx_ExecutableSHA256 = []\<rparr>)
          tl_AcceptedExecutables tl_AcceptedExecutables_update)]"

definition dec_oracle_replay :: "oracle_replay decoder" where
  "dec_oracle_replay = dec_fields True
     [(''harness_path'', into dec_string or_HarnessPath or_HarnessPath_update),
      (''harness_sha256'', into dec_string or_HarnessSHA256 or_HarnessSHA256_update),
      (''input_path'', into dec_string or_InputPath or_InputPath_update),
      (''input_sha256'', into dec_string or_InputSHA256 or_InputSHA256_update),
      (''released_output_path'', into dec_string or_ReleasedOutputPath or_ReleasedOutputPath_update),
      (''released_output_sha256'',
        into dec_string or_ReleasedOutputSHA256 or_ReleasedOutputSHA256_update),
      (''replay_output_sha256'', into dec_string or_ReplayOutputSHA256 or_ReplayOutputSHA256_update),
      (''byte_comparison'', into dec_string or_ByteComparison or_ByteComparison_update),
      (''outcome'', into dec_string or_Outcome or_Outcome_update)]"

definition dec_projection :: "postgres_projection decoder" where
  "dec_projection = dec_fields True
     [(''repository_digest'', into dec_string pg_RepositoryDigest pg_RepositoryDigest_update),
      (''database'', into dec_string pg_Database pg_Database_update),
      (''user'', into dec_string pg_User pg_User_update),
      (''dsn'', into dec_string pg_DSN pg_DSN_update)]"

definition dec_cleanup :: "cleanup decoder" where
  "dec_cleanup = dec_fields True
     [(''task_root_removed'', into dec_bool cl_TaskRootRemoved cl_TaskRootRemoved_update),
      (''container_removed'', into dec_bool cl_ContainerRemoved cl_ContainerRemoved_update),
      (''volume_created'', into dec_bool cl_VolumeCreated cl_VolumeCreated_update)]"

definition dec_replay_receipt :: "receipt decoder" where
  "dec_replay_receipt = dec_fields True
     [(''schema'', into dec_string rc_Schema rc_Schema_update),
      (''captured_at'', into dec_string rc_CapturedAt rc_CapturedAt_update),
      (''source'', into dec_source_identity rc_Source rc_Source_update),
      (''candidate'', into dec_candidate rc_Candidate rc_Candidate_update),
      (''external_consumer'', into dec_consumer rc_ExternalConsumer rc_ExternalConsumer_update),
      (''toolchain'', into dec_toolchains rc_Toolchain rc_Toolchain_update),
      (''oracle'', into dec_oracle_replay rc_Oracle rc_Oracle_update),
      (''postgres'', into dec_projection rc_Postgres rc_Postgres_update),
      (''cleanup'', into dec_cleanup rc_Cleanup rc_Cleanup_update)]"

end
