(* ===== verification/ReplayJson.thy ===== *)
theory ReplayJson
  imports ReplayReceipt
begin

section \<open>Documents of the go command\<close>

text \<open>
  A pointer to a nested module is only compared with \<open>nil\<close>: it is kept as whether it is there, after
  its document has been decoded. The nesting of the document bounds that of the modules in it.
\<close>

record module_origin =
  mo_VCS :: string
  mo_URL :: string
  mo_Subdir :: string
  mo_Hash :: string
  mo_TagPrefix :: string
  mo_TagSum :: string
  mo_Ref :: string
  mo_RepoSum :: string

record moduleDownload =
  md_Path :: string
  md_Query :: string
  md_Version :: string
  md_Versions :: "string list"
  md_Replace :: "unit option"
  md_Time :: "int option"
  md_Update :: "unit option"
  md_Main :: bool
  md_Indirect :: bool
  md_Dir :: string
  md_GoMod :: string
  md_GoVersion :: string
  md_Retracted :: "string list"
  md_Deprecated :: string
  md_Error :: "string option"
  md_Info :: string
  md_Zip :: string
  md_Sum :: string
  md_GoModSum :: string
  md_Reuse :: bool
  md_Origin :: "module_origin option"

definition zeroOrigin :: module_origin where
  "zeroOrigin = \<lparr>mo_VCS = [], mo_URL = [], mo_Subdir = [], mo_Hash = [], mo_TagPrefix = [],
     mo_TagSum = [], mo_Ref = [], mo_RepoSum = []\<rparr>"

definition zeroModule :: moduleDownload where
  "zeroModule =
     \<lparr>md_Path = [], md_Query = [], md_Version = [], md_Versions = [], md_Replace = None,
      md_Time = None, md_Update = None, md_Main = False, md_Indirect = False, md_Dir = [],
      md_GoMod = [], md_GoVersion = [], md_Retracted = [], md_Deprecated = [], md_Error = None,
      md_Info = [], md_Zip = [], md_Sum = [], md_GoModSum = [], md_Reuse = False, md_Origin = None\<rparr>"

definition dec_module_origin :: "module_origin decoder" where
  "dec_module_origin = dec_fields True
     [(''VCS'', into dec_string mo_VCS mo_VCS_update),
      (''URL'', into dec_string mo_URL mo_URL_update),
      (''Subdir'', into dec_string mo_Subdir mo_Subdir_update),
      (''Hash'', into dec_string mo_Hash mo_Hash_update),
      (''TagPrefix'', into dec_string mo_TagPrefix mo_TagPrefix_update),
      (''TagSum'', into dec_string mo_TagSum mo_TagSum_update),
      (''Ref'', into dec_string mo_Ref mo_Ref_update),
      (''RepoSum'', into dec_string mo_RepoSum mo_RepoSum_update)]"

definition dec_module_error :: "string decoder" where
  "dec_module_error = dec_fields True [(''Err'', dec_string)]"

primrec dec_module :: "instant_std \<Rightarrow> nat \<Rightarrow> moduleDownload decoder" where
  "dec_module tm 0 = (\<lambda>_ _. None)"
| "dec_module tm (Suc n) =
     (let nested = dec_pointer (\<lambda>j _. map_option (\<lambda>_. ()) (dec_module tm n j zeroModule)) () in
      dec_fields True
        [(''Path'', into dec_string md_Path md_Path_update),
         (''Query'', into dec_string md_Query md_Query_update),
         (''Version'', into dec_string md_Version md_Version_update),
         (''Versions'', into (dec_list dec_string []) md_Versions md_Versions_update),
         (''Replace'', into nested md_Replace md_Replace_update),
         (''Time'', into (dec_pointer (dec_instant tm) 0) md_Time md_Time_update),
         (''Update'', into nested md_Update md_Update_update),
         (''Main'', into dec_bool md_Main md_Main_update),
         (''Indirect'', into dec_bool md_Indirect md_Indirect_update),
         (''Dir'', into dec_string md_Dir md_Dir_update),
         (''GoMod'', into dec_string md_GoMod md_GoMod_update),
         (''GoVersion'', into dec_string md_GoVersion md_GoVersion_update),
         (''Retracted'', into (dec_list dec_string []) md_Retracted md_Retracted_update),
         (''Deprecated'', into dec_string md_Deprecated md_Deprecated_update),
         (''Error'', into (dec_pointer dec_module_error []) md_Error md_Error_update),
         (''Info'', into dec_string md_Info md_Info_update),
         (''Zip'', into dec_string md_Zip md_Zip_update),
         (''Sum'', into dec_string md_Sum md_Sum_update),
         (''GoModSum'', into dec_string md_GoModSum md_GoModSum_update),
         (''Reuse'', into dec_bool md_Reuse md_Reuse_update),
         (''Origin'', into (dec_pointer dec_module_origin zeroOrigin) md_Origin md_Origin_update)])"

definition dec_moduleDownload :: "instant_std \<Rightarrow> moduleDownload decoder" where
  "dec_moduleDownload tm j old = dec_module tm (json_depth j) j old"

definition dec_moduleEdit :: "json list decoder" where
  "dec_moduleEdit = dec_fields False
     [(''Replace'', dec_list dec_raw (JScalar SNull))]"

definition dec_mount :: "dockerMount decoder" where
  "dec_mount = dec_fields True
     [(''Type'', into dec_string dm_Type dm_Type_update),
      (''Name'', into dec_string dm_Name dm_Name_update),
      (''Source'', into dec_string dm_Source dm_Source_update),
      (''Destination'', into dec_string dm_Destination dm_Destination_update),
      (''Driver'', into dec_string dm_Driver dm_Driver_update),
      (''Mode'', into dec_string dm_Mode dm_Mode_update),
      (''RW'', into dec_bool dm_RW dm_RW_update),
      (''Propagation'', into dec_string dm_Propagation dm_Propagation_update)]"

definition dec_storage :: "dockerStorage decoder" where
  "dec_storage = dec_fields True
     [(''Mounts'', into (dec_list dec_mount
         \<lparr>dm_Type = [], dm_Name = [], dm_Source = [], dm_Destination = [], dm_Driver = [],
          dm_Mode = [], dm_RW = False, dm_Propagation = []\<rparr>) ds_Mounts ds_Mounts_update),
      (''Tmpfs'', into (dec_map dec_string []) ds_Tmpfs ds_Tmpfs_update)]"

section \<open>The walk for repeated members\<close>

partial_function (option) walkJSON ::
  "(string \<Rightarrow> string option) \<Rightarrow> walk \<Rightarrow> nat \<Rightarrow> token_decoder \<Rightarrow>
   (scan_error option \<times> token_decoder) option" where
  "walkJSON num walk depth decoder =
     (case walk of
        WValue \<Rightarrow>
          if depth > 64 then Some (Some ScanDepth, decoder)
          else
            (case Decoder_Token decoder of
               (Inl e, decoder) \<Rightarrow> Some (Some ScanToken, decoder)
             | (Inr (GoScalar x), decoder) \<Rightarrow>
                 (case x of
                    SNum n \<Rightarrow> if num n = None then Some (Some ScanToken, decoder) else Some (None, decoder)
                  | _ \<Rightarrow> Some (None, decoder))
             | (Inr (GoDelim c), decoder) \<Rightarrow>
                 if c = CHR ''{'' then walkJSON num (WMembers {}) depth decoder
                 else if c = CHR ''['' then walkJSON num WElements depth decoder
                 else Some (Some ScanDelimiter, decoder))
      | WMembers seen \<Rightarrow>
          if Decoder_More decoder then
            (case Decoder_Token decoder of
               (Inl e, decoder) \<Rightarrow> Some (Some ScanToken, decoder)
             | (Inr (GoScalar (SStr name)), decoder) \<Rightarrow>
                 if name \<in> seen then Some (Some ScanDuplicate, decoder)
                 else Option.bind (walkJSON num WValue (depth + 1) decoder)
                   (\<lambda>(err, decoder).
                     case err of Some e \<Rightarrow> Some (Some e, decoder)
                     | None \<Rightarrow> walkJSON num (WMembers (insert name seen)) depth decoder)
             | (Inr token, decoder) \<Rightarrow> Some (Some ScanMember, decoder))
          else
            (case Decoder_Token decoder of
               (Inl e, decoder) \<Rightarrow> Some (Some ScanToken, decoder)
             | (Inr token, decoder) \<Rightarrow> Some (None, decoder))
      | WElements \<Rightarrow>
          if Decoder_More decoder then
            Option.bind (walkJSON num WValue (depth + 1) decoder)
              (\<lambda>(err, decoder).
                case err of Some e \<Rightarrow> Some (Some e, decoder)
                | None \<Rightarrow> walkJSON num WElements depth decoder)
          else
            (case Decoder_Token decoder of
               (Inl e, decoder) \<Rightarrow> Some (Some ScanToken, decoder)
             | (Inr token, decoder) \<Rightarrow> Some (None, decoder)))"

text \<open>\<open>rejectDuplicateJSONMembers\<close> and \<open>decodeClosed\<close>, which end with \<open>Decode\<close> at the end of the text.\<close>

definition rejectDuplicateMembers :: "(string \<Rightarrow> string option) \<Rightarrow> string \<Rightarrow> scan_error option option" where
  "rejectDuplicateMembers num data =
     map_option (\<lambda>(err, decoder).
       case err of
         Some e \<Rightarrow> Some e
       | None \<Rightarrow> if decode_end decoder then None else Some ScanTrailing)
     (walkJSON num WValue 0 (NewDecoder data))"

definition decodeClosedReplay ::
  "(string \<Rightarrow> string option) \<Rightarrow> 'a decoder \<Rightarrow> 'a \<Rightarrow> string \<Rightarrow> 'a option option" where
  "decodeClosedReplay num target old data =
     map_option (\<lambda>err.
       case err of
         Some _ \<Rightarrow> None
       | None \<Rightarrow>
           (case decode_value target (NewDecoder data) old of
              (None, decoder) \<Rightarrow> None
            | (Some result, decoder) \<Rightarrow> if decode_end decoder then Some result else None))
     (rejectDuplicateMembers num data)"

section \<open>Correctness\<close>

text \<open>
  The walk returns, and when it finds no error the walk of the oracle verifier, which leaves numbers
  alone, finds none either.
\<close>

definition walk_refines :: "(string \<Rightarrow> string option) \<Rightarrow> walk \<Rightarrow> nat \<Rightarrow> token_decoder \<Rightarrow> bool" where
  "walk_refines num walk depth d \<longleftrightarrow>
     (\<exists>err d'. walkJSON num walk depth d = Some (err, d') \<and>
        (err = None \<longrightarrow> scanJSONValue walk depth d = Some (None, d') \<and>
           length (td_rest d') < length (td_rest d)))"

lemma walk_value:
  assumes IH: "\<And>walk depth d'. length (td_rest d') < length (td_rest d) \<Longrightarrow> walk_refines num walk depth d'"
  shows "walk_refines num WValue depth d"
proof (cases "depth > 64 \<or> (\<exists>e d'. Decoder_Token d = (Inl e, d'))")
  case True
  then show ?thesis by (auto simp: walk_refines_def walkJSON.simps [of _ WValue])
next
  case False
  then obtain tok d' where tok: "Decoder_Token d = (Inr tok, d')" "\<not> depth > 64"
    by (metis old.prod.exhaust old.sum.exhaust)
  have short: "length (td_rest d') < length (td_rest d)" by (rule Token_shorter [OF tok(1)])
  have depth: "\<not> depth > maxJSONDepth" using tok(2) by (simp add: maxJSONDepth_def)
  show ?thesis
  proof (cases tok)
    case (GoScalar x)
    then show ?thesis
      using tok depth short
      by (cases x) (simp_all add: walk_refines_def walkJSON.simps [of _ WValue] scanJSONValue.simps [of WValue])
  next
    case (GoDelim c)
    define walk where "walk = (if c = CHR ''{'' then WMembers {} else WElements)"
    show ?thesis
    proof (cases "c = CHR ''{'' \<or> c = CHR ''[''")
      case True
      then have "walkJSON num WValue depth d = walkJSON num walk depth d'"
        "scanJSONValue WValue depth d = scanJSONValue walk depth d'"
        using tok depth GoDelim
        by (auto simp: walkJSON.simps [of _ WValue] scanJSONValue.simps [of WValue] walk_def)
      then show ?thesis
        using IH [OF short, of walk depth] short by (auto simp: walk_refines_def intro: less_trans)
    next
      case False
      then show ?thesis
        using tok GoDelim by (simp add: walk_refines_def walkJSON.simps [of _ WValue])
    qed
  qed
qed

lemma walk_close:
  assumes "\<not> Decoder_More d" and "walk = WElements \<or> walk = WMembers seen"
  shows "walk_refines num walk depth d"
proof -
  have "walkJSON num walk depth d = scanJSONValue walk depth d"
    "\<exists>err d'. scanJSONValue walk depth d = Some (err, d') \<and>
      (err = None \<longrightarrow> length (td_rest d') < length (td_rest d))"
    using assms
    by (auto simp: walkJSON.simps [of _ walk] scanJSONValue.simps [of walk]
        split: prod.splits sum.splits dest: Token_shorter)
  then show ?thesis by (auto simp: walk_refines_def)
qed

lemma walk_elements:
  assumes IH: "\<And>walk depth d'. length (td_rest d') < length (td_rest d) \<Longrightarrow> walk_refines num walk depth d'"
    and more: "Decoder_More d"
  shows "walk_refines num WElements depth d"
proof -
  obtain err d' where first: "walkJSON num WValue (depth + 1) d = Some (err, d')"
    "err = None \<longrightarrow> scanJSONValue WValue (depth + 1) d = Some (None, d') \<and>
       length (td_rest d') < length (td_rest d)"
    using walk_value [OF IH] unfolding walk_refines_def by blast
  show ?thesis
  proof (cases err)
    case None
    with first IH [of d' WElements depth] show ?thesis
      by (auto simp: walk_refines_def walkJSON.simps [of _ WElements depth d]
          scanJSONValue.simps [of WElements depth d] more intro: less_trans)
  next
    case (Some e)
    with first show ?thesis
      by (simp add: walk_refines_def walkJSON.simps [of _ WElements depth d] more)
  qed
qed

lemma walk_members:
  assumes IH: "\<And>walk depth d'. length (td_rest d') < length (td_rest d) \<Longrightarrow> walk_refines num walk depth d'"
    and more: "Decoder_More d"
  shows "walk_refines num (WMembers seen) depth d"
proof (cases "\<exists>name d1. Decoder_Token d = (Inr (GoScalar (SStr name)), d1) \<and> name \<notin> seen")
  case False
  then have "\<exists>e d'. walkJSON num (WMembers seen) depth d = Some (Some e, d')"
    by (subst walkJSON.simps)
      (auto simp: more split: prod.splits sum.splits go_token.splits scalar.splits)
  then show ?thesis by (auto simp: walk_refines_def)
next
  case True
  then obtain name d1 where d1: "Decoder_Token d = (Inr (GoScalar (SStr name)), d1)" "name \<notin> seen"
    "length (td_rest d1) < length (td_rest d)"
    using Token_shorter by blast
  obtain err d' where first: "walkJSON num WValue (depth + 1) d1 = Some (err, d')"
    "err = None \<longrightarrow> scanJSONValue WValue (depth + 1) d1 = Some (None, d') \<and>
       length (td_rest d') < length (td_rest d1)"
    using IH [OF d1(3)] unfolding walk_refines_def by blast
  show ?thesis
  proof (cases err)
    case None
    then have "length (td_rest d') < length (td_rest d)" using first(2) d1(3) by (auto intro: less_trans)
    with IH [OF this, of "WMembers (insert name seen)" depth] None first d1 show ?thesis
      by (auto simp: walk_refines_def walkJSON.simps [of _ "WMembers seen" depth d]
          scanJSONValue.simps [of "WMembers seen" depth d] more intro: less_trans)
  next
    case (Some e)
    with first d1 show ?thesis
      by (simp add: walk_refines_def walkJSON.simps [of _ "WMembers seen" depth d] more)
  qed
qed

lemma walkJSON_refines: "walk_refines num walk depth d"
proof (induction "length (td_rest d)" arbitrary: walk depth d rule: less_induct)
  case less
  then have IH: "\<And>walk depth d'. length (td_rest d') < length (td_rest d) \<Longrightarrow> walk_refines num walk depth d'"
    by blast
  show ?case
  proof (cases walk)
    case WValue
    then show ?thesis using walk_value [OF IH] by simp
  next
    case WElements
    then show ?thesis using walk_elements [OF IH] walk_close by (cases "Decoder_More d") auto
  next
    case (WMembers seen)
    then show ?thesis using walk_members [OF IH] walk_close by (cases "Decoder_More d") auto
  qed
qed

lemma decodeClosedReplay_returns: "\<exists>r. decodeClosedReplay num target old data = Some r"
proof -
  obtain err d' where "walkJSON num WValue 0 (NewDecoder data) = Some (err, d')"
    using walkJSON_refines [of num WValue 0 "NewDecoder data"] unfolding walk_refines_def by blast
  then show ?thesis by (simp add: decodeClosedReplay_def rejectDuplicateMembers_def)
qed

end
