(* ===== verification/ReplayRun.thy ===== *)
theory ReplayRun
  imports ReplayJson
begin

text \<open>
  The run of the final replay (\<open>.verification/cohesion/api-query-v1-final-replay/verify.go\<close>): its
  commands, its files and its deferred cleanup. What the run does is a trace of events; the system
  answers each event from the trace so far, so it may behave in any way whatever. The state of a step
  is the local variable \<open>containerCleanupTarget\<close>, which the deferred function reads, with the trace. A
  panic is \<open>Inl\<close>.
\<close>

section \<open>Events and answers\<close>

datatype event =
  EvCommand string "string list option" "string list"    \<comment> \<open>directory, environment, name and arguments\<close>
| EvMkdirTemp string
| EvMkdirAll string
| EvWriteFile string string
| EvOpenFile string
| EvCreateHeader zip_header
| EvZipWrite string
| EvCloseZip
| EvCloseFile
| EvLookPath string
| EvEvalSymlinks string
| EvSleep
| EvChmodTree string
| EvRemoveAll string

type_synonym trace = "event list"

text \<open>
  \<open>re_command\<close>: whether the command succeeded, and the pieces that it wrote to its outputs; \<open>re_ok\<close>:
  whether an operation succeeded; \<open>re_text\<close>: the path it gave; \<open>re_lstat\<close>: whether there is a file, and
  then whether it is regular, and its size; \<open>re_content\<close> what can be read of a file; \<open>re_entries\<close> the
  number of entries of a directory; \<open>re_walk\<close> the error of the walk over a tree, other than that a file
  does not exist; \<open>re_time\<close> the instant of an RFC 3339 text and its RFC 3339 form.
\<close>

record replay_env =
  re_command :: "trace \<Rightarrow> string \<Rightarrow> string list option \<Rightarrow> string list \<Rightarrow> bool \<times> string list \<times> string list"
  re_ok :: "trace \<Rightarrow> event \<Rightarrow> bool"
  re_text :: "trace \<Rightarrow> event \<Rightarrow> string option"
  re_lstat :: "trace \<Rightarrow> string \<Rightarrow> (bool \<times> int) option"
  re_content :: "trace \<Rightarrow> string \<Rightarrow> string option"
  re_entries :: "trace \<Rightarrow> string \<Rightarrow> nat option"
  re_walk :: "trace \<Rightarrow> string \<Rightarrow> bool"
  re_sha :: "string \<Rightarrow> string"
  re_num :: "string \<Rightarrow> string option"
  re_time :: "string \<Rightarrow> (int \<times> string) option"
  re_instants :: instant_std
  re_tar :: "string \<Rightarrow> tar_item list"
  re_environ :: "string list"
  re_goos :: string

type_synonym 'a step = "string \<times> trace \<Rightarrow> (panic + 'a) \<times> string \<times> trace"

definition return' :: "panic + 'a \<Rightarrow> 'a step" where
  "return' r s = (r, s)"

definition then' :: "'a step \<Rightarrow> ('a \<Rightarrow> 'b step) \<Rightarrow> 'b step" where
  "then' m f s = (case m s of (Inl e, s) \<Rightarrow> (Inl e, s) | (Inr x, s) \<Rightarrow> f x s)"

text \<open>\<open>must\<close> and \<open>check\<close> of this program.\<close>

definition must' :: "bool \<Rightarrow> string \<Rightarrow> unit step" where
  "must' condition message = return' (require condition message)"

definition check :: "'a option \<Rightarrow> 'a step" where
  "check x = return' (must x)"

text \<open>An operation that appends its event, and what the system answers.\<close>

definition perform :: "replay_env \<Rightarrow> event \<Rightarrow> bool step" where
  "perform E event = (\<lambda>(target, w). (Inr (re_ok E w event), target, w @ [event]))"

definition perform_text :: "replay_env \<Rightarrow> event \<Rightarrow> string step" where
  "perform_text E event = (\<lambda>(target, w). (must (re_text E w event), target, w @ [event]))"

definition observe :: "(trace \<Rightarrow> 'a) \<Rightarrow> 'a step" where
  "observe f = (\<lambda>(target, w). (Inr (f w), target, w))"

section \<open>Commands\<close>

text \<open>
  What \<open>limitedWriter\<close> takes of the pieces: \<open>None\<close> when one of them is refused, which makes the
  command fail.
\<close>

fun capture :: "string list \<Rightarrow> limitedWriter \<Rightarrow> string option" where
  "capture [] writer = Some (lw_target writer)"
| "capture (piece # pieces) writer =
     (case lw_Write piece writer of
        (Inl _, _) \<Rightarrow> None
      | (Inr _, writer) \<Rightarrow> capture pieces writer)"

definition newWriter :: limitedWriter where
  "newWriter = \<lparr>lw_target = [], lw_remaining = maximumBytes\<rparr>"

definition runBytes :: "replay_env \<Rightarrow> string \<Rightarrow> string list option \<Rightarrow> string list \<Rightarrow> string step" where
  "runBytes E directory environment command = (\<lambda>(target, w).
     let (succeeds, stdout, stderr) = re_command E w directory environment command;
         w = w @ [EvCommand directory environment command]
     in case (capture stdout newWriter, capture stderr newWriter) of
          (Some out, Some _) \<Rightarrow> (if succeeds then Inr out else Inl Failed, target, w)
        | _ \<Rightarrow> (Inl Failed, target, w))"

text \<open>\<open>run\<close>, and \<open>Command.Run\<close> without captured outputs.\<close>

definition run :: "replay_env \<Rightarrow> string \<Rightarrow> string list option \<Rightarrow> string list \<Rightarrow> string step" where
  "run = runBytes"

definition runs :: "replay_env \<Rightarrow> string \<Rightarrow> string list \<Rightarrow> bool step" where
  "runs E directory command = (\<lambda>(target, w).
     (Inr (fst (re_command E w directory None command)), target,
      w @ [EvCommand directory None command]))"

definition gitFile :: "replay_env \<Rightarrow> string \<Rightarrow> string \<Rightarrow> string \<Rightarrow> string step" where
  "gitFile E root revision name =
     runBytes E root None [''git'', ''show'', revision @ '':'' @ name]"

text \<open>A document of a command: \<open>decodeClosed\<close> panics on an error.\<close>

definition decodeOr :: "replay_env \<Rightarrow> 'a decoder \<Rightarrow> 'a \<Rightarrow> string \<Rightarrow> 'a step" where
  "decodeOr E target zero data =
     return' (case decodeClosedReplay (re_num E) target zero data of
       Some (Some x) \<Rightarrow> Inr x | _ \<Rightarrow> Inl Failed)"

definition parsedReplaceCount ::
  "replay_env \<Rightarrow> string \<Rightarrow> string list option \<Rightarrow> string \<Rightarrow> nat step" where
  "parsedReplaceCount E directory environment goBinary =
     then' (runBytes E directory environment
       [goBinary, ''mod'', ''edit'', ''-json'', ''-modfile=go.mod'']) (\<lambda>output.
     then' (return' (case rejectDuplicateMembers (re_num E) output of
       Some None \<Rightarrow> Inr () | _ \<Rightarrow> Inl Failed)) (\<lambda>_.
     then' (check (Unmarshal dec_moduleEdit [] output)) (\<lambda>document.
     return' (Inr (length document)))))"

section \<open>Files\<close>

definition readBounded :: "replay_env \<Rightarrow> string \<Rightarrow> string step" where
  "readBounded E filePath = then' (observe (\<lambda>w. (re_lstat E w filePath, re_content E w filePath)))
     (\<lambda>(info, content).
       case info of
         None \<Rightarrow> return' (Inl Failed)
       | Some (regular, size') \<Rightarrow>
           if \<not> regular then return' (Inl Failed)
           else if size' > maximumBytes then return' (Inl Failed)
           else
             (case content of
                None \<Rightarrow> return' (Inl Failed)
              | Some content \<Rightarrow>
                  let data = take (nat maximumBytes + 1) content
                  in if int (length data) > maximumBytes then return' (Inl Failed)
                     else return' (Inr data)))"

definition writeFile :: "replay_env \<Rightarrow> string \<Rightarrow> string \<Rightarrow> unit step" where
  "writeFile E filePath data =
     then' (perform E (EvWriteFile filePath data)) (\<lambda>written.
     return' (if written then Inr () else Inl Failed))"

definition writeSecretFile :: "replay_env \<Rightarrow> string \<Rightarrow> string \<Rightarrow> unit step" where
  "writeSecretFile E filePath data =
     then' (perform E (EvWriteFile filePath data)) (\<lambda>written.
     return' (if written then Inr () else Inl Failed))"

definition digestFile' :: "replay_env \<Rightarrow> string \<Rightarrow> string step" where
  "digestFile' E filePath =
     then' (readBounded E filePath) (\<lambda>data. return' (Inr (digestBytes (re_sha E) data)))"

definition digestRegularFile :: "replay_env \<Rightarrow> string \<Rightarrow> string step" where
  "digestRegularFile E filePath =
     then' (observe (\<lambda>w. (re_lstat E w filePath, re_content E w filePath))) (\<lambda>(info, content).
     then' (check info) (\<lambda>(regular, _).
     then' (must' regular ''executable is not a regular file'') (\<lambda>_.
     then' (check content) (\<lambda>data.
     return' (Inr (hexEncode (re_sha E data)))))))"

definition exists' :: "replay_env \<Rightarrow> string \<Rightarrow> bool step" where
  "exists' E filePath = observe (\<lambda>w. re_lstat E w filePath \<noteq> None)"

text \<open>
  \<open>filepath.Rel\<close> on cleaned paths: the elements they share are dropped, and every element that is left
  of the base is one step up.
\<close>

fun drop_common :: "string list \<Rightarrow> string list \<Rightarrow> string list \<times> string list" where
  "drop_common (b # bs) (t # ts) = (if b = t then drop_common bs ts else (b # bs, t # ts))"
| "drop_common bs ts = (bs, ts)"

definition Rel :: "string \<Rightarrow> string \<Rightarrow> string option" where
  "Rel base target =
     (if IsAbs base \<noteq> IsAbs target then None
      else
        let (bs, ts) = drop_common (clean_parts (IsAbs base) base) (clean_parts (IsAbs target) target)
        in if bs \<noteq> [] \<and> hd bs = ''..'' then None
           else
             let parts = replicate (length bs) ''..'' @ ts
             in Some (if parts = [] then ''.'' else join_with [slash] parts))"

definition within :: "string \<Rightarrow> string \<Rightarrow> bool" where
  "within root candidate \<longleftrightarrow>
     (case Rel root candidate of
        None \<Rightarrow> False
      | Some relative \<Rightarrow> relative \<noteq> ''..'' \<and> \<not> prefix ''../'' relative \<and> \<not> IsAbs relative)"

text \<open>\<open>removeTree\<close>: the walk makes the directories writable.\<close>

definition removeTree :: "replay_env \<Rightarrow> string \<Rightarrow> bool step" where
  "removeTree E root = (\<lambda>(target, w).
     let failed = re_walk E w root; w = w @ [EvChmodTree root]
     in if failed then (Inr False, target, w) else perform E (EvRemoveAll root) (target, w))"

text \<open>\<open>removeContainer\<close>, whose error is only reported.\<close>

definition removeContainer :: "replay_env \<Rightarrow> string \<Rightarrow> bool step" where
  "removeContainer E container = runs E [] [''docker'', ''rm'', ''-fv'', container]"

text \<open>The zip writer of a file.\<close>

definition zipSink :: "replay_env \<Rightarrow> string \<Rightarrow> trace zip_sink" where
  "zipSink E path =
     (let ok = (\<lambda>event w. (re_ok E w event, w @ [event])) in
      \<lparr>zs_OpenFile = ok (EvOpenFile path), zs_CreateHeader = (\<lambda>h. ok (EvCreateHeader h)),
       zs_Write = (\<lambda>d. ok (EvZipWrite d)), zs_CloseZip = ok EvCloseZip, zs_CloseFile = ok EvCloseFile\<rparr>)"

definition writeModuleZip :: "replay_env \<Rightarrow> string \<Rightarrow> string \<Rightarrow> int \<Rightarrow> string \<Rightarrow> unit step" where
  "writeModuleZip E path prefix' modified tarBytes = (\<lambda>(target, w).
     case writeDeterministicModuleZip (re_tar E) (zipSink E path) prefix' modified tarBytes w of
       (Inl _, w) \<Rightarrow> (Inl Failed, target, w)
     | (Inr u, w) \<Rightarrow> (Inr u, target, w))"

section \<open>validateReceipt\<close>

definition modulePath' :: string where "modulePath' = ''github.com/faustbrian/go-api-query''"
definition candidateVersion :: string where "candidateVersion = ''v1.1.0-replay.0''"
definition expectedOutput :: string where
  "expectedOutput = ''9da16adc97f2074c3e890a290a8b7028938803fdc702d4f2689cfd8c9cd3816b''"
definition postgresImage :: string where
  "postgresImage = ''postgres@sha256:9a8afca54e7861fd90fab5fdf4c42477a6b1cb7d293595148e674e0a3181de15''"
definition goIdentity :: string where "goIdentity = ''go version go1.26.6 ''"

fun toolchain_loop :: "executable list \<Rightarrow> string set \<Rightarrow> panic + string set" where
  "toolchain_loop [] seenToolchains = Inr seenToolchains"
| "toolchain_loop (toolchain # rest) seenToolchains =
     next' (require (prefix goIdentity (tx_Identity toolchain) \<and>
         isHex (tx_ExecutableSHA256 toolchain) 64) ''accepted toolchain'') (\<lambda>_.
     next' (require (tx_Identity toolchain \<notin> seenToolchains) ''duplicate toolchain identity'') (\<lambda>_.
     toolchain_loop rest (insert (tx_Identity toolchain) seenToolchains)))"

definition validateReceipt :: "replay_env \<Rightarrow> string \<Rightarrow> receipt \<Rightarrow> unit step" where
  "validateReceipt E root packet =
     (let source = rc_Source packet; candidate = rc_Candidate packet;
          consumer = rc_ExternalConsumer packet; toolchain = rc_Toolchain packet;
          oracle = rc_Oracle packet; postgres = rc_Postgres packet; cleanup = rc_Cleanup packet in
      then' (must' (rc_Schema packet = ''api-query-v1-final-replay-v2'') ''receipt schema'') (\<lambda>_.
      then' (check (re_time E (rc_CapturedAt packet))) (\<lambda>_.
      then' (must' (isHex (sc_Commit source) 40 \<and> isHex (sc_Tree source) 40)
        ''source object identity'') (\<lambda>_.
      then' (run E root None [''git'', ''rev-parse'', sc_Commit source @ ''^{tree}'']) (\<lambda>tree.
      then' (must' (TrimSpace tree = sc_Tree source) ''source tree'') (\<lambda>_.
      then' (run E root None [''git'', ''merge-base'', ''--is-ancestor'', sc_Commit source, ''HEAD''])
        (\<lambda>_.
      then' (runBytes E root None [''git'', ''diff'', ''--name-only'', ''-z'', ''--no-renames'',
        sc_Commit source @ ''..HEAD'', ''--'']) (\<lambda>postSourceDiff.
      then' (must' (receiptOnlyDiff postSourceDiff) ''post-source changes are not receipt-only'') (\<lambda>_.
      then' (must' (cd_Module candidate = modulePath' \<and> cd_Version candidate = candidateVersion)
        ''candidate identity'') (\<lambda>_.
      then' (must' (isHex (cd_ProxyZipSHA256 candidate) 64 \<and> isHex (cd_ProxyModSHA256 candidate) 64)
        ''candidate digests'') (\<lambda>_.
      then' (must' (prefix ''h1:'' (cd_ModuleSum candidate) \<and> prefix ''h1:'' (cd_GoModSum candidate))
        ''candidate sums'') (\<lambda>_.
      then' (must' (xc_ReplaceDirectives consumer = 0 \<and> \<not> xc_WorkspaceFile consumer \<and>
          xc_SelectedVersion consumer = candidateVersion \<and> xc_SelectedFromTaskOwnedModCache consumer)
        ''external consumer isolation'') (\<lambda>_.
      then' (must' (xc_GOPROXY consumer = ''task-owned-file-proxy,https://proxy.golang.org'' \<and>
          xc_GOSUMDB consumer = ''sum.golang.org'' \<and> xc_GONOSUMDB consumer = modulePath' \<and>
          xc_GOPRIVATE consumer = [] \<and> xc_GOWORK consumer = ''off'') ''module trust environment'') (\<lambda>_.
      then' (must' (prefix goIdentity (tl_ExecutionIdentity toolchain) \<and>
          length (tl_AcceptedExecutables toolchain) = 2) ''toolchain identity'') (\<lambda>_.
      then' (return' (toolchain_loop (tl_AcceptedExecutables toolchain) {})) (\<lambda>seenToolchains.
      then' (must' (tl_ExecutionIdentity toolchain \<in> seenToolchains)
        ''execution toolchain acceptance'') (\<lambda>_.
      then' (must' (or_HarnessPath oracle = evidence ''harness.go'' \<and>
          or_InputPath oracle = evidence ''input.json'' \<and>
          or_ReleasedOutputPath oracle = evidence ''output.json'') ''oracle paths'') (\<lambda>_.
      then' (must' (or_ReleasedOutputSHA256 oracle = expectedOutput \<and>
          or_ReplayOutputSHA256 oracle = expectedOutput \<and> or_ByteComparison oracle = ''identical'' \<and>
          or_Outcome oracle = ''passed'') ''oracle outcome'') (\<lambda>_.
      then' (must' (pg_RepositoryDigest postgres = postgresImage \<and> pg_Database postgres = ''oracle'' \<and>
          pg_User postgres = ''oracle'' \<and> pg_DSN postgres = ''task-owned-loopback-redacted'')
        ''PostgreSQL projection'') (\<lambda>_.
      must' (cl_TaskRootRemoved cleanup \<and> cl_ContainerRemoved cleanup \<and> \<not> cl_VolumeCreated cleanup)
        ''cleanup outcome''))))))))))))))))))))"

definition readReceipt :: "replay_env \<Rightarrow> string \<Rightarrow> receipt step" where
  "readReceipt E filePath =
     then' (readBounded E filePath) (\<lambda>data. decodeOr E dec_replay_receipt emptyReceipt data)"

end
