(* ===== verification/ReplayCleanup.thy ===== *)
theory ReplayCleanup
  imports ReplayMain
begin

text \<open>
  What a run of the replay leaves behind. A step is quiet when it leaves the cleanup target alone and
  adds no event but those that are allowed; all steps but the start of the container and its removal
  are quiet, whatever the system answers.
\<close>

named_theorems quiet

definition quiet :: "(event \<Rightarrow> bool) \<Rightarrow> 'a step \<Rightarrow> bool" where
  "quiet P m \<longleftrightarrow> (\<forall>t w r t' w'. m (t, w) = (r, t', w') \<longrightarrow> t' = t \<and> (\<exists>es. w' = w @ es \<and> list_all P es))"

lemma quietD:
  assumes "quiet P m" and "m (t, w) = (r, t', w')"
  obtains es where "t' = t" and "w' = w @ es" and "list_all P es"
  using assms unfolding quiet_def by blast

lemma quietI:
  assumes "\<And>t w r t' w'. m (t, w) = (r, t', w') \<Longrightarrow> t' = t \<and> (\<exists>es. w' = w @ es \<and> list_all P es)"
  shows "quiet P m"
  using assms by (simp add: quiet_def)

lemma then'_cases:
  assumes "then' m f s = (r, s')"
  obtains (stops) e where "m s = (Inl e, s')" and "r = Inl e"
    | (goes_on) x s1 where "m s = (Inr x, s1)" and "f x s1 = (r, s')"
  using assms by (auto simp: then'_def split: prod.splits sum.splits)

lemma quiet_then' [quiet]:
  assumes "quiet P m" and "\<And>x. quiet P (f x)"
  shows "quiet P (then' m f)"
proof (rule quietI)
  fix t w r t' w' assume run: "then' m f (t, w) = (r, t', w')"
  show "t' = t \<and> (\<exists>es. w' = w @ es \<and> list_all P es)"
    using run
  proof (cases rule: then'_cases)
    case stops
    with assms(1) show ?thesis by (auto elim: quietD)
  next
    case (goes_on x s1)
    obtain t1 w1 where s1: "s1 = (t1, w1)" by (cases s1)
    from assms(1) goes_on(1) obtain es where es: "t1 = t" "w1 = w @ es" "list_all P es"
      unfolding s1 by (rule quietD)
    from assms(2) goes_on(2) obtain fs where "t' = t1" "w' = w1 @ fs" "list_all P fs"
      unfolding s1 by (rule quietD)
    with es show ?thesis by (intro conjI exI [of _ "es @ fs"]) simp_all
  qed
qed

lemma quiet_return' [quiet]: "quiet P (return' x)"
  by (rule quietI) (simp add: return'_def)

lemma quiet_must' [quiet]: "quiet P (must' c l)"
  by (simp add: must'_def quiet_return')

lemma quiet_check [quiet]: "quiet P (check x)"
  by (simp add: check_def quiet_return')

lemma quiet_observe [quiet]: "quiet P (observe f)"
  by (rule quietI) (simp add: observe_def)

lemma quiet_perform [quiet]: "P event \<Longrightarrow> quiet P (perform E event)"
  by (rule quietI) (auto simp: perform_def intro!: exI [of _ "[event]"])

lemma quiet_perform_text [quiet]: "P event \<Longrightarrow> quiet P (perform_text E event)"
  by (rule quietI) (auto simp: perform_text_def intro!: exI [of _ "[event]"])

lemma runBytes_trace:
  "runBytes E directory environment command (t, w) = (r, t', w') \<Longrightarrow>
   t' = t \<and> w' = w @ [EvCommand directory environment command]"
  by (auto simp: runBytes_def Let_def split: prod.splits option.splits)

lemma quiet_runBytes [quiet]:
  "P (EvCommand directory environment command) \<Longrightarrow> quiet P (runBytes E directory environment command)"
  by (rule quietI) (auto dest!: runBytes_trace intro!: exI [of _ "[EvCommand directory environment command]"])

lemma quiet_run [quiet]:
  "P (EvCommand directory environment command) \<Longrightarrow> quiet P (run E directory environment command)"
  by (simp add: run_def quiet_runBytes)

lemma quiet_runs [quiet]:
  "P (EvCommand directory None command) \<Longrightarrow> quiet P (runs E directory command)"
  by (rule quietI) (auto simp: runs_def intro!: exI [of _ "[EvCommand directory None command]"])

lemma quiet_case_prod [quiet]: "(\<And>x y. quiet P (f x y)) \<Longrightarrow> quiet P (case p of (x, y) \<Rightarrow> f x y)"
  by (cases p) simp

lemma quiet_case_option [quiet]:
  "quiet P m \<Longrightarrow> (\<And>x. quiet P (f x)) \<Longrightarrow> quiet P (case p of None \<Rightarrow> m | Some x \<Rightarrow> f x)"
  by (cases p) simp_all

lemma quiet_if [quiet]: "quiet P m \<Longrightarrow> quiet P m' \<Longrightarrow> quiet P (if c then m else m')"
  by simp

lemma quiet_let [quiet]: "(\<And>x. quiet P (f x)) \<Longrightarrow> quiet P (let x = a in f x)"
  by (simp add: Let_def)

lemma quiet_removeTree [quiet]:
  assumes "P (EvChmodTree root)" and "P (EvRemoveAll root)"
  shows "quiet P (removeTree E root)"
  by (rule quietI)
    (auto simp: removeTree_def Let_def perform_def assms split: if_splits
      intro!: exI [of _ "[EvChmodTree root]"] exI [of _ "[EvChmodTree root, EvRemoveAll root]"])

section \<open>The operations of the replay\<close>

fun command_free :: "event \<Rightarrow> bool" where
  "command_free (EvCommand directory environment command) \<longleftrightarrow> False"
| "command_free _ \<longleftrightarrow> True"

lemma zip_loop_trace:
  "zip_loop (zipSink E path) prefix' modified entries w = (r, w') \<Longrightarrow>
   \<exists>es. w' = w @ es \<and> list_all command_free es"
proof (induction entries arbitrary: w)
  case Nil
  then show ?case
    by (auto simp: zipSink_def Let_def split: if_splits
        intro!: exI [of _ "[EvCloseZip]"] exI [of _ "[EvCloseZip, EvCloseFile]"])
next
  case (Cons entry entries)
  let ?header = "EvCreateHeader (zip_header_of prefix' modified entry)"
  let ?put = "EvZipWrite (ae_data entry)"
  consider "w' = w @ [?header, EvCloseZip, EvCloseFile]"
    | "w' = w @ [?header, ?put, EvCloseZip, EvCloseFile]"
    | "zip_loop (zipSink E path) prefix' modified entries (w @ [?header, ?put]) = (r, w')"
    using Cons.prems by (auto simp: zipSink_def Let_def split: if_splits)
  then show ?case
  proof cases
    case 3
    from Cons.IH [OF this] obtain es where "w' = (w @ [?header, ?put]) @ es" "list_all command_free es"
      by blast
    then show ?thesis by (intro exI [of _ "[?header, ?put] @ es"]) simp
  qed auto
qed

lemma quiet_writeModuleZip [quiet]:
  assumes "\<And>event. command_free event \<Longrightarrow> P event"
  shows "quiet P (writeModuleZip E path prefix' modified tarBytes)"
proof (rule quietI)
  fix t w r t' w' assume run: "writeModuleZip E path prefix' modified tarBytes (t, w) = (r, t', w')"
  obtain r1 where zip: "writeDeterministicModuleZip (re_tar E) (zipSink E path) prefix' modified tarBytes w
      = (r1, w')" and "t' = t"
    using run by (auto simp: writeModuleZip_def split: prod.splits sum.splits)
  have "\<exists>es. w' = w @ es \<and> list_all command_free es"
  proof (cases "w' = w \<or> w' = w @ [EvOpenFile path]")
    case True
    then show ?thesis by auto
  next
    case False
    then obtain entries where "zip_loop (zipSink E path) prefix' modified entries (w @ [EvOpenFile path]) = (r1, w')"
      using zip by (auto simp: writeDeterministicModuleZip_def zipSink_def Let_def split: if_splits sum.splits)
    from zip_loop_trace [OF this] obtain es where "w' = (w @ [EvOpenFile path]) @ es" "list_all command_free es"
      by blast
    then show ?thesis by (intro exI [of _ "EvOpenFile path # es"]) simp
  qed
  with \<open>t' = t\<close> show "t' = t \<and> (\<exists>es. w' = w @ es \<and> list_all P es)"
    using assms by (auto simp: list_all_iff)
qed

definition start_event :: "string \<Rightarrow> string \<Rightarrow> event" where
  "start_event root replayRoot = EvCommand root None (dockerRun replayRoot)"

abbreviation other :: "string \<Rightarrow> string \<Rightarrow> event \<Rightarrow> bool" where
  "other root replayRoot \<equiv> \<lambda>event. event \<noteq> start_event root replayRoot"

lemma other_events [simp]:
  "command_free event \<Longrightarrow> event \<noteq> start_event root replayRoot"
  by (auto simp: start_event_def)

text \<open>No other command is that of the start.\<close>

lemma other_command [simp]:
  "EvCommand directory (Some environment) command \<noteq> start_event root replayRoot"
  "command \<noteq> dockerRun replayRoot \<Longrightarrow> EvCommand directory environment' command \<noteq> start_event root replayRoot"
  by (simp_all add: start_event_def)

lemma other_dockerRun [simp]:
  "''git'' # arguments \<noteq> dockerRun replayRoot"
  "[binary, ''version''] \<noteq> dockerRun replayRoot"
  "''docker'' # ''rm'' # arguments \<noteq> dockerRun replayRoot"
  "''docker'' # ''inspect'' # arguments \<noteq> dockerRun replayRoot"
  "''docker'' # ''exec'' # arguments \<noteq> dockerRun replayRoot"
  "''docker'' # ''port'' # arguments \<noteq> dockerRun replayRoot"
  by (simp_all add: dockerRun_def)

lemma quiet_make_directories [quiet]: "quiet (other root replayRoot) (make_directories E directories)"
  by (induction directories) (auto intro!: quiet)

lemma quiet_ready_loop [quiet]: "quiet (other root replayRoot) (ready_loop E containerID attempts)"
  by (induction attempts) (auto intro!: quiet)

lemma quiet_readBounded [quiet]: "quiet P (readBounded E filePath)"
  unfolding readBounded_def by (intro quiet)

lemma quiet_files [quiet]:
  "quiet P (digestFile' E filePath)" "quiet P (digestRegularFile E filePath)" "quiet P (exists' E filePath)"
  "quiet (other root replayRoot) (writeFile E filePath data)"
  "quiet (other root replayRoot) (writeSecretFile E filePath data)"
  "quiet P (decodeOr E target zero data)"
  unfolding digestFile'_def digestRegularFile_def exists'_def writeFile_def writeSecretFile_def decodeOr_def
  by (intro quiet; simp)+

lemma quiet_gitFile [quiet]: "quiet (other root replayRoot) (gitFile E directory revision name)"
  unfolding gitFile_def by (intro quiet) simp

lemma quiet_parsedReplaceCount [quiet]:
  "quiet (other root replayRoot) (parsedReplaceCount E directory (Some environment) goBinary)"
  unfolding parsedReplaceCount_def by (intro quiet) simp

lemma quiet_prepare: "quiet (other root replayRoot) (prepare E root packet replayRoot)"
  unfolding prepare_def prepareProxy_def prepareConsumer_def findToolchain_def resolveCandidate_def Let_def
  by (intro quiet; simp)

lemma quiet_awaitDatabase: "quiet (other root replayRoot) (awaitDatabase E root containerID)"
  unfolding awaitDatabase_def by (intro quiet; simp)

lemma quiet_compareOutputs:
  "quiet (other root replayRoot) (compareOutputs E packet replayRoot hostPort releasedOutput goBinary)"
  unfolding compareOutputs_def Let_def by (intro quiet; simp)

section \<open>The container and the deferred cleanup\<close>

definition removed :: "event list \<Rightarrow> string \<Rightarrow> bool" where
  "removed es container \<longleftrightarrow>
     (\<exists>directory. EvCommand directory None [''docker'', ''rm'', ''-fv'', container] \<in> set es)"

lemma removed_append [simp]: "removed (es @ fs) container \<longleftrightarrow> removed es container \<or> removed fs container"
  by (auto simp: removed_def)

lemma startContainer_trace:
  assumes "startContainer E root replayRoot (t, w) = (r, t', w')"
  shows "w' = w @ [start_event root replayRoot]"
    and "case fst (runBytes E root None (dockerRun replayRoot) ([], w)) of
        Inl e \<Rightarrow> r = Inl e \<and> t' = containerName replayRoot
      | Inr out \<Rightarrow> r = Inr (TrimSpace out) \<and> t' = TrimSpace out"
proof -
  obtain r1 t1 w1 where docker: "runBytes E root None (dockerRun replayRoot) ([], w) = (r1, t1, w1)"
    by (metis prod_cases3)
  have "w1 = w @ [start_event root replayRoot]"
    using runBytes_trace [OF docker] by (simp add: start_event_def)
  with assms docker show "w' = w @ [start_event root replayRoot]"
    "case fst (runBytes E root None (dockerRun replayRoot) ([], w)) of
        Inl e \<Rightarrow> r = Inl e \<and> t' = containerName replayRoot
      | Inr out \<Rightarrow> r = Inr (TrimSpace out) \<and> t' = TrimSpace out"
    by (auto simp: startContainer_def startOwnedContainer_def run_def Let_def split: sum.splits)
qed

lemma finish_trace:
  assumes "finish E root replayRoot containerID (t, w) = (r, t', w')"
  shows "\<exists>es. w' = w @ es \<and> list_all (other root replayRoot) es \<and> removed es containerID"
proof -
  let ?rm = "EvCommand root None [''docker'', ''rm'', ''-fv'', containerID]"
  let ?rest = "then' (runs E [] [''docker'', ''inspect'', containerID]) (\<lambda>found.
     then' (must' (\<not> found) ''container cleanup'') (\<lambda>_.
     then' (removeTree E replayRoot) (\<lambda>removed.
     then' (return' (if removed then Inr () else Inl Failed)) (\<lambda>_.
     then' (exists' E replayRoot) (\<lambda>left. must' (\<not> left) ''task root cleanup'')))))"
  have rest: "quiet (other root replayRoot) ?rest" by (intro quiet; simp)
  have rm: "removed (?rm # es) containerID" for es by (auto simp: removed_def)
  from assms show ?thesis
    unfolding finish_def
  proof (cases rule: then'_cases)
    case stops
    then have "w' = w @ [?rm]" by (auto simp: run_def dest: runBytes_trace)
    with rm [of "[]"] show ?thesis by (intro exI [of _ "[?rm]"]) simp
  next
    case (goes_on x s1)
    then have s1: "s1 = (t, w @ [?rm])" by (cases s1) (auto simp: run_def dest: runBytes_trace)
    with goes_on(2) have "?rest ([], w @ [?rm]) = (r, t', w')"
      by (simp add: then'_def clearTarget_def)
    with rest obtain es where "w' = (w @ [?rm]) @ es" "list_all (other root replayRoot) es"
      by (rule quietD)
    with rm show ?thesis by (intro exI [of _ "?rm # es"]) simp
  qed
qed

text \<open>Once the container has started, its removal has been run or is left to the deferred function.\<close>

definition after_start ::
  "replay_env \<Rightarrow> string \<Rightarrow> receipt \<Rightarrow> string \<Rightarrow> string \<times> string \<Rightarrow> string \<Rightarrow> unit step" where
  "after_start E root packet replayRoot prepared containerID =
     then' (awaitDatabase E root containerID) (\<lambda>hostPort.
     then' (compareOutputs E packet replayRoot hostPort (fst prepared) (snd prepared)) (\<lambda>_.
     finish E root replayRoot containerID))"

lemma after_start_trace:
  assumes "after_start E root packet replayRoot prepared containerID (t, w) = (r, t', w')"
  shows "\<exists>es. w' = w @ es \<and> list_all (other root replayRoot) es \<and> (t' = t \<or> removed es containerID)"
proof -
  have "quiet (other root replayRoot) (then' (awaitDatabase E root containerID) (\<lambda>hostPort.
      compareOutputs E packet replayRoot hostPort (fst prepared) (snd prepared)))" (is "quiet _ ?first")
    by (intro quiet_then' quiet_awaitDatabase quiet_compareOutputs)
  moreover have "then' ?first (\<lambda>_. finish E root replayRoot containerID) (t, w) = (r, t', w')"
    using assms by (auto simp: after_start_def then'_def split: prod.splits sum.splits)
  then show ?thesis
  proof (cases rule: then'_cases)
    case stops
    with calculation show ?thesis by (auto elim: quietD)
  next
    case (goes_on x s1)
    obtain t1 w1 where s1: "s1 = (t1, w1)" by (cases s1)
    from calculation goes_on(1) obtain es where es: "t1 = t" "w1 = w @ es"
      "list_all (other root replayRoot) es"
      unfolding s1 by (rule quietD)
    from finish_trace [OF goes_on(2) [unfolded s1]] obtain fs where "w' = w1 @ fs"
      "list_all (other root replayRoot) fs" "removed fs containerID" by blast
    with es show ?thesis by (intro exI [of _ "es @ fs"]) simp
  qed
qed

text \<open>What the body leaves: no container was started, or it was, once.\<close>

lemma replay_body_trace:
  assumes "replay_body E root packet replayRoot ([], w) = (r, t', w')"
  shows "(\<exists>es. w' = w @ es \<and> list_all (other root replayRoot) es \<and> t' = []) \<or>
    (\<exists>pre post. w' = w @ pre @ start_event root replayRoot # post \<and>
       list_all (other root replayRoot) pre \<and> list_all (other root replayRoot) post \<and>
       (case fst (runBytes E root None (dockerRun replayRoot) ([], w @ pre)) of
          Inl _ \<Rightarrow> t' = containerName replayRoot
        | Inr out \<Rightarrow> t' = TrimSpace out \<or> removed post (TrimSpace out)))"
  using assms unfolding replay_body_def
proof (cases rule: then'_cases)
  case stops
  from quiet_prepare stops(1) obtain es where "t' = []" "w' = w @ es" "list_all (other root replayRoot) es"
    by (rule quietD)
  then show ?thesis by blast
next
  case (goes_on prepared s1)
  obtain t1 w1 where s1: "s1 = (t1, w1)" by (cases s1)
  from quiet_prepare goes_on(1) obtain pre where pre: "t1 = []" "w1 = w @ pre"
    "list_all (other root replayRoot) pre"
    unfolding s1 by (rule quietD)
  have "then' (startContainer E root replayRoot) (after_start E root packet replayRoot prepared)
      ([], w @ pre) = (r, t', w')"
    using goes_on(2) unfolding after_start_def by (cases prepared) (simp add: s1 pre)
  then show ?thesis
  proof (cases rule: then'_cases)
    case stops
    from startContainer_trace [OF stops(1)] stops(2) pre(3) show ?thesis
      by (intro disjI2 exI [of _ pre] exI [of _ "[]"]) (auto split: sum.splits)
  next
    case (goes_on containerID s2)
    obtain t2 w2 where s2: "s2 = (t2, w2)" by (cases s2)
    note start = startContainer_trace [OF goes_on(1) [unfolded s2]]
    from after_start_trace [OF goes_on(2) [unfolded s2]] obtain post where post: "w' = w2 @ post"
      "list_all (other root replayRoot) post" "t' = t2 \<or> removed post containerID" by blast
    with start pre(3) show ?thesis
      by (intro disjI2 exI [of _ pre] exI [of _ post]) (auto split: sum.splits)
  qed
qed

lemma removeTree_trace:
  "removeTree E root (t, w) = (r, t', w') \<Longrightarrow>
   \<exists>tail. w' = w @ tail \<and> tail \<in> {[EvChmodTree root], [EvChmodTree root, EvRemoveAll root]}"
  by (auto simp: removeTree_def perform_def Let_def split: if_splits)

lemma containerName_nonempty: "containerName replayRoot \<noteq> []"
  by (simp add: containerName_def)


text \<open>A system in which every command and every operation fails, but the temporary directory is there.\<close>

definition idleSystem :: replay_env where
  "idleSystem =
     \<lparr>re_command = (\<lambda>_ _ _ _. (False, [], [])), re_ok = (\<lambda>_ _. False), re_text = (\<lambda>_ _. Some ''/tmp/r''),
      re_lstat = (\<lambda>_ _. None), re_content = (\<lambda>_ _. None), re_entries = (\<lambda>_ _. None),
      re_walk = (\<lambda>_ _. False), re_sha = (\<lambda>_. []), re_num = (\<lambda>_. None), re_time = (\<lambda>_. None),
      re_instants = \<lparr>in_format = (\<lambda>_. None), in_parse = (\<lambda>_. None)\<rparr>, re_tar = (\<lambda>_. []), re_environ = [],
      re_goos = ''linux''\<rparr>"

definition idleTrace :: trace where
  "idleTrace = snd (snd (replay idleSystem ''/repository'' emptyReceipt ([], [])))"


end
